(* ===== verification/OC_Prelude.thy ===== *)
theory OC_Prelude
  imports
    Complex_Main
    "HOL-Library.Multiset"
    "HOL-Library.Sublist"
    "HOL-Library.Char_ord"
    "HOL-Library.List_Lexorder"
    "HOL-Library.Product_Lexorder"
begin

text \<open>
  Shared vocabulary of the development: what Python's slices, SQL's \<open>LIMIT\<close> and
  \<open>OFFSET\<close>, \<open>dict.fromkeys\<close> and a stable descending sort compute, the
  state-and-exception result type of the store's methods, and the generic list lemmas that
  carry the component proofs. A Python \<open>str\<close> is a \<^typ>\<open>string\<close>, one \<^typ>\<open>char\<close>
  per code point, so \<open>len\<close> is \<^const>\<open>length\<close>; text is modelled over the code
  points 0 to 255.
\<close>

named_theorems page_simps "slices, limits and offsets on non-negative bounds"
named_theorems oc_frame "what an operation leaves unchanged"

section \<open>Results\<close>

text \<open>
  A method that may raise returns \<open>(Inl e, s')\<close> or \<open>(Inr v, s')\<close>: an exception of
  Python does not undo what was written before it, so both cases carry the state.
\<close>

type_synonym ('e, 'a, 's) outcome = "('e + 'a) \<times> 's"

definition is_ok :: "('e, 'a, 's) outcome \<Rightarrow> bool" where
  "is_ok r = (case fst r of Inl _ \<Rightarrow> False | Inr _ \<Rightarrow> True)"

lemma is_ok_simps [simp]:
  "is_ok (Inl e, s) = False"
  "is_ok (Inr v, s) = True"
  by (simp_all add: is_ok_def)

lemma is_okE: "is_ok p \<Longrightarrow> (\<And>v s. p = (Inr v, s) \<Longrightarrow> thesis) \<Longrightarrow> thesis"
  by (cases p; cases "fst p") auto

section \<open>Python slices and SQL limits\<close>

definition slice_bound :: "nat \<Rightarrow> int \<Rightarrow> nat" where
  "slice_bound n i = (if i < 0 then nat (max 0 (int n + i)) else nat (min (int n) i))"

definition py_slice :: "'a list \<Rightarrow> int \<Rightarrow> int \<Rightarrow> 'a list" where
  "py_slice xs i j =
     (let a = slice_bound (length xs) i; b = slice_bound (length xs) j
      in take (b - a) (drop a xs))"

definition py_prefix :: "'a list \<Rightarrow> int \<Rightarrow> 'a list" where
  "py_prefix xs j = py_slice xs 0 j"

definition sql_limit :: "int \<Rightarrow> 'a list \<Rightarrow> 'a list" where
  "sql_limit n xs = (if n < 0 then xs else take (nat n) xs)"

definition sql_offset :: "int \<Rightarrow> 'a list \<Rightarrow> 'a list" where
  "sql_offset n xs = drop (nat n) xs"

lemma py_slice_nonneg [page_simps]:
  assumes "0 \<le> i" "0 \<le> k"
  shows "py_slice xs i (i + k) = take (nat k) (drop (nat i) xs)"
proof -
  have "drop (nat i) xs = [] \<or> nat i \<le> length xs" by auto
  then show ?thesis
  proof
    assume "drop (nat i) xs = []"
    then show ?thesis using assms by (simp add: py_slice_def slice_bound_def min_def Let_def)
  next
    assume le: "nat i \<le> length xs"
    then have a: "slice_bound (length xs) i = nat i"
      using assms by (auto simp: slice_bound_def min_def)
    have b: "slice_bound (length xs) (i + k) = min (length xs) (nat i + nat k)"
      using assms by (auto simp: slice_bound_def min_def nat_add_distrib)
    show ?thesis
      by (simp add: py_slice_def a b Let_def min_def)
  qed
qed

lemma py_prefix_nonneg [page_simps]: "0 \<le> k \<Longrightarrow> py_prefix xs k = take (nat k) xs"
  using py_slice_nonneg [of 0 k xs] by (simp add: py_prefix_def)

lemma sql_limit_nonneg [page_simps]: "0 \<le> n \<Longrightarrow> sql_limit n xs = take (nat n) xs"
  by (simp add: sql_limit_def)

lemma set_py_slice: "set (py_slice xs i j) \<subseteq> set xs"
  by (auto simp: py_slice_def Let_def dest!: in_set_takeD in_set_dropD)

lemma set_py_prefix: "set (py_prefix xs j) \<subseteq> set xs"
  by (simp add: py_prefix_def set_py_slice)

lemma set_sql_limit: "set (sql_limit n xs) \<subseteq> set xs"
  by (auto simp: sql_limit_def dest: in_set_takeD)

lemma length_py_slice_le: "0 \<le> i \<Longrightarrow> 0 \<le> k \<Longrightarrow> length (py_slice xs i (i + k)) \<le> nat k"
  by (simp add: py_slice_nonneg)

lemma distinct_py_slice: "distinct (map f xs) \<Longrightarrow> distinct (map f (py_slice xs i j))"
  by (simp add: py_slice_def Let_def take_map [symmetric] drop_map [symmetric] distinct_take distinct_drop)

section \<open>Order-preserving deduplication\<close>

fun fromkeys_from :: "'a set \<Rightarrow> 'a list \<Rightarrow> 'a list" where
  "fromkeys_from seen [] = []"
| "fromkeys_from seen (x # xs) =
     (if x \<in> seen then fromkeys_from seen xs else x # fromkeys_from (insert x seen) xs)"

definition dict_fromkeys :: "'a list \<Rightarrow> 'a list" where
  "dict_fromkeys xs = fromkeys_from {} xs"

lemma set_fromkeys_from: "set (fromkeys_from seen xs) = set xs - seen"
  by (induction xs arbitrary: seen) auto

lemma distinct_fromkeys_from: "distinct (fromkeys_from seen xs)"
  by (induction xs arbitrary: seen) (auto simp: set_fromkeys_from)

lemma set_dict_fromkeys [simp]: "set (dict_fromkeys xs) = set xs"
  by (simp add: dict_fromkeys_def set_fromkeys_from)

lemma distinct_dict_fromkeys [simp]: "distinct (dict_fromkeys xs)"
  by (simp add: dict_fromkeys_def distinct_fromkeys_from)

lemma fromkeys_from_distinct: "distinct xs \<Longrightarrow> set xs \<inter> seen = {} \<Longrightarrow> fromkeys_from seen xs = xs"
  by (induction xs arbitrary: seen) auto

lemma dict_fromkeys_distinct [simp]: "distinct xs \<Longrightarrow> dict_fromkeys xs = xs"
  by (simp add: dict_fromkeys_def fromkeys_from_distinct)

section \<open>Stable sorts\<close>

text \<open>
  \<open>list.sort(key=k, reverse=True)\<close> keeps the original order of elements with equal
  keys, so it is not the reverse of the ascending sort.
\<close>

definition sort_desc :: "('a \<Rightarrow> 'k::linorder) \<Rightarrow> 'a list \<Rightarrow> 'a list" where
  "sort_desc k xs = rev (sort_key k (rev xs))"

lemma mset_sort_desc [simp]: "mset (sort_desc k xs) = mset xs"
  by (simp add: sort_desc_def)

lemma set_sort_desc [simp]: "set (sort_desc k xs) = set xs"
  by (metis mset_sort_desc set_mset_mset)

lemma length_sort_desc [simp]: "length (sort_desc k xs) = length xs"
  by (simp add: sort_desc_def)

lemma distinct_sort_desc [simp]: "distinct (map f (sort_desc k xs)) = distinct (map f xs)"
proof -
  have "mset (map f (sort_desc k xs)) = mset (map f xs)" by simp
  then show ?thesis by (rule mset_eq_imp_distinct_iff)
qed

lemma distinct_map_sort_key [simp]: "distinct (map f (sort_key k xs)) = distinct (map f xs)"
proof -
  have "mset (map f (sort_key k xs)) = mset (map f xs)" by simp
  then show ?thesis by (rule mset_eq_imp_distinct_iff)
qed

lemma sort_desc_sorted: "sorted_wrt (\<lambda>x y. k y \<le> k x) (sort_desc k xs)"
proof -
  have "sorted_wrt (\<lambda>x y. k x \<le> k y) (sort_key k (rev xs))"
    using sorted_sort_key [of k "rev xs"] by (simp add: sorted_map)
  then show ?thesis by (simp add: sort_desc_def sorted_wrt_rev)
qed

lemma sort_desc_unique:
  assumes "mset xs = mset ys" "distinct (map k xs)"
  shows "sort_desc k xs = sort_desc k ys"
proof -
  have "inj_on k (set (rev xs))" using assms(2) by (simp add: distinct_map)
  then have "sort_key k (rev xs) = sort_key k (rev ys)"
    using assms(1) by (intro sort_key_inj_key_eq) auto
  then show ?thesis by (simp add: sort_desc_def)
qed

section \<open>Windows over a filtered list\<close>

text \<open>
  Fetching as many extra rows as there are excluded keys is enough: dropping the excluded
  rows from the longer window leaves the same first \<open>n\<close> rows as dropping them from
  the whole list.
\<close>

lemma length_filter_in_le_card:
  assumes "distinct (map f xs)" "finite E"
  shows "length (filter (\<lambda>x. f x \<in> E) xs) \<le> card E"
proof -
  let ?ys = "filter (\<lambda>x. f x \<in> E) xs"
  have "distinct (map f ?ys)" using assms(1) by (rule distinct_map_filter)
  then have "length ?ys = card (set (map f ?ys))" by (metis distinct_card length_map)
  also have "\<dots> \<le> card E" using assms(2) by (intro card_mono) auto
  finally show ?thesis .
qed

lemma take_filter_overfetch:
  assumes dist: "distinct (map f xs)" and fin: "finite E" and le: "n + card E \<le> m"
  shows "take n (filter (\<lambda>x. f x \<notin> E) (take m xs)) = take n (filter (\<lambda>x. f x \<notin> E) xs)"
proof (cases "length xs \<le> m")
  case False
  let ?w = "take m xs"
  have "distinct (map f ?w)" using dist by (simp add: take_map [symmetric] distinct_take)
  then have "length (filter (\<lambda>x. f x \<in> E) ?w) \<le> card E"
    using fin by (rule length_filter_in_le_card)
  moreover have "length (filter (\<lambda>x. f x \<in> E) ?w) + length (filter (\<lambda>x. f x \<notin> E) ?w) = m"
    using sum_length_filter_compl [of "\<lambda>x. f x \<in> E" ?w] False by simp
  ultimately have "n \<le> length (filter (\<lambda>x. f x \<notin> E) ?w)" using le by linarith
  moreover have "filter (\<lambda>x. f x \<notin> E) xs =
      filter (\<lambda>x. f x \<notin> E) ?w @ filter (\<lambda>x. f x \<notin> E) (drop m xs)"
    by (metis append_take_drop_id filter_append)
  ultimately show ?thesis by simp
qed simp

lemma take_drop_within: "n + k \<le> m \<Longrightarrow> take k (drop n (take m xs)) = take k (drop n xs)"
  by (simp add: drop_take min_def)

lemma take_drop_take_eq:
  "take m xs = take m ys \<Longrightarrow> n + k \<le> m \<Longrightarrow> take k (drop n xs) = take k (drop n ys)"
  by (metis take_drop_within)

lemma take_drop_pages: "take a (drop n xs) @ take b (drop (n + a) xs) = take (a + b) (drop n xs)"
  by (simp add: take_add add.commute)

section \<open>Keyed lists\<close>

text \<open>A table is a list of rows with pairwise distinct keys.\<close>

lemma distinct_map_filterI [intro]: "distinct (map f xs) \<Longrightarrow> distinct (map f (filter P xs))"
  by (rule distinct_map_filter)

lemma disjoint_map_filter: "set (map f xs) \<inter> set (map f (filter (\<lambda>x. f x \<notin> f ` set xs) ys)) = {}"
proof -
  have "set (map f (filter (\<lambda>x. f x \<notin> f ` set xs) ys)) \<subseteq> - (f ` set xs)" by auto
  then show ?thesis by auto
qed

lemma find_Some_mem: "List.find P xs = Some x \<Longrightarrow> x \<in> set xs \<and> P x"
  by (induction xs) (auto split: if_splits)

lemma find_key_iff:
  "distinct (map f xs) \<Longrightarrow> List.find (\<lambda>x. f x = k) xs = Some x \<longleftrightarrow> x \<in> set xs \<and> f x = k"
  by (induction xs) (auto simp: image_iff)

lemma find_None_key_iff: "List.find (\<lambda>x. f x = k) xs = None \<longleftrightarrow> k \<notin> f ` set xs"
  by (induction xs) auto

lemma find_filter_other:
  "(\<And>x. x \<in> set xs \<Longrightarrow> P x \<Longrightarrow> Q x) \<Longrightarrow> List.find P (filter Q xs) = List.find P xs"
  by (induction xs) auto

lemma find_map_same_key:
  assumes "\<And>x. f (g x) = f x"
  shows "List.find (\<lambda>x. f x = k) (map g xs) = map_option g (List.find (\<lambda>x. f x = k) xs)"
  using assms by (induction xs) auto

lemma find_append: "List.find P (xs @ ys) = (case List.find P xs of None \<Rightarrow> List.find P ys | Some x \<Rightarrow> Some x)"
  by (induction xs) auto

lemma map_upd_key [simp]: "(\<And>x. f (g x) = f x) \<Longrightarrow> map f (map (\<lambda>x. if P x then g x else x) xs) = map f xs"
  by simp

lemma filter_key_find:
  "distinct (map f xs) \<Longrightarrow>
     filter (\<lambda>x. f x = k) xs = (case List.find (\<lambda>x. f x = k) xs of None \<Rightarrow> [] | Some x \<Rightarrow> [x])"
proof (induction xs)
  case (Cons x xs)
  show ?case
  proof (cases "f x = k")
    case True
    then have "filter (\<lambda>x. f x = k) xs = []" using Cons.prems by (auto simp: filter_empty_conv image_iff)
    then show ?thesis using True by simp
  qed (use Cons in simp)
qed simp

lemma length_filter_card:
  assumes "distinct (map f xs)"
  shows "length (filter P xs) = card (f ` {x \<in> set xs. P x})"
proof -
  have "length (filter P xs) = card (set (map f (filter P xs)))"
    using distinct_card [OF distinct_map_filter [OF assms, of P]] by simp
  then show ?thesis by simp
qed

lemma length_filter_split: "length (filter P xs) + length (filter (\<lambda>x. \<not> P x) xs) = length xs"
  by (rule sum_length_filter_compl)

lemma length_filter_concat_option:
  "length (filter P (concat (map (\<lambda>x. case g x of None \<Rightarrow> [] | Some y \<Rightarrow> [(x, y)]) xs))) =
     length (filter (\<lambda>x. case g x of None \<Rightarrow> False | Some y \<Rightarrow> P (x, y)) xs)"
  by (induction xs) (auto split: option.split)

lemma takeWhile_append_stop:
  "\<forall>x \<in> set xs. P x \<Longrightarrow> ys = [] \<or> \<not> P (hd ys) \<Longrightarrow> takeWhile P (xs @ ys) = xs \<and> dropWhile P (xs @ ys) = ys"
  by (cases ys) auto

lemma filter_stronger: "filter Q xs = filter Q ys \<Longrightarrow> (\<And>x. P x \<Longrightarrow> Q x) \<Longrightarrow> filter P xs = filter P ys"
proof -
  assume eq: "filter Q xs = filter Q ys" and imp: "\<And>x. P x \<Longrightarrow> Q x"
  have "filter P zs = filter P (filter Q zs)" for zs using imp by (auto intro: filter_cong)
  then show ?thesis using eq by metis
qed

end
