(* ===== verification/OC_Contracts.thy ===== *)
theory OC_Contracts
  imports OC_Prelude
begin

text \<open>
  The contracts between the layers. \<open>state_refinement\<close> is what a stateful component
  promises against an abstract specification: every operation that returns is the abstract
  step, one that raises changes nothing, and it raises only when the specification refuses
  the operation or for a transient reason. \<open>paged_stream\<close> is what a paged query promises:
  a page is a window of one stream without repetitions. \<open>bounded_progress\<close> is what a
  component of tasks promises: they never block each other for good, and they come to an
  end. The components interpret them on their own definitions.
\<close>

section \<open>Runs of operations\<close>

fun run_ops :: "('o \<Rightarrow> 's \<Rightarrow> ('e, 'r, 's) outcome) \<Rightarrow> 'o list \<Rightarrow> 's \<Rightarrow> ('e + 'r) list \<times> 's" where
  "run_ops exec [] s = ([], s)"
| "run_ops exec (p # ps) s =
     (case exec p s of (r, s1) \<Rightarrow> (case run_ops exec ps s1 of (rs, s2) \<Rightarrow> (r # rs, s2)))"

fun returned :: "'e + 'r \<Rightarrow> bool" where
  "returned (Inl _) = False"
| "returned (Inr _) = True"

text \<open>The abstract run: the operations that returned take their step, the others do not.\<close>

fun spec_run :: "('o \<Rightarrow> 'a \<Rightarrow> 'a option) \<Rightarrow> ('o \<times> bool) list \<Rightarrow> 'a \<Rightarrow> 'a option" where
  "spec_run spec [] a = Some a"
| "spec_run spec ((p, done) # ps) a =
     (if done then (case spec p a of None \<Rightarrow> None | Some a' \<Rightarrow> spec_run spec ps a')
      else spec_run spec ps a)"

lemma length_run_ops: "run_ops exec ps s = (rs, s') \<Longrightarrow> length rs = length ps"
  by (induction ps arbitrary: s rs) (auto split: prod.splits)

lemma run_ops_append:
  "run_ops exec (ps @ qs) s =
     (case run_ops exec ps s of (rs, s1) \<Rightarrow> (case run_ops exec qs s1 of (rs', s2) \<Rightarrow> (rs @ rs', s2)))"
  by (induction ps arbitrary: s) (auto split: prod.split)

section \<open>Refinement of an abstract specification\<close>

locale state_refinement =
  fixes inv :: "'s \<Rightarrow> bool"
    and allowed :: "'o \<Rightarrow> bool"
    and abstract :: "'s \<Rightarrow> 'a"
    and exec :: "'o \<Rightarrow> 's \<Rightarrow> ('e, 'r, 's) outcome"
    and spec :: "'o \<Rightarrow> 'a \<Rightarrow> 'a option"
    and transient :: "'e \<Rightarrow> bool"
  assumes keeps: "inv s \<Longrightarrow> allowed p \<Longrightarrow> exec p s = (r, s') \<Longrightarrow> inv s'"
    and returns: "inv s \<Longrightarrow> allowed p \<Longrightarrow> exec p s = (Inr v, s') \<Longrightarrow> spec p (abstract s) = Some (abstract s')"
    and raises: "inv s \<Longrightarrow> allowed p \<Longrightarrow> exec p s = (Inl e, s') \<Longrightarrow>
      abstract s' = abstract s \<and> (spec p (abstract s) = None \<or> transient e)"
begin

lemma run_inv: "inv s \<Longrightarrow> list_all allowed ps \<Longrightarrow> run_ops exec ps s = (rs, s') \<Longrightarrow> inv s'"
  by (induction ps arbitrary: s rs) (auto split: prod.splits dest: keeps)

lemma run_refines:
  "inv s \<Longrightarrow> list_all allowed ps \<Longrightarrow> run_ops exec ps s = (rs, s') \<Longrightarrow>
     spec_run spec (zip ps (map returned rs)) (abstract s) = Some (abstract s')"
proof (induction ps arbitrary: s rs)
  case (Cons p ps)
  obtain r s1 where p: "exec p s = (r, s1)" by fastforce
  obtain rs1 where rs: "run_ops exec ps s1 = (rs1, s')" "rs = r # rs1"
    using Cons.prems(3) p by (auto split: prod.splits)
  have ok: "allowed p" "list_all allowed ps" using Cons.prems(2) by auto
  note IH = Cons.IH [OF keeps [OF Cons.prems(1) ok(1) p] ok(2) rs(1)]
  show ?case
  proof (cases r)
    case (Inl e)
    then show ?thesis using IH rs(2) raises [OF Cons.prems(1) ok(1)] p by simp
  next
    case (Inr v)
    then show ?thesis using IH rs(2) returns [OF Cons.prems(1) ok(1)] p by simp
  qed
qed simp

text \<open>Apart from transient errors, the abstract state alone decides whether a call returns.\<close>

lemma returned_iff:
  assumes "inv s" "allowed p" "exec p s = (r, s')" "\<And>e. r = Inl e \<Longrightarrow> \<not> transient e"
  shows "returned r \<longleftrightarrow> spec p (abstract s) \<noteq> None"
proof (cases r)
  case (Inl e)
  then show ?thesis using raises [of s p e s'] assms by auto
next
  case (Inr v)
  then show ?thesis using returns [of s p v s'] assms by auto
qed

lemma same_abstract:
  assumes "inv s" "inv t" "allowed p" "abstract s = abstract t"
    "exec p s = (r, s')" "exec p t = (q, t')"
    "\<And>e. r = Inl e \<Longrightarrow> \<not> transient e" "\<And>e. q = Inl e \<Longrightarrow> \<not> transient e"
  shows "returned r = returned q \<and> abstract s' = abstract t'"
proof -
  have same: "returned r = returned q"
    using returned_iff [OF assms(1,3,5,7)] returned_iff [OF assms(2,3,6,8)] assms(4) by simp
  show ?thesis
  proof (cases r)
    case (Inl e)
    then obtain e' where "q = Inl e'" using same by (cases q) auto
    then show ?thesis using Inl same raises assms by metis
  next
    case (Inr v)
    then obtain v' where "q = Inr v'" using same by (cases q) auto
    then have "Some (abstract s') = Some (abstract t')"
      using Inr returns assms by metis
    then show ?thesis using same by simp
  qed
qed

end

section \<open>Runs that come to an end\<close>

text \<open>
  A component whose steps use up a finite supply, and which can always take one until it is
  finished: every run has a bound, and a run that cannot go on is finished.
\<close>

locale bounded_progress =
  fixes inv :: "'s \<Rightarrow> bool"
    and step :: "'s \<Rightarrow> 's \<Rightarrow> bool"
    and weight :: "'s \<Rightarrow> nat"
    and finished :: "'s \<Rightarrow> bool"
  assumes keeps_inv: "inv s \<Longrightarrow> step s s' \<Longrightarrow> inv s'"
    and decreases: "inv s \<Longrightarrow> step s s' \<Longrightarrow> weight s' < weight s"
    and progress: "inv s \<Longrightarrow> \<not> finished s \<Longrightarrow> \<exists>s'. step s s'"
begin

lemma runs_inv: "step\<^sup>*\<^sup>* s s' \<Longrightarrow> inv s \<Longrightarrow> inv s'"
  by (induction rule: rtranclp_induct) (auto intro: keeps_inv)

lemma run_bound: "inv s \<Longrightarrow> (step ^^ n) s s' \<Longrightarrow> n + weight s' \<le> weight s"
proof (induction n arbitrary: s')
  case (Suc n)
  then obtain u where u: "(step ^^ n) s u" "step u s'" by auto
  then have "inv u" using runs_inv Suc.prems(1) relpowp_imp_rtranclp by metis
  then show ?case using Suc.IH [OF Suc.prems(1) u(1)] decreases u(2) by fastforce
qed simp

lemma stuck_finished: "inv s \<Longrightarrow> step\<^sup>*\<^sup>* s s' \<Longrightarrow> \<forall>u. \<not> step s' u \<Longrightarrow> finished s'"
  using runs_inv progress by blast

lemma reaches_finished: "inv s \<Longrightarrow> \<exists>s'. step\<^sup>*\<^sup>* s s' \<and> finished s'"
proof (induction "weight s" arbitrary: s rule: less_induct)
  case less
  show ?case
  proof (cases "finished s")
    case False
    then obtain u where "step s u" using progress less.prems by blast
    then show ?thesis using less keeps_inv decreases by (meson converse_rtranclp_into_rtranclp)
  qed auto
qed

end

section \<open>Paged queries\<close>

text \<open>A client that asks for the first \<open>k\<close> pages of \<open>n\<close> rows, one after the other.\<close>

primrec walk_pages :: "(nat \<Rightarrow> nat \<Rightarrow> 'r list) \<Rightarrow> nat \<Rightarrow> nat \<Rightarrow> 'r list" where
  "walk_pages pg n 0 = []"
| "walk_pages pg n (Suc k) = walk_pages pg n k @ pg (k * n) n"

locale paged_stream =
  fixes ok :: "'s \<Rightarrow> bool"
    and page :: "'q \<Rightarrow> nat \<Rightarrow> nat \<Rightarrow> 's \<Rightarrow> 'r list"
    and stream :: "'q \<Rightarrow> 's \<Rightarrow> 'r list"
    and key :: "'r \<Rightarrow> 'k"
  assumes window: "ok s \<Longrightarrow> page q off n s = take n (drop off (stream q s))"
    and no_repeat: "ok s \<Longrightarrow> distinct (map key (stream q s))"
begin

lemma page_bound: "ok s \<Longrightarrow> length (page q off n s) \<le> n"
  by (simp add: window)

lemma pages_tile: "ok s \<Longrightarrow> page q off n s @ page q (off + n) m s = page q off (n + m) s"
  by (simp add: window take_drop_pages)

lemma page_distinct: "ok s \<Longrightarrow> distinct (map key (page q off n s))"
  using no_repeat [of s q] by (simp add: window take_map [symmetric] drop_map [symmetric] distinct_take distinct_drop)

lemma pages_disjoint:
  assumes "ok s" "off + n \<le> off'"
  shows "set (map key (page q off n s)) \<inter> set (map key (page q off' m s)) = {}"
proof -
  let ?S = "map key (stream q s)"
  have "set (take n (drop off ?S)) \<subseteq> set (take (off + n) ?S)"
    by (simp add: take_drop set_drop_subset add.commute)
  moreover have "set (take m (drop off' ?S)) \<subseteq> set (drop (off + n) ?S)"
    using set_take_subset set_drop_subset_set_drop [OF assms(2)] by fastforce
  moreover have "set (take (off + n) ?S) \<inter> set (drop (off + n) ?S) = {}"
    using no_repeat [OF assms(1)] by (simp add: set_take_disj_set_drop_if_distinct)
  ultimately show ?thesis
    using assms(1) by (auto simp: window take_map [symmetric] drop_map [symmetric])
qed

text \<open>Walking the pages from the start until a short one shows the whole stream.\<close>

lemma walk_prefix: "ok s \<Longrightarrow> walk_pages (\<lambda>off n. page q off n s) n k = take (k * n) (stream q s)"
proof (induction k)
  case (Suc k)
  then have "walk_pages (\<lambda>off n. page q off n s) n (Suc k) =
      take (k * n) (stream q s) @ take n (drop (k * n) (stream q s))"
    by (simp add: window)
  also have "\<dots> = take (k * n + n) (stream q s)" by (rule take_add [symmetric])
  finally show ?case by (simp add: add.commute)
qed simp

lemma walk_complete:
  assumes "ok s" "length (page q (k * n) n s) < n"
  shows "walk_pages (\<lambda>off n. page q off n s) n (Suc k) = stream q s"
proof -
  have "length (stream q s) \<le> Suc k * n"
    using assms by (simp add: window min_def split: if_splits)
  then show ?thesis using walk_prefix [OF assms(1), of q n "Suc k"] by simp
qed

lemma short_page_exists:
  assumes "ok s" "0 < n"
  shows "\<exists>k. length (page q (k * n) n s) < n"
proof
  have "length (stream q s) \<le> length (stream q s) * n" using assms(2) by simp
  then show "length (page q (length (stream q s) * n) n s) < n" using assms by (simp add: window)
qed

end

end
