(* ===== verification/OC_Domain.thy ===== *)
theory OC_Domain
  imports OC_Prelude
begin

text \<open>
  The domain layer (\<open>core/domain\<close>): error codes and exceptions, JSON values, timestamps
  and the entities. A \<open>datetime\<close> is its wall-clock reading, in microseconds since the
  first instant of year 1, with the UTC offset that Python's \<open>utcoffset()\<close> answers
  (\<^const>\<open>None\<close> for a naive value), so that subtracting the offset is the instant.
  Exceptions keep their class, code and the fixed part of their message.
\<close>

section \<open>Errors\<close>

datatype error_code =
    INVALID_ARGUMENT | INVALID_HOST
  | NOT_FOUND | PROJECT_NOT_FOUND | MEMORY_NOT_FOUND | FILE_NOT_FOUND
  | INTERNAL_ERROR | CONFIG_ERROR
  | PROVIDER_ERROR | MODEL_REVISION_CHANGED | MISSING_PACKAGE | TIMEOUT
  | CONNECTION_ERROR | CONTENT_TOO_LONG

datatype exc =
    NotFoundError error_code string
  | ValidationError string
  | RowError string nat "string option" string
  | ConfigError string
  | ProviderError error_code
  | RevisionUnknownError
  | RevisionChangedError
  | IntegrityError string
  | OperationalError string
  | ValueError string
  | OtherError string

fun exc_code :: "exc \<Rightarrow> error_code option" where
  "exc_code (NotFoundError c _) = Some c"
| "exc_code (ValidationError _) = Some INVALID_ARGUMENT"
| "exc_code (RowError _ _ _ _) = Some INVALID_ARGUMENT"
| "exc_code (ConfigError _) = Some CONFIG_ERROR"
| "exc_code (ProviderError c) = Some c"
| "exc_code RevisionUnknownError = Some PROVIDER_ERROR"
| "exc_code RevisionChangedError = Some MODEL_REVISION_CHANGED"
| "exc_code _ = None"

fun is_provider_error :: "exc \<Rightarrow> bool" where
  "is_provider_error (ProviderError _) = True"
| "is_provider_error RevisionUnknownError = True"
| "is_provider_error RevisionChangedError = True"
| "is_provider_error _ = False"

section \<open>JSON values\<close>

text \<open>
  Python's \<open>json\<close> reads \<open>Infinity\<close> (also from an overflowing literal; the flag of \<open>JInf\<close>: it is
  negative) and \<open>NaN\<close>; other floats are exact rationals here.
\<close>

datatype json =
    JNull | JBool bool | JInt int | JFloat rat | JInf bool | JNaN | JStr string
  | JList "json list" | JObj "(string \<times> json) list"

type_synonym metadata = "(string \<times> json) list"

section \<open>Timestamps\<close>

record datetime =
  wall :: int
  utcoffset :: "int option"

definition max_wall :: int where
  "max_wall = 3652059 * 86400000000"

definition valid_datetime :: "datetime \<Rightarrow> bool" where
  "valid_datetime t =
     (0 \<le> wall t \<and> wall t < max_wall \<and>
      (case utcoffset t of None \<Rightarrow> True | Some off \<Rightarrow> \<bar>off\<bar> < 86400000000))"

definition instant :: "datetime \<Rightarrow> int" where
  "instant t = wall t - (case utcoffset t of None \<Rightarrow> 0 | Some off \<Rightarrow> off)"

text \<open>\<open>astimezone(UTC)\<close> overflows when the instant has no representable wall clock.\<close>

definition require_utc :: "datetime \<Rightarrow> string \<Rightarrow> exc + datetime" where
  "require_utc value field =
     (case utcoffset value of
        None \<Rightarrow> Inl (ValidationError (field @ '' must include a UTC offset''))
      | Some off \<Rightarrow>
          if 0 \<le> wall value - off \<and> wall value - off < max_wall
          then Inr \<lparr>wall = wall value - off, utcoffset = Some 0\<rparr>
          else Inl (ValidationError (field @ '' is outside the supported UTC range'')))"

definition is_utc :: "datetime \<Rightarrow> bool" where
  "is_utc t = (utcoffset t = Some 0 \<and> 0 \<le> wall t \<and> wall t < max_wall)"

lemma require_utc_instant: "require_utc t f = Inr u \<Longrightarrow> instant u = instant t \<and> is_utc u"
  by (auto simp: require_utc_def instant_def is_utc_def split: option.splits if_splits)

lemma require_utc_idem: "is_utc t \<Longrightarrow> require_utc t f = Inr t"
  by (cases t) (auto simp: require_utc_def is_utc_def)

lemma require_utc_naive: "utcoffset t = None \<Longrightarrow> \<exists>m. require_utc t f = Inl (ValidationError m)"
  by (simp add: require_utc_def)

lemma is_utc_eq: "is_utc t \<Longrightarrow> is_utc u \<Longrightarrow> wall t = wall u \<Longrightarrow> t = u"
  by (cases t, cases u) (simp add: is_utc_def)

section \<open>Entities\<close>

record project =
  p_id :: string
  p_name :: string
  p_metadata :: metadata
  p_created_at :: datetime

record memory_item =
  m_id :: string
  m_content :: string
  m_tags :: "string list"
  m_created_at :: datetime
  m_pinned :: bool
  m_project_id :: "string option"
  m_source :: string
  m_updated_at :: "datetime option"

definition MAX_CONTENT_CHARS :: nat where
  "MAX_CONTENT_CHARS = 100000"

datatype channel = Pinned | Keyword | Semantic | Hybrid

record scored_memory =
  sm_item :: memory_item
  sm_channel :: channel
  sm_rrf_score :: "rat option"
  sm_similarity :: "rat option"
  sm_keyword_rank :: "nat option"

record revision_snapshot =
  rs_known :: bool
  rs_value :: "string option"

definition revision_state :: "revision_snapshot \<Rightarrow> string" where
  "revision_state r =
     (if \<not> rs_known r then ''unknown'' else if rs_value r \<noteq> None then ''known'' else ''none'')"

definition UNKNOWN_REVISION :: revision_snapshot where
  "UNKNOWN_REVISION = \<lparr>rs_known = False, rs_value = None\<rparr>"

end
