(* ===== verification/Py_Text.thy ===== *)
theory Py_Text
  imports OC_Prelude
begin

text \<open>
  The string operations the store uses: Python's \<open>lower\<close>, \<open>casefold\<close>, \<open>strip\<close>,
  \<open>split\<close>, \<open>replace\<close> and substring test over code points 0 to 255, SQLite's
  \<open>LIKE ... ESCAPE\<close>, and the store's own text helpers: the LIKE escaping of project
  names, the FTS5 query escaping, and the token counts of the fallback scorer. The lemmas
  show that an escaped name matches literally, and that every character a caller sends to
  FTS5 stands inside a quoted string.
\<close>

section \<open>Python strings\<close>

definition is_space :: "char \<Rightarrow> bool" where
  "is_space c =
     (let n = of_char c :: nat
      in (9 \<le> n \<and> n \<le> 13) \<or> (28 \<le> n \<and> n \<le> 32) \<or> n = 133 \<or> n = 160)"

definition lower_char :: "char \<Rightarrow> char" where
  "lower_char c =
     (let n = of_char c :: nat
      in if (65 \<le> n \<and> n \<le> 90) \<or> (192 \<le> n \<and> n \<le> 222 \<and> n \<noteq> 215)
         then char_of (n + 32) else c)"

definition py_lower :: "string \<Rightarrow> string" where
  "py_lower s = map lower_char s"

text \<open>
  \<open>casefold\<close> also expands sharp s. It sends the micro sign to a Greek letter outside the
  modelled range; leaving it in place makes the same comparisons, because nothing else in
  the range folds to that letter.
\<close>

definition py_casefold :: "string \<Rightarrow> string" where
  "py_casefold s =
     concat (map (\<lambda>c. if (of_char c :: nat) = 223 then ''ss'' else [lower_char c]) s)"

definition py_strip :: "string \<Rightarrow> string" where
  "py_strip s = rev (dropWhile is_space (rev (dropWhile is_space s)))"

fun py_split_acc :: "string \<Rightarrow> string \<Rightarrow> string list" where
  "py_split_acc w [] = (if w = [] then [] else [rev w])"
| "py_split_acc w (c # cs) =
     (if is_space c then (if w = [] then py_split_acc [] cs else rev w # py_split_acc [] cs)
      else py_split_acc (c # w) cs)"

definition py_split :: "string \<Rightarrow> string list" where
  "py_split s = py_split_acc [] s"

fun py_join :: "string \<Rightarrow> string list \<Rightarrow> string" where
  "py_join sep [] = []"
| "py_join sep [x] = x"
| "py_join sep (x # y # xs) = x @ sep @ py_join sep (y # xs)"

text \<open>\<open>s.split(sep)\<close> for a one-character separator.\<close>

fun split_char :: "char \<Rightarrow> string \<Rightarrow> string list" where
  "split_char sep [] = [[]]"
| "split_char sep (c # cs) =
     (if c = sep then [] # split_char sep cs
      else (case split_char sep cs of [] \<Rightarrow> [[c]] | w # ws \<Rightarrow> (c # w) # ws))"

definition is_digit :: "char \<Rightarrow> bool" where
  "is_digit c = (let n = of_char c :: nat in 48 \<le> n \<and> n \<le> 57)"

text \<open>\<open>str(n)\<close>.\<close>

fun nat_text :: "nat \<Rightarrow> string" where
  "nat_text n = (if n < 10 then [char_of (48 + n)] else nat_text (n div 10) @ [char_of (48 + n mod 10)])"

declare nat_text.simps [simp del]

definition py_replace :: "char \<Rightarrow> string \<Rightarrow> string \<Rightarrow> string" where
  "py_replace c r s = concat (map (\<lambda>x. if x = c then r else [x]) s)"

fun py_in :: "string \<Rightarrow> string \<Rightarrow> bool" where
  "py_in n [] = (n = [])"
| "py_in n (c # cs) = (prefix n (c # cs) \<or> py_in n cs)"

text \<open>
  \<open>int(text)\<close>: characters above 126 are taken as a space or as an error before the number is read; the
  number is a sign and digits with single underscores between them, at most 4300 digits, and
  may stand between ASCII white space.
\<close>

definition digit_value :: "char \<Rightarrow> int" where
  "digit_value c = int (of_char c) - 48"

definition ascii_space :: "char \<Rightarrow> bool" where
  "ascii_space c = (let n = of_char c :: nat in (9 \<le> n \<and> n \<le> 13) \<or> n = 32)"

fun read_digits :: "bool \<Rightarrow> int \<Rightarrow> string \<Rightarrow> int option" where
  "read_digits d a [] = (if d then Some a else None)"
| "read_digits d a (c # cs) =
     (if is_digit c then read_digits True (a * 10 + digit_value c) cs
      else if c = CHR ''_'' \<and> d then read_digits False a cs
      else None)"

definition read_signed :: "string \<Rightarrow> int option" where
  "read_signed s =
     (case s of
        [] \<Rightarrow> None
      | c # cs \<Rightarrow>
          if c = CHR ''-'' then map_option uminus (read_digits False 0 cs)
          else if c = CHR ''+'' then read_digits False 0 cs
          else read_digits False 0 s)"

definition py_int :: "string \<Rightarrow> int option" where
  "py_int s =
     (let t = map (\<lambda>c. if (of_char c :: nat) < 127 then c else if is_space c then CHR '' '' else CHR ''?'') s;
          u = rev (dropWhile ascii_space (rev (dropWhile ascii_space t)))
      in if length (filter is_digit u) > 4300 then None else read_signed u)"

definition punctuation :: string where
  "punctuation = map char_of ([33..<48] @ [58..<65] @ [91..<97] @ [123..<127 :: nat])"

lemma py_in_sublist: "py_in n h \<longleftrightarrow> sublist n h"
  by (induction n h rule: py_in.induct) (auto simp: sublist_Cons_right)

lemma py_split_acc_no_space:
  "\<forall>c \<in> set w. \<not> is_space c \<Longrightarrow> t \<in> set (py_split_acc w s) \<Longrightarrow> t \<noteq> [] \<and> (\<forall>c \<in> set t. \<not> is_space c)"
proof (induction s arbitrary: w)
  case (Cons c cs)
  show ?case
  proof (cases "is_space c")
    case True
    then have "t \<in> set (py_split_acc [] cs) \<or> (w \<noteq> [] \<and> t = rev w)"
      using Cons.prems(2) by (simp split: if_splits) blast
    then show ?thesis using Cons.IH [of "[]"] Cons.prems(1) by auto
  next
    case False
    then have "t \<in> set (py_split_acc (c # w) cs)" using Cons.prems(2) by simp
    moreover have "\<forall>x \<in> set (c # w). \<not> is_space x" using False Cons.prems(1) by simp
    ultimately show ?thesis using Cons.IH by blast
  qed
qed (simp split: if_splits)

lemma py_split_token: "t \<in> set (py_split s) \<Longrightarrow> t \<noteq> [] \<and> (\<forall>c \<in> set t. \<not> is_space c)"
  unfolding py_split_def by (rule py_split_acc_no_space) auto

lemma py_strip_empty_iff: "py_strip s = [] \<longleftrightarrow> (\<forall>c \<in> set s. is_space c)"
proof -
  have "(\<forall>c \<in> set (dropWhile is_space s). is_space c) \<longleftrightarrow> (\<forall>c \<in> set s. is_space c)"
    by (induction s) auto
  then show ?thesis by (simp add: py_strip_def)
qed

lemma py_split_acc_empty_iff: "py_split_acc w s = [] \<longleftrightarrow> w = [] \<and> (\<forall>c \<in> set s. is_space c)"
  by (induction w s rule: py_split_acc.induct) auto

lemma py_split_empty_iff: "py_split s = [] \<longleftrightarrow> py_strip s = []"
  by (simp add: py_split_def py_split_acc_empty_iff py_strip_empty_iff)

lemma py_replace_removes: "set (py_replace c [] s) = set s - {c}"
  by (auto simp: py_replace_def)

section \<open>LIKE\<close>

text \<open>SQLite compares letters of the ASCII range without regard to case.\<close>

definition ascii_fold :: "char \<Rightarrow> char" where
  "ascii_fold c = (let n = of_char c :: nat in if 65 \<le> n \<and> n \<le> 90 then char_of (n + 32) else c)"

fun like_match :: "char \<Rightarrow> string \<Rightarrow> string \<Rightarrow> bool" where
  "like_match e [] s = (s = [])"
| "like_match e (p # ps) s =
     (if p = e then
        (case ps of [] \<Rightarrow> False
         | q # qs \<Rightarrow>
             (case s of [] \<Rightarrow> False
              | c # cs \<Rightarrow> ascii_fold c = ascii_fold q \<and> like_match e qs cs))
      else if p = CHR ''%'' then
        like_match e ps s \<or> (case s of [] \<Rightarrow> False | c # cs \<Rightarrow> like_match e (p # ps) cs)
      else if p = CHR ''_'' then
        (case s of [] \<Rightarrow> False | c # cs \<Rightarrow> like_match e ps cs)
      else
        (case s of [] \<Rightarrow> False
         | c # cs \<Rightarrow> ascii_fold c = ascii_fold p \<and> like_match e ps cs))"

definition like_escape_char :: char where
  "like_escape_char = CHR 0x5C"

definition escape_like :: "string \<Rightarrow> string" where
  "escape_like value =
     (let v1 = py_replace like_escape_char [like_escape_char, like_escape_char] value;
          v2 = py_replace (CHR ''%'') [like_escape_char, CHR ''%''] v1
      in py_replace (CHR ''_'') [like_escape_char, CHR ''_''] v2)"

definition like_pattern_contains :: "string \<Rightarrow> string" where
  "like_pattern_contains s = CHR ''%'' # escape_like s @ [CHR ''%'']"

lemma escape_like_char:
  "escape_like s = concat (map (\<lambda>c. if c \<in> {like_escape_char, CHR ''%'', CHR ''_''}
     then [like_escape_char, c] else [c]) s)"
  by (induction s) (auto simp: escape_like_def py_replace_def like_escape_char_def)

lemma like_percent_iff:
  "like_match like_escape_char (CHR ''%'' # ps) s \<longleftrightarrow>
     (\<exists>u v. s = u @ v \<and> like_match like_escape_char ps v)"
proof (induction s)
  case Nil
  then show ?case by (auto simp: like_escape_char_def)
next
  case (Cons c cs)
  have "like_match like_escape_char (CHR ''%'' # ps) (c # cs) \<longleftrightarrow>
      like_match like_escape_char ps (c # cs) \<or> like_match like_escape_char (CHR ''%'' # ps) cs"
    by (simp add: like_escape_char_def)
  also have "\<dots> \<longleftrightarrow> (\<exists>u v. c # cs = u @ v \<and> like_match like_escape_char ps v)"
    unfolding Cons.IH by (metis append_Cons append_Nil list.exhaust list.inject)
  finally show ?case .
qed

lemma like_escaped_literal:
  "like_match like_escape_char (escape_like s @ ps) t \<longleftrightarrow>
     (\<exists>u v. t = u @ v \<and> map ascii_fold u = map ascii_fold s \<and> like_match like_escape_char ps v)"
proof (induction s arbitrary: t)
  case Nil
  then show ?case by (simp add: escape_like_char)
next
  case (Cons c s)
  have "like_match like_escape_char (escape_like (c # s) @ ps) t \<longleftrightarrow>
      (case t of [] \<Rightarrow> False
       | d # ds \<Rightarrow> ascii_fold d = ascii_fold c \<and> like_match like_escape_char (escape_like s @ ps) ds)"
    by (auto simp: escape_like_char like_escape_char_def split: list.split)
  also have "\<dots> \<longleftrightarrow> (\<exists>u v. t = u @ v \<and> map ascii_fold u = map ascii_fold (c # s)
      \<and> like_match like_escape_char ps v)"
    by (cases t) (auto simp: Cons.IH Cons_eq_append_conv map_eq_Cons_conv)
  finally show ?case .
qed

lemma like_contains:
  "like_match like_escape_char (like_pattern_contains s) t \<longleftrightarrow>
     sublist (map ascii_fold s) (map ascii_fold t)"
proof -
  have tail: "like_match like_escape_char [CHR ''%''] v" for v
    using like_percent_iff [of "[]" v] by auto
  have "like_match like_escape_char (like_pattern_contains s) t \<longleftrightarrow>
      (\<exists>a v. t = a @ v \<and> like_match like_escape_char (escape_like s @ [CHR ''%'']) v)"
    by (simp only: like_pattern_contains_def like_percent_iff)
  also have "\<dots> \<longleftrightarrow> (\<exists>a u b. t = a @ u @ b \<and> map ascii_fold u = map ascii_fold s)"
    unfolding like_escaped_literal using tail by blast
  also have "\<dots> \<longleftrightarrow> sublist (map ascii_fold s) (map ascii_fold t)"
  proof
    assume "sublist (map ascii_fold s) (map ascii_fold t)"
    then obtain ps ss where "map ascii_fold t = ps @ map ascii_fold s @ ss"
      unfolding sublist_def by blast
    then obtain a v where av: "t = a @ v" and "map ascii_fold s @ ss = map ascii_fold v"
      by (auto simp: map_eq_append_conv)
    from this(2) [symmetric] obtain u b where "v = u @ b" and "map ascii_fold u = map ascii_fold s"
      by (auto simp: map_eq_append_conv)
    with av show "\<exists>a u b. t = a @ u @ b \<and> map ascii_fold u = map ascii_fold s" by blast
  next
    assume "\<exists>a u b. t = a @ u @ b \<and> map ascii_fold u = map ascii_fold s"
    then obtain a b where "map ascii_fold t = map ascii_fold a @ map ascii_fold s @ map ascii_fold b"
      by auto
    then show "sublist (map ascii_fold s) (map ascii_fold t)" unfolding sublist_def by blast
  qed
  finally show ?thesis .
qed

section \<open>Escaping a query for FTS5\<close>

definition quote_char :: char where
  "quote_char = CHR 0x22"

definition fts_quote :: "string \<Rightarrow> string" where
  "fts_quote t = quote_char # t @ [quote_char]"

definition fts5_tokens :: "string \<Rightarrow> string list" where
  "fts5_tokens query = filter (\<lambda>t. t \<noteq> []) (map (py_replace quote_char []) (py_split query))"

definition fts5_phrase :: "string \<Rightarrow> string" where
  "fts5_phrase query = py_join '' '' (py_split (py_replace quote_char [] query))"

definition fts5_escape :: "string \<Rightarrow> bool \<Rightarrow> string" where
  "fts5_escape query phrase =
     (if query = [] \<or> py_strip query = [] then []
      else if phrase then
        (let clean = fts5_phrase query in if clean \<noteq> [] then fts_quote clean else [])
      else py_join '' OR '' (map fts_quote (fts5_tokens query)))"

text \<open>
  What FTS5 reads in such an expression: a string between double quotes, with a doubled
  quote standing for one, or a bareword up to a space or a quote.
\<close>

datatype fts_token = Quoted string | Bareword string | Unterminated

fun fts_lex_quoted :: "string \<Rightarrow> string \<Rightarrow> (string \<times> string) option" where
  "fts_lex_quoted acc [] = None"
| "fts_lex_quoted acc (c # cs) =
     (if c \<noteq> quote_char then fts_lex_quoted (c # acc) cs
      else (case cs of d # ds \<Rightarrow> if d = quote_char then fts_lex_quoted (d # acc) ds else Some (rev acc, cs)
            | [] \<Rightarrow> Some (rev acc, [])))"

lemma fts_lex_quoted_shorter: "fts_lex_quoted acc s = Some (t, r) \<Longrightarrow> length r < length s"
  by (induction acc s rule: fts_lex_quoted.induct) (fastforce split: if_splits list.splits)+

function fts_lex :: "string \<Rightarrow> fts_token list" where
  "fts_lex [] = []"
| "fts_lex (c # cs) =
     (if is_space c then fts_lex cs
      else if c = quote_char then
        (case fts_lex_quoted [] cs of None \<Rightarrow> [Unterminated] | Some (t, r) \<Rightarrow> Quoted t # fts_lex r)
      else Bareword (takeWhile (\<lambda>x. \<not> is_space x \<and> x \<noteq> quote_char) (c # cs))
             # fts_lex (dropWhile (\<lambda>x. \<not> is_space x \<and> x \<noteq> quote_char) cs))"
  by pat_completeness auto
termination
  by (relation "measure length")
    (auto dest: fts_lex_quoted_shorter simp: less_Suc_eq_le length_dropWhile_le le_SucI)

fun or_join :: "string list \<Rightarrow> fts_token list" where
  "or_join [] = []"
| "or_join [t] = [Quoted t]"
| "or_join (t # u # ts) = Quoted t # Bareword ''OR'' # or_join (u # ts)"

lemma fts_lex_quoted_plain:
  "quote_char \<notin> set t \<Longrightarrow> (r = [] \<or> hd r \<noteq> quote_char) \<Longrightarrow>
     fts_lex_quoted acc (t @ quote_char # r) = Some (rev acc @ t, r)"
  by (induction t arbitrary: acc) (auto split: list.split)

lemma fts_lex_fts_quote:
  assumes "quote_char \<notin> set t" "r = [] \<or> hd r \<noteq> quote_char"
  shows "fts_lex (fts_quote t @ r) = Quoted t # fts_lex r"
proof -
  have "\<not> is_space quote_char" by (simp add: quote_char_def is_space_def)
  then show ?thesis
    using fts_lex_quoted_plain [OF assms, of "[]"] by (simp add: fts_quote_def)
qed

lemma fts_lex_or_step:
  "fts_lex ('' OR '' @ quote_char # s) = Bareword ''OR'' # fts_lex (quote_char # s)"
  by (simp add: is_space_def quote_char_def)

lemma fts_lex_or_join:
  "\<forall>t \<in> set ts. quote_char \<notin> set t \<Longrightarrow>
     fts_lex (py_join '' OR '' (map fts_quote ts)) = or_join ts"
proof (induction ts rule: or_join.induct)
  case (2 t)
  then show ?case using fts_lex_fts_quote [of t "[]"] by simp
next
  case (3 t u ts)
  let ?rest = "py_join '' OR '' (map fts_quote (u # ts))"
  obtain s where s: "?rest = quote_char # s" by (cases ts) (auto simp: fts_quote_def)
  have "fts_lex (py_join '' OR '' (map fts_quote (t # u # ts))) =
      fts_lex (fts_quote t @ '' OR '' @ ?rest)" by simp
  also have "\<dots> = Quoted t # fts_lex ('' OR '' @ ?rest)"
    using "3.prems" by (intro fts_lex_fts_quote) (auto simp: quote_char_def)
  also have "\<dots> = Quoted t # Bareword ''OR'' # fts_lex ?rest"
    unfolding s by (simp only: fts_lex_or_step)
  finally show ?case using 3 by simp
qed simp

lemma set_py_join: "set (py_join sep xs) \<subseteq> set sep \<union> (\<Union>x \<in> set xs. set x)"
  by (induction sep xs rule: py_join.induct) auto

lemma set_py_split_acc: "t \<in> set (py_split_acc w s) \<Longrightarrow> set t \<subseteq> set w \<union> set s"
  by (induction w s rule: py_split_acc.induct) (fastforce split: if_splits)+

lemma fts5_phrase_no_quote: "quote_char \<notin> set (fts5_phrase q)"
proof -
  have "\<forall>t \<in> set (py_split (py_replace quote_char [] q)). quote_char \<notin> set t"
    using set_py_split_acc [of _ "[]" "py_replace quote_char [] q"]
    by (fastforce simp: py_split_def py_replace_removes)
  then show ?thesis
    using set_py_join [of "'' ''" "py_split (py_replace quote_char [] q)"]
    by (auto simp: fts5_phrase_def quote_char_def)
qed

lemma fts5_tokens_no_quote: "t \<in> set (fts5_tokens q) \<Longrightarrow> t \<noteq> [] \<and> quote_char \<notin> set t"
  by (auto simp: fts5_tokens_def py_replace_removes)

lemma fts5_escape_lex:
  "fts_lex (fts5_escape q phrase) =
     (if py_strip q = [] then []
      else if phrase then (if fts5_phrase q = [] then [] else [Quoted (fts5_phrase q)])
      else or_join (fts5_tokens q))"
  using fts_lex_or_join [of "fts5_tokens q"] fts_lex_fts_quote [OF fts5_phrase_no_quote, of "[]" q]
  by (auto simp: fts5_escape_def fts5_tokens_no_quote Let_def py_strip_def)

section \<open>Tokens of the fallback scorer\<close>

definition normalize_tokens :: "string \<Rightarrow> string list" where
  "normalize_tokens text =
     (let cleaned = filter (\<lambda>c. c \<notin> set punctuation) (py_lower text)
      in filter (\<lambda>t. t \<noteq> []) (py_split cleaned))"

fun tag_match_loop :: "string list \<Rightarrow> string list \<Rightarrow> nat \<Rightarrow> nat" where
  "tag_match_loop [] q n = n"
| "tag_match_loop (tag # tags) q n =
     (let tag_lower = py_lower tag
      in if tag_lower \<in> set q then tag_match_loop tags q (n + 1)
         else if list_ex (\<lambda>token. py_in token tag_lower) q then tag_match_loop tags q (n + 1)
         else tag_match_loop tags q n)"

definition tag_match_count :: "string list \<Rightarrow> string list \<Rightarrow> nat" where
  "tag_match_count tags q = (if tags = [] \<or> q = [] then 0 else tag_match_loop tags q 0)"

definition keyword_match_count :: "string \<Rightarrow> string list \<Rightarrow> nat" where
  "keyword_match_count content q =
     (if content = [] \<or> q = [] then 0
      else length (filter (\<lambda>token. py_in token (py_lower content)) q))"

lemma tag_match_loop_count:
  "tag_match_loop tags q n =
     n + length (filter (\<lambda>tag. \<exists>token \<in> set q. sublist token (py_lower tag)) tags)"
  by (induction tags arbitrary: n) (auto simp: Let_def py_in_sublist list_ex_iff)

lemma tag_match_count_eq:
  "tag_match_count tags q = length (filter (\<lambda>tag. \<exists>token \<in> set q. sublist token (py_lower tag)) tags)"
  by (auto simp: tag_match_count_def tag_match_loop_count)

end
