(* ===== verification/OC_Store.thy ===== *)
theory OC_Store
  imports OC_Domain Py_Text
begin

text \<open>
  The SQLite store (\<open>core/infrastructure/persistence/sqlite_store.py\<close> and the schema of
  \<open>migrations/\<close>): the tables, the statements with their keys, foreign keys, cascades and
  FTS5 triggers, the transaction manager, and the methods that write projects and memories.
  A table is the list of its rows with the column values decoded (the JSON and ISO texts are
  stored and read back by inverse mappers); a row is identified by its primary key, which
  stands for SQLite's rowid as well. Every method runs under the store's lock, so a run of
  the program is a sequence of method calls.
\<close>

section \<open>Schema\<close>

record embedding_row =
  e_memory_id :: string
  e_embedding :: "rat list"
  e_model :: string
  e_dimensions :: nat
  e_generated_at :: datetime
  e_provider :: string
  e_content_hash :: string
  e_model_revision :: "string option"
  e_settings_fingerprint :: string
  e_status :: string

record fts_entry =
  f_id :: string
  f_content :: string
  f_tags :: "string list"

record db =
  projects :: "project list"
  memory_items :: "memory_item list"
  memory_embeddings :: "embedding_row list"
  fts_installed :: bool
  memory_fts :: "fts_entry list"

text \<open>
  \<open>savepoints\<close> holds the images that \<open>BEGIN\<close> and \<open>SAVEPOINT\<close> took, innermost
  first. \<open>begin_attempts\<close> is the environment: what SQLite answers to the next attempts to
  take the write lock, which other processes may hold; once used up, the lock is free.
\<close>

datatype begin_attempt = Acquired | Locked | Failed string

record store =
  the_db :: db
  savepoints :: "db list"
  transaction_depth :: nat
  fts5_active :: bool
  begin_attempts :: "begin_attempt list"

type_synonym 'a store_result = "(exc, 'a, store) outcome"

section \<open>Triggers and statements\<close>

definition fts_entry_of :: "memory_item \<Rightarrow> fts_entry" where
  "fts_entry_of m = \<lparr>f_id = m_id m, f_content = m_content m, f_tags = m_tags m\<rparr>"

definition fts_ai :: "memory_item \<Rightarrow> db \<Rightarrow> db" where
  "fts_ai new d = (if fts_installed d then d\<lparr>memory_fts := memory_fts d @ [fts_entry_of new]\<rparr> else d)"

definition fts_ad :: "string set \<Rightarrow> db \<Rightarrow> db" where
  "fts_ad old d = (if fts_installed d then d\<lparr>memory_fts := filter (\<lambda>f. f_id f \<notin> old) (memory_fts d)\<rparr> else d)"

definition fts_au :: "memory_item \<Rightarrow> db \<Rightarrow> db" where
  "fts_au new d = fts_ai new (fts_ad {m_id new} d)"

definition insert_project :: "project \<Rightarrow> db \<Rightarrow> exc + db" where
  "insert_project p d =
     (if p_id p \<in> p_id ` set (projects d) then Inl (IntegrityError ''UNIQUE'')
      else Inr (d\<lparr>projects := projects d @ [p]\<rparr>))"

definition insert_memory :: "memory_item \<Rightarrow> db \<Rightarrow> exc + db" where
  "insert_memory m d =
     (if m_id m \<in> m_id ` set (memory_items d) then Inl (IntegrityError ''UNIQUE'')
      else (case m_project_id m of
              Some p \<Rightarrow> if p \<in> p_id ` set (projects d)
                        then Inr (fts_ai m (d\<lparr>memory_items := memory_items d @ [m]\<rparr>))
                        else Inl (IntegrityError ''FOREIGN KEY'')
            | None \<Rightarrow> Inr (fts_ai m (d\<lparr>memory_items := memory_items d @ [m]\<rparr>))))"

definition update_memory_row :: "string \<Rightarrow> (memory_item \<Rightarrow> memory_item) \<Rightarrow> db \<Rightarrow> db" where
  "update_memory_row i f d =
     (case List.find (\<lambda>m. m_id m = i) (memory_items d) of
        None \<Rightarrow> d
      | Some m \<Rightarrow> fts_au (f m) (d\<lparr>memory_items := map (\<lambda>x. if m_id x = i then f x else x) (memory_items d)\<rparr>))"

definition delete_memory_rows :: "(memory_item \<Rightarrow> bool) \<Rightarrow> db \<Rightarrow> db" where
  "delete_memory_rows P d =
     (let gone = m_id ` set (filter P (memory_items d))
      in fts_ad gone (d\<lparr>memory_items := filter (\<lambda>m. \<not> P m) (memory_items d),
             memory_embeddings := filter (\<lambda>e. e_memory_id e \<notin> gone) (memory_embeddings d)\<rparr>))"

definition delete_project_row :: "string \<Rightarrow> db \<Rightarrow> exc + db" where
  "delete_project_row i d =
     (if \<exists>m \<in> set (memory_items d). m_project_id m = Some i then Inl (IntegrityError ''FOREIGN KEY'')
      else Inr (d\<lparr>projects := filter (\<lambda>p. p_id p \<noteq> i) (projects d)\<rparr>))"

section \<open>Transactions\<close>

definition BEGIN_MAX_RETRIES :: nat where
  "BEGIN_MAX_RETRIES = 3"

text \<open>
  The retry loop of \<open>_begin_immediate_with_retry\<close>: \<open>n\<close> attempts remain after this one.
  It answers the attempts that were made and what is left of the environment.
\<close>

fun begin_retry :: "nat \<Rightarrow> begin_attempt list \<Rightarrow> (exc + unit) \<times> begin_attempt list" where
  "begin_retry n [] = (Inr (), [])"
| "begin_retry n (Acquired # as) = (Inr (), as)"
| "begin_retry n (Failed msg # as) = (Inl (OperationalError msg), as)"
| "begin_retry 0 (Locked # as) = (Inl (OperationalError ''database is locked''), as)"
| "begin_retry (Suc n) (Locked # as) = begin_retry n as"

definition begin_immediate_with_retry :: "store \<Rightarrow> unit store_result" where
  "begin_immediate_with_retry s =
     (case begin_retry BEGIN_MAX_RETRIES (begin_attempts s) of
        (r, as) \<Rightarrow> (r, s\<lparr>begin_attempts := as\<rparr>))"

definition enter_transaction :: "store \<Rightarrow> store" where
  "enter_transaction s =
     s\<lparr>savepoints := the_db s # savepoints s, transaction_depth := transaction_depth s + 1\<rparr>"

definition leave_transaction :: "db \<Rightarrow> store \<Rightarrow> store" where
  "leave_transaction d s =
     s\<lparr>the_db := d, savepoints := tl (savepoints s), transaction_depth := transaction_depth s - 1\<rparr>"

definition transaction :: "(store \<Rightarrow> 'a store_result) \<Rightarrow> store \<Rightarrow> 'a store_result" where
  "transaction body s =
     (case (if transaction_depth s = 0 then begin_immediate_with_retry s else (Inr (), s)) of
        (Inl e, s0) \<Rightarrow> (Inl e, s0)
      | (Inr _, s0) \<Rightarrow>
          (case body (enter_transaction s0) of
             (Inr v, s1) \<Rightarrow> (Inr v, leave_transaction (the_db s1) s1)
           | (Inl e, s1) \<Rightarrow> (Inl e, leave_transaction (hd (savepoints s1)) s1)))"

section \<open>Projects\<close>

definition add_project :: "project \<Rightarrow> store \<Rightarrow> unit store_result" where
  "add_project p s =
     (case require_utc (p_created_at p) ''created_at'' of
        Inl e \<Rightarrow> (Inl e, s)
      | Inr t \<Rightarrow>
          (case insert_project (p\<lparr>p_created_at := t\<rparr>) (the_db s) of
             Inl e \<Rightarrow> (Inl e, s)
           | Inr d \<Rightarrow> (Inr (), s\<lparr>the_db := d\<rparr>)))"

definition get_project :: "string \<Rightarrow> store \<Rightarrow> project option" where
  "get_project i s = List.find (\<lambda>p. p_id p = i) (projects (the_db s))"

definition project_order :: "project \<Rightarrow> int \<times> string" where
  "project_order p = (wall (p_created_at p), p_id p)"

definition list_projects :: "string option \<Rightarrow> store \<Rightarrow> project list" where
  "list_projects name_contains s =
     (case name_contains of
        Some n \<Rightarrow> sort_desc project_order
                    (filter (\<lambda>p. like_match like_escape_char (like_pattern_contains n) (p_name p))
                      (projects (the_db s)))
      | None \<Rightarrow> sort_desc project_order (projects (the_db s)))"

text \<open>What \<open>delete_project\<close> and \<open>delete_memory\<close> do inside their transaction.\<close>

definition delete_project_body :: "string \<Rightarrow> store \<Rightarrow> nat store_result" where
  "delete_project_body i s =
     (case List.find (\<lambda>p. p_id p = i) (projects (the_db s)) of
        None \<Rightarrow> (Inl (NotFoundError PROJECT_NOT_FOUND i), s)
      | Some _ \<Rightarrow>
          (let deleted_memories = length (filter (\<lambda>m. m_project_id m = Some i) (memory_items (the_db s)));
               s1 = s\<lparr>the_db := delete_memory_rows (\<lambda>m. m_project_id m = Some i) (the_db s)\<rparr>
           in (case delete_project_row i (the_db s1) of
                 Inl e \<Rightarrow> (Inl e, s1)
               | Inr d \<Rightarrow> (Inr deleted_memories, s1\<lparr>the_db := d\<rparr>))))"

definition delete_project :: "string \<Rightarrow> store \<Rightarrow> nat store_result" where
  "delete_project i = transaction (delete_project_body i)"

definition update_project :: "string \<Rightarrow> string option \<Rightarrow> metadata option \<Rightarrow> store \<Rightarrow> project store_result" where
  "update_project i name md s =
     (if name = None \<and> md = None
      then (Inl (ValueError ''update_project requires at least one of name or metadata''), s)
      else if i \<notin> p_id ` set (projects (the_db s)) then (Inl (NotFoundError PROJECT_NOT_FOUND i), s)
      else (let upd = (\<lambda>p. p\<lparr>p_name := (case name of Some n \<Rightarrow> n | None \<Rightarrow> p_name p),
                            p_metadata := (case md of Some v \<Rightarrow> v | None \<Rightarrow> p_metadata p)\<rparr>);
                s1 = s\<lparr>the_db := (the_db s)\<lparr>projects :=
                       map (\<lambda>p. if p_id p = i then upd p else p) (projects (the_db s))\<rparr>\<rparr>
            in (case get_project i s1 of
                  Some p \<Rightarrow> (Inr p, s1)
                | None \<Rightarrow> (Inl (OtherError ''AssertionError''), s1))))"

section \<open>Memories\<close>

definition stored_form :: "memory_item \<Rightarrow> exc + memory_item" where
  "stored_form m =
     (case require_utc (m_created_at m) ''created_at'' of
        Inl e \<Rightarrow> Inl e
      | Inr c \<Rightarrow>
          (case m_updated_at m of
             None \<Rightarrow> Inr (m\<lparr>m_created_at := c\<rparr>)
           | Some u \<Rightarrow>
               (case require_utc u ''updated_at'' of
                  Inl e \<Rightarrow> Inl e
                | Inr u' \<Rightarrow> Inr (m\<lparr>m_created_at := c, m_updated_at := Some u'\<rparr>))))"

definition add_memory :: "memory_item \<Rightarrow> store \<Rightarrow> unit store_result" where
  "add_memory m s =
     (case stored_form m of
        Inl e \<Rightarrow> (Inl e, s)
      | Inr r \<Rightarrow>
          (case insert_memory r (the_db s) of
             Inl e \<Rightarrow>
               (if e = IntegrityError ''FOREIGN KEY''
                then (Inl (NotFoundError PROJECT_NOT_FOUND (case m_project_id m of Some p \<Rightarrow> p | None \<Rightarrow> ''None'')), s)
                else (Inl e, s))
           | Inr d \<Rightarrow> (Inr (), s\<lparr>the_db := d\<rparr>)))"

definition get_memory :: "string \<Rightarrow> store \<Rightarrow> memory_item option" where
  "get_memory i s = List.find (\<lambda>m. m_id m = i) (memory_items (the_db s))"

definition count_memory :: "string option \<Rightarrow> store \<Rightarrow> nat" where
  "count_memory pid s =
     (case pid of
        Some p \<Rightarrow> length (filter (\<lambda>m. m_project_id m = Some p) (memory_items (the_db s)))
      | None \<Rightarrow> length (memory_items (the_db s)))"

definition set_pinned :: "string \<Rightarrow> bool \<Rightarrow> store \<Rightarrow> unit store_result" where
  "set_pinned i pinned s =
     (if i \<notin> m_id ` set (memory_items (the_db s)) then (Inl (NotFoundError MEMORY_NOT_FOUND i), s)
      else (Inr (), s\<lparr>the_db := update_memory_row i (\<lambda>m. m\<lparr>m_pinned := pinned\<rparr>) (the_db s)\<rparr>))"

definition update_memory :: "datetime \<Rightarrow> string \<Rightarrow> string option \<Rightarrow> string list option \<Rightarrow> store \<Rightarrow>
    (memory_item option) store_result" where
  "update_memory now i content tags s =
     (if i \<notin> m_id ` set (memory_items (the_db s)) then (Inl (NotFoundError MEMORY_NOT_FOUND i), s)
      else (let upd = (\<lambda>m. m\<lparr>m_updated_at := Some now,
                            m_content := (case content of Some c \<Rightarrow> c | None \<Rightarrow> m_content m),
                            m_tags := (case tags of Some t \<Rightarrow> t | None \<Rightarrow> m_tags m)\<rparr>);
                s1 = s\<lparr>the_db := update_memory_row i upd (the_db s)\<rparr>
            in (Inr (get_memory i s1), s1)))"

definition delete_memory_body :: "string \<Rightarrow> store \<Rightarrow> unit store_result" where
  "delete_memory_body i s =
     (if i \<notin> m_id ` set (memory_items (the_db s)) then (Inl (NotFoundError MEMORY_NOT_FOUND i), s)
      else (Inr (), s\<lparr>the_db := delete_memory_rows (\<lambda>m. m_id m = i) (the_db s)\<rparr>))"

definition delete_memory :: "string \<Rightarrow> store \<Rightarrow> unit store_result" where
  "delete_memory i = transaction (delete_memory_body i)"

section \<open>Schema set-up and FTS5\<close>

text \<open>
  \<open>memory_fts\<close> is an external-content table: \<open>COUNT(*)\<close> over it, with no \<open>MATCH\<close>,
  scans the content table, so it counts the rows of \<open>memory_items\<close> and not the indexed
  entries.
\<close>

definition ensure_fts5 :: "bool \<Rightarrow> bool \<Rightarrow> store \<Rightarrow> store" where
  "ensure_fts5 user_enabled available s =
     (if \<not> user_enabled then s\<lparr>fts5_active := False\<rparr>
      else if \<not> available then s\<lparr>fts5_active := False\<rparr>
      else (let d = (the_db s)\<lparr>fts_installed := True\<rparr>;
                n = length (memory_items d);
                d' = (if n = 0 then d\<lparr>memory_fts := map fts_entry_of (memory_items d)\<rparr> else d)
            in s\<lparr>the_db := d', fts5_active := True\<rparr>))"

definition empty_db :: db where
  "empty_db = \<lparr>projects = [], memory_items = [], memory_embeddings = [], fts_installed = False, memory_fts = []\<rparr>"

text \<open>A new connection: the database file as it was committed, no open transaction.\<close>

definition open_store :: "db \<Rightarrow> begin_attempt list \<Rightarrow> bool \<Rightarrow> bool \<Rightarrow> store" where
  "open_store d env user_enabled available =
     ensure_fts5 user_enabled available
       \<lparr>the_db = d, savepoints = [], transaction_depth = 0, fts5_active = False, begin_attempts = env\<rparr>"

end
