(* ===== verification/OC_Embedding_Store.thy ===== *)
theory OC_Embedding_Store
  imports OC_Store
begin

text \<open>
  The embedding half of the store: the compare-and-swap publication of a vector or of a
  tombstone, the space-scoped listing that semantic search reads, the identity the
  freshness check compares, and the counts that health reports. \<open>hash\<close> stands for
  \<open>hash_content\<close> (SHA-256 of the text, hashlib), and vector components are the
  single-precision values that \<open>struct.pack\<close> writes.
\<close>

section \<open>Publication\<close>

record embedding_space =
  sp_model :: string
  sp_provider :: string
  sp_revision :: "string option"
  sp_fingerprint :: string

definition upsert_embedding :: "embedding_row \<Rightarrow> embedding_row list \<Rightarrow> embedding_row list" where
  "upsert_embedding e es =
     (if e_memory_id e \<in> e_memory_id ` set es
      then map (\<lambda>x. if e_memory_id x = e_memory_id e then e else x) es
      else es @ [e])"

definition save_embedding :: "(string \<Rightarrow> string) \<Rightarrow> datetime \<Rightarrow> string \<Rightarrow> rat list \<Rightarrow> embedding_space \<Rightarrow>
    string \<Rightarrow> string \<Rightarrow> store \<Rightarrow> bool \<times> store" where
  "save_embedding hash now i vec sp content_hash status s =
     (case List.find (\<lambda>m. m_id m = i) (memory_items (the_db s)) of
        None \<Rightarrow> (False, s)
      | Some m \<Rightarrow>
          (if hash (m_content m) \<noteq> content_hash then (False, s)
           else (let e = \<lparr>e_memory_id = i, e_embedding = vec, e_model = sp_model sp,
                          e_dimensions = length vec, e_generated_at = now,
                          e_provider = sp_provider sp, e_content_hash = content_hash,
                          e_model_revision = sp_revision sp,
                          e_settings_fingerprint = sp_fingerprint sp, e_status = status\<rparr>
                 in (True, s\<lparr>the_db := (the_db s)\<lparr>memory_embeddings :=
                       upsert_embedding e (memory_embeddings (the_db s))\<rparr>\<rparr>))))"

definition delete_embedding :: "string \<Rightarrow> store \<Rightarrow> store" where
  "delete_embedding i s =
     s\<lparr>the_db := (the_db s)\<lparr>memory_embeddings :=
         filter (\<lambda>e. e_memory_id e \<noteq> i) (memory_embeddings (the_db s))\<rparr>\<rparr>"

section \<open>Reads\<close>

definition find_embedding :: "string \<Rightarrow> store \<Rightarrow> embedding_row option" where
  "find_embedding i s = List.find (\<lambda>e. e_memory_id e = i) (memory_embeddings (the_db s))"

definition get_embedding :: "string \<Rightarrow> store \<Rightarrow> rat list option" where
  "get_embedding i s = map_option e_embedding (find_embedding i s)"

definition get_embedding_model :: "string \<Rightarrow> store \<Rightarrow> string option" where
  "get_embedding_model i s = map_option e_model (find_embedding i s)"

record embedding_identity =
  id_space :: embedding_space
  id_dimensions :: nat
  id_content_hash :: string
  id_status :: string

definition get_embedding_identity :: "string \<Rightarrow> store \<Rightarrow> embedding_identity option" where
  "get_embedding_identity i s =
     map_option (\<lambda>e. \<lparr>id_space = \<lparr>sp_model = e_model e, sp_provider = e_provider e,
                         sp_revision = e_model_revision e, sp_fingerprint = e_settings_fingerprint e\<rparr>,
                      id_dimensions = e_dimensions e, id_content_hash = e_content_hash e,
                      id_status = e_status e\<rparr>)
       (find_embedding i s)"

definition opt_eq :: "'a option \<Rightarrow> 'a \<Rightarrow> bool" where
  "opt_eq want v = (case want of None \<Rightarrow> True | Some w \<Rightarrow> v = w)"

text \<open>\<open>model_revision IS ?\<close> compares two NULLs as equal, unlike \<open>=\<close>.\<close>

definition list_embeddings :: "string list option \<Rightarrow> string option \<Rightarrow> string option \<Rightarrow> nat option \<Rightarrow>
    string option \<Rightarrow> string option \<Rightarrow> bool \<Rightarrow> store \<Rightarrow> (string \<times> rat list) list" where
  "list_embeddings ids model provider dims fingerprint revision match_revision s =
     map (\<lambda>e. (e_memory_id e, e_embedding e))
       (filter (\<lambda>e. e_status e = ''ok''
            \<and> (case ids of None \<Rightarrow> True | Some is \<Rightarrow> e_memory_id e \<in> set is)
            \<and> opt_eq model (e_model e) \<and> opt_eq provider (e_provider e)
            \<and> opt_eq dims (e_dimensions e) \<and> opt_eq fingerprint (e_settings_fingerprint e)
            \<and> (match_revision \<longrightarrow> e_model_revision e = revision))
         (memory_embeddings (the_db s)))"

section \<open>Counts\<close>

definition count_embeddings :: "string option \<Rightarrow> store \<Rightarrow> nat" where
  "count_embeddings status s =
     (case status of
        None \<Rightarrow> length (memory_embeddings (the_db s))
      | Some st \<Rightarrow> length (filter (\<lambda>e. e_status e = st) (memory_embeddings (the_db s))))"

text \<open>The join of \<open>memory_embeddings\<close> with \<open>memory_items\<close> on the memory id.\<close>

definition joined :: "store \<Rightarrow> (embedding_row \<times> memory_item) list" where
  "joined s = concat (map (\<lambda>e. map (\<lambda>m. (e, m)) (filter (\<lambda>m. m_id m = e_memory_id e) (memory_items (the_db s))))
                (memory_embeddings (the_db s)))"

definition in_space :: "embedding_space \<Rightarrow> bool \<Rightarrow> embedding_row \<Rightarrow> bool" where
  "in_space sp match_revision e =
     (e_provider e = sp_provider sp \<and> e_model e = sp_model sp
      \<and> e_settings_fingerprint e = sp_fingerprint sp
      \<and> (match_revision \<longrightarrow> e_model_revision e = sp_revision sp))"

definition count_unembeddable_embeddings :: "(string \<Rightarrow> string) \<Rightarrow> embedding_space \<Rightarrow> bool \<Rightarrow> store \<Rightarrow> nat" where
  "count_unembeddable_embeddings hash sp match_revision s =
     length (filter (\<lambda>(e, m). hash (m_content m) = e_content_hash e)
       (filter (\<lambda>(e, m). e_status e = ''content_too_long'' \<and> in_space sp match_revision e) (joined s)))"

definition stale_embedding_counts :: "(string \<Rightarrow> string) \<Rightarrow> embedding_space \<Rightarrow> bool \<Rightarrow> store \<Rightarrow> nat \<times> nat" where
  "stale_embedding_counts hash sp match_revision s =
     (length (filter (\<lambda>e. e_provider e \<noteq> sp_provider sp \<or> e_model e \<noteq> sp_model sp
                \<or> e_settings_fingerprint e \<noteq> sp_fingerprint sp
                \<or> (match_revision \<and> e_model_revision e \<noteq> sp_revision sp))
        (memory_embeddings (the_db s))),
      length (filter (\<lambda>(e, m). hash (m_content m) \<noteq> e_content_hash e)
        (filter (\<lambda>(e, m). in_space sp match_revision e) (joined s))))"

definition stored_embedding_dimensions :: "store \<Rightarrow> nat list" where
  "stored_embedding_dimensions s =
     sorted_list_of_set (e_dimensions ` set (filter (\<lambda>e. e_status e = ''ok'') (memory_embeddings (the_db s))))"

end
