(* ===== verification/OC_Store_Steps.thy ===== *)
theory OC_Store_Steps
  imports OC_Store_Inv
begin

text \<open>
  The store's methods one by one: what each returns and leaves on every branch, that each is
  balanced and keeps the invariant, the step relation of the store, and the invariant of its
  reachable states.
\<close>

section \<open>Updating the database under the store's record\<close>

lemma wf_store_upd_db: "wf_store s \<Longrightarrow> wf_db d \<Longrightarrow> wf_store (s\<lparr>the_db := d\<rparr>)"
  by (simp add: wf_store_def)

lemma wf_store_upd_with:
  "wf_store s \<Longrightarrow> (\<And>d. wf_db d \<Longrightarrow> wf_db (g d)) \<Longrightarrow> wf_store (s\<lparr>the_db := g (the_db s)\<rparr>)"
  by (simp add: wf_store_def)

lemma wf_storeD [dest]: "wf_store s \<Longrightarrow> wf_db (the_db s)"
  by (simp add: wf_store_def)

lemma wf_keysD:
  assumes "wf_db d"
  shows "distinct (map p_id (projects d))" "distinct (map m_id (memory_items d))"
    "distinct (map e_memory_id (memory_embeddings d))"
  using assms by (simp_all add: wf_db_def keys_ok_def)

section \<open>Projects\<close>

lemma balanced_add_project: "balanced (add_project p)"
  by (rule balancedI) (auto simp: add_project_def split: sum.splits)

lemma preserves_wf_add_project: "preserves_wf (add_project p)"
proof
  fix s r s' assume wf: "wf_store s" and op: "add_project p s = (r, s')"
  show "wf_store s'"
  proof (cases "s' = s")
    case False
    then obtain t d where "require_utc (p_created_at p) ''created_at'' = Inr t"
      "insert_project (p\<lparr>p_created_at := t\<rparr>) (the_db s) = Inr d" "s' = s\<lparr>the_db := d\<rparr>"
      using op by (auto simp: add_project_def split: sum.splits)
    then show ?thesis
      using wf_insert_project [of "the_db s" "p\<lparr>p_created_at := t\<rparr>" d] wf_storeD [OF wf]
        require_utc_instant wf_store_upd_db [OF wf] by fastforce
  qed (use wf in simp)
qed

lemma add_project_ok:
  assumes "is_utc (p_created_at p)" "p_id p \<notin> p_id ` set (projects (the_db s))"
  shows "add_project p s = (Inr (), s\<lparr>the_db := (the_db s)\<lparr>projects := projects (the_db s) @ [p]\<rparr>\<rparr>)"
  using assms by (simp add: add_project_def require_utc_idem insert_project_def)

lemma balanced_update_project: "balanced (update_project i n md)"
  by (rule balancedI) (auto simp: update_project_def Let_def split: if_splits option.splits)

lemma preserves_wf_update_project: "preserves_wf (update_project i n md)"
proof
  fix s r s' assume wf: "wf_store s" and op: "update_project i n md s = (r, s')"
  define g where "g = (\<lambda>p::project. if p_id p = i
      then p\<lparr>p_name := (case n of Some x \<Rightarrow> x | None \<Rightarrow> p_name p),
             p_metadata := (case md of Some v \<Rightarrow> v | None \<Rightarrow> p_metadata p)\<rparr> else p)"
  have g: "p_id (g p) = p_id p" "p_created_at (g p) = p_created_at p" for p
    by (simp_all add: g_def)
  have "s' = s \<or> s' = s\<lparr>the_db := (the_db s)\<lparr>projects := map g (projects (the_db s))\<rparr>\<rparr>"
    using op by (auto simp: update_project_def Let_def g_def split: if_splits option.splits)
  moreover have "wf_db ((the_db s)\<lparr>projects := map g (projects (the_db s))\<rparr>)"
  proof -
    have ids: "map p_id (map g (projects (the_db s))) = map p_id (projects (the_db s))" by (simp add: g)
    then have ids': "p_id ` g ` set (projects (the_db s)) = p_id ` set (projects (the_db s))"
      by (metis list.set_map)
    let ?d = "(the_db s)\<lparr>projects := map g (projects (the_db s))\<rparr>"
    note wfd = wf_storeD [OF wf, unfolded wf_db_def]
    have "keys_ok ?d" using wfd ids by (simp add: keys_ok_def del: map_map)
    moreover have "fks_ok ?d" "rows_ok ?d" "index_ok ?d"
      using wfd by (auto simp: fks_ok_def rows_ok_def index_ok_def g ids')
    ultimately show ?thesis by (simp add: wf_db_def)
  qed
  ultimately show "wf_store s'" using wf wf_store_upd_db by metis
qed

definition drop_project :: "string \<Rightarrow> db \<Rightarrow> db" where
  "drop_project i d =
     (delete_memory_rows (\<lambda>m. m_project_id m = Some i) d)
       \<lparr>projects := filter (\<lambda>p. p_id p \<noteq> i) (projects d)\<rparr>"

lemma delete_memory_rows_simps [simp]:
  "projects (delete_memory_rows P d) = projects d"
  "memory_items (delete_memory_rows P d) = filter (\<lambda>m. \<not> P m) (memory_items d)"
  "memory_embeddings (delete_memory_rows P d) =
     filter (\<lambda>e. e_memory_id e \<notin> m_id ` set (filter P (memory_items d))) (memory_embeddings d)"
  "fts_installed (delete_memory_rows P d) = fts_installed d"
  by (simp_all add: delete_memory_rows_def Let_def)

lemma delete_project_row_after:
  "delete_project_row i (delete_memory_rows (\<lambda>m. m_project_id m = Some i) d) = Inr (drop_project i d)"
  by (simp add: delete_project_row_def drop_project_def)

lemma delete_project_body_simp:
  "delete_project_body i s =
     (if i \<in> p_id ` set (projects (the_db s))
      then (Inr (length (filter (\<lambda>m. m_project_id m = Some i) (memory_items (the_db s)))),
            s\<lparr>the_db := drop_project i (the_db s)\<rparr>)
      else (Inl (NotFoundError PROJECT_NOT_FOUND i), s))"
proof (cases "List.find (\<lambda>p. p_id p = i) (projects (the_db s))")
  case None
  then have "i \<notin> p_id ` set (projects (the_db s))" unfolding find_None_key_iff .
  then show ?thesis by (simp add: delete_project_body_def None)
next
  case (Some p)
  then have "i \<in> p_id ` set (projects (the_db s))" using find_Some_mem [OF Some] by auto
  then show ?thesis by (simp add: delete_project_body_def Some Let_def delete_project_row_after)
qed

lemma balanced_delete_project_body: "balanced (delete_project_body i)"
  by (rule balancedI) (auto simp: delete_project_body_simp split: if_splits)

lemma wf_drop_project: "wf_db d \<Longrightarrow> wf_db (drop_project i d)"
  using wf_delete_project_row [OF wf_delete_memory_rows delete_project_row_after] .

lemma preserves_wf_delete_project_body: "preserves_wf (delete_project_body i)"
  by (rule preserves_wfI) (auto simp: delete_project_body_simp wf_store_upd_with wf_drop_project split: if_splits)

lemma balanced_delete_project: "balanced (delete_project i)"
  by (simp add: delete_project_def balanced_transaction balanced_delete_project_body)

lemma preserves_wf_delete_project: "preserves_wf (delete_project i)"
  by (simp add: delete_project_def preserves_wf_transaction balanced_delete_project_body
      preserves_wf_delete_project_body)

lemma delete_project_raised:
  "delete_project i s = (Inl e, s') \<Longrightarrow> the_db s' = the_db s"
  using transaction_raised [OF balanced_delete_project_body] by (metis delete_project_def)

lemma delete_project_ok:
  assumes "delete_project i s = (Inr n, s')"
  shows "i \<in> p_id ` set (projects (the_db s))" "the_db s' = drop_project i (the_db s)"
    "n = length (filter (\<lambda>m. m_project_id m = Some i) (memory_items (the_db s)))"
proof -
  obtain s0 s1 where s0: "the_db s0 = the_db s" "delete_project_body i (enter_transaction s0) = (Inr n, s1)"
      "the_db s' = the_db s1"
    using transaction_committed [OF balanced_delete_project_body assms [unfolded delete_project_def]] by metis
  then show "i \<in> p_id ` set (projects (the_db s))" "the_db s' = drop_project i (the_db s)"
    "n = length (filter (\<lambda>m. m_project_id m = Some i) (memory_items (the_db s)))"
    by (auto simp: delete_project_body_simp split: if_splits)
qed

section \<open>Memories\<close>

lemma stored_form_Inr:
  assumes "stored_form m = Inr r"
  shows "utc_memory r" "m_id r = m_id m" "m_content r = m_content m" "m_tags r = m_tags m"
    "m_pinned r = m_pinned m" "m_project_id r = m_project_id m" "m_source r = m_source m"
    "instant (m_created_at r) = instant (m_created_at m)"
  using assms
  by (auto simp: stored_form_def utc_memory_def split: sum.splits option.splits dest!: require_utc_instant)

lemma stored_form_utc: "utc_memory m \<Longrightarrow> stored_form m = Inr m"
  by (cases m) (auto simp: stored_form_def utc_memory_def require_utc_idem split: option.splits)

lemma stored_form_updated_at:
  "stored_form m = Inr r \<Longrightarrow> map_option instant (m_updated_at r) = map_option instant (m_updated_at m)"
  by (auto simp: stored_form_def split: sum.splits option.splits dest!: require_utc_instant)

lemma add_memory_Inr:
  assumes "add_memory m s = (Inr u, s')"
  obtains r d where "stored_form m = Inr r" "insert_memory r (the_db s) = Inr d" "s' = s\<lparr>the_db := d\<rparr>"
  using assms by (auto simp: add_memory_def split: sum.splits if_splits)

lemma add_memory_raised: "add_memory m s = (Inl e, s') \<Longrightarrow> s' = s"
  by (auto simp: add_memory_def split: sum.splits if_splits)

lemma balanced_add_memory: "balanced (add_memory m)"
  by (rule balancedI) (auto simp: add_memory_def split: sum.splits if_splits)

lemma preserves_wf_add_memory: "preserves_wf (add_memory m)"
proof
  fix s r s' assume wf: "wf_store s" and op: "add_memory m s = (r, s')"
  show "wf_store s'"
  proof (cases r)
    case (Inl e)
    then show ?thesis using op wf add_memory_raised by blast
  next
    case (Inr u)
    then obtain q d where "stored_form m = Inr q" "insert_memory q (the_db s) = Inr d" "s' = s\<lparr>the_db := d\<rparr>"
      using op add_memory_Inr by blast
    then show ?thesis
      using wf_insert_memory [OF wf_storeD [OF wf]] stored_form_Inr(1) wf_store_upd_db [OF wf] by metis
  qed
qed

text \<open>An insert answers the missing project by name and a used id by an integrity error.\<close>

lemma add_memory_errors:
  assumes "stored_form m = Inr r"
  shows "m_id m \<in> m_id ` set (memory_items (the_db s)) \<Longrightarrow> add_memory m s = (Inl (IntegrityError ''UNIQUE''), s)"
    and "m_id m \<notin> m_id ` set (memory_items (the_db s)) \<Longrightarrow> m_project_id m = Some p \<Longrightarrow>
           p \<notin> p_id ` set (projects (the_db s)) \<Longrightarrow> add_memory m s = (Inl (NotFoundError PROJECT_NOT_FOUND p), s)"
  using assms stored_form_Inr [OF assms] by (auto simp: add_memory_def insert_memory_def)

lemma add_memory_ok:
  assumes "stored_form m = Inr r" "m_id m \<notin> m_id ` set (memory_items (the_db s))"
    "\<forall>p. m_project_id m = Some p \<longrightarrow> p \<in> p_id ` set (projects (the_db s))"
  shows "add_memory m s =
    (Inr (), s\<lparr>the_db := fts_ai r ((the_db s)\<lparr>memory_items := memory_items (the_db s) @ [r]\<rparr>)\<rparr>)"
  using assms stored_form_Inr [OF assms(1)] by (auto simp: add_memory_def insert_memory_def split: option.splits)

lemma balanced_set_pinned: "balanced (set_pinned i b)"
  by (rule balancedI) (auto simp: set_pinned_def split: if_splits)

lemma preserves_wf_set_pinned: "preserves_wf (set_pinned i b)"
proof
  fix s r s' assume wf: "wf_store s" and op: "set_pinned i b s = (r, s')"
  have "wf_db (update_memory_row i (\<lambda>m. m\<lparr>m_pinned := b\<rparr>) (the_db s))"
    by (rule wf_update_memory_row [OF wf_storeD [OF wf]]) (auto simp: utc_memory_def)
  then show "wf_store s'" using op wf by (auto simp: set_pinned_def wf_store_upd_db split: if_splits)
qed

lemma balanced_update_memory: "balanced (update_memory now i c t)"
  by (rule balancedI) (auto simp: update_memory_def Let_def split: if_splits)

lemma preserves_wf_update_memory:
  assumes "is_utc now"
  shows "preserves_wf (update_memory now i c t)"
proof
  fix s r s' assume wf: "wf_store s" and op: "update_memory now i c t s = (r, s')"
  let ?f = "\<lambda>m. m\<lparr>m_updated_at := Some now,
     m_content := (case c of Some c \<Rightarrow> c | None \<Rightarrow> m_content m),
     m_tags := (case t of Some t \<Rightarrow> t | None \<Rightarrow> m_tags m)\<rparr>"
  have "wf_db (update_memory_row i ?f (the_db s))"
    by (rule wf_update_memory_row [OF wf_storeD [OF wf]]) (auto simp: utc_memory_def assms)
  then show "wf_store s'" using op wf by (auto simp: update_memory_def Let_def wf_store_upd_db split: if_splits)
qed

lemma balanced_delete_memory_body: "balanced (delete_memory_body i)"
  by (rule balancedI) (auto simp: delete_memory_body_def split: if_splits)

lemma preserves_wf_delete_memory_body: "preserves_wf (delete_memory_body i)"
  by (rule preserves_wfI) (auto simp: delete_memory_body_def wf_store_upd_with wf_delete_memory_rows split: if_splits)

lemma balanced_delete_memory: "balanced (delete_memory i)"
  by (simp add: delete_memory_def balanced_transaction balanced_delete_memory_body)

lemma preserves_wf_delete_memory: "preserves_wf (delete_memory i)"
  by (simp add: delete_memory_def preserves_wf_transaction balanced_delete_memory_body
      preserves_wf_delete_memory_body)

lemma delete_memory_raised: "delete_memory i s = (Inl e, s') \<Longrightarrow> the_db s' = the_db s"
  using transaction_raised [OF balanced_delete_memory_body] by (metis delete_memory_def)

lemma delete_memory_ok:
  assumes "delete_memory i s = (Inr u, s')"
  shows "i \<in> m_id ` set (memory_items (the_db s))"
    "the_db s' = delete_memory_rows (\<lambda>m. m_id m = i) (the_db s)"
proof -
  obtain s0 s1 where s0: "the_db s0 = the_db s" "delete_memory_body i (enter_transaction s0) = (Inr u, s1)"
      "the_db s' = the_db s1"
    using transaction_committed [OF balanced_delete_memory_body assms [unfolded delete_memory_def]] by metis
  then show "i \<in> m_id ` set (memory_items (the_db s))"
    "the_db s' = delete_memory_rows (\<lambda>m. m_id m = i) (the_db s)"
    by (auto simp: delete_memory_body_def split: if_splits)
qed

section \<open>Embeddings\<close>

lemma map_upsert_ids:
  "map e_memory_id (upsert_embedding e es) =
     map e_memory_id es @ (if e_memory_id e \<in> e_memory_id ` set es then [] else [e_memory_id e])"
  by (auto simp: upsert_embedding_def)

lemma set_upsert_embedding: "set (upsert_embedding e es) \<subseteq> insert e (set es)"
  by (auto simp: upsert_embedding_def)

lemma find_upsert_embedding:
  "List.find (\<lambda>x. e_memory_id x = i) (upsert_embedding e es) =
     (if e_memory_id e = i then Some e else List.find (\<lambda>x. e_memory_id x = i) es)"
proof (cases "e_memory_id e \<in> e_memory_id ` set es")
  case True
  have "List.find (\<lambda>x. e_memory_id x = i) (map (\<lambda>x. if e_memory_id x = e_memory_id e then e else x) es) =
      (if e_memory_id e = i then (if i \<in> e_memory_id ` set es then Some e else None)
       else List.find (\<lambda>x. e_memory_id x = i) es)"
    by (induction es) auto
  then show ?thesis using True by (auto simp: upsert_embedding_def)
next
  case False
  then have "List.find (\<lambda>x. e_memory_id x = e_memory_id e) es = None" unfolding find_None_key_iff .
  then show ?thesis using False by (auto simp: upsert_embedding_def find_append split: option.splits)
qed

lemma save_embedding_refused: "save_embedding h now i v sp ch st s = (False, s') \<Longrightarrow> s' = s"
  by (auto simp: save_embedding_def Let_def split: option.splits if_splits)

lemma save_embedding_published:
  assumes "save_embedding h now i v sp ch st s = (True, s')"
  obtains m where "get_memory i s = Some m" "h (m_content m) = ch"
    "s' = s\<lparr>the_db := (the_db s)\<lparr>memory_embeddings := upsert_embedding
       \<lparr>e_memory_id = i, e_embedding = v, e_model = sp_model sp, e_dimensions = length v,
        e_generated_at = now, e_provider = sp_provider sp, e_content_hash = ch,
        e_model_revision = sp_revision sp, e_settings_fingerprint = sp_fingerprint sp, e_status = st\<rparr>
       (memory_embeddings (the_db s))\<rparr>\<rparr>"
  using assms by (auto simp: save_embedding_def get_memory_def Let_def split: option.splits if_splits)

lemma save_embedding_frame [oc_frame]:
  assumes "save_embedding h now i v sp ch st s = (b, s')"
  shows "projects (the_db s') = projects (the_db s)" "memory_items (the_db s') = memory_items (the_db s)"
    "savepoints s' = savepoints s" "transaction_depth s' = transaction_depth s" "fts5_active s' = fts5_active s"
  using assms by (auto simp: save_embedding_def Let_def split: option.splits if_splits)

lemma wf_upsert_embedding:
  assumes "wf_db d" "e_memory_id e \<in> m_id ` set (memory_items d)" "e_dimensions e = length (e_embedding e)"
  shows "wf_db (d\<lparr>memory_embeddings := upsert_embedding e (memory_embeddings d)\<rparr>)"
proof -
  have mem: "x = e \<or> x \<in> set (memory_embeddings d)" if "x \<in> set (upsert_embedding e (memory_embeddings d))" for x
    using that set_upsert_embedding by blast
  show ?thesis
    using assms by (auto simp: wf_db_def keys_ok_def fks_ok_def rows_ok_def index_ok_def map_upsert_ids dest: mem)
qed

lemma wf_save_embedding:
  assumes wf: "wf_store s" and op: "save_embedding h now i v sp ch st s = (b, s')"
  shows "wf_store s'"
proof (cases b)
  case False
  then have "s' = s" using op save_embedding_refused by simp
  then show ?thesis using wf by simp
next
  case True
  then have "save_embedding h now i v sp ch st s = (True, s')" using op by simp
  then show ?thesis
  proof (rule save_embedding_published)
    fix m assume "get_memory i s = Some m"
    then have "i \<in> m_id ` set (memory_items (the_db s))"
      using find_Some_mem by (fastforce simp: get_memory_def)
    moreover assume "s' = s\<lparr>the_db := (the_db s)\<lparr>memory_embeddings := upsert_embedding
       \<lparr>e_memory_id = i, e_embedding = v, e_model = sp_model sp, e_dimensions = length v,
        e_generated_at = now, e_provider = sp_provider sp, e_content_hash = ch,
        e_model_revision = sp_revision sp, e_settings_fingerprint = sp_fingerprint sp, e_status = st\<rparr>
       (memory_embeddings (the_db s))\<rparr>\<rparr>"
    ultimately show ?thesis
      using wf_store_upd_db [OF wf wf_upsert_embedding [OF wf_storeD [OF wf]]] by simp
  qed
qed

lemma wf_delete_embedding: "wf_store s \<Longrightarrow> wf_store (delete_embedding i s)"
  by (auto simp: wf_store_def wf_defs delete_embedding_def distinct_map_filter)

section \<open>Opening the store\<close>

lemma wf_ensure_fts5: "wf_store s \<Longrightarrow> wf_store (ensure_fts5 ue av s)"
  by (auto simp: wf_store_def wf_defs ensure_fts5_def Let_def)

lemma wf_open_store: "wf_db d \<Longrightarrow> wf_store (open_store d env ue av)"
  unfolding open_store_def by (rule wf_ensure_fts5) (simp add: wf_store_def)

section \<open>The steps of the store and its reachable states\<close>

text \<open>
  One rule per method, the three ways the transaction manager moves between savepoints, and
  a restart of the process, which finds the committed file. Callers nest any methods between
  a begin and its commit or rollback.
\<close>

inductive store_step :: "(string \<Rightarrow> string) \<Rightarrow> store \<Rightarrow> store \<Rightarrow> bool" for hash where
  step_add_project: "add_project p s = (r, s') \<Longrightarrow> store_step hash s s'"
| step_update_project: "update_project i n md s = (r, s') \<Longrightarrow> store_step hash s s'"
| step_delete_project: "delete_project i s = (r, s') \<Longrightarrow> store_step hash s s'"
| step_add_memory: "add_memory m s = (r, s') \<Longrightarrow> store_step hash s s'"
| step_set_pinned: "set_pinned i b s = (r, s') \<Longrightarrow> store_step hash s s'"
| step_update_memory: "is_utc now \<Longrightarrow> update_memory now i c t s = (r, s') \<Longrightarrow> store_step hash s s'"
| step_delete_memory: "delete_memory i s = (r, s') \<Longrightarrow> store_step hash s s'"
| step_save_embedding: "save_embedding hash now i v sp ch st s = (r, s') \<Longrightarrow> store_step hash s s'"
| step_delete_embedding: "store_step hash s (delete_embedding i s)"
| step_begin: "store_step hash s (enter_transaction s)"
| step_commit: "savepoints s \<noteq> [] \<Longrightarrow> store_step hash s (leave_transaction (the_db s) s)"
| step_rollback: "savepoints s \<noteq> [] \<Longrightarrow> store_step hash s (leave_transaction (hd (savepoints s)) s)"
| step_reopen: "savepoints s = [] \<Longrightarrow> store_step hash s (open_store (the_db s) env ue av)"

inductive store_reachable :: "(string \<Rightarrow> string) \<Rightarrow> store \<Rightarrow> bool" for hash where
  reach_new: "store_reachable hash (open_store empty_db env ue av)"
| reach_step: "store_reachable hash s \<Longrightarrow> store_step hash s s' \<Longrightarrow> store_reachable hash s'"

lemma store_step_wf: "store_step hash s s' \<Longrightarrow> wf_store s \<Longrightarrow> wf_store s'"
proof (induction rule: store_step.induct)
  case (step_add_project p s r s')
  then show ?case using preserves_wfD [OF preserves_wf_add_project] by blast
next
  case (step_update_project i n md s r s')
  then show ?case using preserves_wfD [OF preserves_wf_update_project] by blast
next
  case (step_delete_project i s r s')
  then show ?case using preserves_wfD [OF preserves_wf_delete_project] by blast
next
  case (step_add_memory m s r s')
  then show ?case using preserves_wfD [OF preserves_wf_add_memory] by blast
next
  case (step_set_pinned i b s r s')
  then show ?case using preserves_wfD [OF preserves_wf_set_pinned] by blast
next
  case (step_update_memory now i c t s r s')
  then show ?case using preserves_wfD [OF preserves_wf_update_memory] by blast
next
  case (step_delete_memory i s r s')
  then show ?case using preserves_wfD [OF preserves_wf_delete_memory] by blast
next
  case (step_save_embedding now i v sp ch st s r s')
  then show ?case using wf_save_embedding by blast
qed (simp_all add: wf_delete_embedding wf_enter_transaction wf_leave_transaction wf_open_store wf_storeD)

lemma store_reachable_wf: "store_reachable hash s \<Longrightarrow> wf_store s"
  by (induction rule: store_reachable.induct) (auto intro: wf_open_store wf_empty_db store_step_wf)

end
