(* ===== verification/OC_Catalog.thy ===== *)
theory OC_Catalog
  imports OC_Contracts OC_Store_Steps
begin

text \<open>
  The store's contract (\<open>MemoryStorePort\<close> and \<open>StoragePort\<close>), as an abstract
  specification: three finite maps with the effect of each operation on them, cascades
  included, and no word about tables, indexes, savepoints or locks. The store refines it:
  \<^const>\<open>state_refinement\<close> is interpreted on the store's own methods.
\<close>

section \<open>The specification\<close>

record catalog =
  c_projects :: "string \<Rightarrow> project option"
  c_memories :: "string \<Rightarrow> memory_item option"
  c_embeddings :: "string \<Rightarrow> embedding_row option"

datatype store_op =
    AddProject project
  | UpdateProject string "string option" "metadata option"
  | DeleteProject string
  | AddMemory memory_item
  | SetPinned string bool
  | UpdateMemory datetime string "string option" "string list option"
  | DeleteMemory string
  | SaveEmbedding datetime string "rat list" embedding_space string string
  | DeleteEmbedding string

definition edited :: "datetime \<Rightarrow> string option \<Rightarrow> string list option \<Rightarrow> memory_item \<Rightarrow> memory_item" where
  "edited now content tags m =
     m\<lparr>m_updated_at := Some now,
       m_content := (case content of Some c \<Rightarrow> c | None \<Rightarrow> m_content m),
       m_tags := (case tags of Some t \<Rightarrow> t | None \<Rightarrow> m_tags m)\<rparr>"

definition renamed :: "string option \<Rightarrow> metadata option \<Rightarrow> project \<Rightarrow> project" where
  "renamed name md p =
     p\<lparr>p_name := (case name of Some n \<Rightarrow> n | None \<Rightarrow> p_name p),
       p_metadata := (case md of Some v \<Rightarrow> v | None \<Rightarrow> p_metadata p)\<rparr>"

definition vector_row :: "datetime \<Rightarrow> string \<Rightarrow> rat list \<Rightarrow> embedding_space \<Rightarrow> string \<Rightarrow> string \<Rightarrow> embedding_row" where
  "vector_row now i vec sp content_hash status =
     \<lparr>e_memory_id = i, e_embedding = vec, e_model = sp_model sp, e_dimensions = length vec,
      e_generated_at = now, e_provider = sp_provider sp, e_content_hash = content_hash,
      e_model_revision = sp_revision sp, e_settings_fingerprint = sp_fingerprint sp, e_status = status\<rparr>"

definition in_project :: "string \<Rightarrow> catalog \<Rightarrow> string \<Rightarrow> bool" where
  "in_project i c k \<longleftrightarrow> (\<exists>m. c_memories c k = Some m \<and> m_project_id m = Some i)"

fun catalog_spec :: "(string \<Rightarrow> string) \<Rightarrow> store_op \<Rightarrow> catalog \<Rightarrow> catalog option" where
  "catalog_spec hash (AddProject p) c =
     (case require_utc (p_created_at p) ''created_at'' of
        Inl _ \<Rightarrow> None
      | Inr t \<Rightarrow> if c_projects c (p_id p) \<noteq> None then None
                 else Some (c\<lparr>c_projects := (c_projects c)(p_id p \<mapsto> p\<lparr>p_created_at := t\<rparr>)\<rparr>))"
| "catalog_spec hash (UpdateProject i name md) c =
     (if name = None \<and> md = None then None
      else (case c_projects c i of
              None \<Rightarrow> None
            | Some p \<Rightarrow> Some (c\<lparr>c_projects := (c_projects c)(i \<mapsto> renamed name md p)\<rparr>)))"
| "catalog_spec hash (DeleteProject i) c =
     (if c_projects c i = None then None
      else Some \<lparr>c_projects = (c_projects c)(i := None),
                 c_memories = (\<lambda>k. if in_project i c k then None else c_memories c k),
                 c_embeddings = (\<lambda>k. if in_project i c k then None else c_embeddings c k)\<rparr>)"
| "catalog_spec hash (AddMemory m) c =
     (case stored_form m of
        Inl _ \<Rightarrow> None
      | Inr r \<Rightarrow> if c_memories c (m_id m) \<noteq> None
                    \<or> (case m_project_id m of None \<Rightarrow> False | Some p \<Rightarrow> c_projects c p = None)
                 then None else Some (c\<lparr>c_memories := (c_memories c)(m_id m \<mapsto> r)\<rparr>))"
| "catalog_spec hash (SetPinned i b) c =
     (case c_memories c i of
        None \<Rightarrow> None
      | Some m \<Rightarrow> Some (c\<lparr>c_memories := (c_memories c)(i \<mapsto> m\<lparr>m_pinned := b\<rparr>)\<rparr>))"
| "catalog_spec hash (UpdateMemory now i content tags) c =
     (case c_memories c i of
        None \<Rightarrow> None
      | Some m \<Rightarrow> Some (c\<lparr>c_memories := (c_memories c)(i \<mapsto> edited now content tags m)\<rparr>))"
| "catalog_spec hash (DeleteMemory i) c =
     (if c_memories c i = None then None
      else Some (c\<lparr>c_memories := (c_memories c)(i := None), c_embeddings := (c_embeddings c)(i := None)\<rparr>))"
| "catalog_spec hash (SaveEmbedding now i vec sp content_hash status) c =
     (case c_memories c i of
        None \<Rightarrow> Some c
      | Some m \<Rightarrow> if hash (m_content m) = content_hash
                  then Some (c\<lparr>c_embeddings := (c_embeddings c)(i \<mapsto> vector_row now i vec sp content_hash status)\<rparr>)
                  else Some c)"
| "catalog_spec hash (DeleteEmbedding i) c = Some (c\<lparr>c_embeddings := (c_embeddings c)(i := None)\<rparr>)"

section \<open>The methods as operations\<close>

definition catalog_of :: "store \<Rightarrow> catalog" where
  "catalog_of s = \<lparr>c_projects = (\<lambda>i. get_project i s), c_memories = (\<lambda>i. get_memory i s),
                   c_embeddings = (\<lambda>i. find_embedding i s)\<rparr>"

definition no_value :: "'a store_result \<Rightarrow> unit store_result" where
  "no_value r = (map_sum id (\<lambda>_. ()) (fst r), snd r)"

fun exec_op :: "(string \<Rightarrow> string) \<Rightarrow> store_op \<Rightarrow> store \<Rightarrow> unit store_result" where
  "exec_op hash (AddProject p) s = add_project p s"
| "exec_op hash (UpdateProject i name md) s = no_value (update_project i name md s)"
| "exec_op hash (DeleteProject i) s = no_value (delete_project i s)"
| "exec_op hash (AddMemory m) s = add_memory m s"
| "exec_op hash (SetPinned i b) s = set_pinned i b s"
| "exec_op hash (UpdateMemory now i content tags) s = no_value (update_memory now i content tags s)"
| "exec_op hash (DeleteMemory i) s = delete_memory i s"
| "exec_op hash (SaveEmbedding now i vec sp ch status) s =
     (Inr (), snd (save_embedding hash now i vec sp ch status s))"
| "exec_op hash (DeleteEmbedding i) s = (Inr (), delete_embedding i s)"

text \<open>The body of a \<open>with store.transaction():\<close> block: calls in order, up to the first raise.\<close>

fun seq_ops :: "('o \<Rightarrow> 's \<Rightarrow> ('e, 'r, 's) outcome) \<Rightarrow> 'o list \<Rightarrow> 's \<Rightarrow> ('e, unit, 's) outcome" where
  "seq_ops exec [] s = (Inr (), s)"
| "seq_ops exec (p # ps) s =
     (case exec p s of (Inl e, s1) \<Rightarrow> (Inl e, s1) | (Inr _, s1) \<Rightarrow> seq_ops exec ps s1)"

text \<open>Edits are stamped with \<open>utc_now()\<close>.\<close>

fun stamped_utc :: "store_op \<Rightarrow> bool" where
  "stamped_utc (UpdateMemory now i content tags) = is_utc now"
| "stamped_utc _ = True"

fun is_locked :: "exc \<Rightarrow> bool" where
  "is_locked (OperationalError _) = True"
| "is_locked _ = False"

section \<open>What each statement does to the maps\<close>

lemma no_value_iff [simp]:
  "no_value r = (Inl e, s') \<longleftrightarrow> r = (Inl e, s')"
  "no_value r = (Inr u, s') \<longleftrightarrow> (\<exists>v. r = (Inr v, s'))"
  by (cases r; cases "fst r"; auto simp: no_value_def)+

lemma no_valueD: "no_value r = (v, s') \<Longrightarrow> \<exists>u. r = (u, s')"
  by (cases r) (auto simp: no_value_def)

lemma get_project_None: "get_project i s = None \<longleftrightarrow> i \<notin> p_id ` set (projects (the_db s))"
  unfolding get_project_def by (rule find_None_key_iff)

lemma get_memory_None: "get_memory i s = None \<longleftrightarrow> i \<notin> m_id ` set (memory_items (the_db s))"
  unfolding get_memory_def by (rule find_None_key_iff)

lemma get_memory_id: "get_memory i s = Some m \<Longrightarrow> m_id m = i"
  unfolding get_memory_def using find_Some_mem by fastforce

lemma catalog_of_sel [simp]:
  "c_projects (catalog_of s) i = get_project i s"
  "c_memories (catalog_of s) i = get_memory i s"
  "c_embeddings (catalog_of s) i = find_embedding i s"
  by (simp_all add: catalog_of_def)

lemma find_snoc_new:
  "f x \<notin> f ` set xs \<Longrightarrow>
     List.find (\<lambda>y. f y = k) (xs @ [x]) = (if k = f x then Some x else List.find (\<lambda>y. f y = k) xs)"
  by (induction xs) auto

lemma find_filter_key:
  "List.find (\<lambda>y. f y = k) (filter (\<lambda>y. f y \<noteq> j) xs) =
     (if k = j then None else List.find (\<lambda>y. f y = k) xs)"
  by (induction xs) auto

lemma find_map_upd:
  assumes "\<And>x. f (g x) = f x"
  shows "List.find (\<lambda>y. f y = k) (map (\<lambda>x. if f x = j then g x else x) xs) =
    (if k = j then map_option g (List.find (\<lambda>y. f y = j) xs) else List.find (\<lambda>y. f y = k) xs)"
  using assms by (induction xs) auto

lemma find_filter_pred:
  assumes "distinct (map f xs)"
  shows "List.find (\<lambda>y. f y = k) (filter P xs) =
    (case List.find (\<lambda>y. f y = k) xs of None \<Rightarrow> None | Some x \<Rightarrow> if P x then Some x else None)"
  using assms
proof (induction xs)
  case (Cons x xs)
  show ?case
  proof (cases "f x = k")
    case True
    then have "k \<notin> f ` set (filter P xs)" using Cons.prems by auto
    then have "List.find (\<lambda>y. f y = k) (filter P xs) = None" unfolding find_None_key_iff .
    then show ?thesis using True by simp
  qed (use Cons in simp)
qed simp

lemma find_filter_notin:
  "List.find (\<lambda>y. f y = k) (filter (\<lambda>y. f y \<notin> K) xs) =
     (if k \<in> K then None else List.find (\<lambda>y. f y = k) xs)"
  by (induction xs) auto

lemma get_memory_update_row:
  assumes "\<And>m. m_id (f m) = m_id m" "get_memory i s = Some m"
  shows "get_memory k (s\<lparr>the_db := update_memory_row i f (the_db s)\<rparr>) =
    (if k = i then Some (f m) else get_memory k s)"
  using assms by (simp add: get_memory_def update_memory_row_def find_map_upd [where f = m_id and g = f])

lemma update_row_frame:
  "projects (update_memory_row i f d) = projects d"
  "memory_embeddings (update_memory_row i f d) = memory_embeddings d"
  by (simp_all add: update_memory_row_def split: option.split)

lemma catalog_update_row:
  assumes "\<And>m. m_id (f m) = m_id m" "get_memory i s = Some m"
  shows "catalog_of (s\<lparr>the_db := update_memory_row i f (the_db s)\<rparr>) =
    (catalog_of s)\<lparr>c_memories := (c_memories (catalog_of s))(i \<mapsto> f m)\<rparr>"
  using get_memory_update_row [OF assms]
  by (simp add: catalog_of_def fun_eq_iff get_project_def find_embedding_def update_row_frame)

lemma catalog_of_db: "the_db s = the_db t \<Longrightarrow> catalog_of s = catalog_of t"
  by (simp add: catalog_of_def get_project_def get_memory_def find_embedding_def)

lemma gone_iff:
  assumes "distinct (map m_id (memory_items (the_db s)))"
  shows "k \<in> m_id ` set (filter P (memory_items (the_db s))) \<longleftrightarrow> (\<exists>m. get_memory k s = Some m \<and> P m)"
  using assms by (auto simp: get_memory_def find_key_iff)

lemma catalog_delete_rows:
  assumes "wf_store s" "the_db s' = (delete_memory_rows P (the_db s))\<lparr>projects := ps\<rparr>"
  shows "catalog_of s' =
    \<lparr>c_projects = (\<lambda>i. List.find (\<lambda>p. p_id p = i) ps),
     c_memories = (\<lambda>k. case get_memory k s of None \<Rightarrow> None | Some m \<Rightarrow> if P m then None else Some m),
     c_embeddings = (\<lambda>k. if \<exists>m. get_memory k s = Some m \<and> P m then None else find_embedding k s)\<rparr>"
proof -
  note dist = wf_keysD(2) [OF wf_storeD [OF assms(1)]]
  let ?gone = "m_id ` set (filter P (memory_items (the_db s)))"
  have "get_memory k s' = (case get_memory k s of None \<Rightarrow> None | Some m \<Rightarrow> if P m then None else Some m)" for k
    by (simp add: assms(2) get_memory_def find_filter_pred [OF dist] split: option.split)
  moreover have "find_embedding k s' = (if k \<in> ?gone then None else find_embedding k s)" for k
    unfolding find_embedding_def assms(2) by (simp add: find_filter_notin del: set_filter)
  ultimately show ?thesis
    unfolding gone_iff [OF dist] by (simp add: catalog_of_def assms(2) get_project_def fun_eq_iff)
qed

section \<open>The store refines the specification\<close>

lemma transaction_error:
  assumes "transaction body s = (Inl e, s')"
  obtains "is_locked e" | s0 s1 where "the_db s0 = the_db s" "body (enter_transaction s0) = (Inl e, s1)"
proof (cases "transaction_depth s = 0")
  case True
  obtain r as where r: "begin_retry BEGIN_MAX_RETRIES (begin_attempts s) = (r, as)" by fastforce
  have lock: "begin_retry n bs = (Inl e', as) \<Longrightarrow> is_locked e'" for n bs e'
    by (induction n bs rule: begin_retry.induct) auto
  show ?thesis
  proof (cases r)
    case (Inl e')
    then have "e' = e" using assms True r by (simp add: transaction_def begin_immediate_with_retry_def)
    then show ?thesis using that(1) lock r Inl by blast
  next
    case (Inr u)
    let ?s0 = "s\<lparr>begin_attempts := as\<rparr>"
    have "\<exists>s1. body (enter_transaction ?s0) = (Inl e, s1)"
      using assms True r Inr by (auto simp: transaction_def begin_immediate_with_retry_def split: prod.splits sum.splits)
    then show ?thesis using that(2) [of ?s0] by auto
  qed
next
  case False
  then have "\<exists>s1. body (enter_transaction s) = (Inl e, s1)"
    using assms by (auto simp: transaction_def split: prod.splits sum.splits)
  then show ?thesis using that(2) [of s] by auto
qed

lemma delete_project_error:
  "delete_project i s = (Inl e, s') \<Longrightarrow> is_locked e \<or> get_project i s = None"
  unfolding delete_project_def
  by (erule transaction_error) (auto simp: delete_project_body_simp get_project_None split: if_splits)

lemma delete_memory_error:
  "delete_memory i s = (Inl e, s') \<Longrightarrow> is_locked e \<or> get_memory i s = None"
  unfolding delete_memory_def
  by (erule transaction_error) (auto simp: delete_memory_body_def get_memory_None split: if_splits)

lemma update_project_renamed:
  "update_project i n md s =
     (if n = None \<and> md = None
      then (Inl (ValueError ''update_project requires at least one of name or metadata''), s)
      else if i \<notin> p_id ` set (projects (the_db s)) then (Inl (NotFoundError PROJECT_NOT_FOUND i), s)
      else (let s1 = s\<lparr>the_db := (the_db s)\<lparr>projects :=
                       map (\<lambda>p. if p_id p = i then renamed n md p else p) (projects (the_db s))\<rparr>\<rparr>
            in (case get_project i s1 of
                  Some p \<Rightarrow> (Inr p, s1)
                | None \<Rightarrow> (Inl (OtherError ''AssertionError''), s1))))"
  unfolding update_project_def renamed_def Let_def ..

lemma update_project_error:
  assumes "update_project i n md s = (Inl e, s')"
  shows "s' = s \<and> (n = None \<and> md = None \<or> get_project i s = None)"
proof (cases "get_project i s")
  case None
  then show ?thesis
    using assms by (auto simp: update_project_def get_project_None Let_def split: if_splits option.splits)
next
  case (Some p)
  have "p_id (renamed n md q) = p_id q" for q by (simp add: renamed_def)
  then have "get_project i (s\<lparr>the_db := (the_db s)\<lparr>projects :=
      map (\<lambda>p. if p_id p = i then renamed n md p else p) (projects (the_db s))\<rparr>\<rparr>) = Some (renamed n md p)"
    using Some find_map_upd [of p_id "renamed n md" i i "projects (the_db s)"] by (simp add: get_project_def)
  moreover have "i \<in> p_id ` set (projects (the_db s))" using Some get_project_None [of i s] by auto
  ultimately show ?thesis
    using assms unfolding update_project_renamed Let_def by (auto split: if_splits)
qed

lemma add_memory_error:
  assumes "add_memory m s = (Inl e, s')" "stored_form m = Inr r"
  shows "get_memory (m_id m) s \<noteq> None \<or> (\<exists>p. m_project_id m = Some p \<and> get_project p s = None)"
proof (rule ccontr)
  assume "\<not> ?thesis"
  then have "m_id m \<notin> m_id ` set (memory_items (the_db s))"
    "\<forall>p. m_project_id m = Some p \<longrightarrow> p \<in> p_id ` set (projects (the_db s))"
    by (simp_all add: get_memory_None get_project_None)
  then show False using add_memory_ok [OF assms(2)] assms(1) by simp
qed

lemma exec_keeps:
  assumes "wf_store s" "stamped_utc p" "exec_op hash p s = (r, s')"
  shows "wf_store s'"
proof -
  have "store_step hash s s'"
  proof (cases p)
    case (SaveEmbedding now i v sp ch st)
    then show ?thesis
      using assms(3) step_save_embedding [OF surjective_pairing [of "save_embedding hash now i v sp ch st s"]] by simp
  qed (use assms(2,3) in \<open>auto intro: store_step.intros dest: no_valueD\<close>)
  then show ?thesis using store_step_wf assms(1) by blast
qed

lemma find_save_embedding:
  "find_embedding k (snd (save_embedding hash now i v sp ch st s)) =
     (case get_memory i s of
        None \<Rightarrow> find_embedding k s
      | Some m \<Rightarrow> if hash (m_content m) = ch \<and> k = i then Some (vector_row now i v sp ch st)
                  else find_embedding k s)"
  by (auto simp: save_embedding_def get_memory_def find_embedding_def find_upsert_embedding vector_row_def Let_def
      split: option.split)

lemma catalog_save_embedding:
  "Some (catalog_of (snd (save_embedding hash now i v sp ch st s))) =
     catalog_spec hash (SaveEmbedding now i v sp ch st) (catalog_of s)"
proof -
  let ?s = "snd (save_embedding hash now i v sp ch st s)"
  have "get_project k ?s = get_project k s" "get_memory k ?s = get_memory k s" for k
    using save_embedding_frame [of hash now i v sp ch st s "fst (save_embedding hash now i v sp ch st s)" ?s]
    by (simp_all add: get_project_def get_memory_def)
  then show ?thesis
    by (auto simp: catalog_of_def find_save_embedding fun_eq_iff split: option.split)
qed

lemma catalog_add_project:
  assumes "add_project p s = (Inr u, s')"
  shows "catalog_spec hash (AddProject p) (catalog_of s) = Some (catalog_of s')"
proof -
  obtain t where "require_utc (p_created_at p) ''created_at'' = Inr t" "p_id p \<notin> p_id ` set (projects (the_db s))"
    "s' = s\<lparr>the_db := (the_db s)\<lparr>projects := projects (the_db s) @ [p\<lparr>p_created_at := t\<rparr>]\<rparr>\<rparr>"
    using assms by (auto simp: add_project_def insert_project_def split: sum.splits if_splits)
  then show ?thesis
    using find_snoc_new [of p_id "p\<lparr>p_created_at := t\<rparr>" "projects (the_db s)"]
    by (auto simp: catalog_of_def get_project_def get_memory_def find_embedding_def fun_eq_iff find_None_key_iff)
qed

lemma catalog_update_project:
  assumes "update_project i n md s = (Inr v, s')"
  shows "catalog_spec hash (UpdateProject i n md) (catalog_of s) = Some (catalog_of s')"
proof -
  have i: "i \<in> p_id ` set (projects (the_db s))" and nm: "\<not> (n = None \<and> md = None)"
    and s': "s' = s\<lparr>the_db := (the_db s)\<lparr>projects :=
      map (\<lambda>p. if p_id p = i then renamed n md p else p) (projects (the_db s))\<rparr>\<rparr>"
    using assms by (auto simp: update_project_def renamed_def Let_def split: if_splits option.splits)
  obtain p where p: "get_project i s = Some p" using i get_project_None [of i s] by auto
  have "p_id (renamed n md q) = p_id q" for q by (simp add: renamed_def)
  then have "get_project k s' = (if k = i then Some (renamed n md p) else get_project k s)" for k
    using find_map_upd [of p_id "renamed n md" k i "projects (the_db s)"] p by (simp add: s' get_project_def)
  moreover have "get_memory k s' = get_memory k s" "find_embedding k s' = find_embedding k s" for k
    by (simp_all add: s' get_memory_def find_embedding_def)
  ultimately show ?thesis using nm p by (auto simp: catalog_of_def fun_eq_iff)
qed

lemma catalog_delete_project:
  assumes "wf_store s" "delete_project i s = (Inr v, s')"
  shows "catalog_spec hash (DeleteProject i) (catalog_of s) = Some (catalog_of s')"
proof -
  note d = delete_project_ok [OF assms(2)]
  have "c_projects (catalog_of s) i \<noteq> None" using d(1) get_project_None [of i s] by auto
  moreover have "catalog_of s' =
    \<lparr>c_projects = (\<lambda>j. List.find (\<lambda>p. p_id p = j) (filter (\<lambda>p. p_id p \<noteq> i) (projects (the_db s)))),
     c_memories = (\<lambda>k. case get_memory k s of None \<Rightarrow> None | Some m \<Rightarrow> if m_project_id m = Some i then None else Some m),
     c_embeddings = (\<lambda>k. if \<exists>m. get_memory k s = Some m \<and> m_project_id m = Some i then None else find_embedding k s)\<rparr>"
    using catalog_delete_rows [OF assms(1)] d(2) unfolding drop_project_def by blast
  ultimately show ?thesis
    by (auto simp: in_project_def find_filter_key get_project_def fun_eq_iff split: option.split)
qed

lemma catalog_add_memory:
  assumes "add_memory m s = (Inr u, s')"
  shows "catalog_spec hash (AddMemory m) (catalog_of s) = Some (catalog_of s')"
proof -
  obtain r d where r: "stored_form m = Inr r" "insert_memory r (the_db s) = Inr d" "s' = s\<lparr>the_db := d\<rparr>"
    using assms add_memory_Inr by blast
  note ins = insert_memory_Inr [OF r(2)] and same = stored_form_Inr [OF r(1)]
  have "get_memory k s' = (if k = m_id m then Some r else get_memory k s)" for k
    using find_snoc_new [of m_id r "memory_items (the_db s)" k] ins(2) same(2)
    by (auto simp: r(3) ins(1) get_memory_def)
  moreover have "get_project k s' = get_project k s" "find_embedding k s' = find_embedding k s" for k
    by (simp_all add: r(3) ins(1) get_project_def find_embedding_def)
  moreover have "get_memory (m_id m) s = None" using ins(2) same(2) by (simp add: get_memory_None)
  moreover have "m_project_id m = Some p \<Longrightarrow> get_project p s \<noteq> None" for p
    using ins(3) same(6) unfolding get_project_None by simp
  ultimately show ?thesis
    using r(1) by (auto simp: catalog_of_def fun_eq_iff split: option.split)
qed

lemma edited_id [simp]: "m_id (edited now c t m) = m_id m"
  by (simp add: edited_def)

lemma catalog_change_memory:
  assumes "i \<in> m_id ` set (memory_items (the_db s))" "\<And>m. m_id (f m) = m_id m"
  shows "Some (catalog_of (s\<lparr>the_db := update_memory_row i f (the_db s)\<rparr>)) =
    (case c_memories (catalog_of s) i of None \<Rightarrow> None
     | Some m \<Rightarrow> Some ((catalog_of s)\<lparr>c_memories := (c_memories (catalog_of s))(i \<mapsto> f m)\<rparr>))"
proof -
  obtain m where "get_memory i s = Some m" using assms(1) get_memory_None [of i s] by auto
  then show ?thesis using catalog_update_row [of f, OF assms(2)] by simp
qed

lemma catalog_set_pinned:
  assumes "set_pinned i b s = (Inr u, s')"
  shows "catalog_spec hash (SetPinned i b) (catalog_of s) = Some (catalog_of s')"
  using assms catalog_change_memory [of i s "\<lambda>m. m\<lparr>m_pinned := b\<rparr>"]
  by (auto simp: set_pinned_def simp del: catalog_of_sel split: if_splits)

lemma catalog_update_memory:
  assumes "update_memory now i c t s = (Inr v, s')"
  shows "catalog_spec hash (UpdateMemory now i c t) (catalog_of s) = Some (catalog_of s')"
proof -
  have "i \<in> m_id ` set (memory_items (the_db s))"
    "s' = s\<lparr>the_db := update_memory_row i (edited now c t) (the_db s)\<rparr>"
    using assms by (auto simp: update_memory_def edited_def [abs_def] Let_def split: if_splits)
  then show ?thesis using catalog_change_memory [of i s "edited now c t"] by simp
qed

lemma catalog_delete_memory:
  assumes "wf_store s" "delete_memory i s = (Inr u, s')"
  shows "catalog_spec hash (DeleteMemory i) (catalog_of s) = Some (catalog_of s')"
proof -
  note d = delete_memory_ok [OF assms(2)]
  obtain m where m: "get_memory i s = Some m" using d(1) get_memory_None [of i s] by auto
  have "the_db s' = (delete_memory_rows (\<lambda>m. m_id m = i) (the_db s))\<lparr>projects := projects (the_db s)\<rparr>"
    by (simp add: d(2))
  note c = catalog_delete_rows [OF assms(1) this]
  show ?thesis
    unfolding c using m by (auto simp: catalog_of_def get_project_def fun_eq_iff dest: get_memory_id split: option.split)
qed

lemma exec_returns:
  assumes "wf_store s" "exec_op hash p s = (Inr u, s')"
  shows "catalog_spec hash p (catalog_of s) = Some (catalog_of s')"
proof (cases p)
  case (SaveEmbedding now i v sp ch st)
  then show ?thesis using assms(2) catalog_save_embedding [of hash now i v sp ch st s] by simp
next
  case (DeleteEmbedding i)
  then show ?thesis
    using assms(2) by (auto simp: catalog_of_def delete_embedding_def get_project_def get_memory_def
        find_embedding_def find_filter_key fun_eq_iff)
qed (use assms in \<open>auto simp del: catalog_spec.simps intro: catalog_add_project catalog_update_project
    catalog_delete_project catalog_add_memory catalog_set_pinned catalog_update_memory catalog_delete_memory\<close>)

lemma exec_raises:
  assumes "wf_store s" "exec_op hash p s = (Inl e, s')"
  shows "catalog_of s' = catalog_of s \<and> (catalog_spec hash p (catalog_of s) = None \<or> is_locked e)"
proof (cases p)
  case (AddProject q)
  then show ?thesis
    using assms(2) get_project_None [of "p_id q" s]
    by (auto simp: add_project_def insert_project_def split: sum.splits if_splits)
next
  case (UpdateProject i n md)
  have "update_project i n md s = (Inl e, s')" using assms(2) UpdateProject by simp
  from update_project_error [OF this] show ?thesis using UpdateProject by auto
next
  case (AddMemory m)
  have "add_memory m s = (Inl e, s')" using assms(2) AddMemory by simp
  from add_memory_raised [OF this] add_memory_error [OF this] show ?thesis
    using AddMemory by (cases "stored_form m") auto
next
  case (DeleteProject i)
  then show ?thesis
    using assms(2) delete_project_error [of i s e s'] delete_project_raised [of i s e s'] catalog_of_db [of s' s] by auto
next
  case (DeleteMemory i)
  then show ?thesis
    using assms(2) delete_memory_error [of i s e s'] delete_memory_raised [of i s e s'] catalog_of_db [of s' s] by auto
next
  case (SetPinned i b)
  then show ?thesis
    using assms(2) get_memory_None [of i s] by (auto simp: set_pinned_def split: if_splits)
next
  case (UpdateMemory now i c t)
  then show ?thesis
    using assms(2) get_memory_None [of i s] by (auto simp: update_memory_def Let_def split: if_splits)
qed (use assms(2) in simp_all)

interpretation sql: state_refinement wf_store stamped_utc catalog_of "exec_op hash" "catalog_spec hash" is_locked for hash
proof
  show "wf_store s'" if "wf_store s" "stamped_utc p" "exec_op hash p s = (r, s')" for s p r s'
    using that by (rule exec_keeps)
  show "catalog_spec hash p (catalog_of s) = Some (catalog_of s')"
    if "wf_store s" "stamped_utc p" "exec_op hash p s = (Inr v, s')" for s p v s'
    using that by (blast intro: exec_returns)
  show "catalog_of s' = catalog_of s \<and> (catalog_spec hash p (catalog_of s) = None \<or> is_locked e)"
    if "wf_store s" "stamped_utc p" "exec_op hash p s = (Inl e, s')" for s p e s'
    using that(1,3) by (rule exec_raises)
qed

section \<open>Transaction bodies\<close>

lemma balanced_no_value: "balanced f \<Longrightarrow> balanced (\<lambda>s. no_value (f s))"
  unfolding balanced_def by (blast dest: no_valueD)

lemma exec_op_methods:
  "exec_op hash (AddProject p) = add_project p"
  "exec_op hash (UpdateProject i name md) = (\<lambda>s. no_value (update_project i name md s))"
  "exec_op hash (DeleteProject i) = (\<lambda>s. no_value (delete_project i s))"
  "exec_op hash (AddMemory m) = add_memory m"
  "exec_op hash (SetPinned i b) = set_pinned i b"
  "exec_op hash (UpdateMemory now i content tags) = (\<lambda>s. no_value (update_memory now i content tags s))"
  "exec_op hash (DeleteMemory i) = delete_memory i"
  by (simp_all add: fun_eq_iff)

lemma balanced_exec: "balanced (exec_op hash p)"
proof (cases p)
  case (SaveEmbedding now i v sp ch st)
  have "savepoints (snd (save_embedding hash now i v sp ch st s)) = savepoints s \<and>
      transaction_depth (snd (save_embedding hash now i v sp ch st s)) = transaction_depth s" for s
    using save_embedding_frame(3,4) [OF surjective_pairing [of "save_embedding hash now i v sp ch st s"]] by simp
  then show ?thesis using SaveEmbedding by (auto simp: balanced_def)
next
  case (DeleteEmbedding i)
  then show ?thesis by (auto simp: balanced_def delete_embedding_def)
qed (simp_all add: exec_op_methods balanced_add_project balanced_update_project balanced_delete_project
    balanced_add_memory balanced_set_pinned balanced_update_memory balanced_delete_memory balanced_no_value)

lemma balanced_seq_ops:
  assumes "\<And>p. balanced (exec p)"
  shows "balanced (seq_ops exec ps)"
proof (induction ps)
  case (Cons p ps)
  show ?case
  proof
    fix s r s' assume "seq_ops exec (p # ps) s = (r, s')"
    then show "savepoints s' = savepoints s \<and> transaction_depth s' = transaction_depth s"
      using balancedD [OF assms] balancedD [OF Cons] by (fastforce split: prod.splits sum.splits)
  qed
qed (simp add: balanced_def)

lemma wf_seq_ops:
  "wf_store s \<Longrightarrow> list_all stamped_utc ps \<Longrightarrow> seq_ops (exec_op hash) ps s = (r, s') \<Longrightarrow> wf_store s'"
  by (induction ps arbitrary: s) (auto split: prod.splits sum.splits dest: exec_keeps)

lemma seq_ops_refines:
  "wf_store s \<Longrightarrow> list_all stamped_utc ps \<Longrightarrow> seq_ops (exec_op hash) ps s = (Inr u, s') \<Longrightarrow>
     spec_run (catalog_spec hash) (map (\<lambda>p. (p, True)) ps) (catalog_of s) = Some (catalog_of s')"
proof (induction ps arbitrary: s)
  case (Cons p ps)
  then obtain v s1 where "exec_op hash p s = (Inr v, s1)" "seq_ops (exec_op hash) ps s1 = (Inr u, s')"
    by (auto split: prod.splits sum.splits)
  then show ?case
    using Cons.IH [of s1] Cons.prems exec_returns [of s hash p v s1] exec_keeps [of s p hash] by auto
qed simp

end
