(* ===== verification/OC_Fts_Index.thy ===== *)
theory OC_Fts_Index
  imports OC_Catalog
begin

text \<open>
  The full-text index. Its triggers keep it complete: once every row is indexed, every write
  leaves every row indexed. \<open>_ensure_fts5\<close> establishes this for an empty table only.
\<close>

definition indexed :: "db \<Rightarrow> bool" where
  "indexed d \<longleftrightarrow> fts_installed d \<and> fts_complete d"

lemma indexed_iff: "indexed d \<longleftrightarrow> fts_installed d \<and> set (memory_fts d) = fts_entry_of ` set (memory_items d)"
  by (auto simp: indexed_def fts_complete_def)

lemma indexed_insert_memory: "indexed d \<Longrightarrow> insert_memory m d = Inr d' \<Longrightarrow> indexed d'"
  by (drule insert_memory_Inr(1)) (simp add: indexed_iff fts_ai_def)

lemma indexed_delete_rows:
  assumes "wf_db d" "indexed d"
  shows "indexed (delete_memory_rows P d)"
proof -
  let ?gone = "m_id ` set (filter P (memory_items d))"
  have "{f \<in> fts_entry_of ` set (memory_items d). f_id f \<notin> ?gone} = fts_entry_of ` set (filter (\<lambda>m. \<not> P m) (memory_items d))"
    using wf_keysD(2) [OF assms(1)] by (auto simp: distinct_map inj_on_def image_iff)
  then show ?thesis
    using assms(2) by (simp add: indexed_iff delete_memory_rows_def fts_ad_def Let_def)
qed

lemma indexed_update_row:
  assumes "wf_db d" "indexed d" "\<And>m. m_id (f m) = m_id m"
  shows "indexed (update_memory_row i f d)"
proof (cases "List.find (\<lambda>m. m_id m = i) (memory_items d)")
  case None
  then show ?thesis using assms(2) by (simp add: update_memory_row_def)
next
  case (Some m)
  have m: "m \<in> set (memory_items d)" "m_id m = i" using find_Some_mem [OF Some] by auto
  then have uniq: "x = m" if "x \<in> set (memory_items d)" "m_id x = i" for x
    using wf_keysD(2) [OF assms(1)] that by (auto simp: distinct_map inj_on_def)
  have "fts_entry_of ` set (map (\<lambda>x. if m_id x = i then f x else x) (memory_items d)) =
      insert (fts_entry_of (f m)) {e \<in> fts_entry_of ` set (memory_items d). f_id e \<noteq> i}"
    (is "?L = insert ?e ?R")
  proof
    show "?L \<subseteq> insert ?e ?R"
    proof
      fix e assume "e \<in> ?L"
      then obtain x where x: "x \<in> set (memory_items d)" "e = fts_entry_of (if m_id x = i then f x else x)" by auto
      then show "e \<in> insert ?e ?R" using uniq [OF x(1)] by (cases "m_id x = i") auto
    qed
    show "insert ?e ?R \<subseteq> ?L" using m by force
  qed
  then show ?thesis
    using assms(2,3) m by (auto simp: indexed_iff update_memory_row_def Some fts_au_def fts_ai_def fts_ad_def)
qed

lemma indexed_frame:
  "indexed d \<Longrightarrow> memory_items d' = memory_items d \<Longrightarrow> memory_fts d' = memory_fts d \<Longrightarrow>
     fts_installed d' = fts_installed d \<Longrightarrow> indexed d'"
  by (simp add: indexed_iff)

lemma indexed_drop_project: "wf_db d \<Longrightarrow> indexed d \<Longrightarrow> indexed (drop_project i d)"
  unfolding drop_project_def by (rule indexed_frame [OF indexed_delete_rows]) simp_all

lemma indexed_save_embedding:
  "indexed (the_db s) \<Longrightarrow> indexed (the_db (snd (save_embedding h now i v sp ch st s)))"
  by (auto simp: save_embedding_def Let_def split: option.split intro: indexed_frame)

lemma indexed_update_project:
  "indexed (the_db s) \<Longrightarrow> update_project i n md s = (r, s') \<Longrightarrow> indexed (the_db s')"
  unfolding update_project_renamed Let_def
  by (auto split: if_splits option.splits intro: indexed_frame)

lemma indexed_exec:
  assumes wf: "wf_store s" and ix: "indexed (the_db s)" and op: "exec_op hash p s = (r, s')"
  shows "indexed (the_db s')"
proof (cases p)
  case (AddProject q)
  then show ?thesis
    using op ix by (auto simp: add_project_def insert_project_def split: sum.splits if_splits intro: indexed_frame)
next
  case (UpdateProject i n md)
  then show ?thesis using op ix indexed_update_project [of s] by (auto dest: no_valueD)
next
  case (DeleteProject i)
  then obtain v where v: "delete_project i s = (v, s')" using op by (auto dest: no_valueD)
  then show ?thesis
    using ix indexed_drop_project [OF wf_storeD [OF wf] ix]
    by (cases v) (auto dest: delete_project_raised delete_project_ok(2))
next
  case (AddMemory m)
  then have "add_memory m s = (r, s')" using op by simp
  then show ?thesis
    using ix by (cases r) (auto dest: add_memory_raised elim!: add_memory_Inr intro: indexed_insert_memory)
next
  case (SetPinned i b)
  then show ?thesis
    using op ix indexed_update_row [OF wf_storeD [OF wf] ix, of "\<lambda>m. m\<lparr>m_pinned := b\<rparr>" i]
    by (auto simp: set_pinned_def split: if_splits)
next
  case (UpdateMemory now i c t)
  then have "s' = s \<or> s' = s\<lparr>the_db := update_memory_row i (edited now c t) (the_db s)\<rparr>"
    using op by (auto simp: no_value_def update_memory_def edited_def [abs_def] Let_def split: if_splits)
  then show ?thesis
    using ix indexed_update_row [OF wf_storeD [OF wf] ix, of "edited now c t" i] by auto
next
  case (DeleteMemory i)
  then have v: "delete_memory i s = (r, s')" using op by simp
  then show ?thesis
    using ix indexed_delete_rows [OF wf_storeD [OF wf] ix]
    by (cases r) (auto dest: delete_memory_raised delete_memory_ok(2))
next
  case (SaveEmbedding now i v sp ch st)
  then show ?thesis using op ix indexed_save_embedding [of s] by auto
next
  case (DeleteEmbedding i)
  then show ?thesis using op ix by (auto simp: delete_embedding_def intro: indexed_frame)
qed

lemma indexed_run:
  "wf_store s \<Longrightarrow> indexed (the_db s) \<Longrightarrow> list_all stamped_utc ps \<Longrightarrow> run_ops (exec_op hash) ps s = (rs, s') \<Longrightarrow>
     indexed (the_db s')"
  by (induction ps arbitrary: s rs) (auto split: prod.splits dest: indexed_exec exec_keeps)

lemma indexed_new: "indexed (the_db (open_store empty_db env True True))"
  by (simp add: indexed_iff open_store_def ensure_fts5_def empty_db_def)

end
