(* ===== verification/OC_Store_Theorems.thy ===== *)
theory OC_Store_Theorems
  imports OC_Fts_Index
begin

text \<open>
  The theorems about the store: refinement of the catalog, the invariant of the reachable
  states, atomic transactions, the retry bound of the write lock, the cascades, the round
  trip of a memory, and the full-text index. The sample rows at the start are the concrete
  inputs that the witnesses use.
\<close>

section \<open>Sample rows\<close>

definition sample_time :: datetime where
  "sample_time = \<lparr>wall = 63900000000000000, utcoffset = Some 0\<rparr>"

definition sample_project :: project where
  "sample_project = \<lparr>p_id = ''p1'', p_name = ''alpha'', p_metadata = [], p_created_at = sample_time\<rparr>"

definition sample_memory :: memory_item where
  "sample_memory = \<lparr>m_id = ''m1'', m_content = ''use wal'', m_tags = [''db''], m_created_at = sample_time,
     m_pinned = False, m_project_id = Some ''p1'', m_source = ''manual'', m_updated_at = None\<rparr>"

definition sample_global :: memory_item where
  "sample_global = \<lparr>m_id = ''m2'', m_content = ''be brief'', m_tags = [], m_created_at = sample_time,
     m_pinned = True, m_project_id = None, m_source = ''manual'', m_updated_at = None\<rparr>"

definition sample_space :: embedding_space where
  "sample_space = \<lparr>sp_model = ''stub'', sp_provider = ''stub'', sp_revision = None, sp_fingerprint = ''f''\<rparr>"

definition sample_ops :: "store_op list" where
  "sample_ops = [AddProject sample_project, AddMemory sample_memory, AddMemory sample_global,
     SaveEmbedding sample_time ''m1'' [1, 0] sample_space ''use wal'' ''ok'', AddMemory sample_memory]"

definition sample_store :: store where
  "sample_store = snd (run_ops (exec_op id) sample_ops (open_store empty_db [] True True))"

definition sample_db :: db where
  "sample_db = \<lparr>projects = [sample_project], memory_items = [sample_memory, sample_global],
     memory_embeddings = [vector_row sample_time ''m1'' [1, 0] sample_space ''use wal'' ''ok''],
     fts_installed = True, memory_fts = [fts_entry_of sample_memory, fts_entry_of sample_global]\<rparr>"

lemmas sample_defs = sample_time_def sample_project_def sample_memory_def sample_global_def sample_space_def

lemma sample_run:
  "run_ops (exec_op id) sample_ops (open_store empty_db [] True True) =
     ([Inr (), Inr (), Inr (), Inr (), Inl (IntegrityError ''UNIQUE'')],
      \<lparr>the_db = sample_db, savepoints = [], transaction_depth = 0, fts5_active = True, begin_attempts = []\<rparr>)"
  by code_simp

lemma sample_store_eq:
  "sample_store = \<lparr>the_db = sample_db, savepoints = [], transaction_depth = 0, fts5_active = True, begin_attempts = []\<rparr>"
  by (simp add: sample_store_def sample_run)

lemma wf_new_store: "wf_store (open_store empty_db env ue av)"
  by (simp add: wf_open_store wf_empty_db)

lemma sample_ops_stamped: "list_all stamped_utc sample_ops"
  by code_simp

lemma wf_sample_store: "wf_store sample_store"
  using sql.run_inv [OF wf_new_store sample_ops_stamped sample_run] by (simp add: sample_store_eq)

section \<open>Refinement and reachable states\<close>

text \<open>
  C1. Any sequence of store calls, from any well-formed store, leaves the projects, memories
  and embeddings that the abstract catalog has after the calls that returned: each of them
  took exactly its abstract step, a call that raised changed nothing, and the store is still
  well formed.
\<close>

theorem store_refines_catalog:
  assumes "wf_store s" "list_all stamped_utc ps" "run_ops (exec_op hash) ps s = (rs, s')"
  shows "spec_run (catalog_spec hash) (zip ps (map returned rs)) (catalog_of s) = Some (catalog_of s')
    \<and> wf_store s'"
  using sql.run_refines [OF assms] sql.run_inv [OF assms] by simp

theorem store_refines_catalog_witness:
  "spec_run (catalog_spec id) (zip sample_ops [True, True, True, True, False])
     (catalog_of (open_store empty_db [] True True)) = Some (catalog_of sample_store) \<and> wf_store sample_store"
  using store_refines_catalog [OF wf_new_store sample_ops_stamped sample_run] by (simp add: sample_store_eq)

text \<open>
  A store call raises exactly when the catalog refuses the operation (a used id, an
  unknown project or memory, a timestamp without an offset, an empty update), unless another
  process keeps the write lock; so what a caller sees depends on the abstract state alone.
\<close>

lemma store_call_returns_iff_allowed:
  assumes "wf_store s" "stamped_utc p" "exec_op hash p s = (r, s')" "\<And>e. r = Inl e \<Longrightarrow> \<not> is_locked e"
  shows "returned r \<longleftrightarrow> catalog_spec hash p (catalog_of s) \<noteq> None"
  by (rule sql.returned_iff [OF assms])

lemma store_call_returns_iff_allowed_witness:
  "catalog_spec id (AddMemory sample_memory) (catalog_of sample_store) = None"
proof -
  have "exec_op id (AddMemory sample_memory) sample_store = (Inl (IntegrityError ''UNIQUE''), sample_store)"
    unfolding sample_store_eq by code_simp
  from store_call_returns_iff_allowed [OF wf_sample_store _ this] show ?thesis by auto
qed

text \<open>
  In every state the program can reach, through any interleaving of store methods, nested
  begins, commits and rollbacks, and restarts, the keys are unique, every foreign key points
  to a row, stored times are UTC, vectors have the length recorded for them, the index holds
  only text of existing rows, and the transaction depth is the number of savepoints.
\<close>

lemma reachable_store_wf:
  assumes "store_reachable hash s"
  shows "wf_store s"
  by (rule store_reachable_wf [OF assms])

lemma reachable_store_wf_witness:
  "wf_store (enter_transaction (open_store empty_db [Locked] True True))"
  by (rule reachable_store_wf [OF reach_step [OF reach_new step_begin]])

section \<open>Transactions\<close>

text \<open>
  C2. A \<open>transaction()\<close> block around any sequence of store calls, at any nesting depth, is
  all or nothing: when the block raises, the database is exactly what it was before the block,
  and when it returns, every call took its abstract step. Either way the savepoints of the
  enclosing transactions are untouched and the store is well formed.
\<close>

theorem transaction_all_or_nothing:
  assumes wf: "wf_store s" and ok: "list_all stamped_utc ps"
    and tr: "transaction (seq_ops (exec_op hash) ps) s = (r, s')"
  shows "(case r of
            Inl e \<Rightarrow> the_db s' = the_db s
          | Inr _ \<Rightarrow> spec_run (catalog_spec hash) (map (\<lambda>p. (p, True)) ps) (catalog_of s) = Some (catalog_of s'))
    \<and> savepoints s' = savepoints s \<and> transaction_depth s' = transaction_depth s \<and> wf_store s'"
proof -
  have bal: "balanced (seq_ops (exec_op hash) ps)" by (rule balanced_seq_ops [OF balanced_exec])
  have "preserves_wf (seq_ops (exec_op hash) ps)" by (rule preserves_wfI) (rule wf_seq_ops [OF _ ok])
  then have wf': "wf_store s'" using preserves_wfD [OF preserves_wf_transaction [OF bal]] wf tr by blast
  show ?thesis
  proof (cases r)
    case (Inl e)
    then show ?thesis using transaction_raised [OF bal] tr wf' by fastforce
  next
    case (Inr u)
    then obtain s0 s1 where s0: "the_db s0 = the_db s" "savepoints s0 = savepoints s"
      "transaction_depth s0 = transaction_depth s" "seq_ops (exec_op hash) ps (enter_transaction s0) = (Inr u, s1)"
      and s': "the_db s' = the_db s1" "savepoints s' = savepoints s" "transaction_depth s' = transaction_depth s"
      using transaction_committed [OF bal] tr by metis
    have "wf_store (enter_transaction s0)"
      using wf s0(1,2,3) by (intro wf_enter_transaction) (simp add: wf_store_def)
    from seq_ops_refines [OF this ok s0(4)] show ?thesis
      using Inr s' wf' catalog_of_db [of "enter_transaction s0" s] catalog_of_db [of s' s1] s0(1) by simp
  qed
qed

theorem transaction_all_or_nothing_witness:
  "\<exists>s'. transaction (seq_ops (exec_op id) [DeleteMemory ''m1'', SetPinned ''gone'' True]) sample_store =
     (Inl (NotFoundError MEMORY_NOT_FOUND ''gone''), s') \<and> the_db s' = sample_db"
proof -
  have "transaction (seq_ops (exec_op id) [DeleteMemory ''m1'', SetPinned ''gone'' True]) sample_store =
      (Inl (NotFoundError MEMORY_NOT_FOUND ''gone''), sample_store)"
    unfolding sample_store_eq by code_simp
  from this transaction_all_or_nothing [OF wf_sample_store _ this] show ?thesis by (simp add: sample_store_eq)
qed

lemma locked_prefix_Cons:
  "(\<exists>k < Suc n. \<exists>rest. Locked # as = replicate k Locked @ x # rest) \<longleftrightarrow>
     (\<exists>k < n. \<exists>rest. as = replicate k Locked @ x # rest)" if "x \<noteq> Locked"
  using that by (auto simp: less_Suc_eq_0_disj)

lemma unlocked_prefix_Cons:
  "y \<noteq> Locked \<Longrightarrow> x \<noteq> Locked \<Longrightarrow>
     (\<exists>k < Suc n. \<exists>rest. y # as = replicate k Locked @ x # rest) \<longleftrightarrow> y = x"
  by (auto simp: less_Suc_eq_0_disj)

lemma begin_retry_locked:
  "fst (begin_retry n as) = Inl (OperationalError msg) \<longleftrightarrow>
     (msg = ''database is locked'' \<and> prefix (replicate (Suc n) Locked) as)
     \<or> (\<exists>k < Suc n. \<exists>rest. as = replicate k Locked @ Failed msg # rest)"
proof (induction n as rule: begin_retry.induct)
  case (4 as)
  then show ?case using locked_prefix_Cons [of "Failed msg" 0 as] by auto
next
  case (5 n as)
  then show ?case using locked_prefix_Cons [of "Failed msg" "Suc n" as] by auto
qed (simp_all add: unlocked_prefix_Cons del: replicate_Suc, auto)

lemma begin_retry_length: "length as \<le> length (snd (begin_retry n as)) + Suc n"
  by (induction n as rule: begin_retry.induct) auto

lemma begin_retry_result: "fst (begin_retry n as) = Inr () \<or> (\<exists>msg. fst (begin_retry n as) = Inl (OperationalError msg))"
  by (induction n as rule: begin_retry.induct) auto

text \<open>
  Taking the write lock: the store makes at most four attempts. It raises an operational
  error exactly when the first four attempts all found the lock held (\<open>database is locked\<close>),
  or when an attempt failed for another reason after fewer than four that found it held (that
  error, at once); otherwise the transaction begins.
\<close>

lemma begin_lock_attempts:
  "(fst (begin_immediate_with_retry s) = Inl (OperationalError msg) \<longleftrightarrow>
      (msg = ''database is locked'' \<and> prefix (replicate 4 Locked) (begin_attempts s))
      \<or> (\<exists>k < 4. \<exists>rest. begin_attempts s = replicate k Locked @ Failed msg # rest))
   \<and> (fst (begin_immediate_with_retry s) = Inr ()
      \<or> (\<exists>m. fst (begin_immediate_with_retry s) = Inl (OperationalError m)))
   \<and> length (begin_attempts s) \<le> length (begin_attempts (snd (begin_immediate_with_retry s))) + 4"
  using begin_retry_locked [of BEGIN_MAX_RETRIES "begin_attempts s" msg]
    begin_retry_result [of BEGIN_MAX_RETRIES "begin_attempts s"]
    begin_retry_length [of "begin_attempts s" BEGIN_MAX_RETRIES]
  by (simp add: begin_immediate_with_retry_def BEGIN_MAX_RETRIES_def split_beta numeral_eq_Suc)

section \<open>Rows\<close>

text \<open>
  Deleting a project removes exactly its memories, their embeddings and their index
  entries, and the project itself; every other row stays. It returns the number of memories
  removed. When it raises, nothing changed.
\<close>

lemma delete_project_cascade:
  assumes "wf_store s" "delete_project i s = (r, s')"
  shows "case r of
      Inl e \<Rightarrow> the_db s' = the_db s
    | Inr n \<Rightarrow>
        (let mine = (\<lambda>m. m_project_id m = Some i); gone = m_id ` set (filter mine (memory_items (the_db s)))
         in n = length (filter mine (memory_items (the_db s))) \<and> n = card gone
          \<and> projects (the_db s') = filter (\<lambda>p. p_id p \<noteq> i) (projects (the_db s))
          \<and> memory_items (the_db s') = filter (\<lambda>m. \<not> mine m) (memory_items (the_db s))
          \<and> memory_embeddings (the_db s') = filter (\<lambda>e. e_memory_id e \<notin> gone) (memory_embeddings (the_db s))
          \<and> memory_fts (the_db s') = filter (\<lambda>f. f_id f \<notin> gone) (memory_fts (the_db s)))"
proof (cases r)
  case (Inl e)
  then show ?thesis using assms(2) delete_project_raised by simp
next
  case (Inr n)
  note d = delete_project_ok [OF assms(2) [unfolded Inr]]
  have "\<not> fts_installed (the_db s) \<Longrightarrow> memory_fts (the_db s) = []"
    using assms(1) by (simp add: wf_store_def wf_defs)
  then have "memory_fts (the_db s') = filter (\<lambda>f. f_id f \<notin> m_id ` {m \<in> set (memory_items (the_db s)). m_project_id m = Some i})
      (memory_fts (the_db s))"
    by (simp add: d(2) drop_project_def delete_memory_rows_def fts_ad_def Let_def)
  moreover have "n = card (m_id ` {m \<in> set (memory_items (the_db s)). m_project_id m = Some i})"
    unfolding d(3) by (rule length_filter_card [OF wf_keysD(2) [OF wf_storeD [OF assms(1)]]])
  ultimately show ?thesis using Inr d by (simp add: drop_project_def Let_def)
qed

lemma delete_project_cascade_witness:
  "\<exists>s'. delete_project ''p1'' sample_store = (Inr 1, s') \<and> memory_items (the_db s') = [sample_global]
     \<and> memory_embeddings (the_db s') = []"
proof -
  have "fst (delete_project ''p1'' sample_store) = Inr 1" unfolding sample_store_eq by code_simp
  then obtain s' where d: "delete_project ''p1'' sample_store = (Inr 1, s')" by (metis prod.collapse)
  from delete_project_cascade [OF wf_sample_store d] d show ?thesis
    by (simp add: sample_store_eq sample_db_def sample_memory_def sample_global_def vector_row_def Let_def del: set_filter)
qed

text \<open>
  A memory that was added can be read back: the row that \<open>get_memory\<close> returns has the
  fields that were passed, its timestamps are UTC and denote the same instants, and no other
  memory changed. A memory whose timestamp has no offset is refused.
\<close>

lemma add_then_get_memory:
  assumes "add_memory m s = (r, s')"
  shows "case r of
      Inl e \<Rightarrow> s' = s
    | Inr _ \<Rightarrow>
        (\<exists>x. get_memory (m_id m) s' = Some x \<and> m_content x = m_content m \<and> m_tags x = m_tags m
           \<and> m_pinned x = m_pinned m \<and> m_project_id x = m_project_id m \<and> m_source x = m_source m
           \<and> instant (m_created_at x) = instant (m_created_at m)
           \<and> map_option instant (m_updated_at x) = map_option instant (m_updated_at m) \<and> utc_memory x)
        \<and> utcoffset (m_created_at m) \<noteq> None
        \<and> (\<forall>k. k \<noteq> m_id m \<longrightarrow> get_memory k s' = get_memory k s)"
proof (cases r)
  case (Inl e)
  then show ?thesis using assms add_memory_raised by simp
next
  case (Inr u)
  then obtain x where x: "stored_form m = Inr x" using assms add_memory_Inr by metis
  have "catalog_spec id (AddMemory m) (catalog_of s) = Some (catalog_of s')"
    using catalog_add_memory assms Inr by simp
  then have c: "catalog_of s' = (catalog_of s)\<lparr>c_memories := (c_memories (catalog_of s))(m_id m \<mapsto> x)\<rparr>"
    using x by (auto split: if_splits)
  have get: "get_memory k s' = (if k = m_id m then Some x else get_memory k s)" for k
    using arg_cong [OF c, of "\<lambda>c. c_memories c k"] by simp
  have "utcoffset (m_created_at m) \<noteq> None"
    using x by (auto simp: stored_form_def require_utc_def split: option.splits sum.splits)
  then show ?thesis using Inr get stored_form_Inr [OF x] stored_form_updated_at [OF x] by simp
qed

lemma add_then_get_memory_witness:
  "\<exists>s'. add_memory (sample_memory\<lparr>m_id := ''m3'', m_created_at := \<lparr>wall = 63900007200000000, utcoffset = Some 7200000000\<rparr>\<rparr>) sample_store
       = (Inr (), s') \<and> (\<exists>x. get_memory ''m3'' s' = Some x \<and> instant (m_created_at x) = 63900000000000000)"
proof -
  let ?m = "sample_memory\<lparr>m_id := ''m3'', m_created_at := \<lparr>wall = 63900007200000000, utcoffset = Some 7200000000\<rparr>\<rparr>"
  have "fst (add_memory ?m sample_store) = Inr ()" unfolding sample_store_eq by code_simp
  then obtain s' where d: "add_memory ?m sample_store = (Inr (), s')" by (metis prod.collapse)
  from add_then_get_memory [OF d] d show ?thesis by (auto simp: instant_def)
qed

text \<open>
  C13. With FTS5 on from the first start, the index is complete: after any sequence of store
  calls every memory is indexed with its current content and tags, and nothing else is.
\<close>

theorem fts_index_complete:
  assumes "list_all stamped_utc ps" "run_ops (exec_op hash) ps (open_store empty_db env True True) = (rs, s')"
  shows "set (memory_fts (the_db s')) = fts_entry_of ` set (memory_items (the_db s'))"
  using indexed_run [OF wf_new_store indexed_new assms] by (simp add: indexed_iff)

theorem fts_index_complete_witness:
  "set (memory_fts sample_db) = fts_entry_of ` set (memory_items sample_db) \<and> memory_items sample_db \<noteq> []"
  using fts_index_complete [OF sample_ops_stamped sample_run] by (simp add: sample_db_def)

end
