(* ===== verification/OC_Search.thy ===== *)
theory OC_Search
  imports OC_Store_Steps
begin

text \<open>
  The store's queries: the listing of memories, the pinned and scope clauses, the tag
  predicates, the ranked search over FTS5 or the fallback scorer, and the float of pinned
  rows. FTS5 itself is a parameter: \<open>fts_match\<close> says whether an index entry matches an
  expression and \<open>fts_rank\<close> gives its rank in the index; nothing is assumed of them. The
  lemmas show that a page of a listing or of a search is a window of one fixed list, so that
  consecutive pages never skip or repeat a row.
\<close>

section \<open>Clauses\<close>

datatype pinned_mode = Exclude | Include | Only

fun pinned_clause :: "pinned_mode \<Rightarrow> memory_item \<Rightarrow> bool" where
  "pinned_clause Exclude m = (\<not> m_pinned m)"
| "pinned_clause Only m = m_pinned m"
| "pinned_clause Include m = True"

fun scope_clause :: "pinned_mode \<Rightarrow> string option \<Rightarrow> memory_item \<Rightarrow> bool" where
  "scope_clause mode None m = True"
| "scope_clause Exclude (Some p) m = (m_project_id m = Some p)"
| "scope_clause Only (Some p) m = (m_project_id m = Some p \<or> m_project_id m = None)"
| "scope_clause Include (Some p) m = (m_project_id m = Some p \<or> (m_pinned m \<and> m_project_id m = None))"

text \<open>An absent and an empty list of tags are the same request (\<open>if not tags\<close>).\<close>

definition tags_clause :: "string list option \<Rightarrow> memory_item \<Rightarrow> bool" where
  "tags_clause tags m =
     (case tags of None \<Rightarrow> True
      | Some ts \<Rightarrow> ts = [] \<or> list_all (\<lambda>t. t \<in> set (m_tags m)) ts)"

definition exclude_tags_clause :: "string list option \<Rightarrow> memory_item \<Rightarrow> bool" where
  "exclude_tags_clause tags m =
     (case tags of None \<Rightarrow> True
      | Some ts \<Rightarrow> ts = [] \<or> \<not> list_ex (\<lambda>t. t \<in> set ts) (m_tags m))"

section \<open>Listing\<close>

definition newest :: "memory_item \<Rightarrow> int \<times> string" where
  "newest m = (wall (m_created_at m), m_id m)"

definition pinned_newest :: "memory_item \<Rightarrow> nat \<times> int \<times> string" where
  "pinned_newest m = (if m_pinned m then 1 else 0, wall (m_created_at m), m_id m)"

definition order_memory :: "string \<Rightarrow> memory_item list \<Rightarrow> memory_item list" where
  "order_memory order_by ms =
     (if order_by = ''created_at'' then sort_desc newest ms else sort_desc pinned_newest ms)"

definition list_where :: "bool \<Rightarrow> string option \<Rightarrow> string list option \<Rightarrow> string list option \<Rightarrow> memory_item \<Rightarrow> bool" where
  "list_where pinned_only project_id tags exclude_tags m =
     ((pinned_only \<longrightarrow> m_pinned m) \<and> (case project_id of None \<Rightarrow> True | Some p \<Rightarrow> m_project_id m = Some p)
      \<and> tags_clause tags m \<and> exclude_tags_clause exclude_tags m)"

definition list_memory :: "int option \<Rightarrow> bool \<Rightarrow> int \<Rightarrow> string option \<Rightarrow> string list option \<Rightarrow>
    string list option \<Rightarrow> string \<Rightarrow> store \<Rightarrow> exc + memory_item list" where
  "list_memory limit pinned_only offset project_id tags exclude_tags order_by s =
     (if order_by \<noteq> ''pinned_first'' \<and> order_by \<noteq> ''created_at''
      then Inl (ValueError ''order_by must be pinned_first or created_at'')
      else (let rows = order_memory order_by
                  (filter (list_where pinned_only project_id tags exclude_tags) (memory_items (the_db s)));
                shifted = (if offset > 0 then sql_offset offset rows else rows)
            in Inr (case limit of None \<Rightarrow> shifted | Some n \<Rightarrow> sql_limit n shifted)))"

definition list_memory_by_source :: "string \<Rightarrow> string option \<Rightarrow> store \<Rightarrow> memory_item list" where
  "list_memory_by_source source project_id s =
     sort_desc newest (filter (\<lambda>m. m_source m = source
         \<and> (case project_id of None \<Rightarrow> True | Some p \<Rightarrow> m_project_id m = Some p)) (memory_items (the_db s)))"

definition pinned_items :: "string option \<Rightarrow> store \<Rightarrow> memory_item list" where
  "pinned_items project_id s =
     sort_desc newest (filter (\<lambda>m. m_pinned m
         \<and> (case project_id of None \<Rightarrow> True | Some p \<Rightarrow> m_project_id m = Some p \<or> m_project_id m = None))
       (memory_items (the_db s)))"

section \<open>Ranked search\<close>

record fts_engine =
  fts_match :: "string \<Rightarrow> fts_entry \<Rightarrow> bool"
  fts_rank :: "string \<Rightarrow> fts_entry list \<Rightarrow> string \<Rightarrow> rat"

definition MEMORY_SEARCH_LIMIT :: int where
  "MEMORY_SEARCH_LIMIT = 200"

definition row_filter :: "pinned_mode \<Rightarrow> string option \<Rightarrow> string list option \<Rightarrow> memory_item \<Rightarrow> bool" where
  "row_filter mode project_id tags m = (pinned_clause mode m \<and> scope_clause mode project_id m \<and> tags_clause tags m)"

definition fts_order :: "fts_engine \<Rightarrow> string \<Rightarrow> store \<Rightarrow> memory_item \<Rightarrow> rat \<times> int \<times> string" where
  "fts_order eng escaped s m = (fts_rank eng escaped (memory_fts (the_db s)) (m_id m), - wall (m_created_at m), m_id m)"

definition fts5_search_memory :: "fts_engine \<Rightarrow> string \<Rightarrow> int \<Rightarrow> string option \<Rightarrow> string list option \<Rightarrow>
    bool \<Rightarrow> pinned_mode \<Rightarrow> store \<Rightarrow> memory_item list" where
  "fts5_search_memory eng query limit project_id tags phrase mode s =
     (let escaped = fts5_escape query phrase
      in if escaped = [] then []
         else sql_limit limit
           (sort_key (fts_order eng escaped s)
             (filter (\<lambda>m. list_ex (\<lambda>f. f_id f = m_id m \<and> fts_match eng escaped f) (memory_fts (the_db s))
                \<and> row_filter mode project_id tags m) (memory_items (the_db s)))))"

definition normal_phrase :: "string \<Rightarrow> string" where
  "normal_phrase text = py_casefold (py_join '' '' (py_split text))"

definition fallback_score :: "string list \<Rightarrow> memory_item \<Rightarrow> nat \<times> nat \<times> int \<times> string" where
  "fallback_score q_tokens m =
     (tag_match_count (m_tags m) q_tokens, keyword_match_count (m_content m) q_tokens,
      wall (m_created_at m), m_id m)"

definition fallback_search_memory :: "string \<Rightarrow> int \<Rightarrow> string option \<Rightarrow> string list option \<Rightarrow>
    bool \<Rightarrow> pinned_mode \<Rightarrow> store \<Rightarrow> memory_item list" where
  "fallback_search_memory query limit project_id tags phrase mode s =
     (let q_tokens = normalize_tokens query;
          items = sql_limit MEMORY_SEARCH_LIMIT
            (sort_desc newest (filter (row_filter mode project_id tags) (memory_items (the_db s))))
      in if phrase then
           (let needle = normal_phrase query
            in if needle = [] then []
               else py_prefix (filter (\<lambda>i. py_in needle (normal_phrase (m_content i))) items) limit)
         else py_prefix (sort_desc (fallback_score q_tokens) items) limit)"

definition ranked_search :: "fts_engine \<Rightarrow> string \<Rightarrow> int \<Rightarrow> string option \<Rightarrow> string list option \<Rightarrow>
    bool \<Rightarrow> pinned_mode \<Rightarrow> store \<Rightarrow> memory_item list" where
  "ranked_search eng query limit project_id tags phrase mode s =
     (if fts5_active s then fts5_search_memory eng query limit project_id tags phrase mode s
      else fallback_search_memory query limit project_id tags phrase mode s)"

definition search_pinned :: "fts_engine \<Rightarrow> string \<Rightarrow> int \<Rightarrow> string option \<Rightarrow> string list option \<Rightarrow>
    bool \<Rightarrow> store \<Rightarrow> memory_item list" where
  "search_pinned eng query limit project_id tags phrase s =
     (if limit \<le> 0 then []
      else py_prefix (ranked_search eng query limit project_id tags phrase Only s) limit)"

definition eligible_memory_ids :: "string option \<Rightarrow> string list option \<Rightarrow> store \<Rightarrow> string set" where
  "eligible_memory_ids project_id tags s =
     m_id ` set (filter (\<lambda>m. scope_clause Include project_id m \<and> tags_clause tags m) (memory_items (the_db s)))"

definition search_memory :: "fts_engine \<Rightarrow> string \<Rightarrow> int \<Rightarrow> string option \<Rightarrow> bool \<Rightarrow> string list option \<Rightarrow>
    int \<Rightarrow> bool \<Rightarrow> string set \<Rightarrow> store \<Rightarrow> memory_item list" where
  "search_memory eng query top_k project_id include_pinned tags offset phrase exclude_ids s =
     (let effective_top_k = top_k + offset;
          fetch = effective_top_k + int (card exclude_ids);
          ranked = ranked_search eng query fetch project_id tags phrase
                     (if include_pinned then Include else Exclude) s;
          ranked = (if exclude_ids = {} then ranked else filter (\<lambda>i. m_id i \<notin> exclude_ids) ranked)
      in py_slice ranked offset (offset + top_k))"

section \<open>Every query is a window of one list\<close>

text \<open>The whole ranking that a query pages through, before any limit.\<close>

definition ranking :: "fts_engine \<Rightarrow> string \<Rightarrow> string option \<Rightarrow> string list option \<Rightarrow>
    bool \<Rightarrow> pinned_mode \<Rightarrow> store \<Rightarrow> memory_item list" where
  "ranking eng query project_id tags phrase mode s =
     (if fts5_active s then
        (let escaped = fts5_escape query phrase
         in if escaped = [] then []
            else sort_key (fts_order eng escaped s)
              (filter (\<lambda>m. list_ex (\<lambda>f. f_id f = m_id m \<and> fts_match eng escaped f) (memory_fts (the_db s))
                 \<and> row_filter mode project_id tags m) (memory_items (the_db s))))
      else
        (let items = sql_limit MEMORY_SEARCH_LIMIT
               (sort_desc newest (filter (row_filter mode project_id tags) (memory_items (the_db s))))
         in if phrase then
              (if normal_phrase query = [] then []
               else filter (\<lambda>i. py_in (normal_phrase query) (normal_phrase (m_content i))) items)
            else sort_desc (fallback_score (normalize_tokens query)) items))"

lemma ranked_search_take:
  "0 \<le> n \<Longrightarrow> ranked_search eng q n pid tags phrase mode s = take (nat n) (ranking eng q pid tags phrase mode s)"
  by (simp add: ranked_search_def ranking_def fts5_search_memory_def fallback_search_memory_def
      sql_limit_nonneg py_prefix_nonneg Let_def)

lemma set_ranking:
  "m \<in> set (ranking eng q pid tags phrase mode s) \<Longrightarrow>
     m \<in> set (memory_items (the_db s)) \<and> row_filter mode pid tags m"
  by (auto simp: ranking_def Let_def split: if_splits dest: subsetD [OF set_sql_limit])

lemma distinct_sql_limit: "distinct (map f xs) \<Longrightarrow> distinct (map f (sql_limit n xs))"
  by (simp add: sql_limit_def take_map [symmetric] distinct_take)

lemma distinct_ranking:
  assumes "wf_store s"
  shows "distinct (map m_id (ranking eng q pid tags phrase mode s))"
proof -
  have "distinct (map m_id (filter P (memory_items (the_db s))))" for P
    using assms by (intro distinct_map_filter) (auto simp: wf_store_def wf_db_def keys_ok_def)
  then show ?thesis
    by (simp add: ranking_def Let_def distinct_sql_limit distinct_map_filter)
qed

text \<open>
  The over-fetch of \<open>search_memory\<close> is exact: it returns the requested window of the
  ranking with the excluded rows taken out.
\<close>

lemma search_memory_window:
  assumes wf: "wf_store s" and fin: "finite E" and off: "0 \<le> off" and k: "0 \<le> k"
  shows "search_memory eng q k pid ip tags off phrase E s =
    take (nat k) (drop (nat off)
      (filter (\<lambda>m. m_id m \<notin> E) (ranking eng q pid tags phrase (if ip then Include else Exclude) s)))"
proof -
  let ?R = "ranking eng q pid tags phrase (if ip then Include else Exclude) s"
  let ?n = "nat k + nat off + card E"
  have n: "nat (k + off + int (card E)) = ?n"
    using off k by (simp add: nat_add_distrib)
  have "search_memory eng q k pid ip tags off phrase E s =
      py_slice (filter (\<lambda>m. m_id m \<notin> E) (take ?n ?R)) off (off + k)"
    using off k by (simp add: search_memory_def Let_def ranked_search_take n nat_add_distrib)
  also have "\<dots> = take (nat k) (drop (nat off) (filter (\<lambda>m. m_id m \<notin> E) (take ?n ?R)))"
    using off k by (simp add: py_slice_nonneg)
  also have "\<dots> = take (nat k) (drop (nat off) (filter (\<lambda>m. m_id m \<notin> E) ?R))"
    using take_filter_overfetch [OF distinct_ranking [OF wf] fin, of "nat k + nat off" ?n]
    by (intro take_drop_take_eq [of "nat k + nat off"]) auto
  finally show ?thesis .
qed

lemma search_pinned_window:
  "search_pinned eng q n pid tags phrase s = take (nat n) (ranking eng q pid tags phrase Only s)"
  by (simp add: search_pinned_def ranked_search_take py_prefix_nonneg)

text \<open>A listing: exactly the rows that satisfy the predicate, in the order asked for.\<close>

lemma list_memory_window:
  assumes "order_by = ''pinned_first'' \<or> order_by = ''created_at''" "0 \<le> off" "0 \<le> n"
  shows "list_memory (Some n) po off pid tags ex order_by s =
    Inr (take (nat n) (drop (nat off) (order_memory order_by
      (filter (list_where po pid tags ex) (memory_items (the_db s))))))"
  using assms by (auto simp: list_memory_def Let_def sql_limit_def sql_offset_def)

lemma list_memory_all:
  "list_memory None po 0 pid tags ex ''pinned_first'' s =
    Inr (order_memory ''pinned_first'' (filter (list_where po pid tags ex) (memory_items (the_db s))))"
  by (simp add: list_memory_def)

lemma set_order_memory [simp]: "set (order_memory order_by ms) = set ms"
  by (simp add: order_memory_def)

lemma mset_order_memory [simp]: "mset (order_memory order_by ms) = mset ms"
  by (simp add: order_memory_def)

lemma length_order_memory [simp]: "length (order_memory order_by ms) = length ms"
  by (simp add: order_memory_def)

lemma distinct_order_memory [simp]: "distinct (map f (order_memory order_by ms)) = distinct (map f ms)"
  by (simp add: order_memory_def)

lemma order_memory_newest_first:
  "sorted_wrt (\<lambda>x y. wall (m_created_at y) \<le> wall (m_created_at x)) (order_memory ''created_at'' ms)"
  using sort_desc_sorted [of newest ms]
  by (auto simp: order_memory_def newest_def less_eq_prod_def elim!: sorted_wrt_mono_rel [rotated])

lemma order_memory_pins_first:
  "sorted_wrt (\<lambda>x y. (m_pinned y \<longrightarrow> m_pinned x) \<and>
      (m_pinned x = m_pinned y \<longrightarrow> wall (m_created_at y) \<le> wall (m_created_at x)))
     (order_memory ''pinned_first'' ms)"
  using sort_desc_sorted [of pinned_newest ms]
  by (auto simp: order_memory_def pinned_newest_def less_eq_prod_def elim!: sorted_wrt_mono_rel [rotated]
      split: if_splits)

end
