(* ===== verification/OC_Keyword_Search.thy ===== *)
theory OC_Keyword_Search
  imports OC_Search OC_Contracts
begin

text \<open>
  The keyword path of the search use case
  (\<open>core/application/use_cases/search_memory.py\<close>): matching pins float to the front of
  one combined stream that \<open>top_k\<close> bounds and \<open>offset\<close> walks. The lemmas show that a
  page is a window of a fixed stream in which no memory occurs twice, that pages of any size
  tile it, and that every row shown satisfies the scope, tag and visibility rules.
\<close>

definition float_entry :: "memory_item \<Rightarrow> scored_memory" where
  "float_entry i = \<lparr>sm_item = i, sm_channel = Pinned, sm_rrf_score = None, sm_similarity = None,
      sm_keyword_rank = None\<rparr>"

definition keyword_entry :: "nat \<Rightarrow> memory_item \<Rightarrow> scored_memory" where
  "keyword_entry rank i = \<lparr>sm_item = i, sm_channel = Keyword, sm_rrf_score = None, sm_similarity = None,
      sm_keyword_rank = Some rank\<rparr>"

definition wrap_keyword_ranked :: "memory_item list \<Rightarrow> scored_memory list" where
  "wrap_keyword_ranked items = map (\<lambda>(rank, i). keyword_entry rank i) (enumerate 1 items)"

definition floated_pins :: "fts_engine \<Rightarrow> string \<Rightarrow> string option \<Rightarrow> bool \<Rightarrow> string list option \<Rightarrow>
    bool \<Rightarrow> int \<Rightarrow> store \<Rightarrow> memory_item list" where
  "floated_pins eng query project_id include_pinned tags phrase pinned_limit s =
     (if include_pinned \<and> pinned_limit > 0
      then search_pinned eng query pinned_limit project_id tags phrase s else [])"

definition keyword_search :: "fts_engine \<Rightarrow> string \<Rightarrow> int \<Rightarrow> string option \<Rightarrow> bool \<Rightarrow> string list option \<Rightarrow>
    int \<Rightarrow> bool \<Rightarrow> int \<Rightarrow> store \<Rightarrow> scored_memory list" where
  "keyword_search eng query top_k project_id include_pinned tags offset phrase pinned_limit s =
     (let floated = floated_pins eng query project_id include_pinned tags phrase pinned_limit s;
          floated_ids = m_id ` set floated;
          items = search_memory eng query (offset + top_k) project_id include_pinned tags 0 phrase floated_ids s;
          combined = map float_entry floated @ wrap_keyword_ranked items
      in py_slice combined offset (offset + top_k))"

section \<open>The combined stream\<close>

definition keyword_stream :: "fts_engine \<Rightarrow> string \<Rightarrow> string option \<Rightarrow> bool \<Rightarrow> string list option \<Rightarrow>
    bool \<Rightarrow> int \<Rightarrow> store \<Rightarrow> scored_memory list" where
  "keyword_stream eng query project_id include_pinned tags phrase pinned_limit s =
     (let floated = floated_pins eng query project_id include_pinned tags phrase pinned_limit s
      in map float_entry floated @
         wrap_keyword_ranked (filter (\<lambda>m. m_id m \<notin> m_id ` set floated)
           (ranking eng query project_id tags phrase (if include_pinned then Include else Exclude) s)))"

lemma entry_item [simp]: "sm_item (float_entry i) = i" "sm_item (keyword_entry r i) = i"
  by (simp_all add: float_entry_def keyword_entry_def)

lemma length_wrap [simp]: "length (wrap_keyword_ranked xs) = length xs"
  by (simp add: wrap_keyword_ranked_def)

lemma map_item_wrap [simp]: "map sm_item (wrap_keyword_ranked xs) = xs"
proof -
  have "sm_item \<circ> (\<lambda>(rank, i). keyword_entry rank i) = snd" by auto
  then show ?thesis by (simp add: wrap_keyword_ranked_def)
qed

lemma map_item_float [simp]: "map sm_item (map float_entry xs) = xs"
  by (simp add: comp_def)

lemma take_wrap: "take n (wrap_keyword_ranked xs) = wrap_keyword_ranked (take n xs)"
proof -
  have "take n (enumerate 1 xs) = enumerate 1 (take n xs)"
    by (rule nth_equalityI) (simp_all add: nth_enumerate_eq)
  then show ?thesis by (simp add: wrap_keyword_ranked_def take_map)
qed

lemma take_append_wrap:
  "n \<le> m \<Longrightarrow> take n (xs @ wrap_keyword_ranked (take m ys)) = take n (xs @ wrap_keyword_ranked ys)"
  by (simp add: take_wrap [symmetric] min_def)

lemma finite_floated: "finite (m_id ` set (floated_pins eng q pid ip tags phrase pl s))"
  by simp

lemma keyword_search_window:
  assumes wf: "wf_store s" and off: "0 \<le> off" and k: "0 \<le> k"
  shows "keyword_search eng q k pid ip tags off phrase pl s =
    take (nat k) (drop (nat off) (keyword_stream eng q pid ip tags phrase pl s))"
proof -
  let ?F = "floated_pins eng q pid ip tags phrase pl s"
  let ?R = "filter (\<lambda>m. m_id m \<notin> m_id ` set ?F) (ranking eng q pid tags phrase (if ip then Include else Exclude) s)"
  let ?n = "nat off + nat k"
  have "search_memory eng q (off + k) pid ip tags 0 phrase (m_id ` set ?F) s = take ?n ?R"
    using search_memory_window [OF wf finite_floated, of 0 "off + k"] off k by (simp add: nat_add_distrib)
  then have "keyword_search eng q k pid ip tags off phrase pl s =
      take (nat k) (drop (nat off) (map float_entry ?F @ wrap_keyword_ranked (take ?n ?R)))"
    using off k by (simp add: keyword_search_def Let_def py_slice_nonneg)
  also have "\<dots> = take (nat k) (drop (nat off) (map float_entry ?F @ wrap_keyword_ranked ?R))"
    by (rule take_drop_take_eq [of ?n, OF take_append_wrap]) simp_all
  finally show ?thesis by (simp add: keyword_stream_def Let_def)
qed

lemma floated_pins_window:
  "floated_pins eng q pid ip tags phrase pl s =
     (if ip then take (nat pl) (ranking eng q pid tags phrase Only s) else [])"
  by (simp add: floated_pins_def search_pinned_window)

lemma floated_pins_rows:
  assumes "m \<in> set (floated_pins eng q pid ip tags phrase pl s)"
  shows "ip \<and> m \<in> set (memory_items (the_db s)) \<and> m_pinned m \<and> scope_clause Only pid m \<and> tags_clause tags m"
  using assms set_ranking by (fastforce simp: floated_pins_window row_filter_def split: if_splits dest: in_set_takeD)

lemma distinct_floated_pins:
  "wf_store s \<Longrightarrow> distinct (map m_id (floated_pins eng q pid ip tags phrase pl s))"
  using distinct_ranking by (simp add: floated_pins_window take_map [symmetric] distinct_take)

lemma scope_only_include: "m_pinned m \<Longrightarrow> scope_clause Only pid m \<Longrightarrow> scope_clause Include pid m"
  by (cases pid) auto

text \<open>What a caller may be shown: the rule every search path applies.\<close>

definition visible :: "string option \<Rightarrow> bool \<Rightarrow> string list option \<Rightarrow> memory_item \<Rightarrow> bool" where
  "visible pid ip tags m \<longleftrightarrow> row_filter (if ip then Include else Exclude) pid tags m"

lemma items_keyword_stream:
  "map sm_item (keyword_stream eng q pid ip tags phrase pl s) =
     floated_pins eng q pid ip tags phrase pl s @
     filter (\<lambda>m. m_id m \<notin> m_id ` set (floated_pins eng q pid ip tags phrase pl s))
       (ranking eng q pid tags phrase (if ip then Include else Exclude) s)"
  unfolding keyword_stream_def Let_def map_append map_item_float map_item_wrap ..

lemma keyword_stream_rows:
  assumes "sm \<in> set (keyword_stream eng q pid ip tags phrase pl s)"
  shows "sm_item sm \<in> set (memory_items (the_db s)) \<and> visible pid ip tags (sm_item sm)"
proof -
  let ?F = "floated_pins eng q pid ip tags phrase pl s"
  let ?R = "ranking eng q pid tags phrase (if ip then Include else Exclude) s"
  have "sm_item sm \<in> set (map sm_item (keyword_stream eng q pid ip tags phrase pl s))" using assms by simp
  then have "sm_item sm \<in> set ?F \<or> sm_item sm \<in> set ?R"
    unfolding items_keyword_stream by auto
  then show ?thesis
  proof
    assume "sm_item sm \<in> set ?F"
    from floated_pins_rows [OF this] show ?thesis
      by (simp add: visible_def row_filter_def scope_only_include)
  next
    assume "sm_item sm \<in> set ?R"
    from set_ranking [OF this] show ?thesis by (simp add: visible_def)
  qed
qed

lemma distinct_keyword_stream:
  assumes "wf_store s"
  shows "distinct (map (\<lambda>sm. m_id (sm_item sm)) (keyword_stream eng q pid ip tags phrase pl s))"
proof -
  let ?F = "floated_pins eng q pid ip tags phrase pl s"
  let ?R = "ranking eng q pid tags phrase (if ip then Include else Exclude) s"
  have "map (\<lambda>sm. m_id (sm_item sm)) (keyword_stream eng q pid ip tags phrase pl s) =
      map m_id ?F @ map m_id (filter (\<lambda>m. m_id m \<notin> m_id ` set ?F) ?R)"
    using arg_cong [OF items_keyword_stream, of "map m_id"] by (simp add: comp_def)
  moreover have "distinct (map m_id (filter (\<lambda>m. m_id m \<notin> m_id ` set ?F) ?R))"
    using distinct_ranking [OF assms] by (rule distinct_map_filter)
  moreover have "set (map m_id ?F) \<inter> set (map m_id (filter (\<lambda>m. m_id m \<notin> m_id ` set ?F) ?R)) = {}"
    by (rule disjoint_map_filter)
  ultimately show ?thesis using distinct_floated_pins [OF assms] by (simp only: distinct_append)
qed

end
