(* ===== verification/OC_Search_Theorems.thy ===== *)
theory OC_Search_Theorems
  imports OC_Keyword_Search OC_Store_Theorems
begin

text \<open>
  The theorems about listing and searching. The listing, the ranked search and the combined
  keyword search all satisfy \<^const>\<open>paged_stream\<close>, so one set of lemmas about pages serves
  the three.
\<close>

section \<open>The paged queries\<close>

text \<open>The queries as a client of pages calls them: page offset and size are naturals.\<close>

type_synonym listing = "bool \<times> string option \<times> string list option \<times> string list option \<times> bool"

definition order_name :: "bool \<Rightarrow> string" where
  "order_name by_date = (if by_date then ''created_at'' else ''pinned_first'')"

fun listing_stream :: "listing \<Rightarrow> store \<Rightarrow> memory_item list" where
  "listing_stream (po, pid, tags, ex, by_date) s =
     order_memory (order_name by_date) (filter (list_where po pid tags ex) (memory_items (the_db s)))"

fun listing_page :: "listing \<Rightarrow> nat \<Rightarrow> nat \<Rightarrow> store \<Rightarrow> memory_item list" where
  "listing_page (po, pid, tags, ex, by_date) off n s =
     (case list_memory (Some (int n)) po (int off) pid tags ex (order_name by_date) s of
        Inl _ \<Rightarrow> [] | Inr ms \<Rightarrow> ms)"

type_synonym query = "fts_engine \<times> string \<times> string option \<times> bool \<times> string list option \<times> bool"

fun search_stream :: "query \<times> string list \<Rightarrow> store \<Rightarrow> memory_item list" where
  "search_stream ((eng, q, pid, ip, tags, phrase), ex) s =
     filter (\<lambda>m. m_id m \<notin> set ex) (ranking eng q pid tags phrase (if ip then Include else Exclude) s)"

fun search_page :: "query \<times> string list \<Rightarrow> nat \<Rightarrow> nat \<Rightarrow> store \<Rightarrow> memory_item list" where
  "search_page ((eng, q, pid, ip, tags, phrase), ex) off n s =
     search_memory eng q (int n) pid ip tags (int off) phrase (set ex) s"

fun float_stream :: "query \<times> int \<Rightarrow> store \<Rightarrow> scored_memory list" where
  "float_stream ((eng, q, pid, ip, tags, phrase), pl) s = keyword_stream eng q pid ip tags phrase pl s"

fun float_page :: "query \<times> int \<Rightarrow> nat \<Rightarrow> nat \<Rightarrow> store \<Rightarrow> scored_memory list" where
  "float_page ((eng, q, pid, ip, tags, phrase), pl) off n s =
     keyword_search eng q (int n) pid ip tags (int off) phrase pl s"

lemma order_name_ok: "order_name d = ''pinned_first'' \<or> order_name d = ''created_at''"
  by (simp add: order_name_def)

interpretation listing: paged_stream wf_store listing_page listing_stream m_id
proof
  fix s off n and q :: "listing" assume wf: "wf_store s"
  obtain po pid tags ex d where q: "q = (po, pid, tags, ex, d)" by (cases q)
  show "listing_page q off n s = take n (drop off (listing_stream q s))"
    by (simp add: q list_memory_window [OF order_name_ok])
  show "distinct (map m_id (listing_stream q s))"
    using wf_keysD(2) [OF wf_storeD [OF wf]] by (simp add: q distinct_map_filter)
qed

interpretation ranked: paged_stream wf_store search_page search_stream m_id
proof
  fix s off n and q :: "query \<times> string list" assume wf: "wf_store s"
  obtain eng x pid ip tags phrase ex where q: "q = ((eng, x, pid, ip, tags, phrase), ex)" by (metis surj_pair)
  show "search_page q off n s = take n (drop off (search_stream q s))"
    by (simp add: q search_memory_window [OF wf])
  show "distinct (map m_id (search_stream q s))"
    using distinct_ranking [OF wf] by (simp add: q distinct_map_filter)
qed

interpretation floated: paged_stream wf_store float_page float_stream "\<lambda>sm. m_id (sm_item sm)"
proof
  fix s off n and q :: "query \<times> int" assume wf: "wf_store s"
  obtain eng x pid ip tags phrase pl where q: "q = ((eng, x, pid, ip, tags, phrase), pl)" by (metis surj_pair)
  show "float_page q off n s = take n (drop off (float_stream q s))"
    by (simp add: q keyword_search_window [OF wf])
  show "distinct (map (\<lambda>sm. m_id (sm_item sm)) (float_stream q s))"
    using distinct_keyword_stream [OF wf] by (simp add: q)
qed

section \<open>Listing\<close>

text \<open>
  Listing memories: a page holds exactly its window of one list, which has every memory
  that satisfies the filters once, and no other, pinned rows first and newest first (or newest
  first only, as asked). Walking the pages until a short one shows the whole list.
\<close>

lemma list_memory_exact:
  assumes "wf_store s"
  shows "set (listing_stream (po, pid, tags, ex, d) s) = {m \<in> set (memory_items (the_db s)). list_where po pid tags ex m}
    \<and> distinct (map m_id (listing_stream (po, pid, tags, ex, d) s))
    \<and> sorted_wrt (\<lambda>x y. (\<not> d \<and> m_pinned y \<longrightarrow> m_pinned x) \<and>
        (d \<or> m_pinned x = m_pinned y \<longrightarrow> wall (m_created_at y) \<le> wall (m_created_at x)))
        (listing_stream (po, pid, tags, ex, d) s)
    \<and> list_memory (Some (int n)) po (int off) pid tags ex (order_name d) s =
        Inr (take n (drop off (listing_stream (po, pid, tags, ex, d) s)))
    \<and> (length (listing_page (po, pid, tags, ex, d) (k * n) n s) < n \<longrightarrow>
        walk_pages (\<lambda>off n. listing_page (po, pid, tags, ex, d) off n s) n (Suc k) = listing_stream (po, pid, tags, ex, d) s)"
proof (intro conjI impI)
  show "sorted_wrt (\<lambda>x y. (\<not> d \<and> m_pinned y \<longrightarrow> m_pinned x) \<and>
        (d \<or> m_pinned x = m_pinned y \<longrightarrow> wall (m_created_at y) \<le> wall (m_created_at x)))
        (listing_stream (po, pid, tags, ex, d) s)"
    using order_memory_newest_first order_memory_pins_first by (cases d) (simp_all add: order_name_def)
  show "walk_pages (\<lambda>off n. listing_page (po, pid, tags, ex, d) off n s) n (Suc k) = listing_stream (po, pid, tags, ex, d) s"
    if "length (listing_page (po, pid, tags, ex, d) (k * n) n s) < n"
    using listing.walk_complete [OF assms that] .
qed (use listing.no_repeat [OF assms, of "(po, pid, tags, ex, d)"] in
      \<open>auto simp: list_memory_window [OF order_name_ok]\<close>)

lemma list_memory_exact_witness:
  "listing_stream (False, None, None, None, False) sample_store = [sample_global, sample_memory]
   \<and> walk_pages (\<lambda>off n. listing_page (False, None, None, None, False) off n sample_store) 1 (Suc 2) =
     [sample_global, sample_memory]"
proof -
  have st: "listing_stream (False, None, None, None, False) sample_store = [sample_global, sample_memory]"
    unfolding sample_store_eq by code_simp
  have "length (listing_page (False, None, None, None, False) (2 * 1) 1 sample_store) < 1"
    unfolding sample_store_eq by code_simp
  then have "walk_pages (\<lambda>off n. listing_page (False, None, None, None, False) off n sample_store) 1 (Suc 2) =
      listing_stream (False, None, None, None, False) sample_store"
    using list_memory_exact [OF wf_sample_store, of False None None None False 1 0 2] by blast
  then show ?thesis using st by argo
qed

section \<open>Search\<close>

text \<open>
  C3. Ranked search with rows to exclude: although it asks the index for a bounded number of
  rows and drops the excluded ones afterwards, the page it returns is exactly the window of
  the whole ranking without the excluded rows; no page is short while matches remain.
\<close>

theorem search_memory_page_exact:
  assumes "wf_store s" "finite E" "0 \<le> off" "0 \<le> k"
  shows "search_memory eng q k pid ip tags off phrase E s =
    take (nat k) (drop (nat off)
      (filter (\<lambda>m. m_id m \<notin> E) (ranking eng q pid tags phrase (if ip then Include else Exclude) s)))"
  by (rule search_memory_window [OF assms])

definition sample_engine :: fts_engine where
  "sample_engine = \<lparr>fts_match = (\<lambda>e f. py_in (f_content f) e \<or> py_in ''e'' (f_content f)), fts_rank = (\<lambda>e fs i. 0)\<rparr>"

theorem search_memory_page_exact_witness:
  "search_memory sample_engine ''wal brief'' 1 None True None 0 False {''m1''} sample_store = [sample_global]"
proof -
  have "filter (\<lambda>m. m_id m \<notin> {''m1''}) (ranking sample_engine ''wal brief'' None None False Include sample_store)
      = [sample_global]"
    unfolding sample_store_eq by code_simp
  then show ?thesis
    using search_memory_page_exact [OF wf_sample_store, of "{''m1''}" 0 1 sample_engine "''wal brief''" None True None False]
    by simp
qed

text \<open>
  C11. The keyword search a client pages through: pages of any size tile one stream, without
  gap or overlap; no memory occurs twice in it, neither on one page nor on two; and every row
  shown exists and satisfies the caller's scope, tag and pin filters.
\<close>

theorem keyword_search_pages:
  assumes wf: "wf_store s" and pos: "0 \<le> off" "0 \<le> k" "0 \<le> j"
  shows "keyword_search eng q k pid ip tags off phrase pl s @
      keyword_search eng q j pid ip tags (off + k) phrase pl s =
      keyword_search eng q (k + j) pid ip tags off phrase pl s
    \<and> distinct (map (\<lambda>sm. m_id (sm_item sm)) (keyword_search eng q (k + j) pid ip tags off phrase pl s))
    \<and> (\<forall>sm \<in> set (keyword_search eng q k pid ip tags off phrase pl s).
         sm_item sm \<in> set (memory_items (the_db s)) \<and> visible pid ip tags (sm_item sm))"
proof -
  let ?q = "((eng, q, pid, ip, tags, phrase), pl)"
  have tile: "float_page ?q (nat off) (nat k) s @ float_page ?q (nat off + nat k) (nat j) s =
      float_page ?q (nat off) (nat k + nat j) s"
    by (rule floated.pages_tile [OF wf])
  have dist: "distinct (map (\<lambda>sm. m_id (sm_item sm)) (float_page ?q (nat off) (nat k + nat j) s))"
    by (rule floated.page_distinct [OF wf])
  have "sm_item sm \<in> set (memory_items (the_db s)) \<and> visible pid ip tags (sm_item sm)"
    if "sm \<in> set (keyword_search eng q k pid ip tags off phrase pl s)" for sm
    using that keyword_stream_rows
    by (fastforce simp: keyword_search_window [OF wf pos(1,2)] dest: in_set_takeD in_set_dropD)
  then show ?thesis using tile dist pos by simp
qed

theorem keyword_search_pages_witness:
  "map sm_item (keyword_search sample_engine ''brief wal'' 1 (Some ''p1'') True None 0 False 5 sample_store) = [sample_global]
   \<and> keyword_search sample_engine ''brief wal'' 1 (Some ''p1'') True None 0 False 5 sample_store @
     keyword_search sample_engine ''brief wal'' 1 (Some ''p1'') True None 1 False 5 sample_store =
     keyword_search sample_engine ''brief wal'' 2 (Some ''p1'') True None 0 False 5 sample_store"
proof -
  have "map sm_item (keyword_search sample_engine ''brief wal'' 1 (Some ''p1'') True None 0 False 5 sample_store) = [sample_global]"
    unfolding sample_store_eq by code_simp
  then show ?thesis
    using keyword_search_pages [OF wf_sample_store, of 0 1 1 sample_engine "''brief wal''" "Some ''p1''" True None False 5]
    by simp
qed

lemma mset_float:
  assumes "distinct (map f xs)" "distinct (map f ys)" "set xs \<subseteq> set ys"
  shows "mset (xs @ filter (\<lambda>y. f y \<notin> f ` set xs) ys) = mset ys"
proof -
  have inj: "x = y" if "x \<in> set ys" "y \<in> set ys" "f x = f y" for x y
    using assms(2) that unfolding distinct_map inj_on_def by metis
  have "set (xs @ filter (\<lambda>y. f y \<notin> f ` set xs) ys) = set ys"
  proof
    show "set ys \<subseteq> set (xs @ filter (\<lambda>y. f y \<notin> f ` set xs) ys)"
    proof
      fix y assume y: "y \<in> set ys"
      show "y \<in> set (xs @ filter (\<lambda>y. f y \<notin> f ` set xs) ys)"
      proof (cases "f y \<in> f ` set xs")
        case True
        then obtain x where "x \<in> set xs" "f y = f x" by auto
        then show ?thesis using inj [of y x] y assms(3) by auto
      qed (use y in simp)
    qed
  qed (use assms(3) in auto)
  moreover have "distinct (xs @ filter (\<lambda>y. f y \<notin> f ` set xs) ys)"
    using assms by (auto simp: distinct_map)
  moreover have "distinct ys" using assms(2) by (simp add: distinct_map)
  ultimately show ?thesis by (metis set_eq_iff_mset_eq_distinct)
qed

text \<open>
  Floating pins reorders and never loses: with FTS5, the rows of the combined stream are
  the rows the query matches, each once, and the first of them are matching pins, at most
  \<open>pinned_limit\<close> of them, when pins are included.
\<close>

lemma pins_float_without_loss:
  assumes wf: "wf_store s" and fts: "fts5_active s"
  shows "mset (map sm_item (keyword_stream eng q pid ip tags phrase pl s)) =
      mset (ranking eng q pid tags phrase (if ip then Include else Exclude) s)
    \<and> length (floated_pins eng q pid ip tags phrase pl s) \<le> nat pl
    \<and> prefix (floated_pins eng q pid ip tags phrase pl s) (map sm_item (keyword_stream eng q pid ip tags phrase pl s))
    \<and> list_all m_pinned (floated_pins eng q pid ip tags phrase pl s)"
proof (intro conjI)
  let ?F = "floated_pins eng q pid ip tags phrase pl s"
  let ?R = "ranking eng q pid tags phrase (if ip then Include else Exclude) s"
  let ?rest = "filter (\<lambda>m. m_id m \<notin> m_id ` set ?F) ?R"
  have sub: "set ?F \<subseteq> set ?R"
    using fts by (auto simp: floated_pins_window ranking_def Let_def row_filter_def scope_only_include
        split: if_splits dest!: in_set_takeD)
  have "mset (?F @ ?rest) = mset ?R"
    using mset_float [OF distinct_floated_pins [OF wf] distinct_ranking [OF wf] sub] .
  then show "mset (map sm_item (keyword_stream eng q pid ip tags phrase pl s)) = mset ?R"
    unfolding items_keyword_stream by simp
  show "length ?F \<le> nat pl" by (simp add: floated_pins_window)
  show "prefix ?F (map sm_item (keyword_stream eng q pid ip tags phrase pl s))"
    unfolding items_keyword_stream by simp
  show "list_all m_pinned ?F" using floated_pins_rows by (auto simp: list_all_iff)
qed

lemma pins_float_without_loss_witness:
  "mset (map sm_item (keyword_stream sample_engine ''brief'' None True None False 1 sample_store)) =
     {# sample_memory, sample_global #}
   \<and> floated_pins sample_engine ''brief'' None True None False 1 sample_store = [sample_global]"
proof -
  have "ranking sample_engine ''brief'' None None False Include sample_store = [sample_memory, sample_global]"
    "floated_pins sample_engine ''brief'' None True None False 1 sample_store = [sample_global]"
    unfolding sample_store_eq by code_simp+
  then show ?thesis
    using pins_float_without_loss [OF wf_sample_store, of sample_engine "''brief''" None True None False 1]
    by (simp add: sample_store_eq)
qed

section \<open>Text that callers send\<close>

text \<open>
  Searching projects by name is literal: \<open>list_projects(name_contains=n)\<close> returns, newest
  first, exactly the projects whose name has \<open>n\<close> as a substring up to ASCII case; the
  wildcards and the escape character of LIKE have no meaning in \<open>n\<close>.
\<close>

lemma list_projects_literal:
  "set (list_projects (Some n) s) =
     {p \<in> set (projects (the_db s)). sublist (map ascii_fold n) (map ascii_fold (p_name p))}
   \<and> sorted_wrt (\<lambda>x y. wall (p_created_at y) \<le> wall (p_created_at x)) (list_projects (Some n) s)"
  using sort_desc_sorted [of project_order "filter (\<lambda>p. like_match like_escape_char (like_pattern_contains n) (p_name p))
      (projects (the_db s))"]
  by (auto simp: list_projects_def like_contains project_order_def less_eq_prod_def elim!: sorted_wrt_mono_rel [rotated])


text \<open>
  Turning FTS5 on for a database that already has memories does not index them: the check
  for an empty index counts the rows of the content table instead, so the rebuild is skipped,
  and every keyword search answers nothing until rows are written again.
\<close>

lemma late_fts5_finds_nothing:
  assumes "wf_db d" "\<not> fts_installed d" "memory_items d \<noteq> []"
  shows "ranked_search eng q n pid tags phrase mode (open_store d env True True) = []"
  using assms by (simp add: ranked_search_def open_store_def ensure_fts5_def fts5_search_memory_def sql_limit_def
      wf_db_def index_ok_def Let_def)

lemma late_fts5_finds_nothing_witness:
  "ranked_search sample_engine ''be brief'' 10 None None False Include
     (open_store (the_db (snd (add_memory sample_global (open_store empty_db [] False True)))) [] True True) = []"
proof (rule late_fts5_finds_nothing)
  have "wf_store (snd (add_memory sample_global (open_store empty_db [] False True)))"
    by (rule preserves_wfD [OF preserves_wf_add_memory wf_new_store surjective_pairing])
  then show "wf_db (the_db (snd (add_memory sample_global (open_store empty_db [] False True))))" by (rule wf_storeD)
qed (code_simp)+

end
