(* ===== verification/OC_Embedding_Service.thy ===== *)
theory OC_Embedding_Service
  imports OC_Search
begin

text \<open>
  Embedding generation (\<open>core/application/services/embedding_service.py\<close>): the single
  save, the tombstone of over-long content, the backfill in chunks, the coverage counts, and
  the background and reconciliation logic. The provider is a parameter (\<^typ>\<open>nat\<close> numbers
  its calls, so that it may answer differently every time), and so is what other threads do
  to the store while a provider call runs: the call holds no lock. Metrics, log lines and
  elapsed times are left out.
\<close>

section \<open>The outside world\<close>

record world =
  w_provider :: string
  w_model :: string
  w_fingerprint :: string
  w_tracks_revision :: bool
  w_embed :: "nat \<Rightarrow> string \<Rightarrow> exc + rat list"
  w_embed_batch :: "nat \<Rightarrow> string list \<Rightarrow> exc + rat list list"
  w_snapshot :: "nat \<Rightarrow> revision_snapshot"
  w_refresh :: "nat \<Rightarrow> bool \<Rightarrow> revision_snapshot"
  w_now :: "nat \<Rightarrow> datetime"
  w_hash :: "string \<Rightarrow> string"
  w_others :: "nat \<Rightarrow> store \<Rightarrow> store"

record backfill_result =
  br_generated :: nat
  br_failed :: nat
  br_tombstoned :: nat
  br_skipped :: bool

definition outcome_of :: "backfill_result \<Rightarrow> string" where
  "outcome_of r =
     (if br_skipped r then ''skipped''
      else if br_failed r = 0 then ''ok''
      else if br_generated r = 0 then ''failed''
      else ''partial'')"

datatype background_task = NoTask | Running string bool | Finished

datatype background_report =
    Cancelled string
  | Errored string exc
  | Ended string string nat nat nat

record service =
  sv_store :: store
  sv_clock :: nat
  sv_search_failures :: nat
  sv_last_search_failure_at :: "datetime option"
  sv_failures :: nat
  sv_last_failure_at :: "datetime option"
  sv_last_failure_op :: "string option"
  sv_task :: background_task
  sv_backfill_lock :: bool
  sv_last_background :: "background_report option"
  sv_reconciled :: "string option option"
  sv_auto_backfill :: bool

definition new_service :: "store \<Rightarrow> service" where
  "new_service st = \<lparr>sv_store = st, sv_clock = 0, sv_search_failures = 0, sv_last_search_failure_at = None,
     sv_failures = 0, sv_last_failure_at = None, sv_last_failure_op = None, sv_task = NoTask,
     sv_backfill_lock = False, sv_last_background = None, sv_reconciled = None, sv_auto_backfill = False\<rparr>"

definition record_failure :: "world \<Rightarrow> string \<Rightarrow> service \<Rightarrow> service" where
  "record_failure w op sv =
     sv\<lparr>sv_failures := sv_failures sv + 1, sv_last_failure_at := Some (w_now w (sv_clock sv)),
        sv_last_failure_op := Some op\<rparr>"

definition record_success :: "service \<Rightarrow> service" where
  "record_success sv = sv\<lparr>sv_failures := 0, sv_last_failure_op := None\<rparr>"

text \<open>A provider call: one tick of the clock, during which the other threads may write.\<close>

definition provider_tick :: "world \<Rightarrow> service \<Rightarrow> service" where
  "provider_tick w sv =
     sv\<lparr>sv_clock := sv_clock sv + 1, sv_store := w_others w (sv_clock sv) (sv_store sv)\<rparr>"

definition embed_single :: "world \<Rightarrow> string \<Rightarrow> service \<Rightarrow> (exc, rat list, service) outcome" where
  "embed_single w content sv = (w_embed w (sv_clock sv) content, provider_tick w sv)"

definition embed_batch :: "world \<Rightarrow> string list \<Rightarrow> service \<Rightarrow> (exc, rat list list, service) outcome" where
  "embed_batch w contents sv = (w_embed_batch w (sv_clock sv) contents, provider_tick w sv)"

definition is_content_too_long :: "exc \<Rightarrow> bool" where
  "is_content_too_long e = (is_provider_error e \<and> exc_code e = Some CONTENT_TOO_LONG)"

section \<open>One memory\<close>

definition active_space :: "world \<Rightarrow> string option \<Rightarrow> embedding_space" where
  "active_space w revision = \<lparr>sp_model = w_model w, sp_provider = w_provider w, sp_revision = revision,
     sp_fingerprint = w_fingerprint w\<rparr>"

definition publish :: "world \<Rightarrow> string \<Rightarrow> rat list \<Rightarrow> string \<Rightarrow> string option \<Rightarrow> string \<Rightarrow> service \<Rightarrow> bool \<times> service" where
  "publish w i vec content revision status sv =
     (case save_embedding (w_hash w) (w_now w (sv_clock sv)) i vec (active_space w revision)
             (w_hash w content) status (sv_store sv) of
        (published, st) \<Rightarrow> (published, sv\<lparr>sv_store := st\<rparr>))"

definition write_tombstone :: "world \<Rightarrow> string \<Rightarrow> string \<Rightarrow> string option \<Rightarrow> service \<Rightarrow> bool \<times> service" where
  "write_tombstone w i content revision sv = publish w i [] content revision ''content_too_long'' sv"

definition is_current :: "world \<Rightarrow> string \<Rightarrow> string \<Rightarrow> string option \<Rightarrow> store \<Rightarrow> bool" where
  "is_current w i content revision st =
     (case get_embedding_identity i st of
        None \<Rightarrow> False
      | Some idn \<Rightarrow> id_space idn = active_space w revision \<and> id_content_hash idn = w_hash w content)"

definition known_snapshot :: "world \<Rightarrow> service \<Rightarrow> revision_snapshot \<times> service" where
  "known_snapshot w sv =
     (let snapshot = w_snapshot w (sv_clock sv)
      in if rs_known snapshot then (snapshot, sv)
         else (w_refresh w (sv_clock sv) False, provider_tick w sv))"

definition generate_for_memory :: "world \<Rightarrow> string \<Rightarrow> string \<Rightarrow> bool \<Rightarrow> service \<Rightarrow> (exc, unit, service) outcome" where
  "generate_for_memory w i content force sv =
     (case known_snapshot w sv of (snapshot, sv) \<Rightarrow>
        if \<not> rs_known snapshot then (Inl RevisionUnknownError, sv)
        else if \<not> force \<and> is_current w i content (rs_value snapshot) (sv_store sv) then (Inr (), sv)
        else (case embed_single w content sv of
                (Inl e, sv) \<Rightarrow>
                  (if is_content_too_long e
                   then (Inr (), snd (write_tombstone w i content (rs_value snapshot) sv))
                   else (Inl e, record_failure w ''save'' sv))
              | (Inr vec, sv) \<Rightarrow>
                  (Inr (), record_success (snd (publish w i vec content (rs_value snapshot) ''ok'' sv)))))"

section \<open>Backfill\<close>

definition BACKFILL_CHUNK_SIZE :: nat where
  "BACKFILL_CHUNK_SIZE = 32"

record tally =
  t_count :: nat
  t_failed :: nat
  t_tombstoned :: nat

definition zero_tally :: tally where
  "zero_tally = \<lparr>t_count = 0, t_failed = 0, t_tombstoned = 0\<rparr>"

text \<open>
  What the loop does with one item once its vector is there or its embedding has failed: the
  body of the \<open>try\<close> and its handler.
\<close>

definition settle_item :: "world \<Rightarrow> string option \<Rightarrow> memory_item \<Rightarrow> exc + rat list \<Rightarrow>
    service \<times> tally \<Rightarrow> service \<times> tally" where
  "settle_item w revision item r acc =
     (case acc of (sv, t) \<Rightarrow>
       (case r of
          Inr vec \<Rightarrow>
            (case publish w (m_id item) vec (m_content item) revision ''ok'' sv of
               (published, sv) \<Rightarrow>
                 (record_success sv, if published then t\<lparr>t_count := t_count t + 1\<rparr> else t))
        | Inl e \<Rightarrow>
            (if is_content_too_long e then
               (case write_tombstone w (m_id item) (m_content item) revision sv of
                  (published, sv) \<Rightarrow> (sv, if published then t\<lparr>t_tombstoned := t_tombstoned t + 1\<rparr> else t))
             else (record_failure w ''backfill'' sv, t\<lparr>t_failed := t_failed t + 1\<rparr>))))"

fun backfill_with_vectors :: "world \<Rightarrow> string option \<Rightarrow> memory_item list \<Rightarrow> rat list list \<Rightarrow>
    service \<times> tally \<Rightarrow> service \<times> tally" where
  "backfill_with_vectors w revision (item # items) (v # vs) acc =
     backfill_with_vectors w revision items vs (settle_item w revision item (Inr v) acc)"
| "backfill_with_vectors w revision _ _ acc = acc"

fun backfill_per_item :: "world \<Rightarrow> string option \<Rightarrow> memory_item list \<Rightarrow> service \<times> tally \<Rightarrow> service \<times> tally" where
  "backfill_per_item w revision [] acc = acc"
| "backfill_per_item w revision (item # items) acc =
     (case embed_single w (m_content item) (fst acc) of
        (r, sv) \<Rightarrow> backfill_per_item w revision items (settle_item w revision item r (sv, snd acc)))"

definition backfill_chunk :: "world \<Rightarrow> string option \<Rightarrow> memory_item list \<Rightarrow> service \<times> tally \<Rightarrow> service \<times> tally" where
  "backfill_chunk w revision items acc =
     (case embed_batch w (map m_content items) (fst acc) of
        (Inr vs, sv) \<Rightarrow>
          (if length vs = length items then backfill_with_vectors w revision items vs (sv, snd acc)
           else backfill_per_item w revision items (sv, snd acc))
      | (Inl e, sv) \<Rightarrow> backfill_per_item w revision items (sv, snd acc))"

function backfill_loop :: "world \<Rightarrow> string option \<Rightarrow> memory_item list \<Rightarrow> service \<times> tally \<Rightarrow> service \<times> tally" where
  "backfill_loop w revision candidates acc =
     (if candidates = [] then acc
      else backfill_loop w revision (drop BACKFILL_CHUNK_SIZE candidates)
             (backfill_chunk w revision (take BACKFILL_CHUNK_SIZE candidates) acc))"
  by pat_completeness auto
termination
  by (relation "measure (\<lambda>(w, r, cs, acc). length cs)") (auto simp: BACKFILL_CHUNK_SIZE_def)

declare backfill_loop.simps [simp del]

definition all_memories :: "string option \<Rightarrow> store \<Rightarrow> memory_item list" where
  "all_memories project_id st =
     (case list_memory None False 0 project_id None None ''pinned_first'' st of Inl _ \<Rightarrow> [] | Inr ms \<Rightarrow> ms)"

definition backfill_candidates :: "world \<Rightarrow> string option \<Rightarrow> string option \<Rightarrow> bool \<Rightarrow> store \<Rightarrow> memory_item list" where
  "backfill_candidates w revision project_id force st =
     filter (\<lambda>m. \<not> (\<not> force \<and> is_current w (m_id m) (m_content m) revision st)) (all_memories project_id st)"

definition backfill :: "world \<Rightarrow> revision_snapshot \<Rightarrow> string option \<Rightarrow> bool \<Rightarrow> service \<Rightarrow> backfill_result \<times> service" where
  "backfill w snapshot project_id force sv =
     (let candidates = backfill_candidates w (rs_value snapshot) project_id force (sv_store sv)
      in if candidates = []
         then (\<lparr>br_generated = 0, br_failed = 0, br_tombstoned = 0, br_skipped = False\<rparr>, sv)
         else (case backfill_loop w (rs_value snapshot) candidates (sv, zero_tally) of
                 (sv, t) \<Rightarrow> (\<lparr>br_generated = t_count t, br_failed = t_failed t,
                              br_tombstoned = t_tombstoned t, br_skipped = False\<rparr>, sv)))"

definition generate_missing :: "world \<Rightarrow> string option \<Rightarrow> bool \<Rightarrow> service \<Rightarrow> (exc, backfill_result, service) outcome" where
  "generate_missing w project_id force sv =
     (if sv_backfill_lock sv
      then (Inr \<lparr>br_generated = 0, br_failed = 0, br_tombstoned = 0, br_skipped = True\<rparr>, sv)
      else (let snapshot = w_refresh w (sv_clock sv) True;
                sv = (provider_tick w sv)\<lparr>sv_backfill_lock := True\<rparr>
            in if \<not> rs_known snapshot then (Inl RevisionUnknownError, sv\<lparr>sv_backfill_lock := False\<rparr>)
               else (case backfill w snapshot project_id force sv of
                       (result, sv) \<Rightarrow>
                         (Inr result,
                          (if project_id = None then sv\<lparr>sv_reconciled := Some (rs_value snapshot)\<rparr> else sv)
                            \<lparr>sv_backfill_lock := False\<rparr>))))"

section \<open>Coverage\<close>

record embedding_status =
  es_total :: nat
  es_embedded :: nat
  es_missing :: int
  es_unembeddable :: nat
  es_space_mismatch :: nat
  es_content_mismatch :: nat
  es_stale :: nat

definition embedding_status :: "world \<Rightarrow> service \<Rightarrow> embedding_status" where
  "embedding_status w sv =
     (let snapshot = w_snapshot w (sv_clock sv);
          st = sv_store sv;
          sp = active_space w (rs_value snapshot);
          total_memories = count_memory None st;
          total_rows = count_embeddings None st;
          embedded = count_embeddings (Some ''ok'') st;
          buckets = stale_embedding_counts (w_hash w) sp (rs_known snapshot) st;
          unembeddable = count_unembeddable_embeddings (w_hash w) sp (rs_known snapshot) st
      in \<lparr>es_total = total_memories, es_embedded = embedded,
          es_missing = int total_memories - int total_rows, es_unembeddable = unembeddable,
          es_space_mismatch = fst buckets, es_content_mismatch = snd buckets,
          es_stale = fst buckets + snd buckets\<rparr>)"

section \<open>Background runs and reconciliation\<close>

definition backfill_running :: "service \<Rightarrow> bool" where
  "backfill_running sv = ((case sv_task sv of Running _ _ \<Rightarrow> True | _ \<Rightarrow> False) \<or> sv_backfill_lock sv)"

definition start_background_backfill :: "bool \<Rightarrow> string \<Rightarrow> service \<Rightarrow> bool \<times> service" where
  "start_background_backfill force trigger sv =
     (if backfill_running sv then (False, sv) else (True, sv\<lparr>sv_task := Running trigger force\<rparr>))"

fun record_background_outcome :: "string \<Rightarrow> (exc + backfill_result) option \<Rightarrow> service \<Rightarrow> service" where
  "record_background_outcome trigger None sv = sv\<lparr>sv_last_background := Some (Cancelled trigger)\<rparr>"
| "record_background_outcome trigger (Some (Inl e)) sv = sv\<lparr>sv_last_background := Some (Errored trigger e)\<rparr>"
| "record_background_outcome trigger (Some (Inr r)) sv =
     sv\<lparr>sv_last_background := Some (Ended trigger (outcome_of r) (br_generated r) (br_failed r) (br_tombstoned r))\<rparr>"

text \<open>The task's run on its worker thread, followed by its done-callback.\<close>

definition run_background_backfill :: "world \<Rightarrow> service \<Rightarrow> service" where
  "run_background_backfill w sv =
     (case sv_task sv of
        Running trigger force \<Rightarrow>
          (case generate_missing w None force sv of
             (r, sv) \<Rightarrow> record_background_outcome trigger (Some r) (sv\<lparr>sv_task := Finished\<rparr>))
      | _ \<Rightarrow> sv)"

definition start_revision_refresher :: "world \<Rightarrow> bool \<Rightarrow> bool \<Rightarrow> service \<Rightarrow> bool \<times> service" where
  "start_revision_refresher w already_running auto sv =
     (if \<not> w_tracks_revision w \<or> already_running then (False, sv) else (True, sv\<lparr>sv_auto_backfill := auto\<rparr>))"

definition reconcile :: "revision_snapshot \<Rightarrow> service \<Rightarrow> service" where
  "reconcile snapshot sv =
     (if \<not> sv_auto_backfill sv \<or> \<not> rs_known snapshot then sv
      else if sv_reconciled sv = Some (rs_value snapshot) \<or> backfill_running sv then sv
      else snd (start_background_backfill False ''reconcile'' sv))"

text \<open>One tick of the refresher, and how many seconds it sleeps afterwards.\<close>

definition refresh_tick :: "world \<Rightarrow> service \<Rightarrow> nat \<times> service" where
  "refresh_tick w sv =
     (let snapshot = w_refresh w (sv_clock sv) True
      in (if rs_known snapshot then 300 else 30, reconcile snapshot (provider_tick w sv)))"

end
