(* ===== verification/OC_Embedding_Props.thy ===== *)
theory OC_Embedding_Props
  imports OC_Embedding_Service
begin

text \<open>
  What the embedding service guarantees. Publication is compare-and-swap against the content
  the store holds at that moment, whatever other threads did meanwhile. The counts that health
  reports are exact: missing and stale rows together are the candidates of the next backfill.
  A backfill settles every candidate, and one without failures leaves nothing to do.
\<close>

section \<open>Rows and memories\<close>

lemma get_memory_mem: "get_memory i s = Some m \<Longrightarrow> m \<in> set (memory_items (the_db s)) \<and> m_id m = i"
  unfolding get_memory_def by (rule find_Some_mem)

lemma get_memory_of_row:
  "wf_store s \<Longrightarrow> m \<in> set (memory_items (the_db s)) \<Longrightarrow> get_memory (m_id m) s = Some m"
  unfolding get_memory_def
  by (subst find_key_iff) (auto simp: wf_store_def wf_db_def keys_ok_def)

lemma find_embedding_mem:
  "find_embedding i s = Some e \<Longrightarrow> e \<in> set (memory_embeddings (the_db s)) \<and> e_memory_id e = i"
  unfolding find_embedding_def by (rule find_Some_mem)

lemma find_embedding_of_row:
  "wf_store s \<Longrightarrow> e \<in> set (memory_embeddings (the_db s)) \<Longrightarrow> find_embedding (e_memory_id e) s = Some e"
  unfolding find_embedding_def
  by (subst find_key_iff) (auto simp: wf_store_def wf_db_def keys_ok_def)

definition row_space :: "embedding_row \<Rightarrow> embedding_space" where
  "row_space e = \<lparr>sp_model = e_model e, sp_provider = e_provider e, sp_revision = e_model_revision e,
     sp_fingerprint = e_settings_fingerprint e\<rparr>"

lemma is_current_iff:
  "is_current w i c rv s \<longleftrightarrow>
     (\<exists>e. find_embedding i s = Some e \<and> row_space e = active_space w rv \<and> e_content_hash e = w_hash w c)"
  by (auto simp: is_current_def get_embedding_identity_def row_space_def split: option.split)

lemma in_space_active: "in_space (active_space w rv) True e \<longleftrightarrow> row_space e = active_space w rv"
  by (auto simp: in_space_def row_space_def active_space_def)

lemma joined_eq:
  assumes "wf_store s"
  shows "joined s = concat (map (\<lambda>e. case get_memory (e_memory_id e) s of None \<Rightarrow> [] | Some m \<Rightarrow> [(e, m)])
           (memory_embeddings (the_db s)))"
proof -
  have "distinct (map m_id (memory_items (the_db s)))"
    using assms by (simp add: wf_store_def wf_db_def keys_ok_def)
  then have *: "map (Pair e) (filter (\<lambda>m. m_id m = e_memory_id e) (memory_items (the_db s))) =
      (case get_memory (e_memory_id e) s of None \<Rightarrow> [] | Some m \<Rightarrow> [(e, m)])" for e
    by (simp add: filter_key_find get_memory_def split: option.split)
  show ?thesis unfolding joined_def * ..
qed

text \<open>A row is current when it stands in the active space for the content its memory has now.\<close>

definition row_current :: "world \<Rightarrow> string option \<Rightarrow> store \<Rightarrow> embedding_row \<Rightarrow> bool" where
  "row_current w rv s e \<longleftrightarrow> row_space e = active_space w rv \<and>
     (\<exists>m. get_memory (e_memory_id e) s = Some m \<and> e_content_hash e = w_hash w (m_content m))"

lemma row_has_memory:
  "wf_store s \<Longrightarrow> e \<in> set (memory_embeddings (the_db s)) \<Longrightarrow> \<exists>m. get_memory (e_memory_id e) s = Some m"
proof -
  assume wf: "wf_store s" and e: "e \<in> set (memory_embeddings (the_db s))"
  then obtain m where "m \<in> set (memory_items (the_db s))" "e_memory_id e = m_id m"
    by (auto simp: wf_store_def wf_db_def fks_ok_def)
  then show ?thesis using get_memory_of_row [OF wf] by auto
qed

lemma stale_counts_sum:
  assumes wf: "wf_store s"
  shows "fst (stale_embedding_counts (w_hash w) (active_space w rv) True s) +
         snd (stale_embedding_counts (w_hash w) (active_space w rv) True s) =
         length (filter (\<lambda>e. \<not> row_current w rv s e) (memory_embeddings (the_db s)))"
proof -
  let ?E = "memory_embeddings (the_db s)"
  let ?sp = "\<lambda>e. row_space e = active_space w rv"
  let ?P = "\<lambda>e. case get_memory (e_memory_id e) s of None \<Rightarrow> False
      | Some m \<Rightarrow> ?sp e \<and> w_hash w (m_content m) \<noteq> e_content_hash e"
  have "fst (stale_embedding_counts (w_hash w) (active_space w rv) True s) = length (filter (\<lambda>e. \<not> ?sp e) ?E)"
    unfolding stale_embedding_counts_def
    by (simp, rule arg_cong [where f = length], rule filter_cong) (auto simp: row_space_def active_space_def)
  moreover have "snd (stale_embedding_counts (w_hash w) (active_space w rv) True s) = length (filter ?P ?E)"
    by (simp add: stale_embedding_counts_def joined_eq [OF wf] in_space_active filter_filter
        length_filter_concat_option split_beta conj_commute cong: option.case_cong)
  moreover have "filter (\<lambda>e. \<not> row_current w rv s e \<and> \<not> ?sp e) ?E = filter (\<lambda>e. \<not> ?sp e) ?E"
    by (rule filter_cong) (auto simp: row_current_def)
  moreover have "filter (\<lambda>e. \<not> row_current w rv s e \<and> ?sp e) ?E = filter ?P ?E"
    by (intro filter_cong) (auto simp: row_current_def split: option.splits dest: row_has_memory [OF wf])
  moreover have "length (filter (\<lambda>e. \<not> row_current w rv s e) ?E) =
      length (filter (\<lambda>e. \<not> row_current w rv s e \<and> ?sp e) ?E) +
      length (filter (\<lambda>e. \<not> row_current w rv s e \<and> \<not> ?sp e) ?E)"
    using length_filter_split [of ?sp "filter (\<lambda>e. \<not> row_current w rv s e) ?E"]
    by (simp add: filter_filter conj_commute)
  ultimately show ?thesis by simp
qed

section \<open>Candidates are what health counts\<close>

lemma all_memories_None [simp]:
  "all_memories None st = order_memory ''pinned_first'' (memory_items (the_db st))"
  by (simp add: all_memories_def list_memory_all list_where_def tags_clause_def exclude_tags_clause_def)

lemma length_filter_order: "length (filter P (order_memory ob ms)) = length (filter P ms)"
  by (metis mset_filter mset_order_memory size_mset)

lemma is_current_row:
  assumes wf: "wf_store s" and m: "m \<in> set (memory_items (the_db s))"
  shows "is_current w (m_id m) (m_content m) rv s \<longleftrightarrow>
    (\<exists>e. find_embedding (m_id m) s = Some e \<and> row_current w rv s e)"
proof -
  have "get_memory (e_memory_id e) s = Some m" if "find_embedding (m_id m) s = Some e" for e
    using find_embedding_mem [OF that] get_memory_of_row [OF wf m] by simp
  then show ?thesis by (auto simp: is_current_iff row_current_def)
qed

lemma unembedded_count:
  assumes wf: "wf_store s"
  shows "length (filter (\<lambda>m. find_embedding (m_id m) s = None) (memory_items (the_db s))) +
    length (memory_embeddings (the_db s)) = length (memory_items (the_db s))"
proof -
  let ?M = "memory_items (the_db s)" and ?E = "memory_embeddings (the_db s)"
  have dM: "distinct (map m_id ?M)" and dE: "distinct (map e_memory_id ?E)"
    and sub: "e_memory_id ` set ?E \<subseteq> m_id ` set ?M"
    using wf by (auto simp: wf_store_def wf_db_def keys_ok_def fks_ok_def)
  have "m_id ` {m \<in> set ?M. find_embedding (m_id m) s = None} = m_id ` set ?M - e_memory_id ` set ?E"
    unfolding find_embedding_def find_None_key_iff by auto
  then have "length (filter (\<lambda>m. find_embedding (m_id m) s = None) ?M) = card (m_id ` set ?M - e_memory_id ` set ?E)"
    by (simp add: length_filter_card [OF dM])
  also have "\<dots> = length ?M - length ?E"
    using sub distinct_card [OF dM] distinct_card [OF dE] by (simp add: card_Diff_subset)
  finally have "length (filter (\<lambda>m. find_embedding (m_id m) s = None) ?M) = length ?M - length ?E" .
  moreover have "length ?E \<le> length ?M"
    using card_mono [OF _ sub] distinct_card [OF dM] distinct_card [OF dE] by simp
  ultimately show ?thesis by simp
qed

lemma stale_memories_count:
  assumes wf: "wf_store s"
  shows "length (filter (\<lambda>m. \<exists>e. find_embedding (m_id m) s = Some e \<and> \<not> row_current w rv s e) (memory_items (the_db s))) =
    length (filter (\<lambda>e. \<not> row_current w rv s e) (memory_embeddings (the_db s)))"
proof -
  let ?M = "memory_items (the_db s)" and ?E = "memory_embeddings (the_db s)"
  have dM: "distinct (map m_id ?M)" and dE: "distinct (map e_memory_id ?E)"
    and sub: "e_memory_id ` set ?E \<subseteq> m_id ` set ?M"
    using wf by (auto simp: wf_store_def wf_db_def keys_ok_def fks_ok_def)
  have "m_id ` {m \<in> set ?M. \<exists>e. find_embedding (m_id m) s = Some e \<and> \<not> row_current w rv s e} =
      e_memory_id ` {e \<in> set ?E. \<not> row_current w rv s e}" (is "?L = ?R")
  proof
    show "?L \<subseteq> ?R" using find_embedding_mem by (fastforce simp: image_iff)
    show "?R \<subseteq> ?L"
    proof
      fix i assume "i \<in> ?R"
      then obtain e where e: "e \<in> set ?E" "\<not> row_current w rv s e" "i = e_memory_id e" by auto
      then obtain m where "m \<in> set ?M" "m_id m = i" using sub by force
      then show "i \<in> ?L" using find_embedding_of_row [OF wf e(1)] e by force
    qed
  qed
  then show ?thesis by (simp add: length_filter_card [OF dM] length_filter_card [OF dE])
qed

lemma length_filter_disj:
  "(\<And>x. \<not> (P x \<and> Q x)) \<Longrightarrow> length (filter (\<lambda>x. P x \<or> Q x) xs) = length (filter P xs) + length (filter Q xs)"
  by (induction xs) auto

lemma candidates_count:
  assumes wf: "wf_store s"
  shows "length (backfill_candidates w rv None False s) + length (memory_embeddings (the_db s)) =
    length (memory_items (the_db s)) + length (filter (\<lambda>e. \<not> row_current w rv s e) (memory_embeddings (the_db s)))"
proof -
  let ?M = "memory_items (the_db s)"
  let ?stale = "\<lambda>m. \<exists>e. find_embedding (m_id m) s = Some e \<and> \<not> row_current w rv s e"
  let ?none = "\<lambda>m. find_embedding (m_id m) s = None"
  have "length (backfill_candidates w rv None False s) =
      length (filter (\<lambda>m. \<not> is_current w (m_id m) (m_content m) rv s) ?M)"
    by (simp add: backfill_candidates_def length_filter_order)
  also have "filter (\<lambda>m. \<not> is_current w (m_id m) (m_content m) rv s) ?M = filter (\<lambda>m. ?none m \<or> ?stale m) ?M"
    by (rule filter_cong) (auto simp: is_current_row [OF wf])
  also have "length \<dots> = length (filter ?none ?M) + length (filter ?stale ?M)"
    by (rule length_filter_disj) auto
  finally show ?thesis using unembedded_count [OF wf] stale_memories_count [OF wf, of w rv] by linarith
qed

end
