(* ===== verification/OC_Backfill.thy ===== *)
theory OC_Backfill
  imports OC_Embedding_Props OC_Catalog
begin

text \<open>
  The backfill, from one item to the whole run. \<^term>\<open>settles\<close> relates the state and tally
  before and after some items were handled: the items that did not fail are current
  afterwards, nothing else changed, and every item was counted once. It composes, so the
  loop lemma is an induction over chunks. Other threads are quiet here; what happens when they
  are not is the subject of the publication lemmas.
\<close>

section \<open>Publication\<close>

lemma publish_store:
  "sv_store (snd (publish w i v c rv st sv)) =
     snd (save_embedding (w_hash w) (w_now w (sv_clock sv)) i v (active_space w rv) (w_hash w c) st (sv_store sv))"
  by (simp add: publish_def split: prod.split)

lemma publish_flag:
  "fst (publish w i v c rv st sv) \<longleftrightarrow> (\<exists>m. get_memory i (sv_store sv) = Some m \<and> w_hash w (m_content m) = w_hash w c)"
  by (auto simp: publish_def save_embedding_def get_memory_def Let_def split: prod.split option.split)

lemma publish_memories:
  "memory_items (the_db (sv_store (snd (publish w i v c rv st sv)))) = memory_items (the_db (sv_store sv))"
  unfolding publish_store
  by (rule save_embedding_frame(2) [OF surjective_pairing])

lemma find_publish:
  assumes "fst (publish w i v c rv st sv)"
  shows "find_embedding k (sv_store (snd (publish w i v c rv st sv))) =
    (if k = i then Some (vector_row (w_now w (sv_clock sv)) i v (active_space w rv) (w_hash w c) st)
     else find_embedding k (sv_store sv))"
proof -
  obtain m where "get_memory i (sv_store sv) = Some m" "w_hash w (m_content m) = w_hash w c"
    using assms publish_flag by blast
  then show ?thesis unfolding publish_store find_save_embedding by simp
qed

lemma vector_row_current [simp]:
  "row_space (vector_row now i v (active_space w rv) h st) = active_space w rv"
  "e_content_hash (vector_row now i v sp h st) = h"
  by (simp_all add: row_space_def vector_row_def active_space_def)

lemma is_current_publish:
  assumes "fst (publish w i v c rv st sv)"
  shows "is_current w k c' rv (sv_store (snd (publish w i v c rv st sv))) \<longleftrightarrow>
    (if k = i then w_hash w c' = w_hash w c else is_current w k c' rv (sv_store sv))"
  by (auto simp: is_current_iff find_publish [OF assms])

lemma wf_publish: "wf_store (sv_store sv) \<Longrightarrow> wf_store (sv_store (snd (publish w i v c rv st sv)))"
  unfolding publish_store by (rule wf_save_embedding [OF _ surjective_pairing])

lemma publish_lock: "sv_backfill_lock (snd (publish w i v c rv st sv)) = sv_backfill_lock sv"
  by (simp add: publish_def split: prod.split)

text \<open>
  How embedding one memory can end: nothing attempted, nothing published, or a publication
  right after the provider call.
\<close>

lemma generate_for_memory_cases:
  assumes snap: "known_snapshot w sv = (snapshot, sv0)"
    and gen: "generate_for_memory w i content force sv = (r, sv')"
  shows "sv_store sv' = sv_store sv0 \<or> sv_store sv' = w_others w (sv_clock sv0) (sv_store sv0)
    \<or> (\<exists>vec st. sv_store sv' = sv_store (snd (publish w i vec content (rs_value snapshot) st (provider_tick w sv0)))
         \<and> sv_clock sv' = sv_clock (provider_tick w sv0))"
proof -
  have after: "sv_store (provider_tick w sv0) = w_others w (sv_clock sv0) (sv_store sv0)" by (simp add: provider_tick_def)
  have clock: "sv_clock (snd (publish w i vec content rv st x)) = sv_clock x" for vec rv st x
    by (simp add: publish_def split: prod.split)
  show ?thesis
    using gen unfolding generate_for_memory_def snap embed_single_def write_tombstone_def record_success_def record_failure_def
    by (auto simp: after clock split: if_splits sum.splits) blast+
qed

section \<open>Settling items\<close>

abbreviation rows :: "service \<times> tally \<Rightarrow> memory_item list" where
  "rows a \<equiv> memory_items (the_db (sv_store (fst a)))"

definition current :: "world \<Rightarrow> string option \<Rightarrow> service \<times> tally \<Rightarrow> memory_item \<Rightarrow> bool" where
  "current w rv a m = is_current w (m_id m) (m_content m) rv (sv_store (fst a))"

definition settles :: "world \<Rightarrow> string option \<Rightarrow> memory_item list \<Rightarrow> service \<times> tally \<Rightarrow> service \<times> tally \<Rightarrow> bool" where
  "settles w rv items a b \<longleftrightarrow>
     rows b = rows a \<and> (wf_store (sv_store (fst a)) \<longrightarrow> wf_store (sv_store (fst b)))
     \<and> sv_backfill_lock (fst b) = sv_backfill_lock (fst a)
     \<and> (\<exists>good bad. mset items = mset good + mset bad
          \<and> t_failed (snd b) = t_failed (snd a) + length bad
          \<and> t_count (snd b) + t_tombstoned (snd b) = t_count (snd a) + t_tombstoned (snd a) + length good
          \<and> (\<forall>m \<in> set (rows a). current w rv b m \<longleftrightarrow> current w rv a m \<or> m \<in> set good))"

definition quiet :: "world \<Rightarrow> bool" where
  "quiet w \<longleftrightarrow> w_others w = (\<lambda>_ s. s)"

lemma generate_quiet:
  assumes "quiet w" "generate_for_memory w i content force sv = (r, sv')"
  shows "sv_store sv' = sv_store sv
    \<or> (\<exists>x vec rv st. sv_store x = sv_store sv \<and> sv_store sv' = sv_store (snd (publish w i vec content rv st x)))"
proof -
  obtain snapshot sv0 where k: "known_snapshot w sv = (snapshot, sv0)" by fastforce
  then have "sv_store sv0 = sv_store sv"
    using assms(1) by (auto simp: known_snapshot_def quiet_def provider_tick_def Let_def split: if_splits)
  then have "sv_store (provider_tick w sv0) = sv_store sv" "w_others w (sv_clock sv0) (sv_store sv0) = sv_store sv"
    using assms(1) by (simp_all add: quiet_def provider_tick_def)
  then show ?thesis using generate_for_memory_cases [OF k assms(2)] \<open>sv_store sv0 = sv_store sv\<close> by metis
qed

lemma settlesI:
  assumes "rows b = rows a" "wf_store (sv_store (fst a)) \<Longrightarrow> wf_store (sv_store (fst b))"
    "sv_backfill_lock (fst b) = sv_backfill_lock (fst a)"
    "mset items = mset good + mset bad" "t_failed (snd b) = t_failed (snd a) + length bad"
    "t_count (snd b) + t_tombstoned (snd b) = t_count (snd a) + t_tombstoned (snd a) + length good"
    "\<And>m. m \<in> set (rows a) \<Longrightarrow> current w rv b m \<longleftrightarrow> current w rv a m \<or> m \<in> set good"
  shows "settles w rv items a b"
  unfolding settles_def using assms by blast

lemma settles_refl: "settles w rv [] a a"
  by (simp add: settles_def)

lemma settles_trans:
  assumes "settles w rv xs a b" "settles w rv ys b c"
  shows "settles w rv (xs @ ys) a c"
proof -
  obtain g b' where 1: "mset xs = mset g + mset b'" "t_failed (snd b) = t_failed (snd a) + length b'"
    "t_count (snd b) + t_tombstoned (snd b) = t_count (snd a) + t_tombstoned (snd a) + length g"
    "\<forall>m \<in> set (rows a). current w rv b m \<longleftrightarrow> current w rv a m \<or> m \<in> set g"
    using assms(1) unfolding settles_def by blast
  obtain h d where 2: "mset ys = mset h + mset d" "t_failed (snd c) = t_failed (snd b) + length d"
    "t_count (snd c) + t_tombstoned (snd c) = t_count (snd b) + t_tombstoned (snd b) + length h"
    "\<forall>m \<in> set (rows b). current w rv c m \<longleftrightarrow> current w rv b m \<or> m \<in> set h"
    using assms(2) unfolding settles_def by blast
  have r: "rows b = rows a" "rows c = rows b" using assms unfolding settles_def by auto
  show ?thesis
  proof (rule settlesI [where good = "g @ h" and bad = "b' @ d"])
    show "current w rv c m \<longleftrightarrow> current w rv a m \<or> m \<in> set (g @ h)" if "m \<in> set (rows a)" for m
      using 1(4) 2(4) r that by simp
    show "wf_store (sv_store (fst c))" if "wf_store (sv_store (fst a))" using assms that by (simp add: settles_def)
    show "sv_backfill_lock (fst c) = sv_backfill_lock (fst a)" using assms by (simp add: settles_def)
  qed (use 1(1-3) 2(1-3) r in simp_all)
qed

lemma settles_tick: "quiet w \<Longrightarrow> settles w rv [] (sv, t) (provider_tick w sv, t)"
  by (simp add: settles_def current_def provider_tick_def quiet_def)

lemma settles_one_good:
  assumes "item \<in> set (rows (sv, t))" "wf_store (sv_store sv)"
    "sv_store sv' = sv_store (snd (publish w (m_id item) v (m_content item) rv st sv))"
    "sv_backfill_lock sv' = sv_backfill_lock sv"
    "t_failed t' = t_failed t" "t_count t' + t_tombstoned t' = Suc (t_count t + t_tombstoned t)"
  shows "settles w rv [item] (sv, t) (sv', t')"
proof -
  have flag: "fst (publish w (m_id item) v (m_content item) rv st sv)"
    using get_memory_of_row [OF assms(2)] assms(1) by (auto simp: publish_flag)
  have same: "m_id m = m_id item \<longleftrightarrow> m = item" if "m \<in> set (rows (sv, t))" for m
    using get_memory_of_row [OF assms(2)] assms(1) that by (metis fst_conv option.inject)
  show ?thesis
  proof (rule settlesI [where good = "[item]" and bad = "[]"])
    show "current w rv (sv', t') m \<longleftrightarrow> current w rv (sv, t) m \<or> m \<in> set [item]" if "m \<in> set (rows (sv, t))" for m
      using same [OF that] by (auto simp: current_def assms(3) is_current_publish [OF flag])
  qed (use assms publish_memories wf_publish in simp_all)
qed

lemma settles_item:
  assumes "item \<in> set (rows a)" "wf_store (sv_store (fst a))"
  shows "settles w rv [item] a (settle_item w rv item r a)"
proof -
  obtain sv t where a: "a = (sv, t)" by fastforce
  have flag: "fst (publish w (m_id item) v (m_content item) rv st sv)" for v st
    using get_memory_of_row [OF assms(2)] assms(1) by (auto simp: publish_flag a)
  show ?thesis
  proof (cases "\<exists>e. r = Inl e \<and> \<not> is_content_too_long e")
    case True
    then show ?thesis
      by (intro settlesI [where good = "[]" and bad = "[item]"])
        (auto simp: a settle_item_def record_failure_def current_def)
  next
    case False
    then consider (vec) v where "r = Inr v" | (long) e where "r = Inl e" "is_content_too_long e" by (cases r) auto
    then show ?thesis
    proof cases
      case vec
      then show ?thesis
        using assms flag by (simp add: a settle_item_def split_beta record_success_def settles_one_good publish_lock)
    next
      case long
      then show ?thesis
        using assms flag by (simp add: a settle_item_def split_beta write_tombstone_def settles_one_good publish_lock)
    qed
  qed
qed

section \<open>The loop\<close>

lemma settles_rows: "settles w rv xs a b \<Longrightarrow> rows b = rows a"
  and settles_wf: "settles w rv xs a b \<Longrightarrow> wf_store (sv_store (fst a)) \<Longrightarrow> wf_store (sv_store (fst b))"
  unfolding settles_def by blast+

lemma settles_Cons:
  "settles w rv [x] a b \<Longrightarrow> settles w rv xs b c \<Longrightarrow> settles w rv (x # xs) a c"
  using settles_trans [of w rv "[x]" a b xs c] by simp

lemma settles_with_vectors:
  "length vs = length items \<Longrightarrow> set items \<subseteq> set (rows a) \<Longrightarrow> wf_store (sv_store (fst a)) \<Longrightarrow>
     settles w rv items a (backfill_with_vectors w rv items vs a)"
proof (induction items arbitrary: vs a)
  case (Cons item items)
  then obtain v vs' where vs: "vs = v # vs'" by (cases vs) auto
  have one: "settles w rv [item] a (settle_item w rv item (Inr v) a)"
    using Cons.prems by (intro settles_item) auto
  have "settles w rv items (settle_item w rv item (Inr v) a)
      (backfill_with_vectors w rv items vs' (settle_item w rv item (Inr v) a))"
    using Cons.prems vs settles_rows [OF one] settles_wf [OF one] by (intro Cons.IH) auto
  then show ?case unfolding vs by (simp add: settles_Cons [OF one])
qed (simp add: settles_refl)

lemma settles_per_item:
  assumes "quiet w"
  shows "set items \<subseteq> set (rows a) \<Longrightarrow> wf_store (sv_store (fst a)) \<Longrightarrow>
    settles w rv items a (backfill_per_item w rv items a)"
proof (induction items arbitrary: a)
  case (Cons item items)
  let ?r = "w_embed w (sv_clock (fst a)) (m_content item)"
  let ?t = "(provider_tick w (fst a), snd a)"
  let ?b = "settle_item w rv item ?r ?t"
  have tick: "settles w rv [] a ?t" using settles_tick [OF assms, of rv "fst a" "snd a"] by simp
  have "settles w rv [item] ?t ?b"
    using Cons.prems settles_rows [OF tick] settles_wf [OF tick] by (intro settles_item) auto
  then have one: "settles w rv [item] a ?b" using settles_trans [OF tick] by fastforce
  have "settles w rv items ?b (backfill_per_item w rv items ?b)"
    using Cons.prems settles_rows [OF one] settles_wf [OF one] by (intro Cons.IH) auto
  then show ?case by (simp add: embed_single_def settles_Cons [OF one])
qed (simp add: settles_refl)

lemma settles_chunk:
  assumes "quiet w" "set items \<subseteq> set (rows a)" "wf_store (sv_store (fst a))"
  shows "settles w rv items a (backfill_chunk w rv items a)"
proof -
  let ?t = "(provider_tick w (fst a), snd a)"
  have tick: "settles w rv [] a ?t" using settles_tick [OF assms(1), of rv "fst a" "snd a"] by simp
  have sub: "set items \<subseteq> set (rows ?t)" "wf_store (sv_store (fst ?t))"
    using assms settles_rows [OF tick] settles_wf [OF tick] by auto
  have "settles w rv items ?t (backfill_chunk w rv items a)"
    using settles_per_item [OF assms(1) sub] settles_with_vectors [OF _ sub]
    by (auto simp: backfill_chunk_def embed_batch_def split: sum.split)
  then show ?thesis using settles_trans [OF tick] by fastforce
qed

lemma settles_loop:
  "quiet w \<Longrightarrow> set items \<subseteq> set (rows a) \<Longrightarrow> wf_store (sv_store (fst a)) \<Longrightarrow>
     settles w rv items a (backfill_loop w rv items a)"
proof (induction w rv items a rule: backfill_loop.induct)
  case (1 w rv items a)
  show ?case
  proof (cases "items = []")
    case True
    then show ?thesis by (simp add: backfill_loop.simps settles_refl)
  next
    case False
    let ?b = "backfill_chunk w rv (take BACKFILL_CHUNK_SIZE items) a"
    have "set (take BACKFILL_CHUNK_SIZE items) \<subseteq> set (rows a)" using "1.prems" by (meson order_trans set_take_subset)
    then have one: "settles w rv (take BACKFILL_CHUNK_SIZE items) a ?b"
      using "1.prems" by (intro settles_chunk)
    have "set (drop BACKFILL_CHUNK_SIZE items) \<subseteq> set (rows ?b)"
      using "1.prems" settles_rows [OF one] by (metis order_trans set_drop_subset)
    then have "settles w rv (drop BACKFILL_CHUNK_SIZE items) ?b
        (backfill_loop w rv (drop BACKFILL_CHUNK_SIZE items) ?b)"
      using "1.IH" [OF False] "1.prems" settles_wf [OF one] by simp
    from settles_trans [OF one this] show ?thesis
      by (subst backfill_loop.simps) (simp add: False)
  qed
qed

section \<open>The whole run\<close>

lemma all_memories_eq:
  "all_memories pid st = order_memory ''pinned_first'' (filter (list_where False pid None None) (memory_items (the_db st)))"
  by (simp add: all_memories_def list_memory_all)

lemma candidates_sub: "set (backfill_candidates w rv pid force st) \<subseteq> set (memory_items (the_db st))"
  by (auto simp: backfill_candidates_def all_memories_eq)

text \<open>What one run leaves: each candidate counted once, and the failed ones the only candidates left.\<close>

lemma backfill_settles:
  assumes "quiet w" "wf_store (sv_store sv)" "backfill w snap pid force sv = (r, sv')"
  shows "settles w (rs_value snap) (backfill_candidates w (rs_value snap) pid force (sv_store sv)) (sv, zero_tally)
      (sv', \<lparr>t_count = br_generated r, t_failed = br_failed r, t_tombstoned = br_tombstoned r\<rparr>)"
    and "\<not> br_skipped r"
proof -
  let ?c = "backfill_candidates w (rs_value snap) pid force (sv_store sv)"
  have loop: "settles w (rs_value snap) ?c (sv, zero_tally) (backfill_loop w (rs_value snap) ?c (sv, zero_tally))"
    using assms candidates_sub by (intro settles_loop) auto
  obtain sv1 t where l: "backfill_loop w (rs_value snap) ?c (sv, zero_tally) = (sv1, t)" by fastforce
  have "backfill_loop w (rs_value snap) [] (sv, zero_tally) = (sv, zero_tally)"
    by (simp add: backfill_loop.simps)
  then have "sv' = sv1" "\<lparr>t_count = br_generated r, t_failed = br_failed r, t_tombstoned = br_tombstoned r\<rparr> = t"
    "\<not> br_skipped r"
    using assms(3) l by (cases "?c = []"; auto simp: backfill_def Let_def zero_tally_def)+
  then show "settles w (rs_value snap) ?c (sv, zero_tally)
      (sv', \<lparr>t_count = br_generated r, t_failed = br_failed r, t_tombstoned = br_tombstoned r\<rparr>)" "\<not> br_skipped r"
    using loop l by simp_all
qed

lemma distinct_candidates:
  assumes "wf_store st"
  shows "distinct (backfill_candidates w rv pid force st)"
proof -
  have "distinct (map m_id (all_memories pid st))"
    using wf_keysD(2) [OF wf_storeD [OF assms]] by (simp add: all_memories_eq distinct_map_filter)
  then show ?thesis by (simp add: backfill_candidates_def distinct_map)
qed

lemma set_candidates:
  "set (backfill_candidates w rv pid force st) =
     {m \<in> set (memory_items (the_db st)). list_where False pid None None m
        \<and> (force \<or> \<not> is_current w (m_id m) (m_content m) rv st)}"
  by (auto simp: backfill_candidates_def all_memories_eq)

lemma settles_counts:
  assumes wf: "wf_store (sv_store sv)"
    and st: "settles w rv (backfill_candidates w rv pid force (sv_store sv)) (sv, zero_tally) (sv', t)"
  shows "t_count t + t_tombstoned t + t_failed t = length (backfill_candidates w rv pid force (sv_store sv))"
    and "length (backfill_candidates w rv pid False (sv_store sv')) \<le> t_failed t"
    and "\<not> force \<Longrightarrow> length (backfill_candidates w rv pid False (sv_store sv')) = t_failed t"
proof -
  let ?c = "backfill_candidates w rv pid force (sv_store sv)"
  let ?after = "backfill_candidates w rv pid False (sv_store sv')"
  obtain good bad where gb: "mset ?c = mset good + mset bad" "t_failed t = length bad"
    "t_count t + t_tombstoned t = length good"
    "\<forall>m \<in> set (memory_items (the_db (sv_store sv))). current w rv (sv', t) m \<longleftrightarrow> current w rv (sv, zero_tally) m \<or> m \<in> set good"
    using st unfolding settles_def zero_tally_def by auto
  have "length ?c = length good + length bad" using arg_cong [OF gb(1), of size] by simp
  then show "t_count t + t_tombstoned t + t_failed t = length ?c" using gb(2,3) by simp
  have rows: "memory_items (the_db (sv_store sv')) = memory_items (the_db (sv_store sv))"
    using settles_rows [OF st] by simp
  have "distinct (good @ bad)"
    using distinct_candidates [OF wf, of w rv pid force] gb(1) by (metis mset_append mset_eq_imp_distinct_iff)
  moreover have "set ?c = set good \<union> set bad" using gb(1) by (metis mset_append set_append set_mset_mset)
  ultimately have bad: "set bad = set ?c - set good" "length bad = card (set bad)"
    using distinct_card [of bad] by auto
  have after: "set ?after = {m \<in> set (memory_items (the_db (sv_store sv))). list_where False pid None None m
      \<and> \<not> is_current w (m_id m) (m_content m) rv (sv_store sv) \<and> m \<notin> set good}"
    using gb(4) unfolding set_candidates rows current_def by auto
  have len: "length ?after = card (set ?after)"
    using distinct_card [OF distinct_candidates] settles_wf [OF st] wf by simp
  note before = set_candidates [of w rv pid force "sv_store sv"]
  have "set ?after \<subseteq> set bad" using after bad(1) before by auto
  then show "length ?after \<le> t_failed t" unfolding len gb(2) bad(2) by (simp add: card_mono)
  show "length ?after = t_failed t" if "\<not> force"
  proof -
    have "set ?after = set bad" using that after bad(1) before by auto
    then show ?thesis unfolding len gb(2) bad(2) by simp
  qed
qed

end
