(* ===== verification/OC_Hybrid_Search.thy ===== *)
theory OC_Hybrid_Search
  imports OC_Keyword_Search OC_Embedding_Service OC_Contracts
begin

text \<open>
  Semantic and hybrid search (\<open>EmbeddingService.search_hybrid\<close>, \<open>search_semantic\<close> and
  \<open>_semantic_search\<close>) and the search use case that dispatches on the mode. NumPy is a
  parameter: \<open>np_scores\<close> is the product of the matrix of stored vectors with the query
  vector and \<open>np_top\<close> the indices that \<open>argpartition\<close> and \<open>argsort\<close> select. The order in
  which Python iterates a set is a parameter too. Scores are exact rationals here.
\<close>

section \<open>Parameters\<close>

record numpy =
  np_scores :: "rat list list \<Rightarrow> rat list \<Rightarrow> rat list"
  np_top :: "rat list \<Rightarrow> int \<Rightarrow> nat list"

text \<open>
  What NumPy documents: one score per row; the indices of a top-k selection are distinct, in
  descending order of score, as many as asked for or all, and nothing left out is larger.
\<close>

definition numpy_ok :: "numpy \<Rightarrow> bool" where
  "numpy_ok np \<longleftrightarrow>
     (\<forall>rows q. length (np_scores np rows q) = length rows)
     \<and> (\<forall>scores k. 0 \<le> k \<longrightarrow>
          length (np_top np scores k) = min (nat k) (length scores)
          \<and> distinct (np_top np scores k) \<and> set (np_top np scores k) \<subseteq> {..<length scores}
          \<and> sorted_wrt (\<lambda>i j. scores ! j \<le> scores ! i) (np_top np scores k)
          \<and> (\<forall>i \<in> set (np_top np scores k). \<forall>j < length scores.
               j \<notin> set (np_top np scores k) \<longrightarrow> scores ! j \<le> scores ! i))"

definition iterates_sets :: "(string set \<Rightarrow> string list) \<Rightarrow> bool" where
  "iterates_sets iter \<longleftrightarrow> (\<forall>A. finite A \<longrightarrow> distinct (iter A) \<and> set (iter A) = A)"

section \<open>Semantic search\<close>

text \<open>
  The embedding of the query between two equal readings of the revision: \<open>retries\<close> more
  attempts may follow this one.
\<close>

fun stable_query :: "world \<Rightarrow> string \<Rightarrow> revision_snapshot \<Rightarrow> revision_snapshot \<Rightarrow> nat \<Rightarrow> service \<Rightarrow>
    (exc, rat list \<times> revision_snapshot, service) outcome" where
  "stable_query w query opening snapshot retries sv =
     (case embed_single w query sv of
        (Inl e, sv1) \<Rightarrow> (Inl e, sv1)
      | (Inr query_vec, sv1) \<Rightarrow>
          (let after_embed = w_snapshot w (sv_clock sv1)
           in if snapshot = after_embed then
                (if rs_known opening \<and> \<not> rs_known after_embed then (Inl RevisionChangedError, sv1)
                 else (Inr (query_vec, snapshot), sv1))
              else (case retries of
                      0 \<Rightarrow> (Inl RevisionChangedError, sv1)
                    | Suc n \<Rightarrow> stable_query w query opening after_embed n sv1)))"

declare stable_query.simps [simp del]

definition truthy_list :: "'a list option \<Rightarrow> bool" where
  "truthy_list xs = (case xs of None \<Rightarrow> False | Some ys \<Rightarrow> ys \<noteq> [])"

definition semantic_candidates :: "world \<Rightarrow> string option \<Rightarrow> string list option \<Rightarrow> string set \<Rightarrow> rat list \<Rightarrow>
    revision_snapshot \<Rightarrow> store \<Rightarrow> (string \<times> rat list) list" where
  "semantic_candidates w project_id tags exclude_ids query_vec snapshot st =
     (let all_embeddings = list_embeddings None (Some (w_model w)) (Some (w_provider w)) (Some (length query_vec))
            (Some (w_fingerprint w)) (rs_value snapshot) (rs_known snapshot) st;
          ids = filter (\<lambda>(mid, _). mid \<notin> exclude_ids) all_embeddings
      in if project_id \<noteq> None \<or> truthy_list tags
         then (let eligible = eligible_memory_ids project_id tags st
               in filter (\<lambda>(mid, _). mid \<in> eligible) ids)
         else ids)"

definition top_matches :: "numpy \<Rightarrow> (string \<times> rat list) list \<Rightarrow> rat list \<Rightarrow> int \<Rightarrow> (string \<times> rat) list" where
  "top_matches np ids query_vec limit =
     (if ids = [] then []
      else (let scores = np_scores np (map snd ids) query_vec
            in map (\<lambda>i. (fst (ids ! i), scores ! i)) (np_top np scores limit)))"

definition semantic_search :: "world \<Rightarrow> numpy \<Rightarrow> string \<Rightarrow> string option \<Rightarrow> string list option \<Rightarrow> string set \<Rightarrow>
    int \<Rightarrow> service \<Rightarrow> (exc, (string \<times> rat) list, service) outcome" where
  "semantic_search w np query project_id tags exclude_ids limit sv =
     (let opening = w_snapshot w (sv_clock sv)
      in case stable_query w query opening opening 1 sv of
           (Inl e, sv1) \<Rightarrow> (Inl e, sv1)
         | (Inr (query_vec, snapshot), sv1) \<Rightarrow>
             (Inr (top_matches np
                (semantic_candidates w project_id tags exclude_ids query_vec snapshot (sv_store sv1))
                query_vec limit), sv1))"

section \<open>Fusion\<close>

definition RRF_K :: nat where
  "RRF_K = 60"

definition rank_of :: "string list \<Rightarrow> string \<Rightarrow> nat option" where
  "rank_of ids mid = map_of (rev (zip ids [1..<Suc (length ids)])) mid"

definition rrf_term :: "nat option \<Rightarrow> rat" where
  "rrf_term r = (case r of None \<Rightarrow> 0 | Some k \<Rightarrow> 1 / of_nat (RRF_K + k))"

text \<open>\<open>if project_id and ...\<close>: an empty project id does not filter here.\<close>

definition passes_filters :: "string set \<Rightarrow> bool \<Rightarrow> string option \<Rightarrow> string list option \<Rightarrow> memory_item \<Rightarrow> bool" where
  "passes_filters pinned_ids include_pinned project_id tags item =
     (\<not> (m_pinned item \<and> (m_id item \<in> pinned_ids \<or> \<not> include_pinned))
      \<and> \<not> (truthy_list tags \<and> \<not> tags_clause tags item)
      \<and> (case project_id of None \<Rightarrow> True
         | Some p \<Rightarrow> p = [] \<or> \<not> (m_project_id item \<noteq> Some p \<and> \<not> (m_pinned item \<and> m_project_id item = None))))"

definition item_map :: "memory_item list \<Rightarrow> store \<Rightarrow> (string \<times> rat) list \<Rightarrow> string \<Rightarrow> memory_item option" where
  "item_map keyword_results st semantic_ranked mid =
     (case map_of (rev (map (\<lambda>i. (m_id i, i)) keyword_results)) mid of
        Some m \<Rightarrow> Some m
      | None \<Rightarrow> if mid \<in> fst ` set semantic_ranked then get_memory mid st else None)"

definition rrf_scores :: "(string set \<Rightarrow> string list) \<Rightarrow> memory_item list \<Rightarrow> (string \<times> rat) list \<Rightarrow> string set \<Rightarrow>
    bool \<Rightarrow> string option \<Rightarrow> string list option \<Rightarrow> store \<Rightarrow> (memory_item \<times> rat) list" where
  "rrf_scores iter keyword_results semantic_ranked pinned_ids include_pinned project_id tags st =
     (let kr = rank_of (map m_id keyword_results); sr = rank_of (map fst semantic_ranked);
          all_ids = m_id ` set keyword_results \<union> fst ` set semantic_ranked
      in sort_desc snd (concat (map (\<lambda>mid.
           case item_map keyword_results st semantic_ranked mid of
             None \<Rightarrow> []
           | Some item \<Rightarrow>
               if passes_filters pinned_ids include_pinned project_id tags item
               then [(item, rrf_term (kr mid) + rrf_term (sr mid))] else []) (iter all_ids))))"

definition hybrid_entry :: "memory_item list \<Rightarrow> (string \<times> rat) list \<Rightarrow> memory_item \<times> rat \<Rightarrow> scored_memory" where
  "hybrid_entry keyword_results semantic_ranked ms =
     (let kr = rank_of (map m_id keyword_results) (m_id (fst ms));
          sim = map_of (rev semantic_ranked) (m_id (fst ms))
      in \<lparr>sm_item = fst ms,
          sm_channel = (if kr \<noteq> None \<and> sim \<noteq> None then Hybrid else if kr \<noteq> None then Keyword else Semantic),
          sm_rrf_score = Some (snd ms), sm_similarity = sim, sm_keyword_rank = kr\<rparr>)"

definition rrf_merge :: "(string set \<Rightarrow> string list) \<Rightarrow> memory_item list \<Rightarrow> (string \<times> rat) list \<Rightarrow> string set \<Rightarrow>
    bool \<Rightarrow> string option \<Rightarrow> string list option \<Rightarrow> int \<Rightarrow> store \<Rightarrow> scored_memory list" where
  "rrf_merge iter keyword_results semantic_ranked pinned_ids include_pinned project_id tags effective_top_k st =
     map (hybrid_entry keyword_results semantic_ranked)
       (py_prefix (rrf_scores iter keyword_results semantic_ranked pinned_ids include_pinned project_id tags st)
         effective_top_k)"

section \<open>The service's searches\<close>

definition page_of :: "memory_item list \<Rightarrow> int \<Rightarrow> int \<Rightarrow> scored_memory list \<Rightarrow> scored_memory list" where
  "page_of pins top_k offset ranked =
     py_slice (map float_entry pins @ ranked) offset (offset + top_k)"

definition search_failed :: "world \<Rightarrow> exc \<Rightarrow> service \<Rightarrow> service" where
  "search_failed w e sv =
     (if e = RevisionChangedError \<or> is_content_too_long e then sv
      else (let sv1 = record_failure w ''search'' (sv\<lparr>sv_search_failures := sv_search_failures sv + 1\<rparr>)
            in sv1\<lparr>sv_last_search_failure_at := sv_last_failure_at sv1\<rparr>))"

definition search_recovered :: "service \<Rightarrow> service" where
  "search_recovered sv = record_success (if sv_search_failures sv \<noteq> 0 then sv\<lparr>sv_search_failures := 0\<rparr> else sv)"

definition search_hybrid :: "world \<Rightarrow> numpy \<Rightarrow> fts_engine \<Rightarrow> (string set \<Rightarrow> string list) \<Rightarrow> string \<Rightarrow> int \<Rightarrow>
    string option \<Rightarrow> bool \<Rightarrow> string list option \<Rightarrow> int \<Rightarrow> bool \<Rightarrow> int \<Rightarrow> service \<Rightarrow> scored_memory list \<times> service" where
  "search_hybrid w np eng iter query top_k project_id include_pinned tags offset phrase pinned_limit sv =
     (let effective_top_k = top_k + offset;
          pinned_items = floated_pins eng query project_id include_pinned tags phrase pinned_limit (sv_store sv);
          pinned_ids = m_id ` set pinned_items;
          keyword_results = search_memory eng query (effective_top_k * 2) project_id include_pinned tags 0 phrase
            pinned_ids (sv_store sv)
      in case semantic_search w np query project_id tags pinned_ids (effective_top_k * 2) sv of
           (Inl e, sv1) \<Rightarrow> (page_of pinned_items top_k offset (wrap_keyword_ranked keyword_results), search_failed w e sv1)
         | (Inr semantic_ranked, sv1) \<Rightarrow>
             (page_of pinned_items top_k offset
                (rrf_merge iter keyword_results semantic_ranked pinned_ids include_pinned project_id tags
                  effective_top_k (sv_store sv1)),
              search_recovered sv1))"

definition semantic_entry :: "memory_item \<Rightarrow> rat \<Rightarrow> scored_memory" where
  "semantic_entry i sim = \<lparr>sm_item = i, sm_channel = Semantic, sm_rrf_score = None, sm_similarity = Some sim,
     sm_keyword_rank = None\<rparr>"

definition semantic_results :: "bool \<Rightarrow> string option \<Rightarrow> string list option \<Rightarrow> store \<Rightarrow> (string \<times> rat) list \<Rightarrow> scored_memory list" where
  "semantic_results include_pinned project_id tags st ranked =
     concat (map (\<lambda>(mid, sim).
       case get_memory mid st of
         None \<Rightarrow> []
       | Some item \<Rightarrow> if passes_filters {} include_pinned project_id tags item then [semantic_entry item sim] else [])
       ranked)"

definition search_semantic :: "world \<Rightarrow> numpy \<Rightarrow> fts_engine \<Rightarrow> string \<Rightarrow> int \<Rightarrow> string option \<Rightarrow> bool \<Rightarrow>
    string list option \<Rightarrow> int \<Rightarrow> int \<Rightarrow> service \<Rightarrow> (exc, scored_memory list, service) outcome" where
  "search_semantic w np eng query top_k project_id include_pinned tags offset pinned_limit sv =
     (let pinned_items = floated_pins eng query project_id include_pinned tags False pinned_limit (sv_store sv);
          pinned_ids = m_id ` set pinned_items
      in case semantic_search w np query project_id tags pinned_ids ((top_k + offset) * 2) sv of
           (Inl e, sv1) \<Rightarrow> (Inl e, sv1)
         | (Inr ranked, sv1) \<Rightarrow>
             (Inr (page_of pinned_items top_k offset
                (semantic_results include_pinned project_id tags (sv_store sv1) ranked)), sv1))"

section \<open>The search use case\<close>

definition VALID_MODES :: "string list" where
  "VALID_MODES = [''hybrid'', ''keyword'', ''semantic'']"

text \<open>\<open>enabled\<close>: the deployment has an embedding service; without one \<open>sv\<close> is only its store.\<close>

definition search_execute :: "world \<Rightarrow> numpy \<Rightarrow> fts_engine \<Rightarrow> (string set \<Rightarrow> string list) \<Rightarrow> bool \<Rightarrow> string \<Rightarrow> int \<Rightarrow>
    string option \<Rightarrow> bool \<Rightarrow> string list option \<Rightarrow> int \<Rightarrow> string \<Rightarrow> bool \<Rightarrow> int \<Rightarrow> service \<Rightarrow>
    (exc, scored_memory list, service) outcome" where
  "search_execute w np eng iter enabled query top_k project_id include_pinned tags offset mode phrase pinned_limit0 sv =
     (if mode \<notin> set VALID_MODES then (Inl (ValidationError ''mode must be one of hybrid, keyword, semantic''), sv)
      else (let pinned_limit = max 0 pinned_limit0
            in if mode = ''semantic'' then
                 (if \<not> enabled then (Inl (ValidationError ''mode=semantic requires an embedding provider''), sv)
                  else search_semantic w np eng query top_k project_id include_pinned tags offset pinned_limit sv)
               else if mode = ''hybrid'' \<and> enabled then
                 (case search_hybrid w np eng iter query top_k project_id include_pinned tags offset phrase pinned_limit sv of
                    (r, sv1) \<Rightarrow> (Inr r, sv1))
               else (Inr (keyword_search eng query top_k project_id include_pinned tags offset phrase pinned_limit (sv_store sv)), sv)))"

end
