(* ===== verification/OC_Hybrid_Props.thy ===== *)
theory OC_Hybrid_Props
  imports OC_Hybrid_Search OC_Backfill
begin

text \<open>
  Lemmas about semantic and hybrid search: the query vector is bracketed by two equal
  readings of the revision; the candidates are exactly the eligible vectors of that space;
  the fused list has distinct, visible rows with bounded scores in descending order.
\<close>

section \<open>The query vector\<close>

lemma embed_single_clock: "embed_single w q sv = (r, sv1) \<Longrightarrow> sv_clock sv1 = Suc (sv_clock sv)"
  by (auto simp: embed_single_def provider_tick_def)

lemma stable_query_step:
  assumes "embed_single w q sv = (r, sv1)"
  shows "stable_query w q opening snap n sv =
    (case r of
       Inl e \<Rightarrow> (Inl e, sv1)
     | Inr v \<Rightarrow>
         if snap = w_snapshot w (sv_clock sv1) then
           (if rs_known opening \<and> \<not> rs_known snap then (Inl RevisionChangedError, sv1) else (Inr (v, snap), sv1))
         else (case n of 0 \<Rightarrow> (Inl RevisionChangedError, sv1)
               | Suc k \<Rightarrow> stable_query w q opening (w_snapshot w (sv_clock sv1)) k sv1))"
  by (subst stable_query.simps) (auto simp: assms Let_def split: sum.split)

lemma stable_query_bracketed:
  "stable_query w q opening snap n sv = (Inr (v, snap'), sv') \<Longrightarrow> snap = w_snapshot w (sv_clock sv) \<Longrightarrow>
     \<exists>c. sv_clock sv' = Suc c \<and> sv_clock sv \<le> c \<and> c \<le> sv_clock sv + n \<and> w_embed w c q = Inr v
       \<and> w_snapshot w c = snap' \<and> w_snapshot w (Suc c) = snap' \<and> (rs_known opening \<longrightarrow> rs_known snap')"
proof (induction n arbitrary: snap sv)
  case 0
  obtain r sv1 where e: "embed_single w q sv = (r, sv1)" by fastforce
  then show ?case
    using 0 embed_single_clock [OF e]
    by (auto simp: stable_query_step [OF e] embed_single_def split: sum.splits if_splits)
next
  case (Suc n)
  obtain r sv1 where e: "embed_single w q sv = (r, sv1)" by fastforce
  note clock = embed_single_clock [OF e]
  show ?case
  proof (cases "snap = w_snapshot w (sv_clock sv1)")
    case True
    then show ?thesis
      using Suc.prems e clock
      by (auto simp: stable_query_step [OF e] embed_single_def split: sum.splits if_splits)
  next
    case False
    then have "stable_query w q opening (w_snapshot w (sv_clock sv1)) n sv1 = (Inr (v, snap'), sv')"
      using Suc.prems(1) by (auto simp: stable_query_step [OF e] split: sum.splits)
    from Suc.IH [OF this refl] show ?thesis using clock by fastforce
  qed
qed

lemma stable_query_store:
  "quiet w \<Longrightarrow> stable_query w q opening snap n sv = (r, sv') \<Longrightarrow> sv_store sv' = sv_store sv"
proof (induction n arbitrary: snap sv)
  case 0
  obtain x sv1 where e: "embed_single w q sv = (x, sv1)" by fastforce
  then have "sv_store sv1 = sv_store sv"
    using 0(1) by (auto simp: embed_single_def provider_tick_def quiet_def)
  then show ?case
    using 0 by (auto simp: stable_query_step [OF e] split: sum.splits if_splits)
next
  case (Suc n)
  obtain x sv1 where e: "embed_single w q sv = (x, sv1)" by fastforce
  then have "sv_store sv1 = sv_store sv"
    using Suc.prems(1) by (auto simp: embed_single_def provider_tick_def quiet_def)
  then show ?case
    using Suc.prems Suc.IH [of "w_snapshot w (sv_clock sv1)" sv1]
    by (auto simp: stable_query_step [OF e] split: sum.splits if_splits)
qed

section \<open>The candidates and their ranking\<close>

definition embedding_in_space :: "world \<Rightarrow> revision_snapshot \<Rightarrow> nat \<Rightarrow> embedding_row \<Rightarrow> bool" where
  "embedding_in_space w snap dims e \<longleftrightarrow> e_status e = ''ok'' \<and> e_model e = w_model w \<and> e_provider e = w_provider w
     \<and> e_settings_fingerprint e = w_fingerprint w \<and> e_dimensions e = dims
     \<and> (rs_known snap \<longrightarrow> e_model_revision e = rs_value snap)"

definition eligible :: "string option \<Rightarrow> string list option \<Rightarrow> string set \<Rightarrow> store \<Rightarrow> string \<Rightarrow> bool" where
  "eligible pid tags ex st mid \<longleftrightarrow> mid \<notin> ex \<and> (\<exists>m \<in> set (memory_items (the_db st)). m_id m = mid
     \<and> scope_clause Include pid m \<and> tags_clause tags m)"

lemma tags_clause_falsy: "\<not> truthy_list tags \<Longrightarrow> tags_clause tags m"
  by (auto simp: truthy_list_def tags_clause_def split: option.splits)

lemma set_candidates_exact:
  assumes "wf_store st"
  shows "set (semantic_candidates w pid tags ex v snap st) =
    {(e_memory_id e, e_embedding e) | e. e \<in> set (memory_embeddings (the_db st))
       \<and> embedding_in_space w snap (length v) e \<and> eligible pid tags ex st (e_memory_id e)}"
proof -
  have mem: "\<exists>m \<in> set (memory_items (the_db st)). m_id m = e_memory_id e" if "e \<in> set (memory_embeddings (the_db st))" for e
    using row_has_memory [OF assms that] get_memory_mem by blast
  have "(mid, x) \<in> set (semantic_candidates w pid tags ex v snap st) \<longleftrightarrow>
      (\<exists>e \<in> set (memory_embeddings (the_db st)). mid = e_memory_id e \<and> x = e_embedding e
        \<and> embedding_in_space w snap (length v) e \<and> mid \<notin> ex
        \<and> (pid \<noteq> None \<or> truthy_list tags \<longrightarrow> mid \<in> eligible_memory_ids pid tags st))" for mid x
    by (auto simp: semantic_candidates_def list_embeddings_def opt_eq_def embedding_in_space_def Let_def)
  moreover have "mid \<notin> ex \<and> (pid \<noteq> None \<or> truthy_list tags \<longrightarrow> mid \<in> eligible_memory_ids pid tags st)
      \<longleftrightarrow> eligible pid tags ex st mid"
    if "mid = e_memory_id e" "e \<in> set (memory_embeddings (the_db st))" for mid e
    using mem [OF that(2)] that(1) tags_clause_falsy [of tags]
    by (cases pid) (auto simp: eligible_def eligible_memory_ids_def image_iff)
  ultimately have "(mid, x) \<in> set (semantic_candidates w pid tags ex v snap st) \<longleftrightarrow>
      (\<exists>e \<in> set (memory_embeddings (the_db st)). mid = e_memory_id e \<and> x = e_embedding e
        \<and> embedding_in_space w snap (length v) e \<and> eligible pid tags ex st mid)" for mid x
    by blast
  then show ?thesis by (auto simp: set_eq_iff)
qed

lemma distinct_candidates_ids:
  assumes "wf_store st"
  shows "distinct (map fst (semantic_candidates w pid tags ex v snap st))"
proof -
  have "distinct (map fst (list_embeddings None a b c d r mr st))" for a b c d r mr
    using wf_keysD(3) [OF wf_storeD [OF assms]]
    by (simp add: list_embeddings_def comp_def distinct_map_filter)
  then show ?thesis by (simp add: semantic_candidates_def Let_def distinct_map_filter)
qed

lemma top_matches_set: "numpy_ok np \<Longrightarrow> 0 \<le> k \<Longrightarrow> fst ` set (top_matches np ids v k) \<subseteq> fst ` set ids"
proof -
  assume np: "numpy_ok np" and k: "0 \<le> k"
  let ?s = "np_scores np (map snd ids) v"
  have "length ?s = length ids" using np by (simp add: numpy_ok_def)
  moreover have "set (np_top np ?s k) \<subseteq> {..<length ?s}" using np k unfolding numpy_ok_def by blast
  ultimately show ?thesis by (auto simp: top_matches_def Let_def)
qed

lemma top_matches_props:
  fixes v :: "rat list"
  assumes np: "numpy_ok np" and k: "0 \<le> k" and dist: "distinct (map fst ids)"
  defines "s \<equiv> np_scores np (map snd ids) v"
  shows "length (top_matches np ids v k) = min (nat k) (length ids)"
    and "distinct (map fst (top_matches np ids v k))"
    and "sorted_wrt (\<lambda>x y. snd y \<le> snd x) (top_matches np ids v k)"
    and "(mid, sim) \<in> set (top_matches np ids v k) \<Longrightarrow> \<exists>i < length ids. fst (ids ! i) = mid \<and> sim = s ! i"
    and "(mid, sim) \<in> set (top_matches np ids v k) \<Longrightarrow> j < length ids \<Longrightarrow>
           fst (ids ! j) \<notin> fst ` set (top_matches np ids v k) \<Longrightarrow> s ! j \<le> sim"
proof -
  have len: "length s = length ids" using np by (simp add: numpy_ok_def s_def)
  let ?I = "np_top np s k"
  have I: "length ?I = min (nat k) (length ids)" "distinct ?I" "set ?I \<subseteq> {..<length ids}"
    "sorted_wrt (\<lambda>i j. s ! j \<le> s ! i) ?I"
    "\<And>i j. i \<in> set ?I \<Longrightarrow> j < length ids \<Longrightarrow> j \<notin> set ?I \<Longrightarrow> s ! j \<le> s ! i"
    using np k len unfolding numpy_ok_def by metis+
  have eq: "top_matches np ids v k = map (\<lambda>i. (fst (ids ! i), s ! i)) ?I"
  proof (cases "ids = []")
    case True
    then have "?I = []" using I(1) by simp
    then show ?thesis using True by (simp add: top_matches_def)
  qed (simp add: top_matches_def s_def Let_def)
  have inj: "inj_on (\<lambda>i. fst (ids ! i)) {..<length ids}"
    using dist by (auto simp: inj_on_def distinct_conv_nth)
  show "length (top_matches np ids v k) = min (nat k) (length ids)" by (simp add: eq I(1))
  show "distinct (map fst (top_matches np ids v k))"
    using I(2,3) inj by (simp add: eq comp_def distinct_map inj_on_subset)
  show "sorted_wrt (\<lambda>x y. snd y \<le> snd x) (top_matches np ids v k)"
    using I(4) by (simp add: eq sorted_wrt_map)
  show "\<exists>i < length ids. fst (ids ! i) = mid \<and> sim = s ! i" if "(mid, sim) \<in> set (top_matches np ids v k)"
    using that I(3) by (auto simp: eq)
  show "s ! j \<le> sim" if "(mid, sim) \<in> set (top_matches np ids v k)" "j < length ids"
    "fst (ids ! j) \<notin> fst ` set (top_matches np ids v k)"
    using that I(5) by (auto simp: eq image_iff)
qed

lemma semantic_search_returns:
  assumes "semantic_search w np q pid tags ex limit sv = (Inr xs, sv')"
  obtains v snap where "stable_query w q (w_snapshot w (sv_clock sv)) (w_snapshot w (sv_clock sv)) 1 sv = (Inr (v, snap), sv')"
    "xs = top_matches np (semantic_candidates w pid tags ex v snap (sv_store sv')) v limit"
  using assms by (auto simp: semantic_search_def Let_def split: prod.splits sum.splits)

lemma semantic_search_store:
  "quiet w \<Longrightarrow> semantic_search w np q pid tags ex limit sv = (r, sv') \<Longrightarrow> sv_store sv' = sv_store sv"
  using stable_query_store by (fastforce simp: semantic_search_def Let_def split: prod.splits sum.splits)

section \<open>Fusion\<close>

lemma rank_of_range: "rank_of ids mid = Some r \<Longrightarrow> 1 \<le> r \<and> r \<le> length ids \<and> mid \<in> set ids"
  unfolding rank_of_def by (drule map_of_SomeD) (auto simp del: upt_Suc dest: set_zip_leftD set_zip_rightD)

lemma rank_of_None: "rank_of ids mid = None \<longleftrightarrow> mid \<notin> set ids"
proof -
  have "fst ` set (zip ids [1..<Suc (length ids)]) = set (map fst (zip ids [1..<Suc (length ids)]))"
    by (rule set_map [symmetric])
  also have "\<dots> = set ids" by (simp add: map_fst_zip del: upt_Suc)
  finally show ?thesis by (simp add: rank_of_def map_of_eq_None_iff)
qed

lemma rrf_term_bounds: "r \<noteq> Some 0 \<Longrightarrow> 0 \<le> rrf_term r \<and> rrf_term r \<le> 1 / 61"
proof (cases r)
  case (Some k)
  assume "r \<noteq> Some 0"
  then have "61 \<le> (of_nat (RRF_K + k) :: rat)" using Some by (cases k) (auto simp: RRF_K_def)
  then show ?thesis using Some by (simp add: rrf_term_def frac_le)
qed (simp add: rrf_term_def)

lemma rrf_term_pos: "r \<noteq> None \<Longrightarrow> 0 < rrf_term r"
  by (auto simp: rrf_term_def RRF_K_def)

lemma item_map_id:
  assumes "item_map ks st sem mid = Some m"
  shows "m_id m = mid \<and> (m \<in> set ks \<or> (mid \<in> fst ` set sem \<and> get_memory mid st = Some m))"
proof (cases "map_of (rev (map (\<lambda>i. (m_id i, i)) ks)) mid")
  case None
  then show ?thesis using assms by (auto simp: item_map_def dest: get_memory_mem split: if_splits)
next
  case (Some x)
  then show ?thesis using assms map_of_SomeD [OF Some] by (auto simp: item_map_def)
qed

text \<open>The fused list as a filter of the ids that Python iterates over.\<close>

definition fused :: "(string set \<Rightarrow> string list) \<Rightarrow> memory_item list \<Rightarrow> (string \<times> rat) list \<Rightarrow> string set \<Rightarrow>
    bool \<Rightarrow> string option \<Rightarrow> string list option \<Rightarrow> store \<Rightarrow> (memory_item \<times> rat) list" where
  "fused iter ks sem pins ip pid tags st = concat (map (\<lambda>mid.
     case item_map ks st sem mid of
       None \<Rightarrow> []
     | Some item \<Rightarrow> if passes_filters pins ip pid tags item
                  then [(item, rrf_term (rank_of (map m_id ks) mid) + rrf_term (rank_of (map fst sem) mid))] else [])
     (iter (m_id ` set ks \<union> fst ` set sem)))"

lemma rrf_scores_fused: "rrf_scores iter ks sem pins ip pid tags st = sort_desc snd (fused iter ks sem pins ip pid tags st)"
  by (simp add: rrf_scores_def fused_def Let_def cong: option.case_cong)

lemma gather_keys:
  assumes "\<And>k x. g k = Some x \<Longrightarrow> F (h k x) = k"
  shows "map F (concat (map (\<lambda>k. case g k of None \<Rightarrow> [] | Some x \<Rightarrow> if P x then [h k x] else []) ks)) =
    filter (\<lambda>k. case g k of None \<Rightarrow> False | Some x \<Rightarrow> P x) ks"
  using assms by (induction ks) (auto split: option.split)

lemma gather_mem:
  "y \<in> set (concat (map (\<lambda>k. case g k of None \<Rightarrow> [] | Some x \<Rightarrow> if P x then [h k x] else []) ks)) \<longleftrightarrow>
     (\<exists>k x. k \<in> set ks \<and> g k = Some x \<and> P x \<and> y = h k x)"
proof -
  have "y \<in> set (case g k of None \<Rightarrow> [] | Some x \<Rightarrow> if P x then [h k x] else []) \<longleftrightarrow>
      (\<exists>x. g k = Some x \<and> P x \<and> y = h k x)" for k
    by (cases "g k") auto
  then show ?thesis by auto
qed

lemma fused_row:
  assumes "iterates_sets iter" "(m, x) \<in> set (fused iter ks sem pins ip pid tags st)"
  shows "m_id m \<in> m_id ` set ks \<union> fst ` set sem \<and> item_map ks st sem (m_id m) = Some m
    \<and> passes_filters pins ip pid tags m
    \<and> x = rrf_term (rank_of (map m_id ks) (m_id m)) + rrf_term (rank_of (map fst sem) (m_id m))"
proof -
  have it: "set (iter (m_id ` set ks \<union> fst ` set sem)) = m_id ` set ks \<union> fst ` set sem"
    using assms(1) by (simp add: iterates_sets_def)
  obtain mid where mid: "mid \<in> m_id ` set ks \<union> fst ` set sem" "item_map ks st sem mid = Some m"
    "passes_filters pins ip pid tags m"
    "x = rrf_term (rank_of (map m_id ks) mid) + rrf_term (rank_of (map fst sem) mid)"
    using assms(2) unfolding fused_def gather_mem it by blast
  then show ?thesis using item_map_id [OF mid(2)] by simp
qed

lemma distinct_fused:
  assumes "iterates_sets iter"
  shows "distinct (map (\<lambda>ms. m_id (fst ms)) (fused iter ks sem pins ip pid tags st))"
proof -
  let ?ids = "iter (m_id ` set ks \<union> fst ` set sem)"
  have "map (\<lambda>ms. m_id (fst ms)) (fused iter ks sem pins ip pid tags st) =
      filter (\<lambda>k. case item_map ks st sem k of None \<Rightarrow> False | Some x \<Rightarrow> passes_filters pins ip pid tags x) ?ids"
    unfolding fused_def by (rule gather_keys) (simp add: item_map_id)
  then show ?thesis using assms by (simp add: iterates_sets_def)
qed

lemma fused_score_bounds:
  assumes "iterates_sets iter" "(m, x) \<in> set (fused iter ks sem pins ip pid tags st)"
  shows "0 < x \<and> x \<le> 2 / 61"
proof -
  note row = fused_row [OF assms]
  let ?a = "rank_of (map m_id ks) (m_id m)" and ?b = "rank_of (map fst sem) (m_id m)"
  have "?a \<noteq> Some 0" "?b \<noteq> Some 0" using rank_of_range by fastforce+
  moreover have "?a \<noteq> None \<or> ?b \<noteq> None" using row by (auto simp: rank_of_None)
  ultimately show ?thesis
    using row rrf_term_bounds [of ?a] rrf_term_bounds [of ?b] rrf_term_pos [of ?a] rrf_term_pos [of ?b] by auto
qed

lemma hybrid_entry_sel [simp]:
  "sm_item (hybrid_entry ks sem ms) = fst ms" "sm_rrf_score (hybrid_entry ks sem ms) = Some (snd ms)"
  by (simp_all add: hybrid_entry_def Let_def)

section \<open>The fused page\<close>

text \<open>What every page of search results satisfies.\<close>

definition page_ok :: "string option \<Rightarrow> bool \<Rightarrow> string list option \<Rightarrow> store \<Rightarrow> scored_memory list \<Rightarrow> bool" where
  "page_ok pid ip tags s L \<longleftrightarrow>
     distinct (map (\<lambda>sm. m_id (sm_item sm)) L)
     \<and> (\<forall>sm \<in> set L. sm_item sm \<in> set (memory_items (the_db s)) \<and> visible pid ip tags (sm_item sm)
          \<and> (\<forall>x. sm_rrf_score sm = Some x \<longrightarrow> 0 < x \<and> x \<le> 2 / 61))
     \<and> sorted_wrt (\<lambda>a b. \<forall>x y. sm_rrf_score a = Some x \<longrightarrow> sm_rrf_score b = Some y \<longrightarrow> y \<le> x) L"

lemma page_ok_window: "page_ok pid ip tags s L \<Longrightarrow> page_ok pid ip tags s (take k (drop n L))"
  unfolding page_ok_def
  by (auto simp: take_map [symmetric] drop_map [symmetric] distinct_take distinct_drop sorted_wrt_take sorted_wrt_drop
      dest: in_set_takeD in_set_dropD)

lemma page_ok_unscored:
  assumes "distinct (map (\<lambda>sm. m_id (sm_item sm)) L)"
    "\<And>sm. sm \<in> set L \<Longrightarrow> sm_item sm \<in> set (memory_items (the_db s)) \<and> visible pid ip tags (sm_item sm)"
    "\<And>sm. sm \<in> set L \<Longrightarrow> sm_rrf_score sm = None"
  shows "page_ok pid ip tags s L"
proof -
  have "sorted_wrt (\<lambda>a b. \<forall>x y. sm_rrf_score a = Some x \<longrightarrow> sm_rrf_score b = Some y \<longrightarrow> y \<le> x) L"
    using assms(3) by (auto simp: sorted_wrt_iff_nth_less)
  then show ?thesis unfolding page_ok_def using assms by simp
qed

lemma visible_eligible:
  assumes "wf_store st" "eligible pid tags ex st (m_id m)" "m \<in> set (memory_items (the_db st))"
    "passes_filters pins ip pid tags m"
  shows "visible pid ip tags m"
proof -
  obtain x where x: "x \<in> set (memory_items (the_db st))" "m_id x = m_id m" "scope_clause Include pid x" "tags_clause tags x"
    using assms(2) by (auto simp: eligible_def)
  then have "x = m" using get_memory_of_row [OF assms(1)] assms(3) by (metis option.inject)
  then show ?thesis
    using x assms(4) by (cases pid) (auto simp: visible_def row_filter_def passes_filters_def)
qed

lemma map_float_sel [simp]: "sm_rrf_score (float_entry i) = None"
  by (simp add: float_entry_def)

lemma page_ok_fused:
  assumes wf: "wf_store s" and it: "iterates_sets iter"
    and ks: "set ks \<subseteq> set (memory_items (the_db s))" "\<And>m. m \<in> set ks \<Longrightarrow> visible pid ip tags m"
      "\<And>m. m \<in> set ks \<Longrightarrow> m_id m \<notin> m_id ` set pins"
    and sem: "\<And>mid. mid \<in> fst ` set sem \<Longrightarrow> eligible pid tags (m_id ` set pins) s mid"
    and pins: "distinct (map m_id pins)" "\<And>m. m \<in> set pins \<Longrightarrow> m \<in> set (memory_items (the_db s)) \<and> visible pid ip tags m"
  shows "page_ok pid ip tags s (map float_entry pins @
    map (hybrid_entry ks sem) (sort_desc snd (fused iter ks sem (m_id ` set pins) ip pid tags s)))"
proof -
  let ?F = "fused iter ks sem (m_id ` set pins) ip pid tags s"
  have row: "m \<in> set (memory_items (the_db s)) \<and> visible pid ip tags m \<and> m_id m \<notin> m_id ` set pins \<and> 0 < x \<and> x \<le> 2 / 61"
    if "(m, x) \<in> set ?F" for m x
  proof -
    note r = fused_row [OF it that]
    consider "m \<in> set ks" | "m_id m \<in> fst ` set sem" "get_memory (m_id m) s = Some m"
      using r item_map_id by blast
    then show ?thesis
    proof cases
      case 1
      then show ?thesis using ks fused_score_bounds [OF it that] by auto
    next
      case 2
      then have "m \<in> set (memory_items (the_db s))" using get_memory_mem by blast
      then show ?thesis
        using sem [OF 2(1)] r fused_score_bounds [OF it that] visible_eligible [OF wf sem [OF 2(1)]]
        by (auto simp: eligible_def)
    qed
  qed
  have disj: "\<forall>ms \<in> set ?F. \<forall>p \<in> set pins. m_id p \<noteq> m_id (fst ms)"
    using row by (metis imageI prod.collapse)
  have "distinct (map (\<lambda>ms. m_id (fst ms)) (sort_desc snd ?F))"
    using distinct_fused [OF it] by simp
  moreover have "sorted_wrt (\<lambda>x y. snd y \<le> snd x) (sort_desc snd ?F)" by (rule sort_desc_sorted)
  ultimately show ?thesis
    unfolding page_ok_def using pins row disj
    by (auto simp: comp_def sorted_wrt_append sorted_wrt_map intro: sorted_wrt_mono_rel)
qed

end
