(* ===== verification/OC_Hybrid_Theorems.thy ===== *)
theory OC_Hybrid_Theorems
  imports OC_Hybrid_Props OC_Embedding_Theorems OC_Search_Theorems
begin

text \<open>
  The theorems about semantic and hybrid search: what a degraded search returns and what it
  does to the failure counters, that a search scores vectors of one space only, that scope
  filters never crowd out a better match, and the shape of the fused page.
\<close>

section \<open>Sample parameters\<close>

definition sample_numpy :: numpy where
  "sample_numpy = \<lparr>np_scores = (\<lambda>rows q. map (\<lambda>r. sum_list (map (\<lambda>(a, b). a * b) (zip r q))) rows),
     np_top = (\<lambda>scores k. take (nat k) (sort_desc (\<lambda>i. scores ! i) [0..<length scores]))\<rparr>"

lemma take_sorted_best:
  assumes "sorted_wrt R xs" "x \<in> set (take n xs)" "y \<in> set xs" "y \<notin> set (take n xs)"
  shows "R x y"
proof -
  have "sorted_wrt R (take n xs @ drop n xs)" using assms(1) by simp
  moreover have "y \<in> set (drop n xs)" using assms(3,4) by (metis UnE append_take_drop_id set_append)
  ultimately show ?thesis using assms(2) unfolding sorted_wrt_append by blast
qed

lemma distinct_sort_desc_id [simp]: "distinct (sort_desc k xs) = distinct xs"
  using distinct_sort_desc [of "\<lambda>x. x" k xs] by simp

lemma sample_numpy_ok: "numpy_ok sample_numpy"
proof -
  have "scores ! j \<le> scores ! i"
    if "i \<in> set (take n (sort_desc ((!) scores) [0..<length scores]))" "j < length scores"
      "j \<notin> set (take n (sort_desc ((!) scores) [0..<length scores]))" for scores :: "rat list" and n i j
    using take_sorted_best [OF sort_desc_sorted that(1) _ that(3)] that(2) by simp
  moreover have "sorted_wrt (\<lambda>i j. scores ! j \<le> scores ! i) (take n (sort_desc ((!) scores) [0..<length scores]))"
    for scores :: "rat list" and n
    using sort_desc_sorted by (rule sorted_wrt_take)
  moreover have "set (take n (sort_desc ((!) scores) [0..<length scores])) \<subseteq> {..<length scores}"
    for scores :: "rat list" and n
    by (auto dest: in_set_takeD)
  ultimately show ?thesis
    unfolding numpy_ok_def sample_numpy_def by (auto simp: distinct_take)
qed

definition sample_iter :: "string set \<Rightarrow> string list" where
  "sample_iter A = sorted_list_of_set A"

lemma sample_iter_ok: "iterates_sets sample_iter"
  by (simp add: iterates_sets_def sample_iter_def)

section \<open>Degradation\<close>

lemma length_take_le: "length (take n xs) \<le> n"
  by simp

lemma page_of_window:
  "0 \<le> off \<Longrightarrow> 0 \<le> k \<Longrightarrow> page_of pins k off ranked = take (nat k) (drop (nat off) (map float_entry pins @ ranked))"
  by (simp add: page_of_def py_slice_nonneg)

lemma keyword_results_take:
  assumes "wf_store s" "0 \<le> n"
  shows "search_memory eng q n pid ip tags 0 phrase (m_id ` set (floated_pins eng q pid ip tags phrase pl s)) s =
    take (nat n) (filter (\<lambda>m. m_id m \<notin> m_id ` set (floated_pins eng q pid ip tags phrase pl s))
      (ranking eng q pid tags phrase (if ip then Include else Exclude) s))"
  using search_memory_window [OF assms(1) finite_floated, of 0 n] assms(2) by simp

lemma hybrid_degrade:
  assumes wf: "wf_store (sv_store sv)" and pos: "0 \<le> off" "0 \<le> k"
    and sem: "semantic_search w np q pid tags (m_id ` set (floated_pins eng q pid ip tags phrase pl (sv_store sv)))
      ((k + off) * 2) sv = (Inl e, sv1)"
  shows "search_hybrid w np eng iter q k pid ip tags off phrase pl sv =
    (keyword_search eng q k pid ip tags off phrase pl (sv_store sv), search_failed w e sv1)"
proof -
  let ?F = "floated_pins eng q pid ip tags phrase pl (sv_store sv)"
  let ?R = "filter (\<lambda>m. m_id m \<notin> m_id ` set ?F) (ranking eng q pid tags phrase (if ip then Include else Exclude) (sv_store sv))"
  have "search_hybrid w np eng iter q k pid ip tags off phrase pl sv =
      (take (nat k) (drop (nat off) (map float_entry ?F @ wrap_keyword_ranked (take (nat ((k + off) * 2)) ?R))), search_failed w e sv1)"
    using pos unfolding search_hybrid_def Let_def sem by (simp add: page_of_window keyword_results_take [OF wf])
  also have "take (nat k) (drop (nat off) (map float_entry ?F @ wrap_keyword_ranked (take (nat ((k + off) * 2)) ?R))) =
      take (nat k) (drop (nat off) (map float_entry ?F @ wrap_keyword_ranked ?R))"
    using pos by (intro take_drop_take_eq [of "nat off + nat k", OF take_append_wrap]) (simp_all add: nat_mult_distrib nat_add_distrib)
  also have "\<dots> = keyword_search eng q k pid ip tags off phrase pl (sv_store sv)"
    by (simp add: keyword_search_window [OF wf pos] keyword_stream_def Let_def)
  finally show ?thesis .
qed

lemma semantic_search_eligible:
  assumes "semantic_search w np q pid tags ex limit sv = (Inr xs, sv')" "numpy_ok np" "0 \<le> limit"
    "wf_store (sv_store sv')" "mid \<in> fst ` set xs"
  shows "eligible pid tags ex (sv_store sv') mid"
proof -
  obtain v snap where "xs = top_matches np (semantic_candidates w pid tags ex v snap (sv_store sv')) v limit"
    using assms(1) by (rule semantic_search_returns)
  then have "mid \<in> fst ` set (semantic_candidates w pid tags ex v snap (sv_store sv'))"
    using top_matches_set [OF assms(2,3)] assms(5) by blast
  then show ?thesis unfolding set_candidates_exact [OF assms(4)] by auto
qed

text \<open>
  C8. When the semantic half fails, for whatever reason, hybrid search never raises: it
  returns exactly the page that keyword mode returns for the same request. A changed model
  revision or an over-long query touches no failure counter; any other error counts once as a
  search failure and once as a provider failure.
\<close>

theorem hybrid_degrades_to_keyword:
  assumes "wf_store (sv_store sv)" "0 \<le> off" "0 \<le> k"
    and "semantic_search w np q pid tags (m_id ` set (floated_pins eng q pid ip tags phrase pl (sv_store sv)))
      ((k + off) * 2) sv = (Inl e, sv1)"
  shows "fst (search_hybrid w np eng iter q k pid ip tags off phrase pl sv) =
      keyword_search eng q k pid ip tags off phrase pl (sv_store sv)
    \<and> (let sv' = snd (search_hybrid w np eng iter q k pid ip tags off phrase pl sv)
       in sv_store sv' = sv_store sv1
        \<and> (if e = RevisionChangedError \<or> is_content_too_long e
           then sv_search_failures sv' = sv_search_failures sv1 \<and> sv_failures sv' = sv_failures sv1
           else sv_search_failures sv' = Suc (sv_search_failures sv1) \<and> sv_failures sv' = Suc (sv_failures sv1)))"
  unfolding hybrid_degrade [OF assms] by (simp add: search_failed_def record_failure_def Let_def)

theorem hybrid_degrades_to_keyword_witness:
  "fst (search_hybrid failing_world sample_numpy sample_engine sample_iter ''brief wal'' 2 None True None 0 False 5 (new_service sample_store)) =
     keyword_search sample_engine ''brief wal'' 2 None True None 0 False 5 sample_store
   \<and> sv_search_failures (snd (search_hybrid failing_world sample_numpy sample_engine sample_iter ''brief wal'' 2 None True None 0 False 5
       (new_service sample_store))) = 1"
proof -
  have sem: "semantic_search failing_world sample_numpy ''brief wal'' None None ids n (new_service sample_store) =
      (Inl (ProviderError TIMEOUT), provider_tick failing_world (new_service sample_store))" for ids n
    by (simp add: semantic_search_def Let_def stable_query.simps embed_single_def failing_world_def)
  show ?thesis
    using hybrid_degrades_to_keyword [OF _ _ _ sem, where off = 0 and k = 2 and eng = sample_engine and ip = True and phrase = False
      and pl = 5 and iter = sample_iter] wf_sample_store
    by (simp add: new_service_def Let_def provider_tick_def is_content_too_long_def)
qed

section \<open>One space, best matches\<close>

text \<open>
  C10. A semantic search scores vectors of one embedding space only: the query was embedded
  between two equal readings of the model revision, in at most two attempts, and every hit is
  a stored vector with the provider, model, settings and length of the query vector and, when
  the revision is known, that revision; once the request has seen a known revision it never
  falls back to an unknown one. Every hit is in the caller's scope and not excluded.
\<close>

theorem semantic_search_single_space:
  assumes "semantic_search w np q pid tags ex limit sv = (Inr xs, sv')" "numpy_ok np" "0 \<le> limit" "wf_store (sv_store sv')"
  shows "\<exists>c v. sv_clock sv' = Suc c \<and> c \<le> Suc (sv_clock sv) \<and> w_embed w c q = Inr v
    \<and> w_snapshot w c = w_snapshot w (Suc c)
    \<and> (rs_known (w_snapshot w (sv_clock sv)) \<longrightarrow> rs_known (w_snapshot w c))
    \<and> (\<forall>mid \<in> fst ` set xs. eligible pid tags ex (sv_store sv') mid
        \<and> (\<exists>e \<in> set (memory_embeddings (the_db (sv_store sv'))). e_memory_id e = mid
             \<and> embedding_in_space w (w_snapshot w c) (length v) e))"
proof -
  obtain v snap where q: "stable_query w q (w_snapshot w (sv_clock sv)) (w_snapshot w (sv_clock sv)) 1 sv = (Inr (v, snap), sv')"
    and xs: "xs = top_matches np (semantic_candidates w pid tags ex v snap (sv_store sv')) v limit"
    using assms(1) by (rule semantic_search_returns)
  obtain c where c: "sv_clock sv' = Suc c" "c \<le> Suc (sv_clock sv)" "w_embed w c q = Inr v"
    "w_snapshot w c = snap" "w_snapshot w (Suc c) = snap" "rs_known (w_snapshot w (sv_clock sv)) \<longrightarrow> rs_known snap"
    using stable_query_bracketed [OF q refl] by auto
  have "fst ` set xs \<subseteq> fst ` set (semantic_candidates w pid tags ex v snap (sv_store sv'))"
    unfolding xs by (rule top_matches_set [OF assms(2,3)])
  then have "\<forall>mid \<in> fst ` set xs. eligible pid tags ex (sv_store sv') mid
        \<and> (\<exists>e \<in> set (memory_embeddings (the_db (sv_store sv'))). e_memory_id e = mid \<and> embedding_in_space w snap (length v) e)"
    unfolding set_candidates_exact [OF assms(4)] by fastforce
  then show ?thesis using c by (intro exI [of _ c] exI [of _ v]) simp
qed

lemma sample_semantic:
  "semantic_search sample_world sample_numpy ''wal'' (Some ''p1'') None {} 2 (new_service sample_store) =
     (Inr [(''m1'', 1)], provider_tick sample_world (new_service sample_store))"
  unfolding sample_store_eq by code_simp

theorem semantic_search_single_space_witness:
  "\<exists>v. w_embed sample_world 0 ''wal'' = Inr v \<and>
     (\<exists>e \<in> set (memory_embeddings (the_db sample_store)). e_memory_id e = ''m1''
        \<and> embedding_in_space sample_world \<lparr>rs_known = True, rs_value = None\<rparr> (length v) e)"
  using semantic_search_single_space [OF sample_semantic sample_numpy_ok] wf_sample_store
  by (auto simp: provider_tick_def new_service_def sample_world_def)

text \<open>
  Scope filters cannot crowd out a match: the candidates are exactly the eligible vectors
  of the space, the search returns as many of them as asked for or all, in descending order of
  similarity, each id once, and no eligible vector left out scores higher than one returned.
\<close>

lemma semantic_search_top_k:
  assumes "semantic_search w np q pid tags ex limit sv = (Inr xs, sv')" "numpy_ok np" "0 \<le> limit" "wf_store (sv_store sv')"
  shows "\<exists>v snap ids. set ids = {(e_memory_id e, e_embedding e) | e. e \<in> set (memory_embeddings (the_db (sv_store sv')))
        \<and> embedding_in_space w snap (length v) e \<and> eligible pid tags ex (sv_store sv') (e_memory_id e)}
    \<and> distinct (map fst ids) \<and> length xs = min (nat limit) (length ids) \<and> distinct (map fst xs)
    \<and> sorted_wrt (\<lambda>x y. snd y \<le> snd x) xs
    \<and> (\<forall>(mid, sim) \<in> set xs. (\<exists>i < length ids. fst (ids ! i) = mid \<and> sim = np_scores np (map snd ids) v ! i)
         \<and> (\<forall>j < length ids. fst (ids ! j) \<notin> fst ` set xs \<longrightarrow> np_scores np (map snd ids) v ! j \<le> sim))"
proof -
  obtain v snap where xs: "xs = top_matches np (semantic_candidates w pid tags ex v snap (sv_store sv')) v limit"
    using assms(1) by (rule semantic_search_returns)
  let ?ids = "semantic_candidates w pid tags ex v snap (sv_store sv')"
  note top = top_matches_props [where ids = ?ids and v = v, OF assms(2,3) distinct_candidates_ids [OF assms(4)], folded xs]
  show ?thesis
    by (rule exI [of _ v], rule exI [of _ snap], rule exI [of _ ?ids])
      (use top set_candidates_exact [OF assms(4)] distinct_candidates_ids [OF assms(4)] in blast)
qed

lemma semantic_search_top_k_witness:
  "\<exists>ids. length [(''m1'', 1 :: rat)] = min (nat 2) (length (ids :: (string \<times> rat list) list)) \<and> distinct (map fst ids)"
  using semantic_search_top_k [OF sample_semantic sample_numpy_ok] wf_sample_store
  by (auto simp: provider_tick_def new_service_def sample_world_def)

section \<open>The fused page\<close>

text \<open>
  C9. A page of hybrid search, with no other writer, whether the semantic half worked or not:
  at most \<open>top_k\<close> results in all, pins included; no memory twice; every result exists and
  satisfies the caller's scope, tag and pin filters; fused scores lie in (0, 2/61] and are in
  descending order.
\<close>

theorem hybrid_page_ok:
  assumes wf: "wf_store (sv_store sv)" and qu: "quiet w" and np: "numpy_ok np" and it: "iterates_sets iter"
    and pos: "0 \<le> off" "0 \<le> k"
  shows "length (fst (search_hybrid w np eng iter q k pid ip tags off phrase pl sv)) \<le> nat k
    \<and> page_ok pid ip tags (sv_store sv) (fst (search_hybrid w np eng iter q k pid ip tags off phrase pl sv))"
proof -
  let ?F = "floated_pins eng q pid ip tags phrase pl (sv_store sv)"
  let ?ids = "m_id ` set ?F"
  let ?R = "ranking eng q pid tags phrase (if ip then Include else Exclude) (sv_store sv)"
  let ?K = "search_memory eng q ((k + off) * 2) pid ip tags 0 phrase ?ids (sv_store sv)"
  have K: "?K = take (nat ((k + off) * 2)) (filter (\<lambda>m. m_id m \<notin> ?ids) ?R)"
    using pos by (simp add: keyword_results_take [OF wf])
  have Kset: "m \<in> set (memory_items (the_db (sv_store sv))) \<and> visible pid ip tags m \<and> m_id m \<notin> ?ids" if "m \<in> set ?K" for m
    using that set_ranking [of m] unfolding K visible_def by (auto dest!: in_set_takeD)
  have F: "distinct (map m_id ?F)" by (rule distinct_floated_pins [OF wf])
  have Fset: "m \<in> set (memory_items (the_db (sv_store sv))) \<and> visible pid ip tags m" if "m \<in> set ?F" for m
    using floated_pins_rows [OF that] by (simp add: visible_def row_filter_def scope_only_include)
  obtain r sv1 where sem: "semantic_search w np q pid tags ?ids ((k + off) * 2) sv = (r, sv1)" by fastforce
  show ?thesis
  proof (cases r)
    case (Inl e)
    have deg: "fst (search_hybrid w np eng iter q k pid ip tags off phrase pl sv) =
        take (nat k) (drop (nat off) (keyword_stream eng q pid ip tags phrase pl (sv_store sv)))"
      using hybrid_degrade [OF wf pos sem [unfolded Inl]] by (simp add: keyword_search_window [OF wf pos])
    have "sm_rrf_score sm = None" if "sm \<in> set (keyword_stream eng q pid ip tags phrase pl (sv_store sv))" for sm
      using that by (auto simp: keyword_stream_def wrap_keyword_ranked_def keyword_entry_def Let_def)
    then have "page_ok pid ip tags (sv_store sv) (keyword_stream eng q pid ip tags phrase pl (sv_store sv))"
      by (intro page_ok_unscored distinct_keyword_stream [OF wf] keyword_stream_rows)
    then show ?thesis unfolding deg by (simp add: page_ok_window)
  next
    case (Inr xs)
    have st: "sv_store sv1 = sv_store sv" by (rule semantic_search_store [OF qu sem])
    let ?all = "sort_desc snd (fused iter ?K xs ?ids ip pid tags (sv_store sv))"
    have "eligible pid tags ?ids (sv_store sv) mid" if "mid \<in> fst ` set xs" for mid
      using semantic_search_eligible [OF sem [unfolded Inr] np _ _ that] pos wf st by simp
    then have ok: "page_ok pid ip tags (sv_store sv) (map float_entry ?F @ map (hybrid_entry ?K xs) ?all)"
      using Kset F Fset by (intro page_ok_fused [OF wf it]) auto
    have "fst (search_hybrid w np eng iter q k pid ip tags off phrase pl sv) =
        take (nat k) (drop (nat off) (map float_entry ?F @ map (hybrid_entry ?K xs) (take (nat (k + off)) ?all)))"
      using pos unfolding search_hybrid_def Let_def sem Inr
      by (simp add: page_of_window rrf_merge_def rrf_scores_fused py_prefix_nonneg st)
    also have "\<dots> = take (nat k) (drop (nat off) (map float_entry ?F @ map (hybrid_entry ?K xs) ?all))"
      using pos by (intro take_drop_take_eq [of "nat off + nat k"]) (simp_all add: take_map nat_add_distrib min_def)
    finally show ?thesis using page_ok_window [OF ok] length_take_le by metis
  qed
qed

theorem hybrid_page_ok_witness:
  "page_ok None True None sample_store (fst (search_hybrid sample_world sample_numpy sample_engine sample_iter ''brief wal'' 2 None True None 0 False 1
     (new_service sample_store)))"
  using hybrid_page_ok [OF _ quiet_sample sample_numpy_ok sample_iter_ok, where sv = "new_service sample_store" and off = 0 and k = 2
      and eng = sample_engine and q = "''brief wal''" and pid = None and ip = True and tags = None and phrase = False and pl = 1]
    wf_sample_store by (simp add: new_service_def)

section \<open>The use case\<close>

text \<open>
  The search use case: an unknown mode and semantic mode without a provider are refused
  and change nothing; keyword mode, and hybrid mode without a provider, return the keyword
  page and never call the provider; hybrid mode never raises; only semantic mode can fail with
  the provider's error.
\<close>

lemma search_execute_modes:
  "case search_execute w np eng iter enabled q k pid ip tags off mode phrase pl sv of
     (Inl e, sv') \<Rightarrow>
       (mode \<notin> set VALID_MODES \<or> (mode = ''semantic'' \<and> \<not> enabled)) \<and> exc_code e = Some INVALID_ARGUMENT \<and> sv' = sv
       \<or> mode = ''semantic'' \<and> enabled \<and> fst (semantic_search w np q pid tags
            (m_id ` set (floated_pins eng q pid ip tags False (max 0 pl) (sv_store sv))) ((k + off) * 2) sv) = Inl e
   | (Inr page, sv') \<Rightarrow>
       mode \<in> set VALID_MODES \<and> (mode = ''semantic'' \<longrightarrow> enabled)
       \<and> (mode = ''keyword'' \<or> (mode = ''hybrid'' \<and> \<not> enabled) \<longrightarrow>
            sv' = sv \<and> page = keyword_search eng q k pid ip tags off phrase (max 0 pl) (sv_store sv))"
  by (auto simp: search_execute_def search_semantic_def VALID_MODES_def Let_def split: prod.splits sum.splits)

lemma search_execute_modes_witness:
  "fst (search_execute sample_world sample_numpy sample_engine sample_iter False ''wal'' 2 None True None 0 ''semantic'' False 5 (new_service sample_store))
     = Inl (ValidationError ''mode=semantic requires an embedding provider'')
   \<and> fst (search_execute sample_world sample_numpy sample_engine sample_iter False ''wal'' 2 None True None 0 ''hybrid'' False 5 (new_service sample_store))
     = Inr (keyword_search sample_engine ''wal'' 2 None True None 0 False 5 sample_store)"
proof -
  have "fst (search_execute sample_world sample_numpy sample_engine sample_iter False ''wal'' 2 None True None 0 ''semantic'' False 5 (new_service sample_store))
     = Inl (ValidationError ''mode=semantic requires an embedding provider'')"
    by (simp add: search_execute_def VALID_MODES_def)
  moreover have "fst (search_execute sample_world sample_numpy sample_engine sample_iter False ''wal'' 2 None True None 0 ''hybrid'' False 5 (new_service sample_store))
     = Inr (keyword_search sample_engine ''wal'' 2 None True None 0 False 5 sample_store)"
    using search_execute_modes [where w = sample_world and np = sample_numpy and eng = sample_engine and iter = sample_iter and enabled = False
      and q = "''wal''" and k = 2 and pid = None and ip = True and tags = None and off = 0 and mode = "''hybrid''" and phrase = False
      and pl = 5 and sv = "new_service sample_store"]
    by (auto simp: VALID_MODES_def new_service_def split: prod.splits sum.splits)
  ultimately show ?thesis ..
qed

end
