(* ===== verification/OC_Use_Cases.thy ===== *)
theory OC_Use_Cases
  imports OC_Embedding_Service OC_Catalog
begin

text \<open>
  The use cases over memories and projects (\<open>core/application/use_cases\<close>): validation first,
  then the store's method, then the embedding, whose failure never fails the save. Replies
  that the code builds as dictionaries are data types with the same fields.
\<close>

section \<open>Memories\<close>

definition with_store :: "service \<Rightarrow> store \<Rightarrow> service" where
  "with_store sv st = sv\<lparr>sv_store := st\<rparr>"

text \<open>The embedding step of a save: every exception is logged and dropped.\<close>

definition try_embed :: "world \<Rightarrow> bool \<Rightarrow> string \<Rightarrow> string \<Rightarrow> bool \<Rightarrow> service \<Rightarrow> service" where
  "try_embed w enabled i content force sv =
     (if enabled then snd (generate_for_memory w i content force sv) else sv)"

definition add_memory_execute :: "world \<Rightarrow> bool \<Rightarrow> memory_item \<Rightarrow> service \<Rightarrow> (exc, memory_item, service) outcome" where
  "add_memory_execute w enabled item sv =
     (if m_project_id item = None then (Inl (ValidationError ''project_id is required''), sv)
      else if py_strip (m_content item) = [] then (Inl (ValidationError ''content must be non-empty''), sv)
      else if length (m_content item) > MAX_CONTENT_CHARS
           then (Inl (ValidationError ''content exceeds maximum length''), sv)
      else (case stored_form item of
              Inl e \<Rightarrow> (Inl e, sv)
            | Inr item \<Rightarrow>
                (case add_memory item (sv_store sv) of
                   (Inl e, st) \<Rightarrow> (Inl e, with_store sv st)
                 | (Inr _, st) \<Rightarrow>
                     (Inr item, try_embed w enabled (m_id item) (m_content item) False (with_store sv st)))))"

definition update_memory_execute :: "world \<Rightarrow> bool \<Rightarrow> string \<Rightarrow> string option \<Rightarrow> string list option \<Rightarrow> service \<Rightarrow>
    (exc, memory_item option, service) outcome" where
  "update_memory_execute w enabled i content tags sv =
     (if content = None \<and> tags = None
      then (Inl (ValidationError ''At least one of content or tags must be provided''), sv)
      else if (case content of None \<Rightarrow> False | Some c \<Rightarrow> py_strip c = [])
           then (Inl (ValidationError ''content must be non-empty''), sv)
      else if (case content of None \<Rightarrow> False | Some c \<Rightarrow> length c > MAX_CONTENT_CHARS)
           then (Inl (ValidationError ''content exceeds maximum length''), sv)
      else (case update_memory (w_now w (sv_clock sv)) i content tags (sv_store sv) of
              (Inl e, st) \<Rightarrow> (Inl e, with_store sv st)
            | (Inr updated, st) \<Rightarrow>
                (if content = None then (Inr updated, with_store sv st)
                 else (case updated of
                         None \<Rightarrow> (Inr updated, with_store sv (delete_embedding i st))
                       | Some m \<Rightarrow>
                           (Inr updated, try_embed w enabled i (m_content m) True
                                           (with_store sv (delete_embedding i st)))))))"

definition pin_memory_execute :: "string \<Rightarrow> bool \<Rightarrow> store \<Rightarrow> unit store_result" where
  "pin_memory_execute i pinned s =
     (case get_memory i s of
        None \<Rightarrow> (Inl (NotFoundError MEMORY_NOT_FOUND i), s)
      | Some _ \<Rightarrow> set_pinned i pinned s)"

definition show_memory_execute :: "string \<Rightarrow> store \<Rightarrow> exc + memory_item" where
  "show_memory_execute i s =
     (case get_memory i s of None \<Rightarrow> Inl (NotFoundError MEMORY_NOT_FOUND i) | Some m \<Rightarrow> Inr m)"

datatype delete_memory_reply = MemoryPreview memory_item | MemoryDeleted string

definition delete_memory_execute :: "string \<Rightarrow> bool \<Rightarrow> store \<Rightarrow> delete_memory_reply store_result" where
  "delete_memory_execute i confirm s =
     (if \<not> confirm then
        (case get_memory i s of
           None \<Rightarrow> (Inl (NotFoundError MEMORY_NOT_FOUND i), s)
         | Some m \<Rightarrow> (Inr (MemoryPreview m), s))
      else (case delete_memory i s of
              (Inl e, s1) \<Rightarrow> (Inl e, s1)
            | (Inr _, s1) \<Rightarrow> (Inr (MemoryDeleted i), s1)))"

section \<open>Statistics\<close>

text \<open>A Python dictionary of counters, in insertion order: \<open>d[k] = d.get(k, 0) + 1\<close>.\<close>

fun bump :: "string \<Rightarrow> (string \<times> nat) list \<Rightarrow> (string \<times> nat) list" where
  "bump k [] = [(k, 1)]"
| "bump k ((x, n) # d) = (if x = k then (x, n + 1) # d else (x, n) # bump k d)"

record memory_stats =
  ms_total :: nat
  ms_pinned :: nat
  ms_by_tag :: "(string \<times> nat) list"
  ms_by_source :: "(string \<times> nat) list"
  ms_other_tags :: "int option"

definition stats_memory_execute :: "string option \<Rightarrow> int \<Rightarrow> store \<Rightarrow> memory_stats" where
  "stats_memory_execute project_id top_tags s =
     (let items = all_memories project_id s;
          by_tag = fold (\<lambda>item d. fold bump (m_tags item) d) items [];
          by_source = fold (\<lambda>item d. bump (if m_source item = [] then ''unknown'' else m_source item) d) items [];
          ranked = sort_key (\<lambda>kv. (- int (snd kv), fst kv)) by_tag
      in \<lparr>ms_total = count_memory project_id s,
          ms_pinned = length (filter m_pinned items),
          ms_by_tag = py_prefix ranked top_tags,
          ms_by_source = by_source,
          ms_other_tags = (if int (length ranked) > top_tags then Some (int (length ranked) - top_tags) else None)\<rparr>)"

section \<open>Projects\<close>

definition create_project_execute :: "string \<Rightarrow> datetime \<Rightarrow> string \<Rightarrow> metadata option \<Rightarrow> store \<Rightarrow> project store_result" where
  "create_project_execute new_id now name md s =
     (let p = \<lparr>p_id = new_id, p_name = name, p_metadata = (case md of None \<Rightarrow> [] | Some v \<Rightarrow> v), p_created_at = now\<rparr>
      in case add_project p s of
           (Inl e, s1) \<Rightarrow> (Inl e, s1)
         | (Inr _, s1) \<Rightarrow> (Inr p, s1))"

definition update_project_execute :: "string \<Rightarrow> string option \<Rightarrow> metadata option \<Rightarrow> store \<Rightarrow> project store_result" where
  "update_project_execute i name md s =
     (if name = None \<and> md = None then (Inl (ValidationError ''Provide at least one of name or metadata''), s)
      else update_project i name md s)"

datatype delete_project_reply = ProjectPreview string string nat | ProjectDeleted string string nat

definition delete_project_execute :: "string \<Rightarrow> bool \<Rightarrow> store \<Rightarrow> delete_project_reply store_result" where
  "delete_project_execute i confirm s =
     (case get_project i s of
        None \<Rightarrow> (Inl (NotFoundError PROJECT_NOT_FOUND i), s)
      | Some p \<Rightarrow>
          if \<not> confirm then (Inr (ProjectPreview (p_id p) (p_name p) (count_memory (Some i) s)), s)
          else (case delete_project i s of
                  (Inl e, s1) \<Rightarrow> (Inl e, s1)
                | (Inr n, s1) \<Rightarrow> (Inr (ProjectDeleted (p_id p) (p_name p) n), s1)))"

record bulk_reply =
  bk_deleted :: bool
  bk_total_requested :: nat
  bk_projects :: "(string \<times> string \<times> nat) list"
  bk_missing :: "string list"
  bk_total_memories :: nat

definition found_projects :: "string list \<Rightarrow> store \<Rightarrow> project list" where
  "found_projects ids s = concat (map (\<lambda>i. case get_project i s of None \<Rightarrow> [] | Some p \<Rightarrow> [p]) ids)"

definition missing_projects :: "string list \<Rightarrow> store \<Rightarrow> string list" where
  "missing_projects ids s = filter (\<lambda>i. get_project i s = None) ids"

text \<open>The list comprehension inside the transaction: one count per project, up to the first raise.\<close>

fun delete_each :: "string list \<Rightarrow> store \<Rightarrow> nat list store_result" where
  "delete_each [] s = (Inr [], s)"
| "delete_each (i # is) s =
     (case delete_project i s of
        (Inl e, s1) \<Rightarrow> (Inl e, s1)
      | (Inr n, s1) \<Rightarrow>
          (case delete_each is s1 of
             (Inl e, s2) \<Rightarrow> (Inl e, s2)
           | (Inr ns, s2) \<Rightarrow> (Inr (n # ns), s2)))"

definition bulk_rows :: "project list \<Rightarrow> nat list \<Rightarrow> (string \<times> string \<times> nat) list" where
  "bulk_rows ps ns = map (\<lambda>(p, n). (p_id p, p_name p, n)) (zip ps ns)"

definition delete_projects_execute :: "string list \<Rightarrow> bool \<Rightarrow> store \<Rightarrow> bulk_reply store_result" where
  "delete_projects_execute project_ids confirm s =
     (let ordered = dict_fromkeys project_ids;
          found = found_projects ordered s;
          missing = missing_projects ordered s
      in if \<not> confirm then
           (let counts = map (\<lambda>p. count_memory (Some (p_id p)) s) found
            in (Inr \<lparr>bk_deleted = False, bk_total_requested = length ordered, bk_projects = bulk_rows found counts,
                     bk_missing = missing, bk_total_memories = sum_list counts\<rparr>, s))
         else (case transaction (delete_each (map p_id found)) s of
                 (Inl e, s1) \<Rightarrow> (Inl e, s1)
               | (Inr counts, s1) \<Rightarrow>
                   (Inr \<lparr>bk_deleted = True, bk_total_requested = length ordered, bk_projects = bulk_rows found counts,
                         bk_missing = missing, bk_total_memories = sum_list counts\<rparr>, s1)))"

section \<open>Embedding\<close>

datatype embed_reply =
    EmbedNotConfigured
  | EmbedStarted bool embedding_status
  | EmbedAlreadyRunning bool embedding_status
  | EmbedRefused bool embedding_status
  | EmbedFinished string nat nat nat bool embedding_status

definition embed_memory_background :: "world \<Rightarrow> bool \<Rightarrow> bool \<Rightarrow> service \<Rightarrow> embed_reply \<times> service" where
  "embed_memory_background w enabled force sv =
     (if \<not> enabled then (EmbedNotConfigured, sv)
      else (case start_background_backfill force ''operator'' sv of
              (started, sv1) \<Rightarrow>
                ((if started then EmbedStarted force (embedding_status w sv1)
                  else EmbedAlreadyRunning force (embedding_status w sv1)), sv1)))"

definition embed_memory_execute :: "world \<Rightarrow> bool \<Rightarrow> bool \<Rightarrow> service \<Rightarrow> (exc, embed_reply, service) outcome" where
  "embed_memory_execute w enabled force sv =
     (if \<not> enabled then (Inr EmbedNotConfigured, sv)
      else (case generate_missing w None force sv of
              (Inl e, sv1) \<Rightarrow>
                (if e = RevisionUnknownError then (Inr (EmbedRefused force (embedding_status w sv1)), sv1)
                 else (Inl e, sv1))
            | (Inr r, sv1) \<Rightarrow>
                (if br_skipped r then (Inr (EmbedAlreadyRunning force (embedding_status w sv1)), sv1)
                 else (Inr (EmbedFinished (outcome_of r) (br_generated r) (br_failed r) (br_tombstoned r) force
                              (embedding_status w sv1)), sv1))))"

end
