(* ===== verification/OC_Use_Case_Theorems.thy ===== *)
theory OC_Use_Case_Theorems
  imports OC_Use_Cases OC_Embedding_Theorems
begin

text \<open>
  The theorems about the use cases: a save that is refused writes nothing, a save that
  succeeds is readable whatever the provider does, an edited memory never keeps a vector of
  its old content, previews change nothing and tell what the confirmed call will do, bulk
  deletion is all or nothing, and the statistics add up.
\<close>

section \<open>Lemmas\<close>

lemma try_embed_memories:
  assumes "quiet w"
  shows "memory_items (the_db (sv_store (try_embed w en i c f sv))) = memory_items (the_db (sv_store sv))"
    and "projects (the_db (sv_store (try_embed w en i c f sv))) = projects (the_db (sv_store sv))"
proof -
  obtain r sv' where g: "generate_for_memory w i c f sv = (r, sv')" by fastforce
  have "sv_store sv' = sv_store sv \<or> (\<exists>x vec rv st. sv_store x = sv_store sv \<and> sv_store sv' = sv_store (snd (publish w i vec c rv st x)))"
    by (rule generate_quiet [OF assms g])
  moreover have "projects (the_db (sv_store (snd (publish w i vec c rv st x)))) = projects (the_db (sv_store x))" for vec rv st x
    unfolding publish_store by (rule save_embedding_frame(1) [OF surjective_pairing])
  ultimately have "memory_items (the_db (sv_store sv')) = memory_items (the_db (sv_store sv))
      \<and> projects (the_db (sv_store sv')) = projects (the_db (sv_store sv))"
    using publish_memories by metis
  then show "memory_items (the_db (sv_store (try_embed w en i c f sv))) = memory_items (the_db (sv_store sv))"
    "projects (the_db (sv_store (try_embed w en i c f sv))) = projects (the_db (sv_store sv))"
    using g by (simp_all add: try_embed_def)
qed

lemma try_embed_fresh:
  assumes "quiet w" "find_embedding i (sv_store sv) = None" "find_embedding i (sv_store (try_embed w en i c f sv)) = Some e"
  shows "e_content_hash e = w_hash w c"
proof -
  obtain r sv' where g: "generate_for_memory w i c f sv = (r, sv')" by fastforce
  then have e: "find_embedding i (sv_store sv') = Some e" using assms by (simp add: try_embed_def split: if_splits)
  then obtain x vec rv st where x: "sv_store x = sv_store sv" "sv_store sv' = sv_store (snd (publish w i vec c rv st x))"
    using generate_quiet [OF assms(1) g] assms(2) by fastforce
  show ?thesis
  proof (cases "fst (publish w i vec c rv st x)")
    case True
    then show ?thesis using e x find_publish [OF True] by auto
  next
    case False
    then have "sv_store (snd (publish w i vec c rv st x)) = sv_store x"
      by (auto simp: publish_def split: prod.splits dest: save_embedding_refused)
    then show ?thesis using e x assms(2) by simp
  qed
qed

lemma get_memory_same: "memory_items (the_db s) = memory_items (the_db t) \<Longrightarrow> get_memory i s = get_memory i t"
  by (simp add: get_memory_def)

lemma get_project_same: "projects (the_db s) = projects (the_db t) \<Longrightarrow> get_project i s = get_project i t"
  by (simp add: get_project_def)

lemma no_row_no_embedding: "wf_store s \<Longrightarrow> get_memory i s = None \<Longrightarrow> find_embedding i s = None"
  using row_has_memory find_embedding_mem by (metis not_Some_eq)

lemma stored_form_idem: "stored_form m = Inr r \<Longrightarrow> stored_form r = Inr r"
  by (rule stored_form_utc) (rule stored_form_Inr(1))

lemma with_store_sel [simp]: "sv_store (with_store sv st) = st"
  by (simp add: with_store_def)

section \<open>Saving and editing\<close>

text \<open>
  Adding a memory: a request that is refused (no project, blank or over-long content, a
  time without offset, an unknown project, a used id) changes nothing in the store. A save
  that returns is readable with its content, belongs to an existing project, and keeps the
  content limits, whether or not the provider could embed it; and if it has an embedding, it
  is one of this content.
\<close>

lemma add_memory_use_case:
  assumes "quiet w" "wf_store (sv_store sv)" "add_memory_execute w enabled item sv = (r, sv')"
  shows "case r of
      Inl e \<Rightarrow> sv_store sv' = sv_store sv
    | Inr x \<Rightarrow> get_memory (m_id item) (sv_store sv') = Some x \<and> m_content x = m_content item \<and> m_tags x = m_tags item
        \<and> py_strip (m_content x) \<noteq> [] \<and> length (m_content x) \<le> MAX_CONTENT_CHARS
        \<and> (\<exists>p. m_project_id x = Some p \<and> get_project p (sv_store sv') \<noteq> None)
        \<and> (\<forall>e. find_embedding (m_id item) (sv_store sv') = Some e \<longrightarrow> e_content_hash e = w_hash w (m_content x))"
proof (cases "\<exists>x st. stored_form item = Inr x \<and> add_memory x (sv_store sv) = (Inr (), st) \<and> m_project_id item \<noteq> None
    \<and> py_strip (m_content item) \<noteq> [] \<and> length (m_content item) \<le> MAX_CONTENT_CHARS")
  case False
  then have "\<exists>e. r = Inl e \<and> sv_store sv' = sv_store sv"
    using assms(3) add_memory_raised
    by (auto simp: add_memory_execute_def split: if_splits sum.splits prod.splits) metis
  then show ?thesis by auto
next
  case True
  then obtain x st where x: "stored_form item = Inr x" "add_memory x (sv_store sv) = (Inr (), st)"
    and lim: "m_project_id item \<noteq> None" "py_strip (m_content item) \<noteq> []" "length (m_content item) \<le> MAX_CONTENT_CHARS"
    by blast
  note same = stored_form_Inr [OF x(1)]
  have r: "r = Inr x" "sv' = try_embed w enabled (m_id x) (m_content x) False (with_store sv st)"
    using assms(3) x lim same by (auto simp: add_memory_execute_def)
  have spec: "catalog_spec id (AddMemory x) (catalog_of (sv_store sv)) = Some (catalog_of st)"
    by (rule catalog_add_memory [OF x(2)])
  then have old: "get_memory (m_id x) (sv_store sv) = None"
    and proj: "\<And>p. m_project_id x = Some p \<Longrightarrow> get_project p (sv_store sv) \<noteq> None"
    and new: "catalog_of st = (catalog_of (sv_store sv))\<lparr>c_memories := (c_memories (catalog_of (sv_store sv)))(m_id x \<mapsto> x)\<rparr>"
    by (auto simp: stored_form_idem [OF x(1)] split: if_splits option.splits)
  have get: "get_memory (m_id x) st = Some x" "\<And>p. get_project p st = get_project p (sv_store sv)"
    "\<And>k. find_embedding k st = find_embedding k (sv_store sv)"
    using arg_cong [OF new, of c_memories] arg_cong [OF new, of c_projects] arg_cong [OF new, of c_embeddings]
    by (auto simp: fun_eq_iff simp flip: catalog_of_sel)
  have "find_embedding (m_id x) st = None" using no_row_no_embedding [OF assms(2) old] get(3) by simp
  then have "\<forall>e. find_embedding (m_id x) (sv_store sv') = Some e \<longrightarrow> e_content_hash e = w_hash w (m_content x)"
    using try_embed_fresh [OF assms(1), of "m_id x" "with_store sv st" enabled "m_content x" False] r(2) by simp
  moreover have "get_memory (m_id x) (sv_store sv') = Some x" "\<And>p. get_project p (sv_store sv') = get_project p (sv_store sv)"
    using get get_memory_same get_project_same try_embed_memories [OF assms(1)] r(2) by (metis with_store_sel)+
  ultimately show ?thesis using r(1) same lim proj by auto
qed

lemma add_memory_use_case_witness:
  "\<exists>x sv'. add_memory_execute failing_world True (sample_memory\<lparr>m_id := ''m9''\<rparr>) (new_service sample_store) = (Inr x, sv')
     \<and> get_memory ''m9'' (sv_store sv') = Some x"
proof -
  have "is_ok (add_memory_execute failing_world True (sample_memory\<lparr>m_id := ''m9''\<rparr>) (new_service sample_store))"
    by (simp add: add_memory_execute_def add_memory_def insert_memory_def stored_form_def require_utc_def max_wall_def
        MAX_CONTENT_CHARS_def py_strip_def is_space_def sample_defs sample_store_eq sample_db_def new_service_def)
  then obtain x sv' where g: "add_memory_execute failing_world True (sample_memory\<lparr>m_id := ''m9''\<rparr>) (new_service sample_store) = (Inr x, sv')"
    by (rule is_okE)
  have "quiet failing_world" by (simp add: quiet_def failing_world_def sample_world_def)
  from add_memory_use_case [OF this _ g] g wf_sample_store show ?thesis by (simp add: new_service_def)
qed

text \<open>
  Editing a memory: a refused edit changes nothing. After an edit of the content no vector
  or tombstone of the old content is left: the memory has no embedding, or one computed from
  the new content, also when the provider fails. Tags can change without touching the vector.
\<close>

lemma update_memory_use_case:
  assumes "quiet w" "wf_store (sv_store sv)" "update_memory_execute w enabled i content tags sv = (r, sv')"
  shows "case r of
      Inl e \<Rightarrow> sv_store sv' = sv_store sv
    | Inr x \<Rightarrow> \<exists>m. get_memory i (sv_store sv) = Some m
        \<and> x = Some (edited (w_now w (sv_clock sv)) content tags m) \<and> get_memory i (sv_store sv') = x
        \<and> (case content of
             None \<Rightarrow> find_embedding i (sv_store sv') = find_embedding i (sv_store sv)
           | Some c \<Rightarrow> py_strip c \<noteq> [] \<and> length c \<le> MAX_CONTENT_CHARS
               \<and> (\<forall>e. find_embedding i (sv_store sv') = Some e \<longrightarrow> e_content_hash e = w_hash w c))"
proof (cases "\<exists>x st. update_memory (w_now w (sv_clock sv)) i content tags (sv_store sv) = (Inr x, st)
    \<and> (content \<noteq> None \<or> tags \<noteq> None) \<and> (\<forall>c. content = Some c \<longrightarrow> py_strip c \<noteq> [] \<and> length c \<le> MAX_CONTENT_CHARS)")
  case False
  have "update_memory now i content tags s = (Inl e, s') \<Longrightarrow> s' = s" for now s e s'
    by (auto simp: update_memory_def Let_def split: if_splits)
  then have "\<exists>e. r = Inl e \<and> sv_store sv' = sv_store sv"
    using assms(3) False
    by (auto simp: update_memory_execute_def not_le split: if_splits sum.splits prod.splits option.splits)
  then show ?thesis by auto
next
  case True
  let ?now = "w_now w (sv_clock sv)"
  obtain x st where up: "update_memory ?now i content tags (sv_store sv) = (Inr x, st)"
    and lim: "content \<noteq> None \<or> tags \<noteq> None" "\<And>c. content = Some c \<Longrightarrow> py_strip c \<noteq> [] \<and> length c \<le> MAX_CONTENT_CHARS"
    using True by blast
  have spec: "catalog_spec id (UpdateMemory ?now i content tags) (catalog_of (sv_store sv)) = Some (catalog_of st)"
    by (rule catalog_update_memory [OF up])
  then obtain m where m: "get_memory i (sv_store sv) = Some m"
    and c: "catalog_of st = (catalog_of (sv_store sv))\<lparr>c_memories := (c_memories (catalog_of (sv_store sv)))(i \<mapsto> edited ?now content tags m)\<rparr>"
    by (auto split: option.splits)
  have get: "get_memory i st = Some (edited ?now content tags m)" "find_embedding i st = find_embedding i (sv_store sv)"
    using arg_cong [OF c, of "\<lambda>c. c_memories c i"] arg_cong [OF c, of "\<lambda>c. c_embeddings c i"] by auto
  have x: "x = Some (edited ?now content tags m)"
    using up get(1) by (auto simp: update_memory_def Let_def split: if_splits)
  show ?thesis
  proof (cases content)
    case None
    then have "r = Inr x" "sv_store sv' = st" using assms(3) up lim(1) by (auto simp: update_memory_execute_def)
    then show ?thesis using m x get None by simp
  next
    case (Some cc)
    let ?sv = "with_store sv (delete_embedding i st)"
    have cc: "m_content (edited ?now content tags m) = cc" using Some by (simp add: edited_def)
    then have r: "r = Inr x" "sv' = try_embed w enabled i cc True ?sv"
      using assms(3) up lim(2) Some x by (auto simp: update_memory_execute_def split: if_splits)
    have "memory_items (the_db (sv_store sv')) = memory_items (the_db st)"
      unfolding r(2) try_embed_memories [OF assms(1)] by (simp add: delete_embedding_def)
    then have "get_memory i (sv_store sv') = x" using get(1) x get_memory_same by metis
    moreover have "find_embedding i (sv_store ?sv) = None"
      by (simp add: find_embedding_def delete_embedding_def find_filter_key)
    then have "\<forall>e. find_embedding i (sv_store sv') = Some e \<longrightarrow> e_content_hash e = w_hash w cc"
      using try_embed_fresh [OF assms(1), of i ?sv enabled cc True] r(2) by simp
    ultimately show ?thesis using m x r(1) Some lim(2) by simp
  qed
qed

lemma update_memory_use_case_witness:
  "\<exists>x sv'. update_memory_execute failing_world True ''m1'' (Some ''use rollback'') None (new_service sample_store) = (Inr x, sv')
     \<and> (\<forall>e. find_embedding ''m1'' (sv_store sv') = Some e \<longrightarrow> e_content_hash e = ''use rollback'')"
proof -
  have "is_ok (update_memory_execute failing_world True ''m1'' (Some ''use rollback'') None (new_service sample_store))"
    by (simp add: update_memory_execute_def update_memory_def MAX_CONTENT_CHARS_def py_strip_def is_space_def sample_defs
        sample_store_eq sample_db_def new_service_def Let_def split: option.split)
  then obtain x sv' where g: "update_memory_execute failing_world True ''m1'' (Some ''use rollback'') None (new_service sample_store) = (Inr x, sv')"
    by (rule is_okE)
  have "quiet failing_world" "w_hash failing_world = id" by (simp_all add: quiet_def failing_world_def sample_world_def)
  with update_memory_use_case [OF this(1) _ g] g wf_sample_store show ?thesis by (auto simp: new_service_def)
qed

section \<open>Deleting\<close>

lemma balanced_delete_each: "balanced (delete_each is)"
proof (induction "is")
  case (Cons i "is")
  show ?case
  proof
    fix s r s' assume "delete_each (i # is) s = (r, s')"
    then show "savepoints s' = savepoints s \<and> transaction_depth s' = transaction_depth s"
      using balancedD [OF balanced_delete_project] balancedD [OF Cons]
      by (fastforce split: prod.splits sum.splits)
  qed
qed (simp add: balanced_def)

definition in_projects :: "string list \<Rightarrow> memory_item \<Rightarrow> bool" where
  "in_projects is m \<longleftrightarrow> (\<exists>i \<in> set is. m_project_id m = Some i)"

lemma delete_each_ok:
  "distinct is \<Longrightarrow> delete_each is s = (Inr ns, s') \<Longrightarrow>
     ns = map (\<lambda>i. count_memory (Some i) s) is
     \<and> memory_items (the_db s') = filter (\<lambda>m. \<not> in_projects is m) (memory_items (the_db s))
     \<and> projects (the_db s') = filter (\<lambda>p. p_id p \<notin> set is) (projects (the_db s))"
proof (induction "is" arbitrary: s ns)
  case (Cons i "is")
  obtain n s1 ns1 where d: "delete_project i s = (Inr n, s1)" "delete_each is s1 = (Inr ns1, s')" "ns = n # ns1"
    using Cons.prems(2) by (auto split: prod.splits sum.splits)
  note one = delete_project_ok [OF d(1)]
  have rows: "memory_items (the_db s1) = filter (\<lambda>m. m_project_id m \<noteq> Some i) (memory_items (the_db s))"
    "projects (the_db s1) = filter (\<lambda>p. p_id p \<noteq> i) (projects (the_db s))"
    by (simp_all add: one(2) drop_project_def)
  have IH: "ns1 = map (\<lambda>i. count_memory (Some i) s1) is"
    "memory_items (the_db s') = filter (\<lambda>m. \<not> in_projects is m) (memory_items (the_db s1))"
    "projects (the_db s') = filter (\<lambda>p. p_id p \<notin> set is) (projects (the_db s1))"
    using Cons.IH [OF _ d(2)] Cons.prems(1) by simp_all
  have "count_memory (Some j) s1 = count_memory (Some j) s" if "j \<in> set is" for j
  proof -
    have "j \<noteq> i" using that Cons.prems(1) by auto
    then have "filter (\<lambda>m. m_project_id m = Some j) (memory_items (the_db s1)) =
        filter (\<lambda>m. m_project_id m = Some j) (memory_items (the_db s))"
      unfolding rows filter_filter by (intro filter_cong) auto
    then show ?thesis by (simp add: count_memory_def)
  qed
  then have "ns = map (\<lambda>i. count_memory (Some i) s) (i # is)"
    using d(3) IH(1) one(3) by (simp add: count_memory_def)
  moreover have "memory_items (the_db s') = filter (\<lambda>m. \<not> in_projects (i # is) m) (memory_items (the_db s))"
    unfolding IH(2) rows filter_filter by (intro filter_cong) (auto simp: in_projects_def)
  moreover have "projects (the_db s') = filter (\<lambda>p. p_id p \<notin> set (i # is)) (projects (the_db s))"
    unfolding IH(3) rows filter_filter by (intro filter_cong) auto
  ultimately show ?case by simp
qed (simp add: in_projects_def)

lemma found_ids: "map p_id (found_projects ids s) = filter (\<lambda>i. get_project i s \<noteq> None) ids"
proof -
  have "p_id p = i" if "get_project i s = Some p" for i p
    using that find_Some_mem by (fastforce simp: get_project_def)
  then show ?thesis by (induction ids) (auto simp: found_projects_def split: option.split)
qed

text \<open>
  Deleting many projects: the preview changes nothing, and it tells exactly what the
  confirmed call does: the same projects, names, counts, missing ids and total. The confirmed
  call removes the projects that exist and all of their memories, once each however often an
  id was sent, and nothing else; if any deletion raises, the database is unchanged.
\<close>

lemma bulk_delete_matches_preview:
  assumes prev: "delete_projects_execute ids False s = (Inr p, s0)"
    and conf: "delete_projects_execute ids True s = (r, s')"
  shows "s0 = s \<and>
    (case r of
       Inl e \<Rightarrow> the_db s' = the_db s
     | Inr q \<Rightarrow> q = p\<lparr>bk_deleted := True\<rparr>
         \<and> projects (the_db s') = filter (\<lambda>x. p_id x \<notin> set ids) (projects (the_db s))
         \<and> memory_items (the_db s') = filter (\<lambda>m. \<not> in_projects (filter (\<lambda>i. get_project i s \<noteq> None) ids) m) (memory_items (the_db s)))"
proof -
  let ?ord = "dict_fromkeys ids"
  let ?found = "found_projects ?ord s"
  let ?is = "map p_id ?found"
  have s0: "s0 = s" and p: "p = \<lparr>bk_deleted = False, bk_total_requested = length ?ord,
      bk_projects = bulk_rows ?found (map (\<lambda>p. count_memory (Some (p_id p)) s) ?found),
      bk_missing = missing_projects ?ord s, bk_total_memories = sum_list (map (\<lambda>p. count_memory (Some (p_id p)) s) ?found)\<rparr>"
    using prev by (auto simp: delete_projects_execute_def Let_def)
  obtain t s1 where t: "transaction (delete_each ?is) s = (t, s1)" by fastforce
  show ?thesis
  proof (cases t)
    case (Inl e)
    then have "r = Inl e" "s' = s1" using conf t by (auto simp: delete_projects_execute_def Let_def)
    then show ?thesis using s0 transaction_raised [OF balanced_delete_each t [unfolded Inl]] by simp
  next
    case (Inr ns)
    obtain b s2 where b: "the_db b = the_db s" "delete_each ?is (enter_transaction b) = (Inr ns, s2)" "the_db s1 = the_db s2"
      using transaction_committed [OF balanced_delete_each t [unfolded Inr]] by metis
    have "distinct ?is" by (simp add: found_ids)
    note del = delete_each_ok [OF this b(2)]
    have same: "count_memory (Some i) (enter_transaction b) = count_memory (Some i) s" for i
      using b(1) by (simp add: count_memory_def)
    have "r = Inr (p\<lparr>bk_deleted := True\<rparr>)" "s' = s1"
      using conf t Inr del same p by (auto simp: delete_projects_execute_def Let_def comp_def)
    moreover have "p_id x \<in> set ?is \<longleftrightarrow> p_id x \<in> set ids" if "x \<in> set (projects (the_db s))" for x
    proof -
      have "get_project (p_id x) s \<noteq> None" using that get_project_None [of "p_id x" s] by auto
      then show ?thesis unfolding found_ids by auto
    qed
    then have "projects (the_db s') = filter (\<lambda>x. p_id x \<notin> set ids) (projects (the_db s))"
      using del b(1,3) calculation(2) by (simp cong: filter_cong)
    moreover have "in_projects ?is m = in_projects (filter (\<lambda>i. get_project i s \<noteq> None) ids) m" for m
      unfolding found_ids in_projects_def by auto
    then have "memory_items (the_db s') = filter (\<lambda>m. \<not> in_projects (filter (\<lambda>i. get_project i s \<noteq> None) ids) m) (memory_items (the_db s))"
      using del b(1,3) calculation(2) by simp
    ultimately show ?thesis using s0 by simp
  qed
qed

lemma bulk_delete_matches_preview_witness:
  "\<exists>p q s'. delete_projects_execute [''p1'', ''nope'', ''p1''] False sample_store = (Inr p, sample_store)
     \<and> bk_total_memories p = 1 \<and> bk_missing p = [''nope'']
     \<and> delete_projects_execute [''p1'', ''nope'', ''p1''] True sample_store = (Inr q, s')
     \<and> q = p\<lparr>bk_deleted := True\<rparr> \<and> projects (the_db s') = []"
proof -
  let ?ids = "[''p1'', ''nope'', ''p1'']"
  have "is_ok (delete_projects_execute ?ids True sample_store)" unfolding sample_store_eq by code_simp
  then obtain q s' where q: "delete_projects_execute ?ids True sample_store = (Inr q, s')" by (rule is_okE)
  obtain p where p: "delete_projects_execute ?ids False sample_store = (Inr p, sample_store)"
    by (simp add: delete_projects_execute_def Let_def)
  have "fst (delete_projects_execute ?ids False sample_store) = Inr \<lparr>bk_deleted = False, bk_total_requested = 2,
      bk_projects = [(''p1'', ''alpha'', 1)], bk_missing = [''nope''], bk_total_memories = 1\<rparr>"
    unfolding sample_store_eq by code_simp
  then have "bk_total_memories p = 1" "bk_missing p = [''nope'']" using p by auto
  moreover have "projects (the_db s') = []" "q = p\<lparr>bk_deleted := True\<rparr>"
    using bulk_delete_matches_preview [OF p q] by (simp_all add: sample_store_eq sample_db_def sample_project_def)
  ultimately show ?thesis using p q by blast
qed

section \<open>Statistics\<close>

lemma bump_count: "map_of (bump k d) x = (if x = k then Some (case map_of d k of None \<Rightarrow> 1 | Some n \<Rightarrow> n + 1) else map_of d x)"
  by (induction k d rule: bump.induct) auto

lemma sum_bump: "sum_list (map snd (bump k d)) = Suc (sum_list (map snd d))"
  by (induction k d rule: bump.induct) auto

lemma keys_bump: "fst ` set (bump k d) = insert k (fst ` set d)"
  by (induction k d rule: bump.induct) auto

lemma distinct_bump: "distinct (map fst d) \<Longrightarrow> distinct (map fst (bump k d))"
  by (induction k d rule: bump.induct) (auto simp: keys_bump)

definition tally_of :: "(string \<times> nat) list \<Rightarrow> string list \<Rightarrow> bool" where
  "tally_of d ks \<longleftrightarrow> distinct (map fst d) \<and> fst ` set d = set ks
     \<and> (\<forall>k. k \<in> set ks \<longrightarrow> map_of d k = Some (count_list ks k)) \<and> sum_list (map snd d) = length ks"

lemma tally_bump: "tally_of d ks \<Longrightarrow> tally_of (bump k d) (ks @ [k])"
proof -
  assume d: "tally_of d ks"
  have "map_of d k = (if k \<in> set ks then Some (count_list ks k) else None)"
    using d by (simp add: tally_of_def map_of_eq_None_iff)
  then have "map_of (bump k d) x = (if x = k then Some (Suc (count_list ks k)) else map_of d x)" for x
    by (simp add: bump_count count_list_0_iff)
  then show ?thesis
    using d unfolding tally_of_def by (auto simp: sum_bump keys_bump distinct_bump simp del: map_of_eq_Some_iff)
qed

lemma tally_fold: "tally_of d ks \<Longrightarrow> tally_of (fold bump xs d) (ks @ xs)"
proof (induction xs arbitrary: d ks)
  case (Cons x xs)
  then show ?case using Cons.IH [OF tally_bump [OF Cons.prems, of x]] by simp
qed simp

lemma tally_fold_items:
  "tally_of d ks \<Longrightarrow> tally_of (fold (\<lambda>item d. fold bump (f item) d) items d) (ks @ concat (map f items))"
proof (induction items arbitrary: d ks)
  case (Cons x xs)
  then show ?case using Cons.IH [OF tally_fold [OF Cons.prems, of "f x"]] by simp
qed simp

lemma tally_Nil: "tally_of [] []"
  by (simp add: tally_of_def)

lemma fold_bump_one: "fold (\<lambda>item d. bump (f item) d) items d = fold (\<lambda>item d. fold bump [f item] d) items d"
  by simp

text \<open>
  The statistics are true: \<open>by_source\<close> counts every memory of the scope once, so its
  counts add up to the total; each tag shown has the number of its occurrences, in descending
  order; and the shown tags with \<open>other_tags\<close> are all the distinct tags.
\<close>

lemma stats_memory_counts:
  assumes "0 \<le> cap"
  shows "let r = stats_memory_execute pid cap s; items = all_memories pid s; tags = concat (map m_tags items)
    in ms_total r = length items \<and> ms_pinned r = length (filter m_pinned items)
     \<and> tally_of (ms_by_source r) (map (\<lambda>m. if m_source m = [] then ''unknown'' else m_source m) items)
     \<and> sum_list (map snd (ms_by_source r)) = ms_total r
     \<and> (\<forall>(t, n) \<in> set (ms_by_tag r). t \<in> set tags \<and> n = count_list tags t)
     \<and> sorted_wrt (\<lambda>x y. snd y \<le> snd x) (ms_by_tag r)
     \<and> int (length (ms_by_tag r)) + (case ms_other_tags r of None \<Rightarrow> 0 | Some n \<Rightarrow> n) = int (card (set tags))"
proof -
  let ?items = "all_memories pid s"
  let ?tags = "concat (map m_tags ?items)"
  let ?src = "\<lambda>m. if m_source m = [] then ''unknown'' else m_source m"
  let ?d = "fold (\<lambda>item d. fold bump (m_tags item) d) ?items []"
  let ?ranked = "sort_key (\<lambda>kv. (- int (snd kv), fst kv)) ?d"
  have d: "tally_of ?d ?tags" using tally_fold_items [OF tally_Nil, of m_tags ?items] by simp
  have src: "tally_of (fold (\<lambda>item d. bump (?src item) d) ?items []) (map ?src ?items)"
    using tally_fold_items [OF tally_Nil, of "\<lambda>m. [?src m]" ?items] by (simp add: concat_map_singleton)
  have "list_where False (Some p) None None = (\<lambda>m. m_project_id m = Some p)" "list_where False None None None = (\<lambda>m. True)" for p
    by (simp_all add: list_where_def tags_clause_def exclude_tags_clause_def fun_eq_iff)
  then have total: "count_memory pid s = length ?items"
    by (simp add: all_memories_eq count_memory_def split: option.split)
  have "sorted (map (\<lambda>kv. (- int (snd kv), fst kv)) ?ranked)" by (rule sorted_sort_key)
  then have "sorted_wrt (\<lambda>x y. snd y \<le> snd x) ?ranked"
    unfolding sorted_map by (rule sorted_wrt_mono_rel [rotated]) (auto simp: less_eq_prod_def)
  moreover have "length ?ranked = card (set ?tags)"
    using d distinct_card [of "map fst ?d"] by (simp add: tally_of_def)
  moreover have "t \<in> set ?tags \<and> n = count_list ?tags t" if "(t, n) \<in> set ?ranked" for t n
  proof -
    have tn: "(t, n) \<in> set ?d" using that by simp
    then have t: "t \<in> set ?tags" using d by (force simp: tally_of_def)
    moreover have "map_of ?d t = Some n" using d tn by (simp add: tally_of_def)
    ultimately show ?thesis using d by (simp add: tally_of_def)
  qed
  ultimately show ?thesis
    using assms src total
    by (auto simp: stats_memory_execute_def Let_def py_prefix_nonneg tally_of_def sorted_wrt_take min_def
        dest!: in_set_takeD split: option.split)
qed

lemma stats_memory_counts_witness:
  "ms_total (stats_memory_execute None 1 sample_store) = 2
   \<and> sum_list (map snd (ms_by_source (stats_memory_execute None 1 sample_store))) = 2"
proof -
  have "length (all_memories None sample_store) = 2" unfolding sample_store_eq by code_simp
  then show ?thesis using stats_memory_counts [of 1 None sample_store] by (simp add: Let_def)
qed

end
