(* ===== verification/OC_Portability.thy ===== *)
theory OC_Portability
  imports OC_Catalog OC_Search
begin

text \<open>
  Export and import of the JSON envelope (\<open>use_cases/export_memory.py\<close> and
  \<open>import_memory.py\<close>): the payload is a JSON value, every row is validated before the write
  transaction opens, and the import is a union by id. A JSON object is the association list of
  its members. ISO-8601 texts are a parameter: \<open>iso_format\<close> stands for
  \<open>datetime.isoformat\<close> and \<open>iso_parse\<close> for \<open>datetime.fromisoformat\<close>, which raises for
  some texts. Log lines are left out, except for the condition of the staleness warning.
\<close>

section \<open>Fields of a JSON object\<close>

record iso8601 =
  iso_format :: "datetime \<Rightarrow> string"
  iso_parse :: "string \<Rightarrow> datetime option"

text \<open>\<open>row.get(key)\<close>: an absent member reads as null.\<close>

definition json_get :: "(string \<times> json) list \<Rightarrow> string \<Rightarrow> json" where
  "json_get row key = (case map_of row key of None \<Rightarrow> JNull | Some v \<Rightarrow> v)"

fun json_truthy :: "json \<Rightarrow> bool" where
  "json_truthy JNull = False"
| "json_truthy (JBool b) = b"
| "json_truthy (JInt n) = (n \<noteq> 0)"
| "json_truthy (JFloat x) = (x \<noteq> 0)"
| "json_truthy (JInf neg) = True"
| "json_truthy JNaN = True"
| "json_truthy (JStr s) = (s \<noteq> [])"
| "json_truthy (JList xs) = (xs \<noteq> [])"
| "json_truthy (JObj kvs) = (kvs \<noteq> [])"

fun is_str :: "json \<Rightarrow> bool" where
  "is_str (JStr _) = True"
| "is_str _ = False"

fun str_of :: "json \<Rightarrow> string" where
  "str_of (JStr s) = s"
| "str_of _ = []"

definition row_error :: "string \<Rightarrow> nat \<Rightarrow> json \<Rightarrow> string \<Rightarrow> exc" where
  "row_error collection index row reason =
     RowError collection index
       (case row of JObj kvs \<Rightarrow> (case json_get kvs ''id'' of JStr i \<Rightarrow> Some i | _ \<Rightarrow> None) | _ \<Rightarrow> None) reason"

definition require_str :: "string \<Rightarrow> nat \<Rightarrow> (string \<times> json) list \<Rightarrow> string \<Rightarrow> exc + string" where
  "require_str collection index row key =
     (case json_get row key of
        JStr s \<Rightarrow> if s = [] then Inl (row_error collection index (JObj row) ''must be a non-empty string'') else Inr s
      | _ \<Rightarrow> Inl (row_error collection index (JObj row) ''must be a non-empty string''))"

definition require_dt_str :: "iso8601 \<Rightarrow> string \<Rightarrow> nat \<Rightarrow> (string \<times> json) list \<Rightarrow> string \<Rightarrow> bool \<Rightarrow> exc + unit" where
  "require_dt_str dt collection index row key optional =
     (case json_get row key of
        JNull \<Rightarrow> if optional then Inr ()
                else Inl (row_error collection index (JObj row) ''must be an ISO-8601 string'')
      | JStr s \<Rightarrow>
          (case iso_parse dt s of
             None \<Rightarrow> Inl (row_error collection index (JObj row) ''must be an aware ISO-8601 datetime'')
           | Some t \<Rightarrow>
               (case require_utc t key of
                  Inl _ \<Rightarrow> Inl (row_error collection index (JObj row) ''must be an aware ISO-8601 datetime'')
                | Inr _ \<Rightarrow> Inr ()))
      | _ \<Rightarrow> Inl (row_error collection index (JObj row) ''must be an ISO-8601 string''))"

section \<open>Validation\<close>

text \<open>Sequencing of checks that may raise.\<close>

definition and_then :: "'e + 'a \<Rightarrow> ('a \<Rightarrow> 'e + 'b) \<Rightarrow> 'e + 'b" where
  "and_then r f = (case r of Inl e \<Rightarrow> Inl e | Inr a \<Rightarrow> f a)"

definition check :: "bool \<Rightarrow> exc \<Rightarrow> exc + unit" where
  "check ok e = (if ok then Inr () else Inl e)"

definition is_obj :: "json \<Rightarrow> bool" where
  "is_obj v = (case v of JObj _ \<Rightarrow> True | _ \<Rightarrow> False)"

definition is_str_list :: "json \<Rightarrow> bool" where
  "is_str_list v = (case v of JList xs \<Rightarrow> list_all is_str xs | _ \<Rightarrow> False)"

definition validate_project_row :: "iso8601 \<Rightarrow> string set \<Rightarrow> nat \<Rightarrow> json \<Rightarrow> exc + string" where
  "validate_project_row dt seen i raw =
     (case raw of
        JObj row \<Rightarrow>
          and_then (require_str ''projects'' i row ''id'') (\<lambda>row_id.
          and_then (require_str ''projects'' i row ''name'') (\<lambda>_.
          and_then (require_dt_str dt ''projects'' i row ''created_at'' False) (\<lambda>_.
          and_then (check (json_get row ''metadata'' = JNull \<or> is_obj (json_get row ''metadata''))
                     (row_error ''projects'' i raw ''metadata must be an object or null'')) (\<lambda>_.
          and_then (check (row_id \<notin> seen) (row_error ''projects'' i raw ''duplicate project id within the envelope''))
            (\<lambda>_. Inr row_id)))))
      | _ \<Rightarrow> Inl (row_error ''projects'' i raw ''expected an object''))"

fun validate_projects :: "iso8601 \<Rightarrow> nat \<Rightarrow> string set \<Rightarrow> json list \<Rightarrow> exc + string set" where
  "validate_projects dt i seen [] = Inr seen"
| "validate_projects dt i seen (raw # raws) =
     and_then (validate_project_row dt seen i raw) (\<lambda>row_id. validate_projects dt (Suc i) (insert row_id seen) raws)"

definition validate_memory_row :: "iso8601 \<Rightarrow> string set \<Rightarrow> string set \<Rightarrow> nat \<Rightarrow> json \<Rightarrow> exc + string" where
  "validate_memory_row dt known seen i raw =
     (case raw of
        JObj row \<Rightarrow>
          (let bad = row_error ''memory_items'' i raw; tags = json_get row ''tags'';
               source = json_get row ''source''; project_id = json_get row ''project_id''
           in and_then (require_str ''memory_items'' i row ''id'') (\<lambda>row_id.
              and_then (check (is_str (json_get row ''content'')) (bad ''content must be a string'')) (\<lambda>_.
              and_then (require_dt_str dt ''memory_items'' i row ''created_at'' False) (\<lambda>_.
              and_then (require_dt_str dt ''memory_items'' i row ''updated_at'' True) (\<lambda>_.
              and_then (check (tags = JNull \<or> is_str_list tags) (bad ''tags must be an array of strings or null'')) (\<lambda>_.
              and_then (check (source = JNull \<or> is_str source) (bad ''source must be a string or null'')) (\<lambda>_.
              and_then (check (project_id = JNull \<or> is_str project_id) (bad ''project_id must be a string or null'')) (\<lambda>_.
              and_then (check (is_str project_id \<longrightarrow> str_of project_id \<in> known)
                         (bad ''references a project not in this store or this envelope'')) (\<lambda>_.
              and_then (check (row_id \<notin> seen) (bad ''duplicate memory id within the envelope''))
                (\<lambda>_. Inr row_id))))))))))
      | _ \<Rightarrow> Inl (row_error ''memory_items'' i raw ''expected an object''))"

fun validate_memories :: "iso8601 \<Rightarrow> string set \<Rightarrow> nat \<Rightarrow> string set \<Rightarrow> json list \<Rightarrow> exc + string set" where
  "validate_memories dt known i seen [] = Inr seen"
| "validate_memories dt known i seen (raw # raws) =
     and_then (validate_memory_row dt known seen i raw)
       (\<lambda>row_id. validate_memories dt known (Suc i) (insert row_id seen) raws)"

definition EXPORT_FORMAT_VERSION :: int where
  "EXPORT_FORMAT_VERSION = 1"

definition required_array :: "(string \<times> json) list \<Rightarrow> string \<Rightarrow> exc + json list" where
  "required_array payload key =
     (case map_of payload key of
        None \<Rightarrow> Inl (ValidationError (''payload missing required array '' @ key))
      | Some (JList xs) \<Rightarrow> Inr xs
      | Some _ \<Rightarrow> Inl (ValidationError (key @ '' must be an array'')))"

definition validate_envelope :: "iso8601 \<Rightarrow> (string \<times> json) list \<Rightarrow> string set \<Rightarrow> exc + (json list \<times> json list)" where
  "validate_envelope dt payload existing_project_ids =
     and_then (check (json_get payload ''format_version'' = JInt EXPORT_FORMAT_VERSION)
                (ValidationError ''unsupported format_version'')) (\<lambda>_.
     and_then (required_array payload ''projects'') (\<lambda>projects.
     and_then (required_array payload ''memory_items'') (\<lambda>memory_items.
     and_then (validate_projects dt 0 {} projects) (\<lambda>envelope_project_ids.
     and_then (validate_memories dt (existing_project_ids \<union> envelope_project_ids) 0 {} memory_items) (\<lambda>_.
       Inr (projects, memory_items))))))"

section \<open>Import\<close>

definition WATERMARK_SOURCE :: string where
  "WATERMARK_SOURCE = ''git-onboard-watermark''"

record import_counts =
  ic_projects_added :: nat
  ic_projects_skipped :: nat
  ic_memory_added :: nat
  ic_memory_skipped :: nat
  ic_watermark_dropped :: nat
  ic_oversized_content :: nat

definition zero_counts :: import_counts where
  "zero_counts = \<lparr>ic_projects_added = 0, ic_projects_skipped = 0, ic_memory_added = 0, ic_memory_skipped = 0,
     ic_watermark_dropped = 0, ic_oversized_content = 0\<rparr>"

definition members :: "json \<Rightarrow> (string \<times> json) list" where
  "members v = (case v of JObj kvs \<Rightarrow> kvs | _ \<Rightarrow> [])"

text \<open>\<open>_parse_dt(value) or utc_now()\<close>; an unreadable text was refused by the validation.\<close>

definition parse_dt :: "iso8601 \<Rightarrow> json \<Rightarrow> datetime option" where
  "parse_dt dt v = (case v of JStr s \<Rightarrow> if s = [] then None else iso_parse dt s | _ \<Rightarrow> None)"

definition project_of_row :: "iso8601 \<Rightarrow> datetime \<Rightarrow> json \<Rightarrow> project" where
  "project_of_row dt now raw =
     (let row = members raw
      in \<lparr>p_id = str_of (json_get row ''id''), p_name = str_of (json_get row ''name''),
          p_metadata = members (json_get row ''metadata''),
          p_created_at = (case parse_dt dt (json_get row ''created_at'') of Some t \<Rightarrow> t | None \<Rightarrow> now)\<rparr>)"

definition tags_of :: "json \<Rightarrow> string list" where
  "tags_of v = (case v of JList xs \<Rightarrow> map str_of xs | _ \<Rightarrow> [])"

definition memory_of_row :: "iso8601 \<Rightarrow> datetime \<Rightarrow> json \<Rightarrow> memory_item" where
  "memory_of_row dt now raw =
     (let row = members raw
      in \<lparr>m_id = str_of (json_get row ''id''), m_content = str_of (json_get row ''content''),
          m_tags = tags_of (json_get row ''tags''),
          m_created_at = (case parse_dt dt (json_get row ''created_at'') of Some t \<Rightarrow> t | None \<Rightarrow> now),
          m_pinned = json_truthy (json_get row ''pinned''),
          m_project_id = (case json_get row ''project_id'' of JStr p \<Rightarrow> Some p | _ \<Rightarrow> None),
          m_source = (if json_truthy (json_get row ''source'') then str_of (json_get row ''source'') else ''import''),
          m_updated_at = parse_dt dt (json_get row ''updated_at'')\<rparr>)"

fun import_projects :: "iso8601 \<Rightarrow> datetime \<Rightarrow> string set \<Rightarrow> json list \<Rightarrow> import_counts \<Rightarrow> store \<Rightarrow> import_counts store_result" where
  "import_projects dt now existing [] c s = (Inr c, s)"
| "import_projects dt now existing (raw # raws) c s =
     (if str_of (json_get (members raw) ''id'') \<in> existing
      then import_projects dt now existing raws (c\<lparr>ic_projects_skipped := ic_projects_skipped c + 1\<rparr>) s
      else (case add_project (project_of_row dt now raw) s of
              (Inl e, s1) \<Rightarrow> (Inl e, s1)
            | (Inr _, s1) \<Rightarrow>
                import_projects dt now existing raws (c\<lparr>ic_projects_added := ic_projects_added c + 1\<rparr>) s1))"

fun import_memories :: "iso8601 \<Rightarrow> datetime \<Rightarrow> string set \<Rightarrow> json list \<Rightarrow> import_counts \<Rightarrow> store \<Rightarrow> import_counts store_result" where
  "import_memories dt now existing [] c s = (Inr c, s)"
| "import_memories dt now existing (raw # raws) c s =
     (if json_get (members raw) ''source'' = JStr WATERMARK_SOURCE
      then import_memories dt now existing raws (c\<lparr>ic_watermark_dropped := ic_watermark_dropped c + 1\<rparr>) s
      else if str_of (json_get (members raw) ''id'') \<in> existing
      then import_memories dt now existing raws (c\<lparr>ic_memory_skipped := ic_memory_skipped c + 1\<rparr>) s
      else (let c1 = (if length (str_of (json_get (members raw) ''content'')) > MAX_CONTENT_CHARS
                      then c\<lparr>ic_oversized_content := ic_oversized_content c + 1\<rparr> else c)
            in case add_memory (memory_of_row dt now raw) s of
                 (Inl e, s1) \<Rightarrow> (Inl e, s1)
               | (Inr _, s1) \<Rightarrow>
                   import_memories dt now existing raws (c1\<lparr>ic_memory_added := ic_memory_added c1 + 1\<rparr>) s1))"

definition import_body :: "iso8601 \<Rightarrow> datetime \<Rightarrow> string set \<Rightarrow> string set \<Rightarrow> json list \<Rightarrow> json list \<Rightarrow> store \<Rightarrow> import_counts store_result" where
  "import_body dt now existing_projects existing_memories raw_projects raw_memory_items s =
     (case import_projects dt now existing_projects raw_projects zero_counts s of
        (Inl e, s1) \<Rightarrow> (Inl e, s1)
      | (Inr c, s1) \<Rightarrow> import_memories dt now existing_memories raw_memory_items c s1)"

definition import_execute :: "iso8601 \<Rightarrow> datetime \<Rightarrow> json \<Rightarrow> string \<Rightarrow> store \<Rightarrow> import_counts store_result" where
  "import_execute dt now payload mode s =
     (if mode \<noteq> ''merge'' \<and> mode \<noteq> ''replace'' then (Inl (ValidationError ''mode must be one of merge, replace''), s)
      else (case payload of
              JObj kvs \<Rightarrow>
                if mode = ''replace'' \<and> (projects (the_db s) \<noteq> [] \<or> memory_items (the_db s) \<noteq> [])
                then (Inl (ValidationError ''destination is non-empty; refuse to replace''), s)
                else (let existing_project_ids = p_id ` set (projects (the_db s));
                          existing_memory_ids = m_id ` set (memory_items (the_db s))
                      in case validate_envelope dt kvs existing_project_ids of
                           Inl e \<Rightarrow> (Inl e, s)
                         | Inr (raw_projects, raw_memory_items) \<Rightarrow>
                             transaction (import_body dt now existing_project_ids existing_memory_ids
                               raw_projects raw_memory_items) s)
            | _ \<Rightarrow> (Inl (ValidationError ''payload must be a JSON object''), s)))"

text \<open>The condition of the second warning of a merge.\<close>

definition aware_exported_at :: "iso8601 \<Rightarrow> json \<Rightarrow> datetime option" where
  "aware_exported_at dt v =
     (case v of
        JStr s \<Rightarrow> (case iso_parse dt s of None \<Rightarrow> None | Some t \<Rightarrow> if utcoffset t = None then None else Some t)
      | _ \<Rightarrow> None)"

definition newest_edit :: "memory_item list \<Rightarrow> int option" where
  "newest_edit items =
     (let stamps = concat (map (\<lambda>m. case m_updated_at m of
            None \<Rightarrow> [] | Some u \<Rightarrow> if utcoffset u = None then [] else [instant u]) items)
      in if stamps = [] then None else Some (Max (set stamps)))"

definition merge_is_stale :: "iso8601 \<Rightarrow> (string \<times> json) list \<Rightarrow> memory_item list \<Rightarrow> bool" where
  "merge_is_stale dt payload existing_items =
     (case (aware_exported_at dt (json_get payload ''exported_at''), newest_edit existing_items) of
        (Some t, Some n) \<Rightarrow> instant t < n
      | _ \<Rightarrow> False)"

section \<open>Export\<close>

definition project_row :: "iso8601 \<Rightarrow> project \<Rightarrow> json" where
  "project_row dt p = JObj [(''id'', JStr (p_id p)), (''name'', JStr (p_name p)), (''metadata'', JObj (p_metadata p)),
     (''created_at'', JStr (iso_format dt (p_created_at p)))]"

definition memory_row :: "iso8601 \<Rightarrow> memory_item \<Rightarrow> json" where
  "memory_row dt m = JObj [(''id'', JStr (m_id m)), (''content'', JStr (m_content m)),
     (''tags'', JList (map JStr (m_tags m))), (''pinned'', JBool (m_pinned m)),
     (''project_id'', (case m_project_id m of None \<Rightarrow> JNull | Some p \<Rightarrow> JStr p)), (''source'', JStr (m_source m)),
     (''created_at'', JStr (iso_format dt (m_created_at m))),
     (''updated_at'', (case m_updated_at m of None \<Rightarrow> JNull | Some u \<Rightarrow> JStr (iso_format dt u)))]"

definition export_projects :: "string option \<Rightarrow> store \<Rightarrow> project list" where
  "export_projects project_id s =
     (case project_id of
        Some i \<Rightarrow> (case get_project i s of None \<Rightarrow> [] | Some p \<Rightarrow> [p])
      | None \<Rightarrow> list_projects None s)"

definition export_items :: "string option \<Rightarrow> store \<Rightarrow> memory_item list" where
  "export_items project_id s =
     (case list_memory None False 0 project_id None None ''pinned_first'' s of
        Inl _ \<Rightarrow> [] | Inr ms \<Rightarrow> filter (\<lambda>m. m_source m \<noteq> WATERMARK_SOURCE) ms)"

definition export_execute :: "iso8601 \<Rightarrow> datetime \<Rightarrow> string option \<Rightarrow> store \<Rightarrow> json" where
  "export_execute dt now project_id s =
     JObj [(''format_version'', JInt EXPORT_FORMAT_VERSION), (''exported_at'', JStr (iso_format dt now)),
       (''projects'', JList (map (project_row dt) (export_projects project_id s))),
       (''memory_items'', JList (map (memory_row dt) (export_items project_id s)))]"

end
