(* ===== verification/OC_Portability_Props.thy ===== *)
theory OC_Portability_Props
  imports OC_Portability
begin

text \<open>
  Lemmas about validation and import: what a validated envelope looks like, that the writes
  of a validated envelope cannot raise, and what they leave in the tables.
\<close>

section \<open>Validated rows\<close>

lemma and_then_Inl: "and_then r f = Inl e \<longleftrightarrow> r = Inl e \<or> (\<exists>a. r = Inr a \<and> f a = Inl e)"
  by (auto simp: and_then_def split: sum.split)

lemma and_then_Inr: "and_then r f = Inr b \<longleftrightarrow> (\<exists>a. r = Inr a \<and> f a = Inr b)"
  by (auto simp: and_then_def split: sum.split)

lemma check_simps [simp]: "check b e = Inr u \<longleftrightarrow> b" "check b e = Inl e' \<longleftrightarrow> \<not> b \<and> e' = e"
  by (auto simp: check_def)

lemmas validation_simps = and_then_Inl and_then_Inr

abbreviation row_id :: "json \<Rightarrow> string" where
  "row_id raw \<equiv> str_of (json_get (members raw) ''id'')"

lemma require_utc_field: "require_utc t f = Inr u \<Longrightarrow> require_utc t g = Inr u"
  by (auto simp: require_utc_def split: option.splits if_splits)

text \<open>A timestamp field that passed: its text reads as a time that has a UTC form.\<close>

definition dated :: "iso8601 \<Rightarrow> json \<Rightarrow> bool" where
  "dated dt v \<longleftrightarrow> (\<exists>s t u. v = JStr s \<and> iso_parse dt s = Some t \<and> require_utc t [] = Inr u)"

lemma require_dt_str_ok:
  "require_dt_str dt col i row key opt = Inr u \<longleftrightarrow> dated dt (json_get row key) \<or> (opt \<and> json_get row key = JNull)"
  by (auto simp: require_dt_str_def dated_def split: json.splits option.splits sum.splits
      dest: require_utc_field [of _ key _ "[]"] require_utc_field [of _ "[]" _ key])

lemma parse_dt_dated:
  assumes "dated dt v" "parse_dt dt v = Some t"
  shows "\<exists>u. require_utc t f = Inr u"
  using assms by (auto simp: dated_def parse_dt_def split: if_splits dest: require_utc_field [of _ "[]" _ f])

definition good_project :: "iso8601 \<Rightarrow> json \<Rightarrow> bool" where
  "good_project dt raw \<longleftrightarrow> (\<exists>row. raw = JObj row) \<and> dated dt (json_get (members raw) ''created_at'')
     \<and> str_of (json_get (members raw) ''name'') \<noteq> []"

definition good_memory :: "iso8601 \<Rightarrow> string set \<Rightarrow> json \<Rightarrow> bool" where
  "good_memory dt known raw \<longleftrightarrow> (\<exists>row. raw = JObj row)
     \<and> dated dt (json_get (members raw) ''created_at'')
     \<and> (json_get (members raw) ''updated_at'' = JNull \<or> dated dt (json_get (members raw) ''updated_at''))
     \<and> (json_get (members raw) ''source'' = JNull \<or> is_str (json_get (members raw) ''source''))
     \<and> (\<forall>p. json_get (members raw) ''project_id'' = JStr p \<longrightarrow> p \<in> known)"

lemma require_str_ok: "require_str col i row key = Inr x \<Longrightarrow> json_get row key = JStr x \<and> x \<noteq> []"
  by (auto simp: require_str_def split: json.splits if_splits)

lemma validate_project_row_ok:
  assumes "validate_project_row dt seen i raw = Inr x"
  shows "good_project dt raw \<and> x = row_id raw \<and> x \<notin> seen"
proof -
  obtain row where raw: "raw = JObj row" using assms by (auto simp: validate_project_row_def split: json.splits)
  show ?thesis
    using assms unfolding raw validate_project_row_def
    by (auto simp: validation_simps require_dt_str_ok good_project_def members_def dest!: require_str_ok)
qed

lemma is_str_iff: "is_str v \<longleftrightarrow> (\<exists>s. v = JStr s)"
  by (cases v) auto

lemma validate_memory_row_ok:
  assumes "validate_memory_row dt known seen i raw = Inr x"
  shows "good_memory dt known raw \<and> x = row_id raw \<and> x \<notin> seen"
proof -
  obtain row where raw: "raw = JObj row" using assms by (auto simp: validate_memory_row_def split: json.splits)
  show ?thesis
    using assms unfolding raw validate_memory_row_def Let_def
    by (auto simp: validation_simps require_dt_str_ok good_memory_def members_def is_str_iff dest!: require_str_ok)
qed

lemma validate_projects_ok:
  "validate_projects dt i seen raws = Inr seen' \<Longrightarrow>
     list_all (good_project dt) raws \<and> distinct (map row_id raws) \<and> row_id ` set raws \<inter> seen = {}
     \<and> seen' = seen \<union> row_id ` set raws"
proof (induction raws arbitrary: i seen)
  case (Cons raw raws)
  then obtain x where x: "validate_project_row dt seen i raw = Inr x"
    "validate_projects dt (Suc i) (insert x seen) raws = Inr seen'"
    by (auto simp: validation_simps)
  then show ?case using validate_project_row_ok [OF x(1)] Cons.IH [OF x(2)] by auto
qed simp

lemma validate_memories_ok:
  "validate_memories dt known i seen raws = Inr seen' \<Longrightarrow>
     list_all (good_memory dt known) raws \<and> distinct (map row_id raws) \<and> row_id ` set raws \<inter> seen = {}"
proof (induction raws arbitrary: i seen)
  case (Cons raw raws)
  then obtain x where x: "validate_memory_row dt known seen i raw = Inr x"
    "validate_memories dt known (Suc i) (insert x seen) raws = Inr seen'"
    by (auto simp: validation_simps)
  then show ?case using validate_memory_row_ok [OF x(1)] Cons.IH [OF x(2)] by auto
qed simp

lemma validate_envelope_ok:
  assumes "validate_envelope dt kvs existing = Inr (ps, ms)"
  shows "list_all (good_project dt) ps" "distinct (map row_id ps)"
    "list_all (good_memory dt (existing \<union> row_id ` set ps)) ms" "distinct (map row_id ms)"
  using assms
  by (auto simp: validate_envelope_def validation_simps dest!: validate_projects_ok validate_memories_ok)

section \<open>Every rejection is a validation error\<close>

lemma row_error_code: "exc_code (row_error col i raw reason) = Some INVALID_ARGUMENT"
  by (simp add: row_error_def)

lemma require_str_error: "require_str col i row key = Inl e \<Longrightarrow> exc_code e = Some INVALID_ARGUMENT"
  by (auto simp: require_str_def row_error_code split: json.splits if_splits)

lemma require_dt_str_error: "require_dt_str dt col i row key opt = Inl e \<Longrightarrow> exc_code e = Some INVALID_ARGUMENT"
  by (auto simp: require_dt_str_def row_error_code split: json.splits if_splits option.splits sum.splits)

lemma validate_project_row_error: "validate_project_row dt seen i raw = Inl e \<Longrightarrow> exc_code e = Some INVALID_ARGUMENT"
  by (auto simp: validate_project_row_def validation_simps row_error_code split: json.splits
      dest: require_str_error require_dt_str_error)

lemma validate_memory_row_error: "validate_memory_row dt known seen i raw = Inl e \<Longrightarrow> exc_code e = Some INVALID_ARGUMENT"
  by (auto simp: validate_memory_row_def validation_simps row_error_code Let_def split: json.splits
      dest: require_str_error require_dt_str_error)

lemma validate_projects_error: "validate_projects dt i seen raws = Inl e \<Longrightarrow> exc_code e = Some INVALID_ARGUMENT"
  by (induction raws arbitrary: i seen) (auto simp: validation_simps dest: validate_project_row_error)

lemma validate_memories_error: "validate_memories dt known i seen raws = Inl e \<Longrightarrow> exc_code e = Some INVALID_ARGUMENT"
  by (induction raws arbitrary: i seen) (auto simp: validation_simps dest: validate_memory_row_error)

lemma validate_envelope_error: "validate_envelope dt kvs existing = Inl e \<Longrightarrow> exc_code e = Some INVALID_ARGUMENT"
  by (auto simp: validate_envelope_def validation_simps required_array_def split: option.splits json.splits
      dest: validate_projects_error validate_memories_error)

section \<open>The writes of a validated envelope\<close>

definition stored_project :: "project \<Rightarrow> project" where
  "stored_project p = (case require_utc (p_created_at p) ''created_at'' of Inl _ \<Rightarrow> p | Inr t \<Rightarrow> p\<lparr>p_created_at := t\<rparr>)"

definition stored_memory :: "memory_item \<Rightarrow> memory_item" where
  "stored_memory m = (case stored_form m of Inl _ \<Rightarrow> m | Inr r \<Rightarrow> r)"

lemma good_project_time:
  assumes "good_project dt raw" "is_utc now"
  shows "\<exists>t. require_utc (p_created_at (project_of_row dt now raw)) ''created_at'' = Inr t"
proof (cases "parse_dt dt (json_get (members raw) ''created_at'')")
  case None
  then show ?thesis using require_utc_idem [OF assms(2)] by (simp add: project_of_row_def Let_def)
next
  case (Some t)
  then show ?thesis using parse_dt_dated [OF _ Some] assms(1) by (simp add: project_of_row_def good_project_def Let_def)
qed

lemma good_memory_time:
  assumes "good_memory dt known raw" "is_utc now"
  shows "\<exists>r. stored_form (memory_of_row dt now raw) = Inr r"
proof -
  let ?m = "memory_of_row dt now raw"
  have "\<exists>c. require_utc (m_created_at ?m) ''created_at'' = Inr c"
  proof (cases "parse_dt dt (json_get (members raw) ''created_at'')")
    case None
    then show ?thesis using require_utc_idem [OF assms(2)] by (simp add: memory_of_row_def Let_def)
  next
    case (Some t)
    then show ?thesis using parse_dt_dated [OF _ Some] assms(1) by (simp add: memory_of_row_def good_memory_def Let_def)
  qed
  moreover have "\<exists>c. require_utc u ''updated_at'' = Inr c" if "m_updated_at ?m = Some u" for u
    using that assms(1) parse_dt_dated by (fastforce simp: memory_of_row_def good_memory_def parse_dt_def Let_def)
  ultimately show ?thesis by (auto simp: stored_form_def split: option.split)
qed

lemma add_project_stored:
  assumes "\<exists>t. require_utc (p_created_at p) ''created_at'' = Inr t" "p_id p \<notin> p_id ` set (projects (the_db s))"
  shows "add_project p s = (Inr (), s\<lparr>the_db := (the_db s)\<lparr>projects := projects (the_db s) @ [stored_project p]\<rparr>\<rparr>)"
  using assms by (auto simp: add_project_def insert_project_def stored_project_def)

lemma stored_project_id [simp]: "p_id (stored_project p) = p_id p"
  by (simp add: stored_project_def split: sum.split)

lemma project_of_row_id [simp]: "p_id (project_of_row dt now raw) = row_id raw"
  by (simp add: project_of_row_def Let_def)

lemma memory_of_row_id [simp]: "m_id (memory_of_row dt now raw) = row_id raw"
  by (simp add: memory_of_row_def Let_def)

abbreviation new_rows :: "string set \<Rightarrow> json list \<Rightarrow> json list" where
  "new_rows existing raws \<equiv> filter (\<lambda>raw. row_id raw \<notin> existing) raws"

lemma import_projects_ok:
  assumes "is_utc now"
  shows "list_all (good_project dt) raws \<Longrightarrow> distinct (map row_id raws) \<Longrightarrow>
    (\<And>raw. raw \<in> set raws \<Longrightarrow> row_id raw \<in> p_id ` set (projects (the_db s)) \<Longrightarrow> row_id raw \<in> existing) \<Longrightarrow>
    \<exists>s' c'. import_projects dt now existing raws c s = (Inr c', s')
      \<and> the_db s' = (the_db s)\<lparr>projects := projects (the_db s) @ map (\<lambda>raw. stored_project (project_of_row dt now raw)) (new_rows existing raws)\<rparr>
      \<and> savepoints s' = savepoints s \<and> transaction_depth s' = transaction_depth s
      \<and> c' = c\<lparr>ic_projects_added := ic_projects_added c + length (new_rows existing raws),
               ic_projects_skipped := ic_projects_skipped c + length (filter (\<lambda>raw. row_id raw \<in> existing) raws)\<rparr>"
proof (induction raws arbitrary: c s)
  case (Cons raw raws)
  show ?case
  proof (cases "row_id raw \<in> existing")
    case True
    then show ?thesis
      using Cons.IH [of s "c\<lparr>ic_projects_skipped := ic_projects_skipped c + 1\<rparr>"] Cons.prems by simp
  next
    case False
    let ?p = "project_of_row dt now raw"
    let ?s = "s\<lparr>the_db := (the_db s)\<lparr>projects := projects (the_db s) @ [stored_project ?p]\<rparr>\<rparr>"
    have add: "add_project ?p s = (Inr (), ?s)"
      using good_project_time [OF _ assms] Cons.prems False by (intro add_project_stored) auto
    have "row_id x \<in> existing" if "x \<in> set raws" "row_id x \<in> p_id ` set (projects (the_db ?s))" for x
      using that Cons.prems by (auto simp: image_iff)
    then show ?thesis
      using Cons.IH [of ?s "c\<lparr>ic_projects_added := ic_projects_added c + 1\<rparr>"] Cons.prems False by (simp add: add)
  qed
qed simp

definition kept_rows :: "string set \<Rightarrow> json list \<Rightarrow> json list" where
  "kept_rows existing raws =
     filter (\<lambda>raw. json_get (members raw) ''source'' \<noteq> JStr WATERMARK_SOURCE \<and> row_id raw \<notin> existing) raws"

lemma stored_memory_eq: "stored_form m = Inr r \<Longrightarrow> stored_memory m = r"
  by (simp add: stored_memory_def)

lemma import_memories_ok:
  assumes "is_utc now"
  shows "list_all (good_memory dt known) raws \<Longrightarrow> distinct (map row_id raws) \<Longrightarrow>
    (\<And>raw. raw \<in> set raws \<Longrightarrow> row_id raw \<in> m_id ` set (memory_items (the_db s)) \<Longrightarrow> row_id raw \<in> existing) \<Longrightarrow>
    known \<subseteq> p_id ` set (projects (the_db s)) \<Longrightarrow>
    \<exists>s' c'. import_memories dt now existing raws c s = (Inr c', s')
      \<and> memory_items (the_db s') = memory_items (the_db s) @ map (\<lambda>raw. stored_memory (memory_of_row dt now raw)) (kept_rows existing raws)
      \<and> projects (the_db s') = projects (the_db s) \<and> memory_embeddings (the_db s') = memory_embeddings (the_db s)
      \<and> ic_projects_added c' = ic_projects_added c \<and> ic_projects_skipped c' = ic_projects_skipped c
      \<and> ic_memory_added c' = ic_memory_added c + length (kept_rows existing raws)
      \<and> ic_memory_added c' + ic_memory_skipped c' + ic_watermark_dropped c' =
          ic_memory_added c + ic_memory_skipped c + ic_watermark_dropped c + length raws"
proof (induction raws arbitrary: c s)
  case (Cons raw raws)
  consider (water) "json_get (members raw) ''source'' = JStr WATERMARK_SOURCE"
    | (skip) "json_get (members raw) ''source'' \<noteq> JStr WATERMARK_SOURCE" "row_id raw \<in> existing"
    | (add) "json_get (members raw) ''source'' \<noteq> JStr WATERMARK_SOURCE" "row_id raw \<notin> existing" by blast
  then show ?case
  proof cases
    case water
    then show ?thesis
      using Cons.IH [of s "c\<lparr>ic_watermark_dropped := ic_watermark_dropped c + 1\<rparr>"] Cons.prems by (simp add: kept_rows_def)
  next
    case skip
    then show ?thesis
      using Cons.IH [of s "c\<lparr>ic_memory_skipped := ic_memory_skipped c + 1\<rparr>"] Cons.prems by (simp add: kept_rows_def)
  next
    case add
    let ?m = "memory_of_row dt now raw"
    have good: "good_memory dt known raw" using Cons.prems(1) by simp
    obtain r where r: "stored_form ?m = Inr r" using good_memory_time [OF good assms] by blast
    have id: "m_id r = row_id raw" using stored_form_Inr(2) [OF r] by simp
    let ?s = "s\<lparr>the_db := fts_ai r ((the_db s)\<lparr>memory_items := memory_items (the_db s) @ [r]\<rparr>)\<rparr>"
    have "m_id ?m \<notin> m_id ` set (memory_items (the_db s))" using Cons.prems(3) add by auto
    moreover have "\<forall>p. m_project_id ?m = Some p \<longrightarrow> p \<in> p_id ` set (projects (the_db s))"
      using Cons.prems(1,4) by (auto simp: memory_of_row_def good_memory_def Let_def split: json.splits)
    ultimately have ok: "add_memory ?m s = (Inr (), ?s)" by (rule add_memory_ok [OF r])
    define c2 where "c2 = (let c1 = (if length (str_of (json_get (members raw) ''content'')) > MAX_CONTENT_CHARS
        then c\<lparr>ic_oversized_content := ic_oversized_content c + 1\<rparr> else c) in c1\<lparr>ic_memory_added := ic_memory_added c1 + 1\<rparr>)"
    have c2: "ic_projects_added c2 = ic_projects_added c" "ic_projects_skipped c2 = ic_projects_skipped c"
      "ic_memory_added c2 = Suc (ic_memory_added c)" "ic_memory_skipped c2 = ic_memory_skipped c"
      "ic_watermark_dropped c2 = ic_watermark_dropped c"
      by (simp_all add: c2_def Let_def)
    have step: "import_memories dt now existing (raw # raws) c s = import_memories dt now existing raws c2 ?s"
      using add by (simp add: ok c2_def Let_def)
    have kept: "kept_rows existing (raw # raws) = raw # kept_rows existing raws" using add by (simp add: kept_rows_def)
    have "row_id x \<in> existing" if "x \<in> set raws" "row_id x \<in> m_id ` set (memory_items (the_db ?s))" for x
      using that Cons.prems id by (auto simp: image_iff)
    then have "\<exists>s' c'. import_memories dt now existing raws c2 ?s = (Inr c', s')
      \<and> memory_items (the_db s') = memory_items (the_db ?s) @ map (\<lambda>raw. stored_memory (memory_of_row dt now raw)) (kept_rows existing raws)
      \<and> projects (the_db s') = projects (the_db ?s) \<and> memory_embeddings (the_db s') = memory_embeddings (the_db ?s)
      \<and> ic_projects_added c' = ic_projects_added c2 \<and> ic_projects_skipped c' = ic_projects_skipped c2
      \<and> ic_memory_added c' = ic_memory_added c2 + length (kept_rows existing raws)
      \<and> ic_memory_added c' + ic_memory_skipped c' + ic_watermark_dropped c' =
          ic_memory_added c2 + ic_memory_skipped c2 + ic_watermark_dropped c2 + length raws"
      using Cons.prems by (intro Cons.IH) simp_all
    then show ?thesis unfolding step kept by (auto simp: c2 stored_memory_eq [OF r])
  qed
qed (simp add: kept_rows_def)

lemma import_body_ok:
  assumes now: "is_utc now" and val: "validate_envelope dt kvs (p_id ` set (projects (the_db s))) = Inr (ps, ms)"
  defines "pe \<equiv> p_id ` set (projects (the_db s))" and "me \<equiv> m_id ` set (memory_items (the_db s))"
  shows "\<exists>s' c. import_body dt now pe me ps ms s = (Inr c, s')
    \<and> projects (the_db s') = projects (the_db s) @ map (\<lambda>raw. stored_project (project_of_row dt now raw)) (new_rows pe ps)
    \<and> memory_items (the_db s') = memory_items (the_db s) @ map (\<lambda>raw. stored_memory (memory_of_row dt now raw)) (kept_rows me ms)
    \<and> memory_embeddings (the_db s') = memory_embeddings (the_db s)
    \<and> ic_projects_added c = length (new_rows pe ps) \<and> ic_projects_added c + ic_projects_skipped c = length ps
    \<and> ic_memory_added c = length (kept_rows me ms)
    \<and> ic_memory_added c + ic_memory_skipped c + ic_watermark_dropped c = length ms"
proof -
  note v = validate_envelope_ok [OF val]
  obtain s1 c1 where p: "import_projects dt now pe ps zero_counts s = (Inr c1, s1)"
    "the_db s1 = (the_db s)\<lparr>projects := projects (the_db s) @ map (\<lambda>raw. stored_project (project_of_row dt now raw)) (new_rows pe ps)\<rparr>"
    "c1 = zero_counts\<lparr>ic_projects_added := ic_projects_added zero_counts + length (new_rows pe ps),
       ic_projects_skipped := ic_projects_skipped zero_counts + length (filter (\<lambda>raw. row_id raw \<in> pe) ps)\<rparr>"
    using import_projects_ok [OF now v(1,2), of s pe zero_counts] unfolding pe_def by blast
  have "p_id ` set (projects (the_db s1)) = pe \<union> row_id ` set (new_rows pe ps)"
    by (simp add: p(2) pe_def image_Un image_image del: set_filter)
  then have known: "pe \<union> row_id ` set ps \<subseteq> p_id ` set (projects (the_db s1))" by auto
  have "\<exists>s' c'. import_memories dt now me ms c1 s1 = (Inr c', s')
      \<and> memory_items (the_db s') = memory_items (the_db s1) @ map (\<lambda>raw. stored_memory (memory_of_row dt now raw)) (kept_rows me ms)
      \<and> projects (the_db s') = projects (the_db s1) \<and> memory_embeddings (the_db s') = memory_embeddings (the_db s1)
      \<and> ic_projects_added c' = ic_projects_added c1 \<and> ic_projects_skipped c' = ic_projects_skipped c1
      \<and> ic_memory_added c' = ic_memory_added c1 + length (kept_rows me ms)
      \<and> ic_memory_added c' + ic_memory_skipped c' + ic_watermark_dropped c' =
          ic_memory_added c1 + ic_memory_skipped c1 + ic_watermark_dropped c1 + length ms"
    using v(3,4) known by (intro import_memories_ok [OF now]) (auto simp: p(2) me_def pe_def)
  then show ?thesis
    using p length_filter_split [of "\<lambda>raw. row_id raw \<in> pe" ps]
    by (auto simp: import_body_def zero_counts_def)
qed

section \<open>Balance\<close>

lemma balanced_import_projects: "balanced (import_projects dt now existing raws c)"
proof (induction raws arbitrary: c)
  case (Cons raw raws)
  show ?case
  proof
    fix s r s' assume "import_projects dt now existing (raw # raws) c s = (r, s')"
    then show "savepoints s' = savepoints s \<and> transaction_depth s' = transaction_depth s"
      using balancedD [OF balanced_add_project] balancedD [OF Cons]
      by (fastforce split: prod.splits sum.splits if_splits)
  qed
qed (simp add: balanced_def)

lemma balanced_import_memories: "balanced (import_memories dt now existing raws c)"
proof (induction raws arbitrary: c)
  case (Cons raw raws)
  show ?case
  proof
    fix s r s' assume op: "import_memories dt now existing (raw # raws) c s = (r, s')"
    obtain x s1 where a: "add_memory (memory_of_row dt now raw) s = (x, s1)" by fastforce
    then show "savepoints s' = savepoints s \<and> transaction_depth s' = transaction_depth s"
      using op balancedD [OF balanced_add_memory a]
      by (cases x) (auto simp: a Let_def split: if_splits dest!: balancedD [OF Cons])
  qed
qed (simp add: balanced_def)

lemma balanced_import_body: "balanced (import_body dt now pe me ps ms)"
proof
  fix s r s' assume op: "import_body dt now pe me ps ms s = (r, s')"
  obtain x s1 where a: "import_projects dt now pe ps zero_counts s = (x, s1)" by fastforce
  show "savepoints s' = savepoints s \<and> transaction_depth s' = transaction_depth s"
    using op balancedD [OF balanced_import_projects a] balancedD [OF balanced_import_memories]
    by (cases x) (auto simp: import_body_def a)
qed

section \<open>A concrete reading of timestamps\<close>

definition undigits :: "string \<Rightarrow> nat" where
  "undigits s = foldl (\<lambda>a c. a * 10 + (of_char c - 48)) 0 s"

lemma undigits_nat_text: "undigits (nat_text n) = n"
proof (induction n rule: nat_text.induct)
  case (1 n)
  show ?case
  proof (cases "n < 10")
    case True
    then show ?thesis by (simp add: nat_text.simps [of n] undigits_def)
  next
    case False
    have "(of_char (char_of (48 + n mod 10) :: char) :: nat) - 48 = n mod 10"
      by (simp add: mod_less)
    then show ?thesis using 1 False by (simp add: nat_text.simps [of n] undigits_def)
  qed
qed

definition sample_iso :: iso8601 where
  "sample_iso = \<lparr>iso_format = (\<lambda>t. nat_text (nat (wall t))),
     iso_parse = (\<lambda>s. if s = [] then None else Some \<lparr>wall = int (undigits s), utcoffset = Some 0\<rparr>)\<rparr>"

text \<open>What Python documents: \<open>fromisoformat\<close> reads back what \<open>isoformat\<close> wrote.\<close>

definition iso_ok :: "iso8601 \<Rightarrow> bool" where
  "iso_ok dt \<longleftrightarrow> (\<forall>t. is_utc t \<longrightarrow> iso_format dt t \<noteq> [] \<and> iso_parse dt (iso_format dt t) = Some t)"

lemma sample_iso_ok: "iso_ok sample_iso"
proof -
  have "nat_text n \<noteq> []" for n by (simp add: nat_text.simps [of n])
  then show ?thesis by (auto simp: iso_ok_def sample_iso_def undigits_nat_text is_utc_def)
qed

end
