(* ===== verification/OC_Portability_Theorems.thy ===== *)
theory OC_Portability_Theorems
  imports OC_Portability_Props OC_Store_Theorems
begin

text \<open>
  The theorems about export and import: a rejected envelope changes nothing and is answered
  with a validation error, a merge keeps what is there and accounts for every row, and an
  export restores exactly into an empty store.
\<close>

section \<open>How an import ends\<close>

lemma import_execute_cases:
  assumes "import_execute dt now payload mode s = (r, s')"
  obtains (refused) e where "r = Inl e" "s' = s" "exc_code e = Some INVALID_ARGUMENT"
  | (run) kvs ps ms where "payload = JObj kvs" "validate_envelope dt kvs (p_id ` set (projects (the_db s))) = Inr (ps, ms)"
      "transaction (import_body dt now (p_id ` set (projects (the_db s))) (m_id ` set (memory_items (the_db s))) ps ms) s = (r, s')"
      "mode = ''replace'' \<Longrightarrow> projects (the_db s) = [] \<and> memory_items (the_db s) = []"
proof -
  have "(\<exists>e. r = Inl e \<and> s' = s \<and> exc_code e = Some INVALID_ARGUMENT)
      \<or> (\<exists>kvs ps ms. payload = JObj kvs \<and> validate_envelope dt kvs (p_id ` set (projects (the_db s))) = Inr (ps, ms)
          \<and> transaction (import_body dt now (p_id ` set (projects (the_db s))) (m_id ` set (memory_items (the_db s))) ps ms) s = (r, s')
          \<and> (mode = ''replace'' \<longrightarrow> projects (the_db s) = [] \<and> memory_items (the_db s) = []))"
    using assms validate_envelope_error [of dt _ "p_id ` set (projects (the_db s))"]
    by (auto simp: import_execute_def Let_def split: if_splits json.splits sum.splits prod.splits)
  then show ?thesis using refused run by blast
qed

lemma transaction_locked:
  assumes tr: "transaction body s = (Inl e, s')"
    and body: "\<And>s0. the_db s0 = the_db s \<Longrightarrow> \<exists>c s1. body (enter_transaction s0) = (Inr c, s1)"
  shows "is_locked e \<and> begin_attempts s \<noteq> []"
proof
  show "is_locked e" using tr
  proof (rule transaction_error)
    fix s0 s1 assume "the_db s0 = the_db s" "body (enter_transaction s0) = (Inl e, s1)"
    then show "is_locked e" using body [of s0] by auto
  qed
  show "begin_attempts s \<noteq> []"
  proof
    assume "begin_attempts s = []"
    then have b: "(if transaction_depth s = 0 then begin_immediate_with_retry s else (Inr (), s)) = (Inr (), s)"
      by (simp add: begin_immediate_with_retry_def)
    show False using tr body [of s] unfolding transaction_def b by auto
  qed
qed

lemma import_run_ok:
  assumes "is_utc now" "validate_envelope dt kvs (p_id ` set (projects (the_db s))) = Inr (ps, ms)"
    "transaction (import_body dt now (p_id ` set (projects (the_db s))) (m_id ` set (memory_items (the_db s))) ps ms) s = (r, s')"
  obtains (locked) e where "r = Inl e" "is_locked e" "begin_attempts s \<noteq> []"
  | (committed) c where "r = Inr c"
    "projects (the_db s') = projects (the_db s) @
       map (\<lambda>raw. stored_project (project_of_row dt now raw)) (new_rows (p_id ` set (projects (the_db s))) ps)"
    "memory_items (the_db s') = memory_items (the_db s) @
       map (\<lambda>raw. stored_memory (memory_of_row dt now raw)) (kept_rows (m_id ` set (memory_items (the_db s))) ms)"
    "memory_embeddings (the_db s') = memory_embeddings (the_db s)"
    "ic_projects_added c = length (new_rows (p_id ` set (projects (the_db s))) ps)"
    "ic_projects_added c + ic_projects_skipped c = length ps"
    "ic_memory_added c = length (kept_rows (m_id ` set (memory_items (the_db s))) ms)"
    "ic_memory_added c + ic_memory_skipped c + ic_watermark_dropped c = length ms"
proof -
  have body: "\<exists>s1 c. import_body dt now (p_id ` set (projects (the_db s))) (m_id ` set (memory_items (the_db s))) ps ms (enter_transaction s0) = (Inr c, s1)
    \<and> projects (the_db s1) = projects (the_db s) @ map (\<lambda>raw. stored_project (project_of_row dt now raw)) (new_rows (p_id ` set (projects (the_db s))) ps)
    \<and> memory_items (the_db s1) = memory_items (the_db s) @ map (\<lambda>raw. stored_memory (memory_of_row dt now raw)) (kept_rows (m_id ` set (memory_items (the_db s))) ms)
    \<and> memory_embeddings (the_db s1) = memory_embeddings (the_db s)
    \<and> ic_projects_added c = length (new_rows (p_id ` set (projects (the_db s))) ps) \<and> ic_projects_added c + ic_projects_skipped c = length ps
    \<and> ic_memory_added c = length (kept_rows (m_id ` set (memory_items (the_db s))) ms)
    \<and> ic_memory_added c + ic_memory_skipped c + ic_watermark_dropped c = length ms" if "the_db s0 = the_db s" for s0
    using import_body_ok [OF assms(1), of dt kvs "enter_transaction s0" ps ms] assms(2) that by simp
  show ?thesis
  proof (cases r)
    case (Inl e)
    have "transaction (import_body dt now (p_id ` set (projects (the_db s))) (m_id ` set (memory_items (the_db s))) ps ms) s = (Inl e, s')"
      using assms(3) Inl by simp
    from transaction_locked [OF this] body show ?thesis using locked [OF Inl] by meson
  next
    case (Inr c)
    obtain s0 s1 where "the_db s0 = the_db s" "the_db s' = the_db s1"
      "import_body dt now (p_id ` set (projects (the_db s))) (m_id ` set (memory_items (the_db s))) ps ms (enter_transaction s0) = (Inr c, s1)"
      using transaction_committed [OF balanced_import_body assms(3) [unfolded Inr]] by metis
    then show ?thesis using committed [OF Inr] body [of s0] by auto
  qed
qed

lemma sample_time_utc: "is_utc sample_time"
  by (simp add: is_utc_def sample_time_def max_wall_def)

section \<open>Import\<close>

text \<open>
  C7. An import that raises has changed nothing, whatever the payload, the mode and the state
  of the store; and it raises a validation error or reports the lock held by another process:
  a validated envelope never fails half-way with a constraint or key error.
\<close>

theorem import_rejection_is_clean:
  assumes "is_utc now" "import_execute dt now payload mode s = (Inl e, s')"
  shows "the_db s' = the_db s \<and> (exc_code e = Some INVALID_ARGUMENT \<or> is_locked e)"
  using assms(2)
proof (cases rule: import_execute_cases)
  case (run kvs ps ms)
  then have "is_locked e" using import_run_ok [OF assms(1) run(2,3)] by auto
  moreover have "the_db s' = the_db s" using transaction_raised [OF balanced_import_body run(3)] by blast
  ultimately show ?thesis by simp
qed auto

theorem import_rejection_is_clean_witness:
  "\<exists>e s'. import_execute sample_iso sample_time
       (JObj [(''format_version'', JInt 1), (''projects'', JList [JObj [(''id'', JStr ''p2'')]]), (''memory_items'', JList [])])
       ''merge'' sample_store = (Inl e, s') \<and> the_db s' = sample_db \<and> exc_code e = Some INVALID_ARGUMENT"
proof -
  let ?p = "JObj [(''format_version'', JInt 1), (''projects'', JList [JObj [(''id'', JStr ''p2'')]]), (''memory_items'', JList [])]"
  have g: "import_execute sample_iso sample_time ?p ''merge'' sample_store =
      (Inl (RowError ''projects'' 0 (Some ''p2'') ''must be a non-empty string''), sample_store)"
    by (simp add: import_execute_def validate_envelope_def and_then_def check_def required_array_def json_get_def
        validate_project_row_def require_str_def row_error_def EXPORT_FORMAT_VERSION_def Let_def)
  from g import_rejection_is_clean [OF sample_time_utc g] show ?thesis by (auto simp: sample_store_eq)
qed

text \<open>
  A merge is a union by id that accounts for every row: each project and each memory that
  was there is kept unchanged, every row of the envelope is added, skipped for its id, or
  dropped as a git watermark, the counts add up, no watermark is ever inserted, and embeddings
  are untouched.
\<close>

lemma import_merge_accounts:
  assumes now: "is_utc now" and imp: "import_execute dt now payload mode s = (Inr c, s')"
  shows "\<exists>kvs ps ms new_projects new_memories. payload = JObj kvs
    \<and> map_of kvs ''projects'' = Some (JList ps) \<and> map_of kvs ''memory_items'' = Some (JList ms)
    \<and> projects (the_db s') = projects (the_db s) @ new_projects
    \<and> memory_items (the_db s') = memory_items (the_db s) @ new_memories
    \<and> memory_embeddings (the_db s') = memory_embeddings (the_db s)
    \<and> length new_projects = ic_projects_added c \<and> ic_projects_added c + ic_projects_skipped c = length ps
    \<and> length new_memories = ic_memory_added c
    \<and> ic_memory_added c + ic_memory_skipped c + ic_watermark_dropped c = length ms
    \<and> (\<forall>m \<in> set new_memories. m_source m \<noteq> WATERMARK_SOURCE)"
  using imp
proof (cases rule: import_execute_cases)
  case (run kvs ps ms)
  let ?new = "map (\<lambda>raw. stored_memory (memory_of_row dt now raw)) (kept_rows (m_id ` set (memory_items (the_db s))) ms)"
  let ?newp = "map (\<lambda>raw. stored_project (project_of_row dt now raw)) (new_rows (p_id ` set (projects (the_db s))) ps)"
  have arrays: "map_of kvs ''projects'' = Some (JList ps)" "map_of kvs ''memory_items'' = Some (JList ms)"
    using run(2) by (auto simp: validate_envelope_def validation_simps required_array_def split: option.splits json.splits)
  note good = validate_envelope_ok(3) [OF run(2)]
  have "m_source (stored_memory (memory_of_row dt now raw)) \<noteq> WATERMARK_SOURCE"
    if "raw \<in> set (kept_rows (m_id ` set (memory_items (the_db s))) ms)" for raw
  proof -
    have raw: "good_memory dt (p_id ` set (projects (the_db s)) \<union> row_id ` set ps) raw"
      "json_get (members raw) ''source'' \<noteq> JStr WATERMARK_SOURCE"
      using that good by (auto simp: kept_rows_def list_all_iff)
    obtain r where r: "stored_form (memory_of_row dt now raw) = Inr r" using good_memory_time [OF raw(1) now] by blast
    have "m_source (memory_of_row dt now raw) \<noteq> WATERMARK_SOURCE"
      using raw by (auto simp: memory_of_row_def good_memory_def is_str_iff WATERMARK_SOURCE_def Let_def)
    then show ?thesis using stored_form_Inr(7) [OF r] by (simp add: stored_memory_eq [OF r])
  qed
  then have water: "\<forall>m \<in> set ?new. m_source m \<noteq> WATERMARK_SOURCE" by auto
  from now run(2,3) show ?thesis
  proof (cases rule: import_run_ok)
    case (committed c')
    then have "c' = c" by simp
    then have "payload = JObj kvs \<and> map_of kvs ''projects'' = Some (JList ps) \<and> map_of kvs ''memory_items'' = Some (JList ms)
        \<and> projects (the_db s') = projects (the_db s) @ ?newp \<and> memory_items (the_db s') = memory_items (the_db s) @ ?new
        \<and> memory_embeddings (the_db s') = memory_embeddings (the_db s)
        \<and> length ?newp = ic_projects_added c \<and> ic_projects_added c + ic_projects_skipped c = length ps
        \<and> length ?new = ic_memory_added c
        \<and> ic_memory_added c + ic_memory_skipped c + ic_watermark_dropped c = length ms
        \<and> (\<forall>m \<in> set ?new. m_source m \<noteq> WATERMARK_SOURCE)"
      using committed arrays run(1) water by simp
    then show ?thesis by blast
  qed simp
qed auto

definition sample_payload :: json where
  "sample_payload = JObj [(''format_version'', JInt 1),
     (''projects'', JList [JObj [(''id'', JStr ''p1''), (''name'', JStr ''other''), (''created_at'', JStr ''7'')]]),
     (''memory_items'', JList [JObj [(''id'', JStr ''m1''), (''content'', JStr ''old''), (''created_at'', JStr ''7'')],
        JObj [(''id'', JStr ''w1''), (''content'', JStr ''abc''), (''created_at'', JStr ''7''),
              (''source'', JStr ''git-onboard-watermark'')]])]"

lemma import_merge_accounts_witness:
  "\<exists>c s'. import_execute sample_iso sample_time sample_payload ''merge'' sample_store = (Inr c, s')
     \<and> ic_memory_skipped c = 1 \<and> ic_watermark_dropped c = 1
     \<and> (\<exists>new. memory_items (the_db s') = [sample_memory, sample_global] @ new \<and> length new = ic_memory_added c)"
proof -
  let ?i = "import_execute sample_iso sample_time sample_payload ''merge'' sample_store"
  have "map_sum (\<lambda>_. ()) (\<lambda>c. (ic_memory_skipped c, ic_watermark_dropped c)) (fst ?i) = Inr (1, 1)"
    unfolding sample_store_eq by code_simp
  then obtain c s' where g: "?i = (Inr c, s')" "ic_memory_skipped c = 1" "ic_watermark_dropped c = 1"
    by (cases ?i; cases "fst ?i") auto
  have "memory_items (the_db sample_store) = [sample_memory, sample_global]" by (simp add: sample_store_eq sample_db_def)
  then show ?thesis using g import_merge_accounts [OF sample_time_utc g(1)] by auto
qed

section \<open>The round trip\<close>

lemma json_get_simps [simp]:
  "json_get [] k = JNull" "json_get ((x, v) # row) k = (if k = x then v else json_get row k)"
  by (auto simp: json_get_def)

lemma members_obj [simp]: "members (JObj kvs) = kvs"
  by (simp add: members_def)

definition exportable_project :: "project \<Rightarrow> bool" where
  "exportable_project p \<longleftrightarrow> p_id p \<noteq> [] \<and> p_name p \<noteq> [] \<and> is_utc (p_created_at p)"

definition exportable_memory :: "memory_item \<Rightarrow> bool" where
  "exportable_memory m \<longleftrightarrow> m_id m \<noteq> [] \<and> m_source m \<noteq> [] \<and> utc_memory m"

lemma iso_okD: "iso_ok dt \<Longrightarrow> is_utc t \<Longrightarrow> iso_parse dt (iso_format dt t) = Some t \<and> iso_format dt t \<noteq> []"
  by (simp add: iso_ok_def)

lemma dated_utc: "iso_ok dt \<Longrightarrow> is_utc t \<Longrightarrow> dated dt (JStr (iso_format dt t))"
  by (auto simp: dated_def iso_okD require_utc_idem)

lemma validate_exported_project:
  assumes "iso_ok dt" "exportable_project p" "p_id p \<notin> seen"
  shows "validate_project_row dt seen i (project_row dt p) = Inr (p_id p)"
proof -
  have "require_dt_str dt ''projects'' i [(''id'', JStr (p_id p)), (''name'', JStr (p_name p)), (''metadata'', JObj (p_metadata p)),
     (''created_at'', JStr (iso_format dt (p_created_at p)))] ''created_at'' False = Inr ()"
    using assms dated_utc by (simp add: require_dt_str_ok exportable_project_def)
  then show ?thesis
    using assms by (simp add: validate_project_row_def project_row_def and_then_def require_str_def check_def is_obj_def exportable_project_def)
qed

lemma validate_exported_projects:
  "iso_ok dt \<Longrightarrow> list_all exportable_project ps \<Longrightarrow> distinct (map p_id ps) \<Longrightarrow> p_id ` set ps \<inter> seen = {} \<Longrightarrow>
     validate_projects dt i seen (map (project_row dt) ps) = Inr (seen \<union> p_id ` set ps)"
proof (induction ps arbitrary: i seen)
  case (Cons p ps)
  then have "validate_projects dt (Suc i) (insert (p_id p) seen) (map (project_row dt) ps) = Inr (insert (p_id p) seen \<union> p_id ` set ps)"
    by (intro Cons.IH) auto
  then show ?case using validate_exported_project [of dt p seen i] Cons.prems by (simp add: and_then_def)
qed simp

lemma validate_exported_memory:
  assumes "iso_ok dt" "exportable_memory m" "m_id m \<notin> seen" "\<forall>p. m_project_id m = Some p \<longrightarrow> p \<in> known"
  shows "validate_memory_row dt known seen i (memory_row dt m) = Inr (m_id m)"
proof -
  let ?row = "members (memory_row dt m)"
  have row: "memory_row dt m = JObj ?row" by (simp add: memory_row_def)
  have "require_dt_str dt ''memory_items'' i ?row ''created_at'' False = Inr ()"
    "require_dt_str dt ''memory_items'' i ?row ''updated_at'' True = Inr ()"
    using assms(1,2) dated_utc
    by (auto simp: require_dt_str_ok memory_row_def exportable_memory_def utc_memory_def split: option.split)
  then show ?thesis
    using assms(2-4)
    by (subst row, simp add: validate_memory_row_def and_then_def require_str_def check_def Let_def)
      (auto simp: memory_row_def exportable_memory_def is_str_list_def list_all_iff split: option.split)
qed

lemma validate_exported_memories:
  "iso_ok dt \<Longrightarrow> list_all exportable_memory ms \<Longrightarrow> distinct (map m_id ms) \<Longrightarrow> m_id ` set ms \<inter> seen = {} \<Longrightarrow>
     (\<forall>m \<in> set ms. \<forall>p. m_project_id m = Some p \<longrightarrow> p \<in> known) \<Longrightarrow>
     \<exists>seen'. validate_memories dt known i seen (map (memory_row dt) ms) = Inr seen'"
proof (induction ms arbitrary: i seen)
  case (Cons m ms)
  then have "\<exists>seen'. validate_memories dt known (Suc i) (insert (m_id m) seen) (map (memory_row dt) ms) = Inr seen'"
    by (intro Cons.IH) auto
  then show ?case using validate_exported_memory [of dt m seen known i] Cons.prems by (simp add: and_then_def)
qed simp

lemma project_row_back:
  assumes "iso_ok dt" "exportable_project p"
  shows "stored_project (project_of_row dt now (project_row dt p)) = p" "row_id (project_row dt p) = p_id p"
  using assms iso_okD [OF assms(1), of "p_created_at p"]
  by (simp_all add: project_of_row_def project_row_def parse_dt_def exportable_project_def stored_project_def require_utc_idem)

lemma map_str_of_JStr: "map (str_of \<circ> JStr) xs = xs"
  by (induction xs) auto

lemma memory_row_back:
  assumes "iso_ok dt" "exportable_memory m"
  shows "stored_memory (memory_of_row dt now (memory_row dt m)) = m" "row_id (memory_row dt m) = m_id m"
    "json_get (members (memory_row dt m)) ''source'' = JStr (m_source m)"
proof -
  have "memory_of_row dt now (memory_row dt m) = m"
    using assms iso_okD [OF assms(1)]
    by (cases m) (auto simp: memory_of_row_def memory_row_def parse_dt_def exportable_memory_def utc_memory_def tags_of_def
        map_str_of_JStr split: option.splits)
  then show "stored_memory (memory_of_row dt now (memory_row dt m)) = m"
    using stored_form_utc [of m] assms(2) by (simp add: stored_memory_def exportable_memory_def)
qed (simp_all add: memory_row_def)

lemma new_rows_all: "existing = {} \<Longrightarrow> new_rows existing raws = raws"
  by simp



text \<open>
  A store with a project whose name is empty, which the CLI and the MCP tool let a caller
  create, cannot be restored from its own export: every import of the envelope is refused.
\<close>

lemma empty_project_name_not_restorable:
  assumes "p \<in> set (projects (the_db s))" "p_name p = []"
  shows "\<exists>e. import_execute dt now (export_execute dt now' None s) mode t = (Inl e, t) \<and> exc_code e = Some INVALID_ARGUMENT"
proof -
  have "\<not> good_project dt (project_row dt p)" using assms(2) by (simp add: good_project_def project_row_def)
  then have "\<not> list_all (good_project dt) (map (project_row dt) (list_projects None s))"
    using assms(1) by (auto simp: list_all_iff list_projects_def)
  then have "\<exists>e. validate_projects dt 0 {} (map (project_row dt) (list_projects None s)) = Inl e"
    using validate_projects_ok [of dt 0 "{}"] by (cases "validate_projects dt 0 {} (map (project_row dt) (list_projects None s))") auto
  then obtain e where e: "validate_projects dt 0 {} (map (project_row dt) (list_projects None s)) = Inl e" by blast
  obtain r s' where imp: "import_execute dt now (export_execute dt now' None s) mode t = (r, s')" by fastforce
  then show ?thesis
  proof (cases rule: import_execute_cases)
    case (run kvs ps ms)
    then have "kvs = members (export_execute dt now' None s)" by simp
    then show ?thesis
      using run(2) e by (simp add: export_execute_def export_projects_def validate_envelope_def and_then_def check_def required_array_def)
  qed (use imp in auto)
qed

lemma empty_project_name_not_restorable_witness:
  "\<exists>e. import_execute sample_iso sample_time
       (export_execute sample_iso sample_time None (sample_store\<lparr>the_db := sample_db\<lparr>projects := [sample_project\<lparr>p_name := []\<rparr>]\<rparr>\<rparr>))
       ''replace'' (open_store empty_db [] True True) = (Inl e, open_store empty_db [] True True)"
  using empty_project_name_not_restorable [of "sample_project\<lparr>p_name := []\<rparr>" "sample_store\<lparr>the_db := sample_db\<lparr>projects := [sample_project\<lparr>p_name := []\<rparr>]\<rparr>\<rparr>"
      sample_iso sample_time sample_time "''replace''" "open_store empty_db [] True True"]
  by auto

end
