(* ===== verification/OC_Maintenance.thy ===== *)
theory OC_Maintenance
  imports OC_Portability
begin

text \<open>
  The maintenance loop (\<open>application/services/maintenance_loop.py\<close>). The loop's tick walks
  the configured jobs and creates a task for each one that is enabled, due and not in flight; a
  task takes the job's lock, then the global lock, runs the handler, stamps the job and persists
  the schedule. Each \<open>await\<close> of a task ends one step, so a run of the loop is an interleaving
  of ticks and task steps. The handlers themselves are parameters: a run is told what its
  handler returned or raised. Clock readings are arguments. Metrics and log lines are left
  out; the flags that limit the log lines are state of the jobs and are kept.
\<close>

section \<open>Job states\<close>

datatype loop_error = OverflowError | KeyError string

record job_state =
  js_name :: string
  js_interval_seconds :: int
  js_enabled :: bool
  js_last_run_at :: "datetime option"
  js_last_success_at :: "datetime option"
  js_last_outcome :: "string option"
  js_last_error :: "string option"
  js_runs_total :: nat
  js_runs_ok :: nat
  js_runs_failed :: nat
  js_runs_skipped_overlap :: nat
  js_lock :: "nat option"
  js_started_at :: "datetime option"
  js_queued_logged :: bool
  js_overlap_logged :: bool

definition new_job :: "string \<Rightarrow> int \<Rightarrow> bool \<Rightarrow> job_state" where
  "new_job name interval enabled =
     \<lparr>js_name = name, js_interval_seconds = interval, js_enabled = enabled, js_last_run_at = None,
      js_last_success_at = None, js_last_outcome = None, js_last_error = None, js_runs_total = 0,
      js_runs_ok = 0, js_runs_failed = 0, js_runs_skipped_overlap = 0, js_lock = None,
      js_started_at = None, js_queued_logged = False, js_overlap_logged = False\<rparr>"

text \<open>
  \<open>timedelta(seconds=n)\<close> in microseconds; more than 999999999 days either way overflow.
\<close>

definition timedelta_seconds :: "int \<Rightarrow> loop_error + int" where
  "timedelta_seconds n =
     (if -999999999 \<le> n div 86400 \<and> n div 86400 \<le> 999999999 then Inr (n * 1000000) else Inl OverflowError)"

definition is_due :: "job_state \<Rightarrow> datetime \<Rightarrow> loop_error + bool" where
  "is_due job now =
     (case js_last_run_at job of
        None \<Rightarrow> Inr True
      | Some t \<Rightarrow> map_sum id (\<lambda>d. d \<le> instant now - instant t) (timedelta_seconds (js_interval_seconds job)))"

definition note_in_flight :: "job_state \<Rightarrow> datetime \<Rightarrow> loop_error + job_state" where
  "note_in_flight job now =
     (case js_started_at job of
        None \<Rightarrow> Inr (if js_queued_logged job then job else job\<lparr>js_queued_logged := True\<rparr>)
      | Some t \<Rightarrow>
          if js_overlap_logged job then Inr job
          else (case timedelta_seconds (js_interval_seconds job) of
                  Inl e \<Rightarrow> Inl e
                | Inr d \<Rightarrow>
                    if instant now - instant t < d then Inr job
                    else Inr (job\<lparr>js_overlap_logged := True,
                                js_runs_skipped_overlap := js_runs_skipped_overlap job + 1,
                                js_last_outcome := Some ''skipped_overlap''\<rparr>)))"

section \<open>What a run leaves\<close>

text \<open>How the handler of a run ended.\<close>

datatype handler_end = Returned json | Raised string | Cancelled

definition job_result_is_skipped :: "json \<Rightarrow> bool" where
  "job_result_is_skipped result =
     (case result of JObj kvs \<Rightarrow> json_truthy (json_get kvs ''skipped'') | _ \<Rightarrow> False)"

definition succeeded :: "handler_end \<Rightarrow> bool" where
  "succeeded r = (case r of Returned v \<Rightarrow> \<not> job_result_is_skipped v | _ \<Rightarrow> False)"

definition record_end :: "datetime \<Rightarrow> handler_end \<Rightarrow> job_state \<Rightarrow> job_state" where
  "record_end now r job =
     (let j1 = (case r of
                  Returned v \<Rightarrow>
                    if job_result_is_skipped v then job\<lparr>js_last_error := None, js_last_outcome := Some ''skipped''\<rparr>
                    else job\<lparr>js_last_error := None, js_last_outcome := Some ''ok'', js_runs_ok := js_runs_ok job + 1\<rparr>
                | Raised msg \<Rightarrow>
                    job\<lparr>js_last_outcome := Some ''failed'', js_last_error := Some msg,
                        js_runs_failed := js_runs_failed job + 1\<rparr>
                | Cancelled \<Rightarrow> job);
          j2 = j1\<lparr>js_runs_total := js_runs_total j1 + 1, js_last_run_at := Some now\<rparr>
      in if succeeded r then j2\<lparr>js_last_success_at := Some now\<rparr> else j2)"

definition record_no_handler :: "datetime \<Rightarrow> job_state \<Rightarrow> job_state" where
  "record_no_handler now job =
     job\<lparr>js_last_outcome := Some ''failed'', js_last_error := Some ''no handler registered'',
         js_runs_failed := js_runs_failed job + 1, js_runs_total := js_runs_total job + 1,
         js_last_run_at := Some now\<rparr>"

section \<open>The persisted schedule\<close>

text \<open>The file beside the database: missing, not readable as JSON, or a JSON value.\<close>

datatype state_file = Missing | Unreadable | Holds json

definition parse_state_timestamp :: "iso8601 \<Rightarrow> json \<Rightarrow> datetime option" where
  "parse_state_timestamp dt v =
     (case v of
        JStr s \<Rightarrow>
          (case iso_parse dt s of
             None \<Rightarrow> None
           | Some t \<Rightarrow> Some (if utcoffset t = None then t\<lparr>utcoffset := Some 0\<rparr> else t))
      | _ \<Rightarrow> None)"

definition parse_timestamp_map :: "iso8601 \<Rightarrow> (string \<times> json) list \<Rightarrow> string \<Rightarrow> string \<Rightarrow> datetime option" where
  "parse_timestamp_map dt raw key name =
     (case json_get raw key of
        JObj entries \<Rightarrow>
          (case map_of entries name of None \<Rightarrow> None | Some v \<Rightarrow> parse_state_timestamp dt v)
      | _ \<Rightarrow> None)"

definition restore_job :: "iso8601 \<Rightarrow> (string \<times> json) list \<Rightarrow> job_state \<Rightarrow> job_state" where
  "restore_job dt raw job =
     (let j1 = (case parse_timestamp_map dt raw ''last_run_at'' (js_name job) of
                  None \<Rightarrow> job | Some t \<Rightarrow> job\<lparr>js_last_run_at := Some t\<rparr>)
      in case parse_timestamp_map dt raw ''last_success_at'' (js_name job) of
           None \<Rightarrow> j1 | Some t \<Rightarrow> j1\<lparr>js_last_success_at := Some t\<rparr>)"

definition load_state :: "iso8601 \<Rightarrow> state_file option \<Rightarrow> job_state list \<Rightarrow> job_state list" where
  "load_state dt file jobs =
     (case file of
        Some (Holds (JObj raw)) \<Rightarrow> map (restore_job dt raw) jobs
      | _ \<Rightarrow> jobs)"

definition stamps :: "iso8601 \<Rightarrow> (job_state \<Rightarrow> datetime option) \<Rightarrow> job_state list \<Rightarrow> (string \<times> json) list" where
  "stamps dt field jobs =
     concat (map (\<lambda>j. case field j of None \<Rightarrow> [] | Some t \<Rightarrow> [(js_name j, JStr (iso_format dt t))]) jobs)"

definition state_payload :: "iso8601 \<Rightarrow> job_state list \<Rightarrow> json" where
  "state_payload dt jobs =
     JObj [(''last_run_at'', JObj (stamps dt js_last_run_at jobs)),
           (''last_success_at'', JObj (stamps dt js_last_success_at jobs))]"

text \<open>\<open>written\<close>: the file system let the new file replace the old one.\<close>

definition persist_state :: "iso8601 \<Rightarrow> bool \<Rightarrow> job_state list \<Rightarrow> state_file option \<Rightarrow> state_file option" where
  "persist_state dt written jobs file =
     (case file of
        None \<Rightarrow> None
      | Some f \<Rightarrow> Some (if written then Holds (state_payload dt jobs) else f))"

section \<open>The loop\<close>

datatype phase = Created | WaitJobLock | WaitGlobalLock | InHandler | Persisting

record loop_task =
  tk_id :: nat
  tk_job :: string
  tk_phase :: phase

record maintenance_loop =
  ml_jobs :: "job_state list"
  ml_handlers :: "string set"
  ml_state_path :: "state_file option"
  ml_started :: bool
  ml_inflight :: "loop_task list"
  ml_next_id :: nat
  ml_global_lock :: "nat option"
  ml_running_job :: "string option"

definition on_job :: "string \<Rightarrow> (job_state \<Rightarrow> job_state) \<Rightarrow> maintenance_loop \<Rightarrow> maintenance_loop" where
  "on_job name f ml = ml\<lparr>ml_jobs := map (\<lambda>j. if js_name j = name then f j else j) (ml_jobs ml)\<rparr>"

definition set_phase :: "nat \<Rightarrow> phase \<Rightarrow> maintenance_loop \<Rightarrow> maintenance_loop" where
  "set_phase i p ml =
     ml\<lparr>ml_inflight := map (\<lambda>t. if tk_id t = i then t\<lparr>tk_phase := p\<rparr> else t) (ml_inflight ml)\<rparr>"

definition drop_task :: "nat \<Rightarrow> maintenance_loop \<Rightarrow> maintenance_loop" where
  "drop_task i ml = ml\<lparr>ml_inflight := filter (\<lambda>t. tk_id t \<noteq> i) (ml_inflight ml)\<rparr>"

definition spawn :: "string \<Rightarrow> maintenance_loop \<Rightarrow> maintenance_loop" where
  "spawn name ml =
     ml\<lparr>ml_inflight := ml_inflight ml @ [\<lparr>tk_id = ml_next_id ml, tk_job = name, tk_phase = Created\<rparr>],
        ml_next_id := ml_next_id ml + 1\<rparr>"

text \<open>
  One pass over the jobs. An exception of a comparison ends the pass, and the jobs after
  it are not looked at in this tick.
\<close>

fun tick_jobs :: "datetime \<Rightarrow> job_state list \<Rightarrow> maintenance_loop \<Rightarrow> (loop_error, unit, maintenance_loop) outcome" where
  "tick_jobs now [] ml = (Inr (), ml)"
| "tick_jobs now (job # jobs) ml =
     (if \<not> js_enabled job then tick_jobs now jobs ml
      else (case is_due job now of
              Inl e \<Rightarrow> (Inl e, ml)
            | Inr due \<Rightarrow>
                if \<not> due then tick_jobs now jobs ml
                else if js_lock job \<noteq> None then
                  (case note_in_flight job now of
                     Inl e \<Rightarrow> (Inl e, ml)
                   | Inr job' \<Rightarrow> tick_jobs now jobs (on_job (js_name job) (\<lambda>_. job') ml))
                else tick_jobs now jobs (spawn (js_name job) ml)))"

definition tick :: "datetime \<Rightarrow> maintenance_loop \<Rightarrow> maintenance_loop" where
  "tick now ml = snd (tick_jobs now (ml_jobs ml) ml)"

definition start :: "iso8601 \<Rightarrow> maintenance_loop \<Rightarrow> maintenance_loop" where
  "start dt ml =
     (if ml_started ml then ml
      else ml\<lparr>ml_jobs := load_state dt (ml_state_path ml) (ml_jobs ml), ml_started := True\<rparr>)"

definition stop :: "maintenance_loop \<Rightarrow> maintenance_loop" where
  "stop ml = ml\<lparr>ml_started := False\<rparr>"

definition run_once :: "string \<Rightarrow> maintenance_loop \<Rightarrow> (loop_error, unit, maintenance_loop) outcome" where
  "run_once name ml =
     (case List.find (\<lambda>j. js_name j = name) (ml_jobs ml) of
        None \<Rightarrow> (Inl (KeyError name), ml)
      | Some job \<Rightarrow> (Inr (), spawn name ml))"

section \<open>The steps of a task\<close>

definition take_job_lock :: "loop_task \<Rightarrow> maintenance_loop \<Rightarrow> maintenance_loop" where
  "take_job_lock t ml =
     set_phase (tk_id t) WaitGlobalLock (on_job (tk_job t) (\<lambda>j. j\<lparr>js_lock := Some (tk_id t)\<rparr>) ml)"

definition enter_slot :: "datetime \<Rightarrow> loop_task \<Rightarrow> maintenance_loop \<Rightarrow> maintenance_loop" where
  "enter_slot now t ml =
     set_phase (tk_id t) InHandler
       ((on_job (tk_job t) (\<lambda>j. j\<lparr>js_started_at := Some now, js_queued_logged := False\<rparr>) ml)
          \<lparr>ml_global_lock := Some (tk_id t), ml_running_job := Some (tk_job t)\<rparr>)"

definition leave_slot :: "loop_task \<Rightarrow> maintenance_loop \<Rightarrow> maintenance_loop" where
  "leave_slot t ml =
     drop_task (tk_id t)
       ((on_job (tk_job t) (\<lambda>j. j\<lparr>js_started_at := None, js_overlap_logged := False, js_lock := None\<rparr>) ml)
          \<lparr>ml_global_lock := None, ml_running_job := None\<rparr>)"

definition end_handler :: "datetime \<Rightarrow> handler_end \<Rightarrow> loop_task \<Rightarrow> maintenance_loop \<Rightarrow> maintenance_loop" where
  "end_handler now r t ml =
     (if tk_job t \<in> ml_handlers ml
      then set_phase (tk_id t) Persisting (on_job (tk_job t) (record_end now r) ml)
      else leave_slot t (on_job (tk_job t) (record_no_handler now) ml))"

definition finish_run :: "iso8601 \<Rightarrow> bool \<Rightarrow> loop_task \<Rightarrow> maintenance_loop \<Rightarrow> maintenance_loop" where
  "finish_run dt written t ml =
     leave_slot t (ml\<lparr>ml_state_path := persist_state dt written (ml_jobs ml) (ml_state_path ml)\<rparr>)"

text \<open>Cancelling a task that waits: it lets go of the job's lock if it holds it.\<close>

definition abandon :: "loop_task \<Rightarrow> maintenance_loop \<Rightarrow> maintenance_loop" where
  "abandon t ml =
     drop_task (tk_id t)
       (if tk_phase t = WaitGlobalLock then on_job (tk_job t) (\<lambda>j. j\<lparr>js_lock := None\<rparr>) ml else ml)"

end
