(* ===== verification/OC_Maintenance_Steps.thy ===== *)
theory OC_Maintenance_Steps
  imports OC_Maintenance
begin

text \<open>
  The maintenance loop as a step relation: ticks, starts and stops of the loop, manual runs,
  cancellations, and the steps of the tasks in flight, in any order. The invariant ties the
  locks to the tasks that hold them; with it no two handlers run at once, no task is stuck,
  and a bounded number of task steps finishes every run.
\<close>

section \<open>Steps\<close>

definition job_locked :: "string \<Rightarrow> maintenance_loop \<Rightarrow> bool" where
  "job_locked name ml = list_ex (\<lambda>j. js_name j = name \<and> js_lock j \<noteq> None) (ml_jobs ml)"

text \<open>
  A task goes on by itself: it queues for the job's lock or takes it, takes the global lock,
  its handler ends in some way, and it persists the schedule and leaves. A waiting task may
  overtake another one, so the order in which \<open>asyncio.Lock\<close> wakes its waiters is one of
  the orders allowed here.
\<close>

inductive task_step :: "iso8601 \<Rightarrow> maintenance_loop \<Rightarrow> maintenance_loop \<Rightarrow> bool" for dt where
  queue: "t \<in> set (ml_inflight ml) \<Longrightarrow> tk_phase t = Created \<Longrightarrow> job_locked (tk_job t) ml \<Longrightarrow>
    task_step dt ml (set_phase (tk_id t) WaitJobLock ml)"
| lock: "t \<in> set (ml_inflight ml) \<Longrightarrow> tk_phase t = Created \<or> tk_phase t = WaitJobLock \<Longrightarrow>
    \<not> job_locked (tk_job t) ml \<Longrightarrow> task_step dt ml (take_job_lock t ml)"
| enter: "t \<in> set (ml_inflight ml) \<Longrightarrow> tk_phase t = WaitGlobalLock \<Longrightarrow> ml_global_lock ml = None \<Longrightarrow>
    task_step dt ml (enter_slot now t ml)"
| ended: "t \<in> set (ml_inflight ml) \<Longrightarrow> tk_phase t = InHandler \<Longrightarrow>
    task_step dt ml (end_handler now r t ml)"
| finish: "t \<in> set (ml_inflight ml) \<Longrightarrow> tk_phase t = Persisting \<Longrightarrow>
    task_step dt ml (finish_run dt written t ml)"

text \<open>
  Everything that happens to the loop. The event loop runs a new task up to its first
  \<open>await\<close> before the tick wakes again, hence the guard of a tick. Manual runs
  (\<open>run_once\<close>) happen only if the first argument allows them. A cancelled handler ends with
  \<^const>\<open>Cancelled\<close>, which is a step of its task.
\<close>

inductive loop_step :: "iso8601 \<Rightarrow> bool \<Rightarrow> maintenance_loop \<Rightarrow> maintenance_loop \<Rightarrow> bool" for dt manual where
  task: "task_step dt ml ml' \<Longrightarrow> loop_step dt manual ml ml'"
| start: "loop_step dt manual ml (start dt ml)"
| stop: "loop_step dt manual ml (stop ml)"
| tick: "ml_started ml \<Longrightarrow> list_all (\<lambda>t. tk_phase t \<noteq> Created) (ml_inflight ml) \<Longrightarrow>
    loop_step dt manual ml (tick now ml)"
| manual_run: "manual \<Longrightarrow> run_once name ml = (Inr (), ml') \<Longrightarrow> loop_step dt manual ml ml'"
| cancel_waiting: "t \<in> set (ml_inflight ml) \<Longrightarrow> tk_phase t \<in> {Created, WaitJobLock, WaitGlobalLock} \<Longrightarrow>
    loop_step dt manual ml (abandon t ml)"
| cancel_persisting: "t \<in> set (ml_inflight ml) \<Longrightarrow> tk_phase t = Persisting \<Longrightarrow>
    loop_step dt manual ml (leave_slot t ml)"

definition initial_loop :: "(string \<times> int \<times> bool) list \<Rightarrow> string set \<Rightarrow> state_file option \<Rightarrow> maintenance_loop" where
  "initial_loop jobs handlers file =
     \<lparr>ml_jobs = map (\<lambda>(n, i, e). new_job n i e) jobs, ml_handlers = handlers, ml_state_path = file,
      ml_started = False, ml_inflight = [], ml_next_id = 0, ml_global_lock = None, ml_running_job = None\<rparr>"

inductive loop_reachable :: "iso8601 \<Rightarrow> bool \<Rightarrow> maintenance_loop \<Rightarrow> bool" for dt manual where
  init: "distinct (map fst jobs) \<Longrightarrow> loop_reachable dt manual (initial_loop jobs handlers file)"
| step: "loop_reachable dt manual ml \<Longrightarrow> loop_step dt manual ml ml' \<Longrightarrow> loop_reachable dt manual ml'"

inductive_cases task_stepE: "task_step dt ml ml'"
inductive_cases loop_stepE: "loop_step dt manual ml ml'"

section \<open>The invariant\<close>

fun holds_job_lock :: "phase \<Rightarrow> bool" where
  "holds_job_lock Created = False"
| "holds_job_lock WaitJobLock = False"
| "holds_job_lock _ = True"

fun in_slot :: "phase \<Rightarrow> bool" where
  "in_slot InHandler = True"
| "in_slot Persisting = True"
| "in_slot _ = False"

definition tasks_ok :: "maintenance_loop \<Rightarrow> bool" where
  "tasks_ok ml \<longleftrightarrow> distinct (map js_name (ml_jobs ml)) \<and> distinct (map tk_id (ml_inflight ml)) \<and>
     (\<forall>t \<in> set (ml_inflight ml). tk_id t < ml_next_id ml \<and> tk_job t \<in> js_name ` set (ml_jobs ml))"

definition job_locks_ok :: "maintenance_loop \<Rightarrow> bool" where
  "job_locks_ok ml \<longleftrightarrow> (\<forall>j \<in> set (ml_jobs ml). \<forall>i. js_lock j = Some i \<longleftrightarrow>
     (\<exists>t \<in> set (ml_inflight ml). tk_id t = i \<and> tk_job t = js_name j \<and> holds_job_lock (tk_phase t)))"

definition global_lock_ok :: "maintenance_loop \<Rightarrow> bool" where
  "global_lock_ok ml \<longleftrightarrow>
     (\<forall>i. ml_global_lock ml = Some i \<longleftrightarrow> (\<exists>t \<in> set (ml_inflight ml). tk_id t = i \<and> in_slot (tk_phase t))) \<and>
     (\<forall>n. ml_running_job ml = Some n \<longleftrightarrow> (\<exists>t \<in> set (ml_inflight ml). tk_job t = n \<and> in_slot (tk_phase t)))"

definition started_ok :: "maintenance_loop \<Rightarrow> bool" where
  "started_ok ml \<longleftrightarrow> (\<forall>j \<in> set (ml_jobs ml).
     (js_started_at j = None \<longleftrightarrow> (\<forall>t \<in> set (ml_inflight ml). tk_job t = js_name j \<longrightarrow> \<not> in_slot (tk_phase t))) \<and>
     (js_started_at j = None \<longrightarrow> \<not> js_overlap_logged j))"

definition loop_inv :: "maintenance_loop \<Rightarrow> bool" where
  "loop_inv ml \<longleftrightarrow> tasks_ok ml \<and> job_locks_ok ml \<and> global_lock_ok ml \<and> started_ok ml"

lemmas loop_ok_defs = tasks_ok_def job_locks_ok_def global_lock_ok_def started_ok_def

section \<open>Rewriting the operations\<close>

lemma on_job_simps [simp]:
  "ml_handlers (on_job n f ml) = ml_handlers ml"
  "ml_state_path (on_job n f ml) = ml_state_path ml"
  "ml_started (on_job n f ml) = ml_started ml"
  "ml_inflight (on_job n f ml) = ml_inflight ml"
  "ml_next_id (on_job n f ml) = ml_next_id ml"
  "ml_global_lock (on_job n f ml) = ml_global_lock ml"
  "ml_running_job (on_job n f ml) = ml_running_job ml"
  "ml_jobs (on_job n f ml) = map (\<lambda>j. if js_name j = n then f j else j) (ml_jobs ml)"
  by (simp_all add: on_job_def)

lemma set_phase_simps [simp]:
  "ml_handlers (set_phase i p ml) = ml_handlers ml"
  "ml_state_path (set_phase i p ml) = ml_state_path ml"
  "ml_started (set_phase i p ml) = ml_started ml"
  "ml_next_id (set_phase i p ml) = ml_next_id ml"
  "ml_global_lock (set_phase i p ml) = ml_global_lock ml"
  "ml_running_job (set_phase i p ml) = ml_running_job ml"
  "ml_jobs (set_phase i p ml) = ml_jobs ml"
  "map tk_id (ml_inflight (set_phase i p ml)) = map tk_id (ml_inflight ml)"
  "map tk_job (ml_inflight (set_phase i p ml)) = map tk_job (ml_inflight ml)"
  "length (ml_inflight (set_phase i p ml)) = length (ml_inflight ml)"
  by (auto simp: set_phase_def)

lemma drop_task_simps [simp]:
  "ml_handlers (drop_task i ml) = ml_handlers ml"
  "ml_state_path (drop_task i ml) = ml_state_path ml"
  "ml_started (drop_task i ml) = ml_started ml"
  "ml_next_id (drop_task i ml) = ml_next_id ml"
  "ml_global_lock (drop_task i ml) = ml_global_lock ml"
  "ml_running_job (drop_task i ml) = ml_running_job ml"
  "ml_jobs (drop_task i ml) = ml_jobs ml"
  "ml_inflight (drop_task i ml) = filter (\<lambda>t. tk_id t \<noteq> i) (ml_inflight ml)"
  by (auto simp: drop_task_def)

lemma tasks_eq:
  "distinct (map tk_id ts) \<Longrightarrow> t \<in> set ts \<Longrightarrow> u \<in> set ts \<Longrightarrow> tk_id t = tk_id u \<Longrightarrow> t = u"
  by (metis (mono_tags) distinct_map inj_onD)

lemma set_phase_set:
  assumes "tasks_ok ml" "t \<in> set (ml_inflight ml)"
  shows "set (ml_inflight (set_phase (tk_id t) p ml)) =
    insert (t\<lparr>tk_phase := p\<rparr>) {u \<in> set (ml_inflight ml). tk_id u \<noteq> tk_id t}"
proof -
  have "u = t" if "u \<in> set (ml_inflight ml)" "tk_id u = tk_id t" for u
    using assms that tasks_eq [of "ml_inflight ml" u t] by (simp add: tasks_ok_def)
  then show ?thesis using assms(2) by (auto simp: set_phase_def image_iff)
qed

lemma job_locked_iff:
  "job_locked n ml \<longleftrightarrow> (\<exists>j \<in> set (ml_jobs ml). js_name j = n \<and> js_lock j \<noteq> None)"
  by (auto simp: job_locked_def list_ex_iff)

lemma on_job_names [simp]:
  "(\<And>j. js_name (f j) = js_name j) \<Longrightarrow> map js_name (ml_jobs (on_job n f ml)) = map js_name (ml_jobs ml)"
  by auto

section \<open>Preservation\<close>

text \<open>The lock conditions, read at a task that is in flight.\<close>

lemma holder_unique:
  assumes "job_locks_ok ml" "tasks_ok ml" "t \<in> set (ml_inflight ml)" "u \<in> set (ml_inflight ml)"
    "holds_job_lock (tk_phase t)" "holds_job_lock (tk_phase u)" "tk_job t = tk_job u"
  shows "t = u"
proof -
  obtain j where "j \<in> set (ml_jobs ml)" "js_name j = tk_job t" using assms(2,3) by (auto simp: tasks_ok_def)
  then have "js_lock j = Some (tk_id t)" "js_lock j = Some (tk_id u)"
    using assms by (force simp: job_locks_ok_def)+
  then show ?thesis using assms(2-4) tasks_eq by (fastforce simp: tasks_ok_def)
qed

lemma slot_unique:
  assumes "global_lock_ok ml" "tasks_ok ml" "t \<in> set (ml_inflight ml)" "u \<in> set (ml_inflight ml)"
    "in_slot (tk_phase t)" "in_slot (tk_phase u)"
  shows "t = u"
proof -
  have "ml_global_lock ml = Some (tk_id t)" "ml_global_lock ml = Some (tk_id u)"
    using assms by (auto simp: global_lock_ok_def)
  then show ?thesis using assms(2-4) tasks_eq by (fastforce simp: tasks_ok_def)
qed

lemma in_slot_holds [simp]: "in_slot p \<Longrightarrow> holds_job_lock p"
  by (cases p) auto

lemma loop_invD:
  assumes "loop_inv ml"
  shows "tasks_ok ml" "job_locks_ok ml" "global_lock_ok ml" "started_ok ml"
  using assms by (simp_all add: loop_inv_def)

lemma tasks_ok_set_phase:
  assumes "tasks_ok ml" "t \<in> set (ml_inflight ml)" "map js_name (ml_jobs ml') = map js_name (ml_jobs ml)"
    "ml_inflight ml' = ml_inflight ml" "ml_next_id ml' = ml_next_id ml"
  shows "tasks_ok (set_phase i p ml')"
proof -
  have "js_name ` set (ml_jobs ml') = js_name ` set (ml_jobs ml)" using assms(3) by (metis list.set_map)
  moreover have "tk_id ` set (ml_inflight (set_phase i p ml')) = tk_id ` set (ml_inflight ml)"
    "tk_job ` set (ml_inflight (set_phase i p ml')) = tk_job ` set (ml_inflight ml)"
    using assms(4) by (metis list.set_map set_phase_simps(8), metis list.set_map set_phase_simps(9))
  ultimately show ?thesis using assms unfolding tasks_ok_def
    by (metis (no_types, lifting) image_eqI imageE set_phase_simps(4,7,8))
qed

text \<open>
  A task goes from its phase to phase \<open>p\<close>: it takes the locks it holds from then on and gives
  back those it no longer holds.
\<close>

lemma other_holders:
  assumes "loop_inv ml" "t \<in> set (ml_inflight ml)" "u \<in> set (ml_inflight ml)" "tk_id u \<noteq> tk_id t"
    "holds_job_lock (tk_phase u)" "holds_job_lock (tk_phase t) \<or> \<not> job_locked (tk_job t) ml"
  shows "tk_job u \<noteq> tk_job t"
proof
  assume same: "tk_job u = tk_job t"
  note ok = loop_invD [OF assms(1)]
  obtain j where j: "j \<in> set (ml_jobs ml)" "js_name j = tk_job t" using ok(1) assms(2) by (auto simp: tasks_ok_def)
  then have "js_lock j = Some (tk_id u)" using ok(2) assms(3,5) same by (force simp: job_locks_ok_def)
  then have "holds_job_lock (tk_phase t)" using j assms(6) by (auto simp: job_locked_iff)
  then show False using holder_unique [OF ok(2,1) assms(3,2,5) _ same] assms(4) by simp
qed

lemma other_slots:
  assumes "loop_inv ml" "t \<in> set (ml_inflight ml)" "u \<in> set (ml_inflight ml)" "tk_id u \<noteq> tk_id t"
    "in_slot (tk_phase t) \<or> ml_global_lock ml = None"
  shows "\<not> in_slot (tk_phase u)"
proof
  assume u: "in_slot (tk_phase u)"
  note ok = loop_invD [OF assms(1)]
  have "ml_global_lock ml = Some (tk_id u)" using ok(3) assms(3) u by (auto simp: global_lock_ok_def)
  then show False using slot_unique [OF ok(3,1) assms(3,2) u] assms(4,5) by auto
qed

lemma job_lock_move:
  assumes "js_lock j = Some i \<longleftrightarrow>
      (\<exists>u \<in> T. tk_id u = i \<and> tk_job u = js_name j \<and> holds_job_lock (tk_phase u))"
    and ids: "\<And>u. u \<in> T \<Longrightarrow> tk_id u = tk_id t \<Longrightarrow> u = t"
    and other: "\<And>u. u \<in> T \<Longrightarrow> tk_id u \<noteq> tk_id t \<Longrightarrow> holds_job_lock (tk_phase u) \<Longrightarrow>
        holds_job_lock (tk_phase t) \<or> holds_job_lock p \<Longrightarrow> tk_job u \<noteq> tk_job t"
    and k: "js_name k = js_name j" "js_name j \<noteq> tk_job t \<Longrightarrow> js_lock k = js_lock j"
      "js_name j = tk_job t \<Longrightarrow> js_lock k =
         (if holds_job_lock p then Some (tk_id t) else if holds_job_lock (tk_phase t) then None else js_lock j)"
  shows "js_lock k = Some i \<longleftrightarrow> (\<exists>u \<in> insert (t\<lparr>tk_phase := p\<rparr>) {u \<in> T. tk_id u \<noteq> tk_id t}.
      tk_id u = i \<and> tk_job u = js_name k \<and> holds_job_lock (tk_phase u))"
proof (cases "js_name j = tk_job t \<and> (holds_job_lock p \<or> holds_job_lock (tk_phase t))")
  case True
  then show ?thesis using k(1,3) other by (auto split: if_splits)
next
  case False
  then have "js_lock k = js_lock j" using k(2,3) by (cases "js_name j = tk_job t") auto
  then show ?thesis using assms(1) ids False k(1) by auto
qed

lemma started_move:
  assumes "js_started_at j = None \<longleftrightarrow> (\<forall>u \<in> T. tk_job u = js_name j \<longrightarrow> \<not> in_slot (tk_phase u))"
    and ids: "\<And>u. u \<in> T \<Longrightarrow> tk_id u = tk_id t \<Longrightarrow> u = t"
    and other: "\<And>u. u \<in> T \<Longrightarrow> tk_id u \<noteq> tk_id t \<Longrightarrow> in_slot (tk_phase t) \<or> in_slot p \<Longrightarrow> \<not> in_slot (tk_phase u)"
    and k: "js_name k = js_name j" "js_name j \<noteq> tk_job t \<Longrightarrow> js_started_at k = js_started_at j"
      "js_name j = tk_job t \<Longrightarrow> js_started_at k = None \<longleftrightarrow>
         \<not> in_slot p \<and> (in_slot (tk_phase t) \<or> js_started_at j = None)"
  shows "js_started_at k = None \<longleftrightarrow> (\<forall>u \<in> insert (t\<lparr>tk_phase := p\<rparr>) {u \<in> T. tk_id u \<noteq> tk_id t}.
      tk_job u = js_name k \<longrightarrow> \<not> in_slot (tk_phase u))"
proof (cases "js_name j = tk_job t \<and> (in_slot p \<or> in_slot (tk_phase t))")
  case True
  then have "js_started_at k = None \<longleftrightarrow> \<not> in_slot p" using k(3) by auto
  then show ?thesis using k(1) other True by auto
next
  case False
  then have "js_started_at k = None \<longleftrightarrow> js_started_at j = None"
    using k(2,3) by (cases "js_name j = tk_job t") auto
  moreover have "u \<in> T \<and> tk_id u \<noteq> tk_id t" if "u \<in> T" "tk_job u = js_name j" "in_slot (tk_phase u)" for u
    using that ids [of u] False by auto
  moreover have "\<not> (tk_job t = js_name j \<and> in_slot p)" using False by auto
  ultimately show ?thesis using assms(1) k(1) by auto
qed

lemma global_lock_move:
  assumes ok: "global_lock_ok ml"
    and ids: "\<And>u. u \<in> set (ml_inflight ml) \<Longrightarrow> tk_id u = tk_id t \<Longrightarrow> u = t"
    and other: "\<And>u. u \<in> set (ml_inflight ml) \<Longrightarrow> tk_id u \<noteq> tk_id t \<Longrightarrow> in_slot (tk_phase t) \<or> in_slot p \<Longrightarrow>
        \<not> in_slot (tk_phase u)"
    and S: "set (ml_inflight ml') = insert (t\<lparr>tk_phase := p\<rparr>) {u \<in> set (ml_inflight ml). tk_id u \<noteq> tk_id t}"
    and slot: "ml_global_lock ml' =
        (if in_slot p then Some (tk_id t) else if in_slot (tk_phase t) then None else ml_global_lock ml)"
      "ml_running_job ml' =
        (if in_slot p then Some (tk_job t) else if in_slot (tk_phase t) then None else ml_running_job ml)"
  shows "global_lock_ok ml'"
proof (cases "in_slot p \<or> in_slot (tk_phase t)")
  case True
  then show ?thesis using other slot unfolding global_lock_ok_def S by auto
next
  case False
  then show ?thesis using ok slot ids unfolding global_lock_ok_def S by auto
qed

lemma inv_move:
  assumes inv: "loop_inv ml" and t: "t \<in> set (ml_inflight ml)"
    and jobs: "ml_jobs ml' = map (\<lambda>j. if js_name j = tk_job t then f j else j) (ml_jobs ml)"
      "ml_inflight ml' = ml_inflight ml" "ml_next_id ml' = ml_next_id ml"
    and name: "\<And>j. js_name (f j) = js_name j"
    and lock: "\<And>j. j \<in> set (ml_jobs ml) \<Longrightarrow> js_name j = tk_job t \<Longrightarrow> js_lock (f j) =
        (if holds_job_lock p then Some (tk_id t) else if holds_job_lock (tk_phase t) then None else js_lock j)"
      "holds_job_lock p \<Longrightarrow> holds_job_lock (tk_phase t) \<or> \<not> job_locked (tk_job t) ml"
    and slot: "ml_global_lock ml' =
        (if in_slot p then Some (tk_id t) else if in_slot (tk_phase t) then None else ml_global_lock ml)"
      "ml_running_job ml' =
        (if in_slot p then Some (tk_job t) else if in_slot (tk_phase t) then None else ml_running_job ml)"
      "in_slot p \<Longrightarrow> in_slot (tk_phase t) \<or> ml_global_lock ml = None"
    and started: "\<And>j. j \<in> set (ml_jobs ml) \<Longrightarrow> js_name j = tk_job t \<Longrightarrow> js_started_at (f j) = None \<longleftrightarrow>
        \<not> in_slot p \<and> (in_slot (tk_phase t) \<or> js_started_at j = None)"
      "\<And>j. js_started_at (f j) = None \<Longrightarrow> js_overlap_logged (f j) \<Longrightarrow> js_overlap_logged j \<and> js_started_at j = None"
  shows "loop_inv (set_phase (tk_id t) p ml')"
proof -
  note ok = loop_invD [OF inv]
  have ids: "\<And>u. u \<in> set (ml_inflight ml) \<Longrightarrow> tk_id u = tk_id t \<Longrightarrow> u = t"
    using ok(1) t tasks_eq by (auto simp: tasks_ok_def)
  have names: "map js_name (ml_jobs ml') = map js_name (ml_jobs ml)" by (simp add: jobs(1) name)
  have tasks': "tasks_ok ml'" using ok(1) names jobs(2,3) unfolding tasks_ok_def by (metis list.set_map)
  have S: "set (ml_inflight (set_phase (tk_id t) p ml')) =
      insert (t\<lparr>tk_phase := p\<rparr>) {u \<in> set (ml_inflight ml). tk_id u \<noteq> tk_id t}"
    using set_phase_set [OF tasks', of t p] t jobs(2) by simp
  have job: "\<exists>j \<in> set (ml_jobs ml). k = (if js_name j = tk_job t then f j else j)"
    if "k \<in> set (ml_jobs (set_phase (tk_id t) p ml'))" for k
    using that by (auto simp: jobs(1))
  have "job_locks_ok (set_phase (tk_id t) p ml')" unfolding job_locks_ok_def S
  proof (intro ballI allI)
    fix k i assume "k \<in> set (ml_jobs (set_phase (tk_id t) p ml'))"
    then obtain j where j: "j \<in> set (ml_jobs ml)" "k = (if js_name j = tk_job t then f j else j)"
      using job by blast
    show "js_lock k = Some i \<longleftrightarrow> (\<exists>u \<in> insert (t\<lparr>tk_phase := p\<rparr>) {u \<in> set (ml_inflight ml). tk_id u \<noteq> tk_id t}.
        tk_id u = i \<and> tk_job u = js_name k \<and> holds_job_lock (tk_phase u))"
      by (rule job_lock_move [where j = j])
        (use ok(2) j ids lock name other_holders [OF inv t] in \<open>auto simp: job_locks_ok_def\<close>)
  qed
  moreover have "started_ok (set_phase (tk_id t) p ml')" unfolding started_ok_def S
  proof
    fix k assume "k \<in> set (ml_jobs (set_phase (tk_id t) p ml'))"
    then obtain j where j: "j \<in> set (ml_jobs ml)" "k = (if js_name j = tk_job t then f j else j)"
      using job by blast
    have "js_started_at k = None \<longleftrightarrow> (\<forall>u \<in> insert (t\<lparr>tk_phase := p\<rparr>) {u \<in> set (ml_inflight ml). tk_id u \<noteq> tk_id t}.
        tk_job u = js_name k \<longrightarrow> \<not> in_slot (tk_phase u))"
      by (rule started_move [where j = j])
        (use ok(4) j ids slot(3) started(1) name other_slots [OF inv t] in \<open>auto simp: started_ok_def\<close>)
    moreover have "js_started_at k = None \<longrightarrow> \<not> js_overlap_logged k"
      using ok(4) j started(2) by (auto simp: started_ok_def)
    ultimately show "(js_started_at k = None \<longleftrightarrow> (\<forall>u \<in> insert (t\<lparr>tk_phase := p\<rparr>)
        {u \<in> set (ml_inflight ml). tk_id u \<noteq> tk_id t}. tk_job u = js_name k \<longrightarrow> \<not> in_slot (tk_phase u))) \<and>
        (js_started_at k = None \<longrightarrow> \<not> js_overlap_logged k)" by blast
  qed
  moreover have "global_lock_ok (set_phase (tk_id t) p ml')"
    using slot(3) other_slots [OF inv t]
    by (intro global_lock_move [OF ok(3) ids _ S]) (auto simp: slot(1,2))
  ultimately show ?thesis
    using tasks_ok_set_phase [OF ok(1) t names jobs(2,3)] by (simp add: loop_inv_def)
qed

text \<open>A task without locks leaves.\<close>

lemma inv_drop:
  assumes inv: "loop_inv ml" and t: "t \<in> set (ml_inflight ml)" "\<not> holds_job_lock (tk_phase t)"
  shows "loop_inv (drop_task (tk_id t) ml)"
proof -
  note ok = loop_invD [OF inv]
  have ids: "u = t" if "u \<in> set (ml_inflight ml)" "tk_id u = tk_id t" for u
    using that ok(1) t tasks_eq by (auto simp: tasks_ok_def)
  have same: "(\<exists>u \<in> set (ml_inflight ml). tk_id u \<noteq> tk_id t \<and> P u \<and> holds_job_lock (tk_phase u)) \<longleftrightarrow>
      (\<exists>u \<in> set (ml_inflight ml). P u \<and> holds_job_lock (tk_phase u))" for P
    using ids t by metis
  have free: "\<not> in_slot (tk_phase t)" using t(2) in_slot_holds by blast
  have "tasks_ok (drop_task (tk_id t) ml)" using ok(1) by (auto simp: tasks_ok_def)
  moreover have "job_locks_ok (drop_task (tk_id t) ml)"
    unfolding job_locks_ok_def
  proof (intro ballI allI)
    fix j i assume "j \<in> set (ml_jobs (drop_task (tk_id t) ml))"
    then have "js_lock j = Some i \<longleftrightarrow>
        (\<exists>u \<in> set (ml_inflight ml). (tk_id u = i \<and> tk_job u = js_name j) \<and> holds_job_lock (tk_phase u))"
      using ok(2) by (simp add: job_locks_ok_def)
    then show "js_lock j = Some i \<longleftrightarrow> (\<exists>u \<in> set (ml_inflight (drop_task (tk_id t) ml)).
        tk_id u = i \<and> tk_job u = js_name j \<and> holds_job_lock (tk_phase u))"
      using ids t(2) by auto
  qed
  moreover have "global_lock_ok (drop_task (tk_id t) ml)"
    using ok(3) ids free unfolding global_lock_ok_def by auto
  moreover have "started_ok (drop_task (tk_id t) ml)"
    unfolding started_ok_def
  proof
    fix j assume "j \<in> set (ml_jobs (drop_task (tk_id t) ml))"
    then show "(js_started_at j = None \<longleftrightarrow> (\<forall>u \<in> set (ml_inflight (drop_task (tk_id t) ml)).
        tk_job u = js_name j \<longrightarrow> \<not> in_slot (tk_phase u))) \<and> (js_started_at j = None \<longrightarrow> \<not> js_overlap_logged j)"
      using ok(4) ids free by (auto simp: started_ok_def)
  qed
  ultimately show ?thesis by (simp add: loop_inv_def)
qed

text \<open>Leaving is going back to the first phase, and then out.\<close>

lemma drop_set_phase [simp]: "drop_task i (set_phase i p ml) = drop_task i ml"
proof -
  have "filter (\<lambda>t. tk_id t \<noteq> i) (map (\<lambda>t. if tk_id t = i then t\<lparr>tk_phase := p\<rparr> else t) ts) =
      filter (\<lambda>t. tk_id t \<noteq> i) ts" for ts
    by (induction ts) auto
  from this [of "ml_inflight ml"] show ?thesis by (simp add: drop_task_def set_phase_def)
qed

lemma inv_release:
  assumes "loop_inv (set_phase (tk_id t) Created ml)" "t \<in> set (ml_inflight ml)"
  shows "loop_inv (drop_task (tk_id t) ml)"
proof -
  have "t\<lparr>tk_phase := Created\<rparr> \<in> set (ml_inflight (set_phase (tk_id t) Created ml))"
    using assms(2) by (force simp: set_phase_def)
  from inv_drop [OF assms(1) this] show ?thesis by simp
qed

text \<open>A job changes apart from its locks, and a task is created.\<close>

lemma inv_jobs:
  assumes inv: "loop_inv ml"
    and jobs: "ml_jobs ml' = map f (ml_jobs ml)" "ml_inflight ml' = ml_inflight ml" "ml_next_id ml' = ml_next_id ml"
      "ml_global_lock ml' = ml_global_lock ml" "ml_running_job ml' = ml_running_job ml"
    and name: "\<And>j. js_name (f j) = js_name j" "\<And>j. js_lock (f j) = js_lock j"
      "\<And>j. js_started_at (f j) = js_started_at j"
      "\<And>j. js_started_at j = None \<Longrightarrow> js_overlap_logged (f j) \<Longrightarrow> js_overlap_logged j"
  shows "loop_inv ml'"
proof -
  note ok = loop_invD [OF inv]
  have names: "map js_name (ml_jobs ml') = map js_name (ml_jobs ml)" by (simp add: jobs(1) name(1))
  then have "js_name ` set (ml_jobs ml') = js_name ` set (ml_jobs ml)" by (metis list.set_map)
  then have "tasks_ok ml'" using ok(1) names jobs(2,3) by (simp add: tasks_ok_def)
  moreover have "job_locks_ok ml'" using ok(2) by (simp add: job_locks_ok_def jobs name)
  moreover have "global_lock_ok ml'" using ok(3) by (simp add: global_lock_ok_def jobs)
  moreover have "started_ok ml'" using ok(4) name(4) by (auto simp: started_ok_def jobs name(1-3))
  ultimately show ?thesis by (simp add: loop_inv_def)
qed

lemma inv_spawn:
  assumes inv: "loop_inv ml" and n: "n \<in> js_name ` set (ml_jobs ml)"
  shows "loop_inv (spawn n ml)"
proof -
  note ok = loop_invD [OF inv]
  have "\<And>t. t \<in> set (ml_inflight ml) \<Longrightarrow> tk_id t < ml_next_id ml" using ok(1) by (simp add: tasks_ok_def)
  then have "tasks_ok (spawn n ml)" using ok(1) n by (fastforce simp: tasks_ok_def spawn_def)
  moreover have "job_locks_ok (spawn n ml)" using ok(2) by (simp add: job_locks_ok_def spawn_def)
  moreover have "global_lock_ok (spawn n ml)" using ok(3) by (simp add: global_lock_ok_def spawn_def)
  moreover have "started_ok (spawn n ml)" using ok(4) by (simp add: started_ok_def spawn_def)
  ultimately show ?thesis by (simp add: loop_inv_def)
qed

section \<open>Every step keeps the invariant\<close>

lemma record_end_simps [simp]:
  "js_name (record_end now r j) = js_name j" "js_lock (record_end now r j) = js_lock j"
  "js_started_at (record_end now r j) = js_started_at j"
  "js_overlap_logged (record_end now r j) = js_overlap_logged j"
  "js_interval_seconds (record_end now r j) = js_interval_seconds j"
  "js_enabled (record_end now r j) = js_enabled j"
  "js_runs_total (record_end now r j) = js_runs_total j + 1"
  "js_last_run_at (record_end now r j) = Some now"
  by (auto simp: record_end_def Let_def split: handler_end.split)

lemma record_no_handler_simps [simp]:
  "js_name (record_no_handler now j) = js_name j" "js_lock (record_no_handler now j) = js_lock j"
  "js_started_at (record_no_handler now j) = js_started_at j"
  "js_overlap_logged (record_no_handler now j) = js_overlap_logged j"
  "js_runs_total (record_no_handler now j) = js_runs_total j + 1"
  by (simp_all add: record_no_handler_def)

lemma inv_leave_slot:
  assumes "loop_inv ml" "t \<in> set (ml_inflight ml)" "in_slot (tk_phase t)"
  shows "loop_inv (leave_slot t ml)"
  unfolding leave_slot_def using assms
  by (intro inv_release
        inv_move [where ml = ml and f = "\<lambda>j. j\<lparr>js_started_at := None, js_overlap_logged := False, js_lock := None\<rparr>"])
     auto

lemma inv_on_job:
  assumes "loop_inv ml" "\<And>j. js_name (f j) = js_name j" "\<And>j. js_lock (f j) = js_lock j"
    "\<And>j. js_started_at (f j) = js_started_at j" "\<And>j. js_overlap_logged (f j) = js_overlap_logged j"
  shows "loop_inv (on_job n f ml)"
  by (rule inv_jobs [OF assms(1), where f = "\<lambda>j. if js_name j = n then f j else j"]) (auto simp: assms split: if_splits)

lemma inv_end_handler:
  assumes "loop_inv ml" "t \<in> set (ml_inflight ml)" "tk_phase t = InHandler"
  shows "loop_inv (end_handler now r t ml)"
proof (cases "tk_job t \<in> ml_handlers ml")
  case True
  note ok = loop_invD [OF assms(1)]
  have "js_lock j = Some (tk_id t)" "js_started_at j \<noteq> None"
    if "j \<in> set (ml_jobs ml)" "js_name j = tk_job t" for j
    using ok(2,4) assms(2,3) that by (force simp: job_locks_ok_def started_ok_def)+
  moreover have "ml_global_lock ml = Some (tk_id t)" "ml_running_job ml = Some (tk_job t)"
    using ok(3) assms(2,3) by (force simp: global_lock_ok_def)+
  ultimately have "loop_inv (set_phase (tk_id t) Persisting (on_job (tk_job t) (record_end now r) ml))"
    using assms by (intro inv_move [where ml = ml and f = "record_end now r"]) auto
  then show ?thesis using True by (simp add: end_handler_def)
next
  case False
  have "loop_inv (on_job (tk_job t) (record_no_handler now) ml)" using assms(1) by (rule inv_on_job) auto
  then have "loop_inv (leave_slot t (on_job (tk_job t) (record_no_handler now) ml))"
    by (rule inv_leave_slot) (use assms in auto)
  then show ?thesis using False by (simp add: end_handler_def)
qed

lemma task_step_inv:
  assumes "task_step dt ml ml'" "loop_inv ml"
  shows "loop_inv ml'"
  using assms
proof cases
  case (queue t)
  then show ?thesis using assms(2)
    by (auto intro!: inv_move [where ml = ml and f = "\<lambda>j. j"])
next
  case (lock t)
  then show ?thesis using assms(2) unfolding take_job_lock_def
    by (auto intro!: inv_move [where ml = ml and f = "\<lambda>j. j\<lparr>js_lock := Some (tk_id t)\<rparr>"])
next
  case (enter t now)
  have "js_lock j = Some (tk_id t)" if "j \<in> set (ml_jobs ml)" "js_name j = tk_job t" for j
    using loop_invD(2) [OF assms(2)] enter(2,3) that by (force simp: job_locks_ok_def)
  then show ?thesis using enter assms(2) unfolding enter_slot_def
    by (auto intro!: inv_move [where ml = ml and f = "\<lambda>j. j\<lparr>js_started_at := Some now, js_queued_logged := False\<rparr>"])
next
  case (ended t now r)
  then show ?thesis using assms(2) inv_end_handler by simp
next
  case (finish t written)
  let ?ml = "ml\<lparr>ml_state_path := persist_state dt written (ml_jobs ml) (ml_state_path ml)\<rparr>"
  have "loop_inv ?ml" using assms(2) by (rule inv_jobs [where f = "\<lambda>j. j"]) auto
  then show ?thesis using finish by (simp add: finish_run_def inv_leave_slot)
qed

lemma note_in_flight_frame:
  assumes "note_in_flight j now = Inr j'"
  shows "js_name j' = js_name j \<and> js_lock j' = js_lock j \<and> js_started_at j' = js_started_at j \<and>
    js_enabled j' = js_enabled j \<and> js_interval_seconds j' = js_interval_seconds j \<and>
    js_last_run_at j' = js_last_run_at j \<and> js_runs_total j' = js_runs_total j \<and>
    (js_started_at j = None \<longrightarrow> js_overlap_logged j' = js_overlap_logged j)"
  using assms by (auto simp: note_in_flight_def split: option.splits if_splits sum.splits)

lemma inv_note:
  assumes "loop_inv ml" "j \<in> set (ml_jobs ml)" "note_in_flight j now = Inr j'"
  shows "loop_inv (on_job (js_name j) (\<lambda>_. j') ml)"
proof (rule inv_jobs [OF assms(1), where f = "\<lambda>k. if k = j then j' else k"])
  have "k = j" if "k \<in> set (ml_jobs ml)" "js_name k = js_name j" for k
    using loop_invD(1) [OF assms(1)] assms(2) that by (auto simp: tasks_ok_def distinct_map inj_on_def)
  then show "ml_jobs (on_job (js_name j) (\<lambda>_. j') ml) = map (\<lambda>k. if k = j then j' else k) (ml_jobs ml)"
    by (auto simp: on_job_def)
qed (use note_in_flight_frame [OF assms(3)] in \<open>simp_all split: if_splits\<close>)

lemma inv_tick_jobs:
  "loop_inv ml \<Longrightarrow> set jobs \<subseteq> set (ml_jobs ml) \<Longrightarrow> distinct (map js_name jobs) \<Longrightarrow> loop_inv (snd (tick_jobs now jobs ml))"
proof (induction now jobs ml rule: tick_jobs.induct)
  case (2 now job jobs ml)
  have noted: "loop_inv (on_job (js_name job) (\<lambda>_. j') ml) \<and> set jobs \<subseteq> set (ml_jobs (on_job (js_name job) (\<lambda>_. j') ml))"
    if "note_in_flight job now = Inr j'" for j'
    using inv_note [of ml job now j'] that "2.prems" by (force simp: image_iff)
  have "loop_inv (spawn (js_name job) ml)" using inv_spawn [of ml "js_name job"] "2.prems" by auto
  then show ?case using 2 noted by (auto simp: spawn_def split: sum.split)
qed simp

lemma load_state_map:
  "\<exists>f. load_state dt file jobs = map f jobs \<and> (\<forall>j. js_name (f j) = js_name j \<and> js_lock (f j) = js_lock j \<and>
     js_started_at (f j) = js_started_at j \<and> js_overlap_logged (f j) = js_overlap_logged j \<and>
     js_interval_seconds (f j) = js_interval_seconds j \<and> js_enabled (f j) = js_enabled j)"
proof -
  have "js_name (restore_job dt raw j) = js_name j \<and> js_lock (restore_job dt raw j) = js_lock j \<and>
      js_started_at (restore_job dt raw j) = js_started_at j \<and>
      js_overlap_logged (restore_job dt raw j) = js_overlap_logged j \<and>
      js_interval_seconds (restore_job dt raw j) = js_interval_seconds j \<and>
      js_enabled (restore_job dt raw j) = js_enabled j" for raw j
    by (simp add: restore_job_def Let_def split: option.split)
  moreover have "load_state dt file jobs = map (\<lambda>j. j) jobs \<or> (\<exists>raw. load_state dt file jobs = map (restore_job dt raw) jobs)"
    by (auto simp: load_state_def split: option.split state_file.split json.split)
  ultimately show ?thesis by metis
qed

lemma inv_abandon:
  assumes "loop_inv ml" "t \<in> set (ml_inflight ml)" "\<not> in_slot (tk_phase t)"
  shows "loop_inv (abandon t ml)"
proof (cases "tk_phase t = WaitGlobalLock")
  case True
  then show ?thesis using assms unfolding abandon_def
    by (simp, intro inv_release inv_move [where ml = ml and f = "\<lambda>j. j\<lparr>js_lock := None\<rparr>"])
       (auto simp: loop_inv_def started_ok_def)
next
  case False
  then have "\<not> holds_job_lock (tk_phase t)" using assms(3) by (cases "tk_phase t") auto
  then show ?thesis using inv_drop [OF assms(1,2)] False by (simp add: abandon_def)
qed

lemma loop_step_inv:
  assumes "loop_step dt manual ml ml'" "loop_inv ml"
  shows "loop_inv ml'"
  using assms
proof cases
  case start
  obtain f where "load_state dt (ml_state_path ml) (ml_jobs ml) = map f (ml_jobs ml)"
    "\<And>j. js_name (f j) = js_name j" "\<And>j. js_lock (f j) = js_lock j" "\<And>j. js_started_at (f j) = js_started_at j"
    "\<And>j. js_overlap_logged (f j) = js_overlap_logged j"
    using load_state_map by metis
  then have "loop_inv (ml\<lparr>ml_jobs := load_state dt (ml_state_path ml) (ml_jobs ml), ml_started := True\<rparr>)"
    by (intro inv_jobs [OF assms(2), where f = f]) auto
  then show ?thesis using start assms(2) by (simp add: start_def)
next
  case stop
  then show ?thesis by (auto simp: stop_def intro: inv_jobs [OF assms(2), where f = "\<lambda>j. j"])
next
  case (tick now)
  then show ?thesis using inv_tick_jobs [OF assms(2)] assms(2) by (simp add: tick_def loop_inv_def tasks_ok_def)
next
  case (manual_run name)
  then obtain j where j: "List.find (\<lambda>j. js_name j = name) (ml_jobs ml) = Some j" "ml' = spawn name ml"
    by (auto simp: run_once_def split: option.splits)
  have "name \<in> js_name ` set (ml_jobs ml)" using find_Some_mem [OF j(1)] by auto
  then show ?thesis using j(2) inv_spawn [OF assms(2)] by simp
next
  case (cancel_waiting t)
  then show ?thesis using inv_abandon [OF assms(2)] by auto
qed (use assms(2) task_step_inv inv_leave_slot in auto)

lemma loop_reachable_inv: "loop_reachable dt manual ml \<Longrightarrow> loop_inv ml"
proof (induction rule: loop_reachable.induct)
  case (init jobs handlers f)
  have "map js_name (map (\<lambda>(n, i, e). new_job n i e) jobs) = map fst jobs" by (auto simp: new_job_def)
  then have "distinct (map js_name (ml_jobs (initial_loop jobs handlers f)))"
    using init by (simp only: initial_loop_def maintenance_loop.simps)
  then show ?case by (auto simp: loop_inv_def loop_ok_defs initial_loop_def new_job_def)
qed (rule loop_step_inv)

section \<open>One run per job\<close>

definition single_runs :: "maintenance_loop \<Rightarrow> bool" where
  "single_runs ml \<longleftrightarrow> distinct (map tk_job (ml_inflight ml)) \<and>
     (\<forall>t \<in> set (ml_inflight ml). tk_phase t \<noteq> WaitJobLock)"

text \<open>One job of a tick: it ends the tick, is left alone or noted, or gets a task.\<close>

lemma tick_jobs_Cons:
  obtains (raises) e where "tick_jobs now (job # jobs) ml = (Inl e, ml)"
  | (keeps) "tick_jobs now (job # jobs) ml = tick_jobs now jobs ml"
  | (noted) job' where "note_in_flight job now = Inr job'" "js_lock job \<noteq> None"
      "tick_jobs now (job # jobs) ml = tick_jobs now jobs (on_job (js_name job) (\<lambda>_. job') ml)"
  | (spawns) "js_enabled job" "is_due job now = Inr True" "js_lock job = None"
      "tick_jobs now (job # jobs) ml = tick_jobs now jobs (spawn (js_name job) ml)"
proof (cases "js_enabled job \<and> is_due job now = Inr True")
  case True
  then show ?thesis
    using raises noted spawns by (cases "js_lock job"; cases "note_in_flight job now") auto
next
  case False
  show ?thesis
  proof (cases "is_due job now")
    case (Inl e)
    then show ?thesis using raises [of e] keeps by (cases "js_enabled job") simp_all
  next
    case (Inr due)
    then show ?thesis using keeps False by simp
  qed
qed

lemma tick_jobs_tasks:
  "distinct (map js_name jobs) \<Longrightarrow>
   \<exists>new. ml_inflight (snd (tick_jobs now jobs ml)) = ml_inflight ml @ new \<and>
     (\<forall>t \<in> set new. tk_phase t = Created \<and> (\<exists>j \<in> set jobs. tk_job t = js_name j \<and> js_lock j = None)) \<and>
     distinct (map tk_job new)"
proof (induction jobs arbitrary: ml)
  case (Cons job jobs)
  have d: "distinct (map js_name jobs)" "js_name job \<notin> js_name ` set jobs" using Cons.prems by auto
  note IH = Cons.IH [OF d(1)]
  show ?case
  proof (cases now job jobs ml rule: tick_jobs_Cons)
    case keeps
    then show ?thesis using IH [of ml] by auto
  next
    case (noted job')
    then show ?thesis using IH [of "on_job (js_name job) (\<lambda>_. job') ml"] by auto
  next
    case spawns
    obtain new where new: "ml_inflight (snd (tick_jobs now jobs (spawn (js_name job) ml))) =
        ml_inflight (spawn (js_name job) ml) @ new"
      "\<forall>t \<in> set new. tk_phase t = Created \<and> (\<exists>j \<in> set jobs. tk_job t = js_name j \<and> js_lock j = None)"
      "distinct (map tk_job new)"
      using IH [of "spawn (js_name job) ml"] by blast
    show ?thesis unfolding spawns(4) using new spawns(3) d(2)
      by (intro exI [of _ "\<lparr>tk_id = ml_next_id ml, tk_job = js_name job, tk_phase = Created\<rparr> # new"])
         (auto simp: spawn_def)
  qed auto
qed simp

lemma single_runs_tick:
  assumes inv: "loop_inv ml" and one: "single_runs ml" and ready: "list_all (\<lambda>t. tk_phase t \<noteq> Created) (ml_inflight ml)"
  shows "single_runs (tick now ml)"
proof -
  note ok = loop_invD [OF inv]
  obtain new where new: "ml_inflight (tick now ml) = ml_inflight ml @ new"
    "\<forall>t \<in> set new. tk_phase t = Created \<and> (\<exists>j \<in> set (ml_jobs ml). tk_job t = js_name j \<and> js_lock j = None)"
    "distinct (map tk_job new)"
    using tick_jobs_tasks [of "ml_jobs ml" now ml] ok(1) by (auto simp: tick_def tasks_ok_def)
  have "tk_job t \<noteq> tk_job u" if t: "t \<in> set (ml_inflight ml)" and u: "u \<in> set new" for t u
  proof
    assume same: "tk_job t = tk_job u"
    obtain j where j: "j \<in> set (ml_jobs ml)" "tk_job u = js_name j" "js_lock j = None" using new(2) u by blast
    have "tk_phase t \<noteq> Created" "tk_phase t \<noteq> WaitJobLock"
      using ready t one by (auto simp: list_all_iff single_runs_def)
    then have "holds_job_lock (tk_phase t)" by (cases "tk_phase t") auto
    then have "js_lock j = Some (tk_id t)" using ok(2) j(1,2) t same by (auto simp: job_locks_ok_def)
    then show False using j(3) by simp
  qed
  then have "set (map tk_job (ml_inflight ml)) \<inter> set (map tk_job new) = {}" by auto
  then show ?thesis using one new by (auto simp: single_runs_def)
qed

lemma single_runs_set_phase: "single_runs ml \<Longrightarrow> p \<noteq> WaitJobLock \<Longrightarrow> single_runs (set_phase i p ml)"
  by (auto simp: single_runs_def set_phase_def comp_def if_distrib cong: if_cong)

lemma single_runs_drop: "single_runs ml \<Longrightarrow> single_runs (drop_task i ml)"
  by (auto simp: single_runs_def distinct_map_filter)

lemma single_runs_cong: "ml_inflight ml' = ml_inflight ml \<Longrightarrow> single_runs ml' = single_runs ml"
  by (simp add: single_runs_def)

lemma single_runs_task_step:
  assumes "task_step dt ml ml'" "loop_inv ml" "single_runs ml"
  shows "single_runs ml'"
  using assms(1)
proof cases
  case (queue t)
  note ok = loop_invD [OF assms(2)]
  obtain j i where "j \<in> set (ml_jobs ml)" "js_name j = tk_job t" "js_lock j = Some i"
    using queue(4) by (auto simp: job_locked_iff)
  then obtain u where u: "u \<in> set (ml_inflight ml)" "tk_job u = tk_job t" "holds_job_lock (tk_phase u)"
    using ok(2) by (force simp: job_locks_ok_def)
  then have "u = t" using assms(3) queue(2) by (auto simp: single_runs_def distinct_map inj_on_def)
  then show ?thesis using u(3) queue(3) by simp
next
  case (finish t written)
  then show ?thesis using assms(3)
    by (auto simp: finish_run_def leave_slot_def intro!: single_runs_drop elim: single_runs_cong [THEN iffD2, rotated])
qed (use assms(3) in \<open>auto simp: take_job_lock_def enter_slot_def end_handler_def leave_slot_def
    intro!: single_runs_set_phase single_runs_drop elim: single_runs_cong [THEN iffD2, rotated]\<close>)

lemma loop_reachable_single: "loop_reachable dt False ml \<Longrightarrow> single_runs ml"
proof (induction rule: loop_reachable.induct)
  case (step ml ml')
  note inv = loop_reachable_inv [OF step(1)]
  from step(2) show ?case
  proof cases
    case (tick now)
    then show ?thesis using single_runs_tick inv step.IH by simp
  qed (use step.IH inv single_runs_task_step in \<open>auto simp: start_def stop_def abandon_def leave_slot_def
      intro!: single_runs_drop elim: single_runs_cong [THEN iffD2, rotated]\<close>)
qed (simp add: single_runs_def initial_loop_def)

section \<open>Every run comes to its end\<close>

fun phase_weight :: "phase \<Rightarrow> nat" where
  "phase_weight Created = 5"
| "phase_weight WaitJobLock = 4"
| "phase_weight WaitGlobalLock = 3"
| "phase_weight InHandler = 2"
| "phase_weight Persisting = 1"

definition total :: "(loop_task \<Rightarrow> nat) \<Rightarrow> maintenance_loop \<Rightarrow> nat" where
  "total g ml = sum_list (map g (ml_inflight ml))"

definition work_left :: "maintenance_loop \<Rightarrow> nat" where
  "work_left ml = total (\<lambda>t. phase_weight (tk_phase t)) ml"

lemma total_set_phase:
  assumes "tasks_ok ml" "t \<in> set (ml_inflight ml)" "ml_inflight ml' = ml_inflight ml"
  shows "total g (set_phase (tk_id t) p ml') + g t = total g ml + g (t\<lparr>tk_phase := p\<rparr>)"
proof -
  have "sum_list (map (\<lambda>u. g (if tk_id u = tk_id t then u\<lparr>tk_phase := p\<rparr> else u)) ts) + g t =
      sum_list (map g ts) + g (t\<lparr>tk_phase := p\<rparr>)" if "distinct (map tk_id ts)" "t \<in> set ts" for ts
    using that
  proof (induction ts)
    case (Cons u us)
    show ?case
    proof (cases "u = t")
      case True
      then have "\<forall>v \<in> set us. tk_id v \<noteq> tk_id t" using Cons.prems(1) by (auto simp: image_iff)
      then have "map (\<lambda>u. g (if tk_id u = tk_id t then u\<lparr>tk_phase := p\<rparr> else u)) us = map g us"
        by (intro map_cong) auto
      then show ?thesis using True by (simp del: map_eq_conv)
    qed (use Cons in auto)
  qed simp
  from this [of "ml_inflight ml"] show ?thesis
    using assms by (simp add: total_def set_phase_def tasks_ok_def comp_def)
qed

lemma total_drop_task:
  assumes "tasks_ok ml" "t \<in> set (ml_inflight ml)" "ml_inflight ml' = ml_inflight ml"
  shows "total g (drop_task (tk_id t) ml') + g t = total g ml"
proof -
  have "sum_list (map g (filter (\<lambda>u. tk_id u \<noteq> tk_id t) ts)) + g t = sum_list (map g ts)"
    if "distinct (map tk_id ts)" "t \<in> set ts" for ts
    using that
  proof (induction ts)
    case (Cons u us)
    show ?case
    proof (cases "u = t")
      case True
      then have "\<forall>v \<in> set us. tk_id v \<noteq> tk_id t" using Cons.prems(1) by (auto simp: image_iff)
      then have "filter (\<lambda>u. tk_id u \<noteq> tk_id t) us = us" by (simp add: filter_id_conv)
      then show ?thesis using True by simp
    qed (use Cons in auto)
  qed simp
  from this [of "ml_inflight ml"] show ?thesis using assms by (simp add: total_def tasks_ok_def)
qed

text \<open>
  What a step of a task does to the tasks in flight: one of them goes on to a later phase or
  leaves, and the jobs keep their names.
\<close>

lemma task_step_tasks:
  assumes "task_step dt ml ml'"
  obtains (moves) t p ml1 where "t \<in> set (ml_inflight ml)" "ml_inflight ml1 = ml_inflight ml"
      "ml' = set_phase (tk_id t) p ml1" "phase_weight p < phase_weight (tk_phase t)"
  | (leaves) t ml1 where "t \<in> set (ml_inflight ml)" "ml_inflight ml1 = ml_inflight ml"
      "ml' = drop_task (tk_id t) ml1"
  using assms
proof cases
  case (queue t)
  then show ?thesis by (intro moves [of t ml]) auto
next
  case (lock t)
  then show ?thesis
    by (intro moves [of t "on_job (tk_job t) (\<lambda>j. j\<lparr>js_lock := Some (tk_id t)\<rparr>) ml" WaitGlobalLock])
       (auto simp: take_job_lock_def)
next
  case (enter t now)
  then show ?thesis by (intro moves [of t _ InHandler]) (auto simp: enter_slot_def)
next
  case (ended t now r)
  show ?thesis
  proof (cases "tk_job t \<in> ml_handlers ml")
    case True
    then show ?thesis using ended by (intro moves [of t _ Persisting]) (auto simp: end_handler_def)
  next
    case False
    then show ?thesis using ended by (intro leaves [of t]) (auto simp: end_handler_def leave_slot_def)
  qed
next
  case (finish t written)
  then show ?thesis by (intro leaves [of t]) (auto simp: finish_run_def leave_slot_def)
qed

lemma task_step_decreases:
  assumes "loop_inv ml" "task_step dt ml ml'"
  shows "work_left ml' < work_left ml"
  using assms(2)
proof (cases rule: task_step_tasks)
  case (moves t p ml1)
  then show ?thesis
    using total_set_phase [OF loop_invD(1) [OF assms(1)] moves(1,2), of "\<lambda>t. phase_weight (tk_phase t)" p]
    by (simp add: work_left_def)
next
  case (leaves t ml1)
  moreover have "0 < phase_weight (tk_phase t)" by (cases "tk_phase t") auto
  ultimately show ?thesis
    using total_drop_task [OF loop_invD(1) [OF assms(1)] leaves(1,2), of "\<lambda>t. phase_weight (tk_phase t)"]
    by (simp add: work_left_def)
qed

lemma task_step_progress:
  assumes inv: "loop_inv ml" and busy: "ml_inflight ml \<noteq> []"
  shows "\<exists>ml'. task_step dt ml ml'"
proof -
  note ok = loop_invD [OF inv]
  consider (slot) t where "t \<in> set (ml_inflight ml)" "in_slot (tk_phase t)"
    | (queued) t where "t \<in> set (ml_inflight ml)" "tk_phase t = WaitGlobalLock" "ml_global_lock ml = None"
    | (free) "\<And>t. t \<in> set (ml_inflight ml) \<Longrightarrow> \<not> holds_job_lock (tk_phase t)"
  proof (cases "ml_global_lock ml")
    case None
    then have "\<not> in_slot (tk_phase t)" if "t \<in> set (ml_inflight ml)" for t
      using ok(3) that by (force simp: global_lock_ok_def)
    moreover have "tk_phase t = WaitGlobalLock" if "holds_job_lock (tk_phase t)" "\<not> in_slot (tk_phase t)" for t
      using that by (cases "tk_phase t") auto
    ultimately show ?thesis using that(2,3) None by blast
  next
    case (Some i)
    then show ?thesis using ok(3) that(1) unfolding global_lock_ok_def by blast
  qed
  then show ?thesis
  proof cases
    case slot
    then show ?thesis by (cases "tk_phase t") (auto intro: task_step.ended task_step.finish)
  next
    case queued
    then show ?thesis by (blast intro: task_step.enter)
  next
    case free
    obtain t where t: "t \<in> set (ml_inflight ml)" using busy by (cases "ml_inflight ml") auto
    have "\<not> job_locked (tk_job t) ml"
      using free ok(2) by (auto simp: job_locked_iff job_locks_ok_def)
    moreover have "tk_phase t = Created \<or> tk_phase t = WaitJobLock" using free [OF t] by (cases "tk_phase t") auto
    ultimately show ?thesis using t by (blast intro: task_step.lock)
  qed
qed

interpretation tasks: bounded_progress loop_inv "task_step dt" work_left "\<lambda>ml. ml_inflight ml = []" for dt
  by unfold_locales (use task_step_inv task_step_decreases task_step_progress in blast)+

section \<open>Every task counts as one run of its job\<close>

text \<open>A task that has not ended yet is one run to come; its end turns it into a counted one.\<close>

definition runs_to_come :: "string \<Rightarrow> maintenance_loop \<Rightarrow> nat" where
  "runs_to_come name ml = total (\<lambda>t. if tk_job t = name \<and> tk_phase t \<noteq> Persisting then 1 else 0) ml"

definition counted_runs :: "maintenance_loop \<Rightarrow> (string \<times> nat) list" where
  "counted_runs ml = map (\<lambda>j. (js_name j, js_runs_total j + runs_to_come (js_name j) ml)) (ml_jobs ml)"

lemma counted_runs_on_job:
  assumes "\<And>j. js_name (f j) = js_name j"
    "\<And>j. js_name j = n \<Longrightarrow> js_runs_total (f j) + runs_to_come n ml' = js_runs_total j + runs_to_come n ml"
    "\<And>m. m \<noteq> n \<Longrightarrow> runs_to_come m ml' = runs_to_come m ml"
    "ml_jobs ml' = map (\<lambda>j. if js_name j = n then f j else j) (ml_jobs ml)"
  shows "counted_runs ml' = counted_runs ml"
  unfolding counted_runs_def assms(4) by (auto simp: assms(1-3))

lemma runs_to_come_set_phase:
  assumes "loop_inv ml" "t \<in> set (ml_inflight ml)" "ml_inflight ml' = ml_inflight ml" "tk_phase t \<noteq> Persisting"
  shows "runs_to_come n (set_phase (tk_id t) p ml') =
    runs_to_come n ml - (if n = tk_job t \<and> p = Persisting then 1 else 0)"
    "n = tk_job t \<Longrightarrow> 0 < runs_to_come n ml"
  using total_set_phase [OF loop_invD(1) [OF assms(1)] assms(2,3),
      of "\<lambda>t. if tk_job t = n \<and> tk_phase t \<noteq> Persisting then 1 else 0" p] assms(4)
    total_drop_task [OF loop_invD(1) [OF assms(1)] assms(2,3),
      of "\<lambda>t. if tk_job t = n \<and> tk_phase t \<noteq> Persisting then 1 else 0"]
  by (auto simp: runs_to_come_def split: if_splits)

lemma runs_to_come_drop:
  assumes "loop_inv ml" "t \<in> set (ml_inflight ml)" "ml_inflight ml' = ml_inflight ml"
  shows "runs_to_come n (drop_task (tk_id t) ml') =
    runs_to_come n ml - (if n = tk_job t \<and> tk_phase t \<noteq> Persisting then 1 else 0)"
  using total_drop_task [OF loop_invD(1) [OF assms(1)] assms(2,3),
      of "\<lambda>t. if tk_job t = n \<and> tk_phase t \<noteq> Persisting then 1 else 0"]
  by (auto simp: runs_to_come_def split: if_splits)

lemma counted_runs_task_step:
  assumes inv: "loop_inv ml" and step: "task_step dt ml ml'"
  shows "counted_runs ml' = counted_runs ml"
  using step
proof cases
  case (queue t)
  then show ?thesis by (simp add: counted_runs_def runs_to_come_set_phase(1) [OF inv queue(2)])
next
  case (lock t)
  then show ?thesis unfolding lock(1) take_job_lock_def
    by (intro counted_runs_on_job [where n = "tk_job t" and f = "\<lambda>j. j\<lparr>js_lock := Some (tk_id t)\<rparr>"])
       (auto simp: runs_to_come_set_phase(1) [OF inv lock(2)])
next
  case (enter t now)
  then show ?thesis unfolding enter(1) enter_slot_def
    by (intro counted_runs_on_job [where n = "tk_job t"
          and f = "\<lambda>j. j\<lparr>js_started_at := Some now, js_queued_logged := False\<rparr>"])
       (auto simp: runs_to_come_set_phase(1) [OF inv enter(2)])
next
  case (ended t now r)
  have pos: "0 < runs_to_come (tk_job t) ml"
    using runs_to_come_set_phase(2) [OF inv ended(2) refl] ended(3) by simp
  show ?thesis
  proof (cases "tk_job t \<in> ml_handlers ml")
    case True
    then show ?thesis unfolding ended(1) end_handler_def using pos ended(3)
      by (simp, intro counted_runs_on_job [where n = "tk_job t" and f = "record_end now r"])
         (auto simp: runs_to_come_set_phase(1) [OF inv ended(2)])
  next
    case False
    then show ?thesis unfolding ended(1) end_handler_def leave_slot_def using pos ended(3)
      by (simp, intro counted_runs_on_job [where n = "tk_job t" and f = "\<lambda>j. (record_no_handler now j)
            \<lparr>js_started_at := None, js_overlap_logged := False, js_lock := None\<rparr>"])
         (auto simp: runs_to_come_drop [OF inv ended(2)])
  qed
next
  case (finish t written)
  then show ?thesis unfolding finish(1) finish_run_def leave_slot_def
    by (intro counted_runs_on_job [where n = "tk_job t"
          and f = "\<lambda>j. j\<lparr>js_started_at := None, js_overlap_logged := False, js_lock := None\<rparr>"])
       (auto simp: runs_to_come_drop [OF inv finish(2)])
qed

lemma counted_runs_task_steps:
  "(task_step dt)\<^sup>*\<^sup>* ml ml' \<Longrightarrow> loop_inv ml \<Longrightarrow> counted_runs ml' = counted_runs ml"
  by (induction rule: rtranclp_induct) (use counted_runs_task_step tasks.runs_inv in metis)+

end
