(* ===== verification/OC_Config.thy ===== *)
theory OC_Config
  imports OC_Maintenance Py_Text
begin

text \<open>
  How configuration is read: the shared readers of environment values
  (\<open>application/config/env_helpers.py\<close>) and the list of maintenance jobs
  (\<open>load_jobs\<close> of \<open>maintenance_loop.py\<close>). An environment value is \<^const>\<open>None\<close> when the
  variable is not set. Warnings are left out.
\<close>

section \<open>Environment values\<close>

definition parse_int :: "json \<Rightarrow> int \<Rightarrow> int" where
  "parse_int value dflt =
     (case value of
        JInt n \<Rightarrow> n
      | JStr s \<Rightarrow> (case py_int (py_strip s) of None \<Rightarrow> dflt | Some n \<Rightarrow> n)
      | _ \<Rightarrow> dflt)"

definition parse_int_env :: "string option \<Rightarrow> int \<Rightarrow> int" where
  "parse_int_env raw dflt =
     (case raw of
        None \<Rightarrow> dflt
      | Some s \<Rightarrow>
          if py_strip s = [] then dflt
          else (case py_int (py_strip s) of None \<Rightarrow> dflt | Some n \<Rightarrow> n))"

definition port_ok :: "int \<Rightarrow> bool" where
  "port_ok n = (1 \<le> n \<and> n \<le> 65535)"

definition resolve_port :: "string option \<Rightarrow> json \<Rightarrow> int \<Rightarrow> int" where
  "resolve_port env_raw file_value dflt =
     (let fallback = (case file_value of JInt n \<Rightarrow> if port_ok n then n else dflt | _ \<Rightarrow> dflt);
          env_text = (case env_raw of None \<Rightarrow> [] | Some s \<Rightarrow> py_strip s);
          env_port = (if env_text = [] then None else py_int env_text)
      in case env_port of
           None \<Rightarrow> fallback
         | Some n \<Rightarrow> if port_ok n then n else fallback)"

definition TRUE_WORDS :: "string list" where
  "TRUE_WORDS = [''1'', ''true'', ''yes'', ''on'']"

definition FALSE_WORDS :: "string list" where
  "FALSE_WORDS = [''0'', ''false'', ''no'', ''off'']"

definition parse_bool_env :: "string option \<Rightarrow> bool \<Rightarrow> bool" where
  "parse_bool_env raw dflt =
     (case raw of
        None \<Rightarrow> dflt
      | Some s \<Rightarrow>
          if py_strip s = [] then dflt
          else (let value = py_lower (py_strip s)
                in if value \<in> set TRUE_WORDS then True
                   else if value \<in> set FALSE_WORDS then False
                   else dflt))"

definition env_override :: "string option \<Rightarrow> json \<Rightarrow> json" where
  "env_override env_val file_value =
     (case env_val of
        None \<Rightarrow> file_value
      | Some s \<Rightarrow> if py_strip s = [] then file_value else JStr s)"

definition parse_csv_tags :: "string option \<Rightarrow> string list option" where
  "parse_csv_tags value =
     (case value of
        None \<Rightarrow> None
      | Some s \<Rightarrow>
          if s = [] then None
          else Some (map py_strip (filter (\<lambda>t. py_strip t \<noteq> []) (split_char (CHR '','') s))))"

definition is_disabled :: "string option \<Rightarrow> bool" where
  "is_disabled OC_MAINTENANCE_DISABLED = parse_bool_env OC_MAINTENANCE_DISABLED False"

section \<open>The configured jobs\<close>

definition DEFAULT_JOBS :: "(string \<times> int \<times> bool) list" where
  "DEFAULT_JOBS =
     [(''db_vacuum'', 7 * 24 * 3600, True),
      (''db_integrity_check'', 7 * 24 * 3600, True),
      (''embedding_backfill'', 6 * 3600, True),
      (''db_backup'', 24 * 3600, True),
      (''git_onboard_resync'', 3600, False),
      (''cloud_backup'', 24 * 3600, True)]"

text \<open>
  \<open>int(value)\<close> of a JSON value that is not a boolean: an infinite float overflows, and
  everything else that is not a number raises the errors that \<open>load_jobs\<close> catches.
\<close>

definition int_of_json :: "json \<Rightarrow> loop_error + int option" where
  "int_of_json v =
     (case v of
        JInt n \<Rightarrow> Inr (Some n)
      | JFloat x \<Rightarrow> Inr (Some (if 0 \<le> x then \<lfloor>x\<rfloor> else \<lceil>x\<rceil>))
      | JInf _ \<Rightarrow> Inl OverflowError
      | JStr s \<Rightarrow> Inr (py_int s)
      | _ \<Rightarrow> Inr None)"

definition job_entries :: "(string \<times> json) list option \<Rightarrow> json list" where
  "job_entries file_config =
     (case file_config of
        None \<Rightarrow> []
      | Some kvs \<Rightarrow>
          (case map_of kvs ''maintenance'' of
             Some (JObj fc) \<Rightarrow> (case json_get fc ''jobs'' of JList entries \<Rightarrow> entries | _ \<Rightarrow> [])
           | _ \<Rightarrow> []))"

text \<open>\<open>overrides\<close>: the last entry with a known name wins.\<close>

fun job_overrides :: "json list \<Rightarrow> string \<Rightarrow> (string \<times> json) list option" where
  "job_overrides [] name = None"
| "job_overrides (entry # entries) name =
     (case job_overrides entries name of
        Some e \<Rightarrow> Some e
      | None \<Rightarrow>
          (case entry of
             JObj kvs \<Rightarrow>
               if json_get kvs ''name'' = JStr name \<and> name \<in> fst ` set DEFAULT_JOBS then Some kvs else None
           | _ \<Rightarrow> None))"

definition load_job :: "json list \<Rightarrow> string \<times> int \<times> bool \<Rightarrow> loop_error + job_state" where
  "load_job entries d =
     (case d of (name, interval, enabled) \<Rightarrow>
       (let over = (case job_overrides entries name of None \<Rightarrow> [] | Some kvs \<Rightarrow> kvs);
            interval_raw = (case map_of over ''interval_seconds'' of None \<Rightarrow> JInt interval | Some v \<Rightarrow> v);
            enabled_raw = (case map_of over ''enabled'' of None \<Rightarrow> JBool enabled | Some v \<Rightarrow> v)
        in case int_of_json interval_raw of
             Inl e \<Rightarrow> Inl e
           | Inr n \<Rightarrow>
               Inr (new_job name (case n of None \<Rightarrow> 3600 | Some i \<Rightarrow> if i \<le> 0 then 3600 else i)
                      (json_truthy enabled_raw))))"

fun load_job_list :: "json list \<Rightarrow> (string \<times> int \<times> bool) list \<Rightarrow> loop_error + job_state list" where
  "load_job_list entries [] = Inr []"
| "load_job_list entries (d # ds) =
     (case load_job entries d of
        Inl e \<Rightarrow> Inl e
      | Inr j \<Rightarrow> map_sum id (\<lambda>js. j # js) (load_job_list entries ds))"

definition load_jobs :: "(string \<times> json) list option \<Rightarrow> loop_error + job_state list" where
  "load_jobs file_config = load_job_list (job_entries file_config) DEFAULT_JOBS"

end
