(* ===== verification/OC_Maintenance_Theorems.thy ===== *)
theory OC_Maintenance_Theorems
  imports OC_Maintenance_Steps OC_Config OC_Portability_Props
begin

text \<open>
  The theorems about maintenance: no two handlers run at once and every run comes to its end,
  a tick starts exactly the jobs that are due and counts an overrun once, the schedule
  survives a restart, and the configured jobs are the default ones with their overrides.
\<close>

section \<open>Ticks\<close>

definition interval_ok :: "job_state \<Rightarrow> bool" where
  "interval_ok j \<longleftrightarrow> \<bar>js_interval_seconds j\<bar> \<le> 86400 * 999999999"

definition due_at :: "datetime \<Rightarrow> job_state \<Rightarrow> bool" where
  "due_at now j = (case js_last_run_at j of None \<Rightarrow> True
     | Some t \<Rightarrow> js_interval_seconds j * 1000000 \<le> instant now - instant t)"

text \<open>What a tick does to a job that is in flight.\<close>

definition overruns :: "datetime \<Rightarrow> job_state \<Rightarrow> bool" where
  "overruns now j = (case js_started_at j of None \<Rightarrow> False
     | Some t \<Rightarrow> \<not> js_overlap_logged j \<and> js_interval_seconds j * 1000000 \<le> instant now - instant t)"

definition noted :: "datetime \<Rightarrow> job_state \<Rightarrow> job_state" where
  "noted now j =
     (if js_started_at j = None then j\<lparr>js_queued_logged := True\<rparr>
      else if overruns now j then j\<lparr>js_overlap_logged := True,
          js_runs_skipped_overlap := js_runs_skipped_overlap j + 1, js_last_outcome := Some ''skipped_overlap''\<rparr>
      else j)"

definition ticked :: "datetime \<Rightarrow> job_state \<Rightarrow> job_state" where
  "ticked now j = (if js_enabled j \<and> due_at now j \<and> js_lock j \<noteq> None then noted now j else j)"

lemma timedelta_ok: "interval_ok j \<Longrightarrow> timedelta_seconds (js_interval_seconds j) = Inr (js_interval_seconds j * 1000000)"
proof -
  assume "interval_ok j"
  then have "- 999999999 \<le> js_interval_seconds j div 86400" "js_interval_seconds j div 86400 \<le> 999999999"
    unfolding interval_ok_def by linarith+
  then show ?thesis by (simp add: timedelta_seconds_def)
qed

lemma is_due_ok: "interval_ok j \<Longrightarrow> is_due j now = Inr (due_at now j)"
  by (simp add: is_due_def due_at_def timedelta_ok split: option.split)

lemma note_in_flight_ok: "interval_ok j \<Longrightarrow> note_in_flight j now = Inr (noted now j)"
  by (auto simp: note_in_flight_def noted_def overruns_def timedelta_ok split: option.split)

lemma ticked_simps [simp]:
  "js_name (ticked now j) = js_name j" "js_lock (ticked now j) = js_lock j"
  "js_started_at (ticked now j) = js_started_at j" "js_enabled (ticked now j) = js_enabled j"
  "js_interval_seconds (ticked now j) = js_interval_seconds j" "js_last_run_at (ticked now j) = js_last_run_at j"
  by (simp_all add: ticked_def noted_def)

lemma due_at_ticked [simp]: "due_at n (ticked now j) = due_at n j"
  by (cases "js_last_run_at j") (simp_all add: due_at_def)

lemma spawn_simps [simp]:
  "ml_jobs (spawn n ml) = ml_jobs ml"
  "ml_inflight (spawn n ml) = ml_inflight ml @ [\<lparr>tk_id = ml_next_id ml, tk_job = n, tk_phase = Created\<rparr>]"
  by (simp_all add: spawn_def)

lemma tick_jobs_ok:
  assumes "\<forall>j \<in> set js. interval_ok j"
  shows "fst (tick_jobs now js ml) = Inr () \<and>
    map tk_job (ml_inflight (snd (tick_jobs now js ml))) = map tk_job (ml_inflight ml) @
      map js_name (filter (\<lambda>j. js_enabled j \<and> due_at now j \<and> js_lock j = None) js)"
  using assms
proof (induction js arbitrary: ml)
  case (Cons j js)
  then have "is_due j now = Inr (due_at now j)" "note_in_flight j now = Inr (noted now j)"
    by (simp_all add: is_due_ok note_in_flight_ok)
  then show ?case using Cons by simp
qed simp

lemma tick_jobs_jobs:
  assumes "\<forall>j \<in> set js. interval_ok j" "ml_jobs ml = pre @ js" "distinct (map js_name (pre @ js))"
  shows "ml_jobs (snd (tick_jobs now js ml)) = pre @ map (ticked now) js"
  using assms
proof (induction js arbitrary: ml pre)
  case (Cons j js)
  have due: "is_due j now = Inr (due_at now j)" "note_in_flight j now = Inr (noted now j)"
    using Cons.prems(1) by (simp_all add: is_due_ok note_in_flight_ok)
  have "\<forall>k \<in> set pre \<union> set js. js_name k \<noteq> js_name j" using Cons.prems(3) by (force simp: image_iff)
  then have upd: "ml_jobs (on_job (js_name j) (\<lambda>_. noted now j) ml) = (pre @ [noted now j]) @ js"
    using Cons.prems(2) by (simp add: map_idI)
  have names: "distinct (map js_name ((pre @ [k]) @ js))" if "js_name k = js_name j" for k
    using Cons.prems(3) that by simp
  have same: "js_name (noted now j) = js_name j" by (simp add: noted_def)
  note IH = Cons.IH [where pre = "pre @ [_]"]
  show ?case
  proof (cases "js_enabled j \<and> due_at now j \<and> js_lock j \<noteq> None")
    case True
    then have "ticked now j = noted now j" by (simp add: ticked_def)
    then show ?thesis using IH [of _ "noted now j", OF _ upd names [OF same]] Cons.prems(1) due True by simp
  next
    case False
    then have "ticked now j = j" by (auto simp: ticked_def)
    then show ?thesis
      using IH [of ml j] IH [of "spawn (js_name j) ml" j] Cons.prems due False by simp
  qed
qed simp

lemma tick_jobs_of_loop:
  assumes "\<forall>j \<in> set (ml_jobs ml). interval_ok j" "distinct (map js_name (ml_jobs ml))"
  shows "ml_jobs (tick now ml) = map (ticked now) (ml_jobs ml)"
  using tick_jobs_jobs [of "ml_jobs ml" ml "[]" now] assms by (simp add: tick_def)

lemma ticks_of_loop:
  assumes "\<forall>j \<in> set (ml_jobs ml). interval_ok j" "distinct (map js_name (ml_jobs ml))"
  shows "ml_jobs (fold tick nows ml) = map (fold ticked nows) (ml_jobs ml)"
  using assms
proof (induction nows arbitrary: ml)
  case (Cons now nows)
  have "ml_jobs (tick now ml) = map (ticked now) (ml_jobs ml)" using Cons.prems by (rule tick_jobs_of_loop)
  moreover from this have "\<forall>j \<in> set (ml_jobs (tick now ml)). interval_ok j"
    "distinct (map js_name (ml_jobs (tick now ml)))"
    using Cons.prems by (auto simp: interval_ok_def comp_def)
  ultimately show ?case using Cons.IH [of "tick now ml"] by simp
qed (simp add: id_def)

lemma fold_ticked_overlap:
  assumes "js_enabled j" "js_lock j \<noteq> None" "js_started_at j = Some t"
  shows "js_name (fold ticked nows j) = js_name j \<and> js_runs_skipped_overlap (fold ticked nows j) =
    js_runs_skipped_overlap j + (if \<not> js_overlap_logged j \<and> (\<exists>now \<in> set nows. due_at now j \<and>
      js_interval_seconds j * 1000000 \<le> instant now - instant t) then 1 else 0)"
  using assms
proof (induction nows arbitrary: j)
  case (Cons now nows)
  have IH: "js_name (fold ticked nows (ticked now j)) = js_name j \<and>
      js_runs_skipped_overlap (fold ticked nows (ticked now j)) = js_runs_skipped_overlap (ticked now j) +
      (if \<not> js_overlap_logged (ticked now j) \<and> (\<exists>now \<in> set nows. due_at now j \<and>
        js_interval_seconds j * 1000000 \<le> instant now - instant t) then 1 else 0)"
    using Cons.IH [of "ticked now j"] Cons.prems by simp
  show ?case
  proof (cases "due_at now j \<and> js_interval_seconds j * 1000000 \<le> instant now - instant t")
    case True
    then have "js_overlap_logged (ticked now j)" "js_runs_skipped_overlap (ticked now j) =
        js_runs_skipped_overlap j + (if js_overlap_logged j then 0 else 1)"
      using Cons.prems by (auto simp: ticked_def noted_def overruns_def)
    then show ?thesis using IH True by auto
  next
    case False
    then have "ticked now j = j" using Cons.prems by (auto simp: ticked_def noted_def overruns_def)
    then show ?thesis using IH False by auto
  qed
qed simp

section \<open>Sample loop\<close>

definition sample_start :: datetime where
  "sample_start = \<lparr>wall = 63900000000000000, utcoffset = Some 0\<rparr>"

definition sample_loop :: maintenance_loop where
  "sample_loop = initial_loop [(''db_backup'', 86400, True), (''db_vacuum'', 604800, False)]
     {''db_backup'', ''db_vacuum''} (Some Missing)"

text \<open>After the start and the first tick, the backup is in flight.\<close>

definition sample_ticked :: maintenance_loop where
  "sample_ticked = tick sample_start (start sample_iso sample_loop)"

lemma sample_ticked_eq:
  "sample_ticked = sample_loop\<lparr>ml_started := True,
     ml_inflight := [\<lparr>tk_id = 0, tk_job = ''db_backup'', tk_phase = Created\<rparr>], ml_next_id := 1\<rparr>"
  by (simp add: sample_ticked_def tick_def start_def sample_loop_def initial_loop_def load_state_def
      new_job_def is_due_def spawn_def)

lemma sample_ticked_reachable: "loop_reachable sample_iso False sample_ticked"
proof -
  have "loop_reachable sample_iso False sample_loop"
    unfolding sample_loop_def by (rule loop_reachable.init) simp
  then have "loop_reachable sample_iso False (start sample_iso sample_loop)"
    by (rule loop_reachable.step) (rule loop_step.start)
  then show ?thesis unfolding sample_ticked_def
    by (rule loop_reachable.step) (rule loop_step.tick, simp_all add: start_def sample_loop_def initial_loop_def)
qed

section \<open>Mutual exclusion and progress\<close>

lemma length_filter_le_1:
  "distinct xs \<Longrightarrow> (\<And>x y. x \<in> set xs \<Longrightarrow> y \<in> set xs \<Longrightarrow> P x \<Longrightarrow> P y \<Longrightarrow> x = y) \<Longrightarrow> length (filter P xs) \<le> 1"
proof (induction xs)
  case (Cons x xs)
  show ?case
  proof (cases "P x")
    case True
    then have "\<not> P y" if "y \<in> set xs" for y using Cons.prems that by auto
    then have "filter P xs = []" by (simp add: filter_empty_conv)
    then show ?thesis using True by simp
  qed (use Cons in auto)
qed simp

text \<open>
  C15. In every state the maintenance loop can reach, by any interleaving of ticks, task steps,
  manual runs, cancellations, stops and restarts, at most one task is inside the run slot, and
  at most one holds the lock of any job; the name the loop reports as running, and the start
  mark of each job, tell exactly which job that is. Without manual runs no job has more than
  one task: a start that comes while the job is in flight is never queued behind it.
\<close>

theorem maintenance_mutual_exclusion:
  assumes "loop_reachable dt manual ml"
  shows "length (filter (\<lambda>t. in_slot (tk_phase t)) (ml_inflight ml)) \<le> 1 \<and>
    (\<forall>n. ml_running_job ml = Some n \<longleftrightarrow> (\<exists>t \<in> set (ml_inflight ml). tk_job t = n \<and> in_slot (tk_phase t))) \<and>
    (\<forall>j \<in> set (ml_jobs ml). (js_started_at j \<noteq> None \<longleftrightarrow> ml_running_job ml = Some (js_name j)) \<and>
       length (filter (\<lambda>t. tk_job t = js_name j \<and> holds_job_lock (tk_phase t)) (ml_inflight ml)) \<le> 1) \<and>
    (\<not> manual \<longrightarrow> distinct (map tk_job (ml_inflight ml)))"
proof -
  note inv = loop_reachable_inv [OF assms]
  note ok = loop_invD [OF inv]
  have d: "distinct (ml_inflight ml)" using ok(1) by (simp add: tasks_ok_def distinct_map)
  have "length (filter (\<lambda>t. in_slot (tk_phase t)) (ml_inflight ml)) \<le> 1"
    using d slot_unique [OF ok(3,1)] by (rule length_filter_le_1)
  moreover have "length (filter (\<lambda>t. tk_job t = n \<and> holds_job_lock (tk_phase t)) (ml_inflight ml)) \<le> 1" for n
    using d by (rule length_filter_le_1) (use holder_unique [OF ok(2,1)] in auto)
  moreover have "js_started_at j \<noteq> None \<longleftrightarrow> ml_running_job ml = Some (js_name j)" if "j \<in> set (ml_jobs ml)" for j
  proof -
    have "js_started_at j = None \<longleftrightarrow> (\<forall>t \<in> set (ml_inflight ml). tk_job t = js_name j \<longrightarrow> \<not> in_slot (tk_phase t))"
      using ok(4) that by (simp add: started_ok_def)
    moreover have "ml_running_job ml = Some (js_name j) \<longleftrightarrow>
        (\<exists>t \<in> set (ml_inflight ml). tk_job t = js_name j \<and> in_slot (tk_phase t))"
      using ok(3) by (simp add: global_lock_ok_def)
    ultimately show ?thesis by (metis option.distinct(1))
  qed
  moreover have "\<not> manual \<longrightarrow> distinct (map tk_job (ml_inflight ml))"
    using loop_reachable_single assms by (auto simp: single_runs_def)
  ultimately show ?thesis using ok(3) unfolding global_lock_ok_def by blast
qed

theorem maintenance_mutual_exclusion_witness:
  "length (filter (\<lambda>t. in_slot (tk_phase t)) (ml_inflight sample_ticked)) \<le> 1 \<and>
    distinct (map tk_job (ml_inflight sample_ticked)) \<and> ml_inflight sample_ticked \<noteq> []"
  using maintenance_mutual_exclusion [OF sample_ticked_reachable] by (simp add: sample_ticked_eq)

lemma work_left_bound: "work_left ml \<le> 5 * length (ml_inflight ml)"
proof -
  have "sum_list (map (\<lambda>t. phase_weight (tk_phase t)) ts) \<le> 5 * length ts" for ts
  proof (induction ts)
    case (Cons t ts)
    then show ?case by (cases "tk_phase t") auto
  qed simp
  then show ?thesis by (simp add: work_left_def total_def)
qed

lemma runs_to_come_filter:
  "runs_to_come n ml = length (filter (\<lambda>t. tk_job t = n \<and> tk_phase t \<noteq> Persisting) (ml_inflight ml))"
proof -
  have "sum_list (map (\<lambda>t. if P t then 1 else 0) ts) = length (filter P ts)" for P and ts :: "loop_task list"
    by (induction ts) simp_all
  then show ?thesis by (simp add: runs_to_come_def total_def)
qed

text \<open>
  C16. From every reachable state the tasks in flight come to their end, whatever their handlers
  return or raise and in whatever order the tasks go on: a run of task steps takes at most five
  steps per task, it can only stop when no task is left, such an end can be reached, and there
  every task has been counted as exactly one run of its job.
\<close>

theorem maintenance_runs_finish:
  assumes "loop_reachable dt manual ml"
  shows "(\<forall>n ml'. (task_step dt ^^ n) ml ml' \<longrightarrow> n \<le> 5 * length (ml_inflight ml)) \<and>
    (\<exists>ml'. (task_step dt)\<^sup>*\<^sup>* ml ml' \<and> ml_inflight ml' = []) \<and>
    (\<forall>ml'. (task_step dt)\<^sup>*\<^sup>* ml ml' \<and> (\<forall>u. \<not> task_step dt ml' u) \<longrightarrow>
       ml_inflight ml' = [] \<and>
       map (\<lambda>j. (js_name j, js_runs_total j)) (ml_jobs ml') =
       map (\<lambda>j. (js_name j, js_runs_total j + length (filter (\<lambda>t. tk_job t = js_name j \<and> tk_phase t \<noteq> Persisting)
          (ml_inflight ml)))) (ml_jobs ml))"
proof (intro conjI allI impI)
  note inv = loop_reachable_inv [OF assms]
  fix n ml' assume "(task_step dt ^^ n) ml ml'"
  then have "n \<le> work_left ml" using tasks.run_bound [OF inv] by fastforce
  then show "n \<le> 5 * length (ml_inflight ml)" using work_left_bound by (rule order_trans)
next
  show "\<exists>ml'. (task_step dt)\<^sup>*\<^sup>* ml ml' \<and> ml_inflight ml' = []"
    by (rule tasks.reaches_finished) (rule loop_reachable_inv [OF assms])
next
  note inv = loop_reachable_inv [OF assms]
  fix ml' assume run: "(task_step dt)\<^sup>*\<^sup>* ml ml' \<and> (\<forall>u. \<not> task_step dt ml' u)"
  then show none: "ml_inflight ml' = []" using tasks.stuck_finished [OF inv] by blast
  show "map (\<lambda>j. (js_name j, js_runs_total j)) (ml_jobs ml') =
       map (\<lambda>j. (js_name j, js_runs_total j + length (filter (\<lambda>t. tk_job t = js_name j \<and> tk_phase t \<noteq> Persisting)
          (ml_inflight ml)))) (ml_jobs ml)"
    using counted_runs_task_steps [of dt ml ml'] run inv none
    by (simp add: counted_runs_def runs_to_come_filter)
qed

theorem maintenance_runs_finish_witness:
  "\<exists>ml'. (task_step sample_iso)\<^sup>*\<^sup>* sample_ticked ml' \<and> ml_inflight ml' = [] \<and> ml_inflight sample_ticked \<noteq> []"
  using maintenance_runs_finish [OF sample_ticked_reachable] by (auto simp: sample_ticked_eq)

section \<open>The schedule\<close>

text \<open>
  A tick creates one task for each job that is enabled, due and not in flight, in the order
  of the configuration, and no other. A job that overruns is counted once: over any number of
  ticks during one run, the overlap counter grows by one if some tick finds the job due and the
  interval since the start of the run elapsed, and by nothing otherwise.
\<close>

lemma tick_schedule:
  assumes "distinct (map js_name (ml_jobs ml))" "\<forall>j \<in> set (ml_jobs ml). interval_ok j"
  shows "map tk_job (ml_inflight (tick now ml)) = map tk_job (ml_inflight ml) @
      map js_name (filter (\<lambda>j. js_enabled j \<and> due_at now j \<and> js_lock j = None) (ml_jobs ml)) \<and>
    (\<forall>j t nows. j \<in> set (ml_jobs ml) \<and> js_enabled j \<and> js_lock j \<noteq> None \<and> js_started_at j = Some t \<and>
       \<not> js_overlap_logged j \<longrightarrow>
       (\<exists>j' \<in> set (ml_jobs (fold tick nows ml)). js_name j' = js_name j \<and>
          js_runs_skipped_overlap j' = js_runs_skipped_overlap j + (if \<exists>now \<in> set nows. due_at now j \<and>
            js_interval_seconds j * 1000000 \<le> instant now - instant t then 1 else 0)))"
proof (intro conjI allI impI)
  show "map tk_job (ml_inflight (tick now ml)) = map tk_job (ml_inflight ml) @
      map js_name (filter (\<lambda>j. js_enabled j \<and> due_at now j \<and> js_lock j = None) (ml_jobs ml))"
    using tick_jobs_ok [OF assms(2)] by (simp add: tick_def)
next
  fix j t nows
  assume j: "j \<in> set (ml_jobs ml) \<and> js_enabled j \<and> js_lock j \<noteq> None \<and> js_started_at j = Some t \<and> \<not> js_overlap_logged j"
  then have "fold ticked nows j \<in> set (ml_jobs (fold tick nows ml))" using ticks_of_loop [OF assms(2,1)] by simp
  then show "\<exists>j' \<in> set (ml_jobs (fold tick nows ml)). js_name j' = js_name j \<and>
      js_runs_skipped_overlap j' = js_runs_skipped_overlap j + (if \<exists>now \<in> set nows. due_at now j \<and>
        js_interval_seconds j * 1000000 \<le> instant now - instant t then 1 else 0)"
    using fold_ticked_overlap [of j t nows] j by (intro bexI [of _ "fold ticked nows j"]) auto
qed

lemma tick_schedule_witness:
  "map tk_job (ml_inflight (tick sample_start sample_loop)) = [''db_backup'']"
proof -
  have "distinct (map js_name (ml_jobs sample_loop))" "\<forall>j \<in> set (ml_jobs sample_loop). interval_ok j"
    by (simp_all add: sample_loop_def initial_loop_def new_job_def interval_ok_def)
  from tick_schedule [OF this, of sample_start] show ?thesis
    by (simp add: sample_loop_def initial_loop_def new_job_def due_at_def)
qed

text \<open>
  An interval beyond the range of \<open>timedelta\<close> is accepted by \<open>load_jobs\<close>, and once that job
  has run, every tick ends with an exception when it comes to it: the jobs after it in the
  list are not scheduled any more.
\<close>

lemma huge_interval_blocks_later_jobs:
  assumes "ml_jobs ml = js @ j # ks" "\<forall>k \<in> set js. interval_ok k" "js_enabled j" "js_last_run_at j = Some t"
    "999999999 < js_interval_seconds j div 86400"
  shows "set (map tk_job (ml_inflight (tick now ml))) \<subseteq> set (map tk_job (ml_inflight ml)) \<union> js_name ` set js"
proof -
  have stop: "tick_jobs now (j # ks) ml' = (Inl OverflowError, ml')" for ml'
    using assms(3-5) by (simp add: is_due_def timedelta_seconds_def)
  have "tick_jobs now (xs @ j # ks) ml' = (Inl OverflowError, snd (tick_jobs now xs ml'))"
    if "\<forall>k \<in> set xs. interval_ok k" for xs ml'
    using that stop by (induction xs arbitrary: ml') (simp_all add: is_due_ok note_in_flight_ok)
  from this [OF assms(2), of ml] have "ml_inflight (tick now ml) = ml_inflight (snd (tick_jobs now js ml))"
    by (simp add: tick_def assms(1))
  then show ?thesis using tick_jobs_ok [OF assms(2), of now ml] by auto
qed

section \<open>Restarts\<close>

lemma map_of_stamps:
  assumes "distinct (map js_name jobs)" "j \<in> set jobs"
  shows "map_of (stamps dt field jobs) (js_name j) = map_option (\<lambda>t. JStr (iso_format dt t)) (field j)"
  using assms
proof (induction jobs)
  case (Cons k jobs)
  have other: "map_of (stamps dt field jobs) n = None" if "n \<notin> js_name ` set jobs" for n
  proof -
    have "fst ` set (stamps dt field jobs) \<subseteq> js_name ` set jobs" by (auto simp: stamps_def split: option.splits)
    then show ?thesis using that by (auto simp: map_of_eq_None_iff)
  qed
  show ?case
  proof (cases "k = j")
    case True
    then show ?thesis using Cons.prems(1) other [of "js_name j"] by (simp add: stamps_def split: option.split)
  next
    case False
    then have "js_name k \<noteq> js_name j" "j \<in> set jobs" using Cons.prems by auto
    then show ?thesis using Cons by (simp add: stamps_def split: option.split)
  qed
qed simp

lemma parse_state_timestamp_format:
  assumes "iso_ok dt" "is_utc t"
  shows "parse_state_timestamp dt (JStr (iso_format dt t)) = Some t"
  using assms by (simp add: parse_state_timestamp_def iso_ok_def is_utc_def)

text \<open>
  The schedule survives a restart: jobs that are set up anew and load the file the loop
  persisted have the times of the last run and of the last success of the jobs that wrote it,
  so that exactly the jobs that were due before are due after it. A file that is missing or not
  a JSON object, and a file that could not be written, never stop a start.
\<close>

lemma restart_keeps_schedule:
  assumes "iso_ok dt" "distinct (map js_name jobs)"
    "\<forall>j \<in> set jobs. (\<forall>t. js_last_run_at j = Some t \<longrightarrow> is_utc t) \<and> (\<forall>t. js_last_success_at j = Some t \<longrightarrow> is_utc t)"
  shows "load_state dt (persist_state dt True jobs (Some f))
      (map (\<lambda>j. new_job (js_name j) (js_interval_seconds j) (js_enabled j)) jobs) =
    map (\<lambda>j. (new_job (js_name j) (js_interval_seconds j) (js_enabled j))
      \<lparr>js_last_run_at := js_last_run_at j, js_last_success_at := js_last_success_at j\<rparr>) jobs \<and>
    load_state dt (persist_state dt False jobs (Some f)) fresh = load_state dt (Some f) fresh \<and>
    load_state dt (Some Missing) fresh = fresh \<and> load_state dt (Some Unreadable) fresh = fresh \<and>
    load_state dt None fresh = fresh"
proof -
  let ?raw = "[(''last_run_at'', JObj (stamps dt js_last_run_at jobs)), (''last_success_at'', JObj (stamps dt js_last_success_at jobs))]"
  have read: "parse_timestamp_map dt ?raw ''last_run_at'' (js_name j) = js_last_run_at j \<and>
      parse_timestamp_map dt ?raw ''last_success_at'' (js_name j) = js_last_success_at j" if "j \<in> set jobs" for j
    using assms(3) that parse_state_timestamp_format [OF assms(1)]
    by (auto simp: parse_timestamp_map_def json_get_def map_of_stamps [OF assms(2)] split: option.split)
  have "restore_job dt ?raw (new_job (js_name j) (js_interval_seconds j) (js_enabled j)) =
      (new_job (js_name j) (js_interval_seconds j) (js_enabled j))
        \<lparr>js_last_run_at := js_last_run_at j, js_last_success_at := js_last_success_at j\<rparr>" if "j \<in> set jobs" for j
  proof -
    have "js_name (new_job (js_name j) (js_interval_seconds j) (js_enabled j)) = js_name j"
      "js_last_run_at (new_job (js_name j) (js_interval_seconds j) (js_enabled j)) = None"
      "js_last_success_at (new_job (js_name j) (js_interval_seconds j) (js_enabled j)) = None"
      by (simp_all add: new_job_def)
    then show ?thesis using read [OF that]
      by (cases "js_last_run_at j"; cases "js_last_success_at j") (simp_all add: restore_job_def Let_def)
  qed
  then show ?thesis by (simp add: load_state_def persist_state_def state_payload_def)
qed

definition sample_jobs :: "job_state list" where
  "sample_jobs = [(new_job ''db_backup'' 86400 True)\<lparr>js_last_run_at := Some sample_start\<rparr>]"

lemma restart_keeps_schedule_witness:
  "load_state sample_iso (persist_state sample_iso True sample_jobs (Some Missing)) [new_job ''db_backup'' 86400 True] =
     sample_jobs"
proof -
  have "is_utc sample_start" by (simp add: is_utc_def sample_start_def max_wall_def)
  then have "\<forall>j \<in> set sample_jobs. (\<forall>t. js_last_run_at j = Some t \<longrightarrow> is_utc t) \<and> (\<forall>t. js_last_success_at j = Some t \<longrightarrow> is_utc t)"
    by (simp add: sample_jobs_def new_job_def)
  moreover have "distinct (map js_name sample_jobs)" by (simp add: sample_jobs_def)
  ultimately show ?thesis
    using restart_keeps_schedule [OF sample_iso_ok, of sample_jobs Missing] by (simp add: sample_jobs_def new_job_def)
qed

section \<open>The configured jobs\<close>

lemma load_job_list_Inr:
  "load_job_list entries ds = Inr js \<Longrightarrow> length js = length ds \<and> (\<forall>i < length ds. load_job entries (ds ! i) = Inr (js ! i))"
proof (induction ds arbitrary: js)
  case (Cons d ds)
  then show ?case by (auto split: sum.splits simp: nth_Cons' less_Suc_eq_0_disj map_sum_def)
qed simp

lemma load_job_list_Inl:
  "(\<exists>e. load_job_list entries ds = Inl e) \<longleftrightarrow> (\<exists>d \<in> set ds. \<exists>e. load_job entries d = Inl e)"
proof (induction ds)
  case (Cons d ds)
  then show ?case by (cases "load_job entries d"; cases "load_job_list entries ds") auto
qed simp

lemma load_job_Inr:
  assumes "load_job entries (n, i, e) = Inr j"
  shows "js_name j = n \<and> 0 < js_interval_seconds j \<and> js_last_run_at j = None \<and>
    (job_overrides entries n = None \<longrightarrow> 0 < i \<longrightarrow> j = new_job n i e)"
  using assms by (auto simp: load_job_def Let_def new_job_def int_of_json_def split: option.splits sum.splits if_splits)

lemma load_job_Inl:
  "(\<exists>x. load_job entries (n, i, e) = Inl x) \<longleftrightarrow>
   (\<exists>kvs neg. job_overrides entries n = Some kvs \<and> map_of kvs ''interval_seconds'' = Some (JInf neg))"
  by (auto simp: load_job_def Let_def int_of_json_def split: option.splits sum.splits json.splits)

lemma load_job_Inl_list:
  "(\<exists>d \<in> set ds. \<exists>x. load_job entries d = Inl x) \<longleftrightarrow>
   (\<exists>n \<in> fst ` set ds. \<exists>kvs neg. job_overrides entries n = Some kvs \<and> map_of kvs ''interval_seconds'' = Some (JInf neg))"
proof -
  have "(\<exists>x. load_job entries d = Inl x) \<longleftrightarrow>
      (\<exists>kvs neg. job_overrides entries (fst d) = Some kvs \<and> map_of kvs ''interval_seconds'' = Some (JInf neg))" for d
    using load_job_Inl [of entries "fst d" "fst (snd d)" "snd (snd d)"] by simp
  then show ?thesis by simp
qed

text \<open>
  The configuration file can only change default jobs: what is loaded is one job per
  default job, in the default order, each with a positive interval, and a job the file does not
  mention is its default, so that leaving a job out never turns it off. Loading fails exactly
  when the last entry of a known job gives an infinite interval.
\<close>

lemma load_jobs_merges:
  "(\<forall>js. load_jobs fc = Inr js \<longrightarrow> map js_name js = map fst DEFAULT_JOBS \<and>
      (\<forall>j \<in> set js. 0 < js_interval_seconds j \<and> js_last_run_at j = None) \<and>
      (\<forall>(n, i, e) \<in> set DEFAULT_JOBS. job_overrides (job_entries fc) n = None \<longrightarrow> new_job n i e \<in> set js)) \<and>
   ((\<exists>x. load_jobs fc = Inl x) \<longleftrightarrow> (\<exists>n \<in> fst ` set DEFAULT_JOBS. \<exists>kvs neg. job_overrides (job_entries fc) n = Some kvs \<and>
      map_of kvs ''interval_seconds'' = Some (JInf neg)))"
proof (intro conjI allI impI)
  fix js assume "load_jobs fc = Inr js"
  from load_job_list_Inr [OF this [unfolded load_jobs_def]]
  have len: "length js = length DEFAULT_JOBS"
    and nth: "\<And>i. i < length DEFAULT_JOBS \<Longrightarrow> load_job (job_entries fc) (DEFAULT_JOBS ! i) = Inr (js ! i)" by auto
  have job: "js_name (js ! i) = fst (DEFAULT_JOBS ! i) \<and> 0 < js_interval_seconds (js ! i) \<and> js_last_run_at (js ! i) = None"
    if "i < length DEFAULT_JOBS" for i
    using load_job_Inr [of "job_entries fc" _ _ _ "js ! i"] nth [OF that] by (metis prod.collapse)
  show "map js_name js = map fst DEFAULT_JOBS" using len job by (simp add: list_eq_iff_nth_eq)
  show "\<forall>j \<in> set js. 0 < js_interval_seconds j \<and> js_last_run_at j = None"
    using len job by (metis in_set_conv_nth)
  show "\<forall>(n, i, e) \<in> set DEFAULT_JOBS. job_overrides (job_entries fc) n = None \<longrightarrow> new_job n i e \<in> set js"
  proof clarify
    fix n i e assume d: "(n, i, e) \<in> set DEFAULT_JOBS" and none: "job_overrides (job_entries fc) n = None"
    obtain k where k: "k < length DEFAULT_JOBS" "DEFAULT_JOBS ! k = (n, i, e)" using d by (metis in_set_conv_nth)
    have "0 < i" using d by (auto simp: DEFAULT_JOBS_def)
    then have "js ! k = new_job n i e" using load_job_Inr [of "job_entries fc" n i e "js ! k"] nth [OF k(1)] k(2) none by simp
    then show "new_job n i e \<in> set js" using k(1) len by (metis nth_mem)
  qed
next
  show "(\<exists>x. load_jobs fc = Inl x) \<longleftrightarrow> (\<exists>n \<in> fst ` set DEFAULT_JOBS. \<exists>kvs neg. job_overrides (job_entries fc) n = Some kvs \<and>
      map_of kvs ''interval_seconds'' = Some (JInf neg))"
    unfolding load_jobs_def load_job_list_Inl by (rule load_job_Inl_list)
qed

lemma load_jobs_merges_witness:
  "\<exists>js. load_jobs (Some [(''maintenance'', JObj [(''jobs'', JList [JObj [(''name'', JStr ''db_backup''),
       (''interval_seconds'', JBool True)]])])]) = Inr js \<and> new_job ''cloud_backup'' 86400 True \<in> set js"
proof -
  let ?fc = "Some [(''maintenance'', JObj [(''jobs'', JList [JObj [(''name'', JStr ''db_backup''),
       (''interval_seconds'', JBool True)]])])]"
  have none: "\<not> (\<exists>x. load_jobs ?fc = Inl x)"
    using load_jobs_merges [of ?fc] by (auto simp: job_entries_def json_get_def DEFAULT_JOBS_def)
  then obtain js where js: "load_jobs ?fc = Inr js" by (cases "load_jobs ?fc") auto
  have "(''cloud_backup'', 24 * 3600, True) \<in> set DEFAULT_JOBS" "job_overrides (job_entries ?fc) ''cloud_backup'' = None"
    by (simp_all add: DEFAULT_JOBS_def job_entries_def json_get_def)
  then have "new_job ''cloud_backup'' (24 * 3600) True \<in> set js"
    using load_jobs_merges [of ?fc, THEN conjunct1, THEN spec, THEN mp, OF js] by (elim conjE) (drule (1) bspec, simp)
  then show ?thesis using js by auto
qed

end
