(* ===== verification/OC_Git_Clusters.thy ===== *)
theory OC_Git_Clusters
  imports OC_Use_Cases
begin

text \<open>
  Git history as clusters of commits (\<open>application/services/git_onboard.py\<close>, the pure part):
  the filter of commits that carry no story, the clustering by time and by common files with
  its cap, the labels and the texts made of a cluster. Regular expressions are written out as
  the matches they make on code points 0 to 255. Two things are arguments because they are not
  in that range or not in the model: the em dash between the parts of a label, and \<open>day\<close>, the
  text of the calendar day of a date. Ratios of counts and of time spans are exact rationals.
\<close>

section \<open>Commits\<close>

record git_commit =
  gc_hash :: string
  gc_author :: string
  gc_date :: datetime
  gc_subject :: string
  gc_body :: string
  gc_files_changed :: "string list"
  gc_insertions :: int
  gc_deletions :: int

record commit_cluster =
  cc_commits :: "git_commit list"
  cc_label :: string
  cc_time_span_days :: rat

definition commit_time :: "git_commit \<Rightarrow> int" where
  "commit_time c = instant (gc_date c)"

definition churn :: "git_commit \<Rightarrow> int" where
  "churn c = gc_insertions c + gc_deletions c"

section \<open>Filtering\<close>

text \<open>\<open>\<^verbatim>\<open>$\<close>\<close> also matches before a final line feed.\<close>

definition at_end :: "string \<Rightarrow> bool" where
  "at_end s = (s = [] \<or> s = [CHR 0x0A])"

definition is_merge_subject :: "string \<Rightarrow> bool" where
  "is_merge_subject s =
     (let t = py_lower s
      in prefix ''merge branch'' t \<or> prefix ''merge pull request'' t \<or> prefix ''merge remote-tracking'' t)"

definition is_format_subject :: "string \<Rightarrow> bool" where
  "is_format_subject s =
     (let t = py_lower s
      in prefix ''fmt'' t \<or> prefix ''style'' t
         \<or> (prefix ''chore:'' t \<and> prefix ''format'' (dropWhile is_space (drop 6 t))))"

text \<open>One or more digits and what follows them.\<close>

definition skip_digits :: "string \<Rightarrow> string option" where
  "skip_digits s = (if takeWhile is_digit s = [] then None else Some (dropWhile is_digit s))"

definition skip_dot :: "string \<Rightarrow> string option" where
  "skip_dot s = (case s of [] \<Rightarrow> None | c # cs \<Rightarrow> if c = CHR ''.'' then Some cs else None)"

definition is_version :: "string \<Rightarrow> bool" where
  "is_version s =
     (case Option.bind (Option.bind (Option.bind (Option.bind (skip_digits s) skip_dot) skip_digits) skip_dot) skip_digits of
        None \<Rightarrow> False | Some r \<Rightarrow> at_end r)"

definition is_version_bump_subject :: "string \<Rightarrow> bool" where
  "is_version_bump_subject s =
     (let t = py_lower s
      in prefix ''bump version'' t \<or> is_version (case t of [] \<Rightarrow> [] | c # cs \<Rightarrow> if c = CHR ''v'' then cs else t))"

definition filter_commits :: "git_commit list \<Rightarrow> git_commit list" where
  "filter_commits commits =
     filter (\<lambda>c. \<not> is_merge_subject (gc_subject c) \<and> \<not> is_format_subject (gc_subject c)
       \<and> \<not> is_version_bump_subject (gc_subject c) \<and> \<not> (gc_insertions c = 0 \<and> gc_deletions c = 0)) commits"

section \<open>Clustering\<close>

definition jaccard :: "string set \<Rightarrow> string set \<Rightarrow> rat" where
  "jaccard a b = (if a = {} \<and> b = {} then 0 else of_nat (card (a \<inter> b)) / of_nat (card (a \<union> b)))"

definition group_files :: "git_commit list \<Rightarrow> string set" where
  "group_files g = (\<Union>c \<in> set g. set (gc_files_changed c))"

definition gap_hours :: "git_commit \<Rightarrow> git_commit \<Rightarrow> rat" where
  "gap_hours prev c = of_int (commit_time c - commit_time prev) / (1000000 * 3600)"

text \<open>Pass 1: a commit joins the last group unless the gap before it is too long.\<close>

definition add_by_time :: "rat \<Rightarrow> git_commit list list \<Rightarrow> git_commit \<Rightarrow> git_commit list list" where
  "add_by_time window groups c =
     (if gap_hours (last (last groups)) c > window then groups @ [[c]]
      else butlast groups @ [last groups @ [c]])"

definition time_groups :: "rat \<Rightarrow> git_commit list \<Rightarrow> git_commit list list" where
  "time_groups window cs = (case cs of [] \<Rightarrow> [] | c # cs \<Rightarrow> foldl (add_by_time window) [[c]] cs)"

text \<open>Pass 2: a group joins the one before it when they share enough files.\<close>

definition add_by_files :: "git_commit list list \<Rightarrow> git_commit list \<Rightarrow> git_commit list list" where
  "add_by_files merged g =
     (if jaccard (group_files (last merged)) (group_files g) > 1 / 5
      then butlast merged @ [last merged @ g]
      else merged @ [g])"

definition file_groups :: "git_commit list list \<Rightarrow> git_commit list list" where
  "file_groups groups = (case groups of [] \<Rightarrow> [] | g # gs \<Rightarrow> foldl add_by_files [g] gs)"

text \<open>\<open>min(range(n), key=...)\<close>: the first index with the least key.\<close>

definition smallest_idx :: "'a list list \<Rightarrow> nat" where
  "smallest_idx merged = hd (filter (\<lambda>i. \<forall>j \<in> set [0..<length merged]. length (merged ! i) \<le> length (merged ! j)) [0..<length merged])"

text \<open>One turn of the capping loop, with two or more groups.\<close>

definition merge_smallest :: "'a list list \<Rightarrow> 'a list list" where
  "merge_smallest merged =
     (let i = smallest_idx merged
      in if 0 < i then take (i - 1) merged @ [merged ! (i - 1) @ merged ! i] @ drop (i + 1) merged
         else (merged ! 1 @ merged ! 0) # drop 2 merged)"

lemma smallest_idx_less: "merged \<noteq> [] \<Longrightarrow> smallest_idx merged < length merged"
proof -
  assume ne: "merged \<noteq> []"
  let ?P = "\<lambda>i. \<forall>j \<in> set [0..<length merged]. length (merged ! i) \<le> length (merged ! j)"
  obtain i where i: "i < length merged" "\<And>j. j < length merged \<Longrightarrow> length (merged ! i) \<le> length (merged ! j)"
    using ex_has_least_nat [of "\<lambda>i. i < length merged" 0 "\<lambda>i. length (merged ! i)"] ne by auto
  then have "i \<in> set (filter ?P [0..<length merged])" by simp
  then have "filter ?P [0..<length merged] \<noteq> []" by (metis empty_iff list.set(1))
  then have "smallest_idx merged \<in> set (filter ?P [0..<length merged])" unfolding smallest_idx_def by (rule hd_in_set)
  then show ?thesis by simp
qed

lemma length_merge_smallest: "2 \<le> length merged \<Longrightarrow> length (merge_smallest merged) = length merged - 1"
  using smallest_idx_less [of merged] by (cases "merged = []") (auto simp: merge_smallest_def Let_def min_def)

function cap_clusters :: "nat \<Rightarrow> 'a list list \<Rightarrow> 'a list list" where
  "cap_clusters n merged =
     (if length merged \<le> max 1 n then merged else cap_clusters n (merge_smallest merged))"
  by pat_completeness auto
termination
  by (relation "measure (\<lambda>(n, merged). length merged)") (auto simp: length_merge_smallest not_le)

declare cap_clusters.simps [simp del]

section \<open>Labels\<close>

text \<open>\<open>Counter(xs)\<close> and \<open>most_common(n)\<close>.\<close>

definition counter :: "string list \<Rightarrow> (string \<times> nat) list" where
  "counter xs = fold bump xs []"

definition most_common :: "nat \<Rightarrow> string list \<Rightarrow> string list" where
  "most_common n xs = map fst (take n (sort_desc snd (counter xs)))"

definition path_segments :: "string \<Rightarrow> string list" where
  "path_segments f = split_char (CHR ''/'') (py_replace (CHR 0x5C) ''/'' f)"

definition path_prefix :: "string \<Rightarrow> string" where
  "path_prefix f =
     (case path_segments f of [] \<Rightarrow> [] | [p] \<Rightarrow> p | p # q # _ \<Rightarrow> p @ ''/'' @ q)"

text \<open>The characters of \<open>\<^verbatim>\<open>\w\<close>\<close>.\<close>

definition word_char :: "char \<Rightarrow> bool" where
  "word_char c =
     (let n = of_char c :: nat
      in (48 \<le> n \<and> n \<le> 57) \<or> (65 \<le> n \<and> n \<le> 90) \<or> (97 \<le> n \<and> n \<le> 122) \<or> n = 95
         \<or> n \<in> {170, 178, 179, 181, 185, 186, 188, 189, 190} \<or> (192 \<le> n \<and> n \<noteq> 215 \<and> n \<noteq> 247))"

definition subject_type :: "string \<Rightarrow> string option" where
  "subject_type s =
     (let w = takeWhile word_char s; r = dropWhile word_char s
      in if w \<noteq> [] \<and> r \<noteq> [] \<and> (hd r = CHR ''('' \<or> hd r = CHR '':'') then Some (py_lower w) else None)"

definition generate_label :: "char \<Rightarrow> git_commit list \<Rightarrow> string" where
  "generate_label dash commits =
     (let path_parts = map path_prefix (concat (map gc_files_changed commits));
          subject_types = map the (filter (\<lambda>t. t \<noteq> None) (map (\<lambda>c. subject_type (gc_subject c)) commits));
          label_parts = most_common 1 path_parts @ most_common 1 subject_types
      in if label_parts \<noteq> [] then py_join [CHR '' '', dash, CHR '' ''] label_parts
         else nat_text (length commits) @ '' commits'')"

definition make_cluster :: "char \<Rightarrow> git_commit list \<Rightarrow> commit_cluster" where
  "make_cluster dash g =
     (let sorted_group = sort_key commit_time g
      in \<lparr>cc_commits = sorted_group, cc_label = generate_label dash sorted_group,
          cc_time_span_days = of_int (commit_time (last sorted_group) - commit_time (hd sorted_group)) / (1000000 * 86400)\<rparr>)"

definition cluster_commits :: "char \<Rightarrow> git_commit list \<Rightarrow> int \<Rightarrow> rat \<Rightarrow> commit_cluster list" where
  "cluster_commits dash commits max_clusters time_window_hours =
     (if commits = [] then []
      else map (make_cluster dash)
             (cap_clusters (nat (max 1 max_clusters))
               (file_groups (time_groups time_window_hours (sort_key commit_time commits)))))"

section \<open>Texts\<close>

definition top_files :: "commit_cluster \<Rightarrow> nat \<Rightarrow> string list" where
  "top_files cl k = most_common k (concat (map gc_files_changed (cc_commits cl)))"

definition format_cluster_as_raw_memory :: "(datetime \<Rightarrow> string) \<Rightarrow> commit_cluster \<Rightarrow> string" where
  "format_cluster_as_raw_memory day cl =
     (let sorted_commits = sort_key commit_time (cc_commits cl);
          top_subjects = take 8 (map gc_subject (sort_desc churn (cc_commits cl)));
          primary_files = top_files cl 10
      in py_join [CHR 0x0A]
           ([''['' @ day (gc_date (hd sorted_commits)) @ '' to '' @ day (gc_date (last sorted_commits)) @ ''] '' @ cc_label cl,
             [], ''Key changes:''] @ map (\<lambda>s. ''  - '' @ s) top_subjects
            @ (if primary_files \<noteq> [] then [[], ''Primary files:''] @ map (\<lambda>f. ''  - '' @ f) primary_files else [])))"

definition shown_commits :: "commit_cluster \<Rightarrow> int \<Rightarrow> git_commit list" where
  "shown_commits cl max_commits =
     sort_key commit_time (py_prefix (sort_desc churn (cc_commits cl)) max_commits)"

definition int_text :: "int \<Rightarrow> string" where
  "int_text n = (if n < 0 then ''-'' @ nat_text (nat (- n)) else nat_text (nat n))"

definition commit_lines :: "(datetime \<Rightarrow> string) \<Rightarrow> bool \<Rightarrow> git_commit \<Rightarrow> string list" where
  "commit_lines day include_detail c =
     [''  ['' @ day (gc_date c) @ ''] '' @ gc_subject c]
     @ (if include_detail then
          (let body_snippet = py_strip (take 500 (gc_body c));
               files = py_join '', '' (take 10 (gc_files_changed c))
                 @ (if length (gc_files_changed c) > 10
                    then '' (+'' @ nat_text (length (gc_files_changed c) - 10) @ '' more)'' else [])
           in (if body_snippet \<noteq> [] then [''    '' @ body_snippet] else [])
              @ (if gc_files_changed c \<noteq> [] then [''    Files: '' @ files] else [])
              @ [''    +'' @ int_text (gc_insertions c) @ ''/-'' @ int_text (gc_deletions c)])
        else [])
     @ [[]]"

definition format_cluster_for_synthesis :: "(datetime \<Rightarrow> string) \<Rightarrow> commit_cluster \<Rightarrow> int \<Rightarrow> bool \<Rightarrow> string" where
  "format_cluster_for_synthesis day cl max_commits include_detail =
     (let shown = shown_commits cl max_commits; n = length (cc_commits cl)
      in py_join [CHR 0x0A]
           ([''Cluster: '' @ cc_label cl,
             ''Date range: '' @ day (gc_date (hd (cc_commits cl))) @ '' to '' @ day (gc_date (last (cc_commits cl))),
             ''Total commits: '' @ nat_text n]
            @ (if length shown < n
               then [''Showing: '' @ nat_text (length shown) @ '' of '' @ nat_text n
                     @ '' commits (largest-diff first, listed chronologically)'']
               else [])
            @ [[]] @ concat (map (commit_lines day include_detail) shown)))"

record cluster_summary =
  cs_label :: string
  cs_commit_count :: nat
  cs_shown_commit_count :: int
  cs_date_range :: string
  cs_created_at :: datetime
  cs_key_files :: "string list"
  cs_commits_summary :: string
  cs_suggested_tags :: "string list"

definition suggested_tags :: "string list \<Rightarrow> string list" where
  "suggested_tags files =
     (let path_parts = concat (map (\<lambda>f. case path_segments f of
              p # q # _ \<Rightarrow> [if p \<in> {''src'', ''tests'', ''plugins''} then q else p]
            | _ \<Rightarrow> []) (take 5 files))
      in ''git-derived'' # most_common 1 path_parts)"

definition cluster_to_summary :: "(datetime \<Rightarrow> string) \<Rightarrow> commit_cluster \<Rightarrow> int \<Rightarrow> bool \<Rightarrow> exc + cluster_summary" where
  "cluster_to_summary day cl max_commits include_detail =
     (let by_date = sort_key commit_time (cc_commits cl); files = top_files cl 10
      in case require_utc (gc_date (last by_date)) ''git author date'' of
           Inl e \<Rightarrow> Inl e
         | Inr t \<Rightarrow>
             Inr \<lparr>cs_label = cc_label cl, cs_commit_count = length (cc_commits cl),
                  cs_shown_commit_count = min max_commits (int (length (cc_commits cl))),
                  cs_date_range = day (gc_date (hd by_date)) @ '' to '' @ day (gc_date (last by_date)),
                  cs_created_at = t, cs_key_files = files,
                  cs_commits_summary = format_cluster_for_synthesis day cl max_commits include_detail,
                  cs_suggested_tags = suggested_tags files\<rparr>)"

end
