(* ===== verification/OC_Git_Policy.thy ===== *)
theory OC_Git_Policy
  imports OC_Git_Clusters
begin

text \<open>
  What reaches the \<open>git\<close> program (\<open>git_onboard.py\<close>): the URLs and branch names that are
  accepted, the arguments and the environment of \<open>git clone\<close>, and the redaction of its error
  output. Regular expressions are written out as the matches they make. The environment of
  the process is a map; a \<open>RuntimeError\<close> is \<^const>\<open>OtherError\<close>.
\<close>

section \<open>URLs and branches\<close>

definition name_char :: "char \<Rightarrow> bool" where
  "name_char c =
     (let n = of_char c :: nat
      in (48 \<le> n \<and> n \<le> 57) \<or> (65 \<le> n \<and> n \<le> 90) \<or> (97 \<le> n \<and> n \<le> 122)
         \<or> c = CHR ''.'' \<or> c = CHR ''_'' \<or> c = CHR ''-'')"

definition some_non_space :: "string \<Rightarrow> bool" where
  "some_non_space s = (takeWhile (\<lambda>c. \<not> is_space c) s \<noteq> [] \<and> at_end (dropWhile (\<lambda>c. \<not> is_space c) s))"

definition is_https_url :: "string \<Rightarrow> bool" where
  "is_https_url s = (prefix ''https://'' (py_lower s) \<and> some_non_space (drop 8 s))"

definition is_ssh_url :: "string \<Rightarrow> bool" where
  "is_ssh_url s = (prefix ''ssh://'' (py_lower s) \<and> some_non_space (drop 6 s))"

text \<open>One or more characters of the class, then the separator; what follows it.\<close>

definition skip_name :: "char \<Rightarrow> string \<Rightarrow> string option" where
  "skip_name sep s =
     (if takeWhile name_char s = [] then None
      else (case dropWhile name_char s of [] \<Rightarrow> None | c # cs \<Rightarrow> if c = sep then Some cs else None))"

definition is_scp_url :: "string \<Rightarrow> bool" where
  "is_scp_url s =
     (case Option.bind (skip_name (CHR ''@'') s) (skip_name (CHR '':'')) of
        None \<Rightarrow> False | Some r \<Rightarrow> some_non_space r)"

definition url_netloc :: "string \<Rightarrow> string" where
  "url_netloc s = takeWhile (\<lambda>c. c \<noteq> CHR ''/'') (drop 8 s)"

definition validate_repo_url :: "string \<Rightarrow> exc + unit" where
  "validate_repo_url repo_url =
     (if repo_url = [] \<or> \<not> (is_https_url repo_url \<or> is_ssh_url repo_url \<or> is_scp_url repo_url)
      then Inl (OtherError ''Unsupported repo URL'')
      else if is_https_url repo_url \<and> CHR ''@'' \<in> set (url_netloc repo_url)
      then Inl (OtherError ''Credentials embedded in the URL are not supported'')
      else if CHR ''?'' \<in> set repo_url \<or> CHR ''#'' \<in> set repo_url
      then Inl (OtherError ''query strings and fragments are not allowed in a clone URL'')
      else Inr ())"

definition is_github_https :: "string \<Rightarrow> bool" where
  "is_github_https s =
     (prefix ''https://github.com/'' s \<and>
      (case skip_name (CHR ''/'') (drop 19 s) of
         None \<Rightarrow> False
       | Some r \<Rightarrow>
           takeWhile name_char r \<noteq> [] \<and>
           (case dropWhile name_char r of
              c # cs \<Rightarrow> if c = CHR ''/'' then at_end cs else at_end (c # cs)
            | [] \<Rightarrow> True)))"

definition validate_server_repo_url :: "string \<Rightarrow> exc + unit" where
  "validate_server_repo_url repo_url =
     (case validate_repo_url repo_url of
        Inl e \<Rightarrow> Inl e
      | Inr _ \<Rightarrow>
          if is_github_https repo_url then Inr ()
          else Inl (OtherError ''This server only onboards https://github.com/<owner>/<repo> URLs''))"

definition alnum_char :: "char \<Rightarrow> bool" where
  "alnum_char c =
     (let n = of_char c :: nat in (48 \<le> n \<and> n \<le> 57) \<or> (65 \<le> n \<and> n \<le> 90) \<or> (97 \<le> n \<and> n \<le> 122))"

definition validate_branch :: "string \<Rightarrow> exc + unit" where
  "validate_branch branch =
     (case branch of
        [] \<Rightarrow> Inl (OtherError ''Invalid branch name'')
      | c # cs \<Rightarrow>
          if alnum_char c \<and> at_end (dropWhile (\<lambda>c. name_char c \<or> c = CHR ''/'') cs) then Inr ()
          else Inl (OtherError ''Invalid branch name''))"

section \<open>The clone command\<close>

definition clone_cmd :: "string \<Rightarrow> int \<Rightarrow> string option \<Rightarrow> string option \<Rightarrow> string \<Rightarrow> string list" where
  "clone_cmd repo_url max_commits since_commit branch tmpdir =
     [''git'', ''clone'', ''--quiet'', ''--no-checkout'']
     @ (if since_commit = None then [''--depth'', int_text (max_commits + 1)] else [])
     @ (case branch of None \<Rightarrow> [] | Some b \<Rightarrow> [''--branch'', b])
     @ [''--'', repo_url, tmpdir]"

section \<open>Its environment\<close>

type_synonym env = "string \<rightharpoonup> string"

definition GIT_ENV_PASSTHROUGH :: "string list" where
  "GIT_ENV_PASSTHROUGH =
     [''PATH'', ''HOME'', ''TMPDIR'', ''USERPROFILE'', ''SYSTEMROOT'', ''SYSTEMDRIVE'', ''COMSPEC'', ''PATHEXT'',
      ''Temp'', ''TMP'', ''LANG'', ''LC_ALL'', ''LC_CTYPE'', ''SSL_CERT_FILE'', ''SSL_CERT_DIR'', ''CURL_CA_BUNDLE'',
      ''GIT_SSL_CAINFO'', ''http_proxy'', ''https_proxy'', ''all_proxy'', ''no_proxy'', ''HTTP_PROXY'', ''HTTPS_PROXY'',
      ''ALL_PROXY'', ''NO_PROXY'', ''SSH_AUTH_SOCK'', ''GIT_SSH'', ''GIT_SSH_COMMAND'', ''GIT_CONFIG_GLOBAL'',
      ''GIT_CONFIG_NOSYSTEM'']"

definition git_child_env :: "env \<Rightarrow> env" where
  "git_child_env environ = (\<lambda>name. if name \<in> set GIT_ENV_PASSTHROUGH then environ name else None)"

text \<open>UTF-8 of code points up to 255, and base64 of bytes.\<close>

definition utf8 :: "string \<Rightarrow> nat list" where
  "utf8 s = concat (map (\<lambda>c. let n = of_char c in if n < 128 then [n] else [192 + n div 64, 128 + n mod 64]) s)"

definition BASE64 :: string where
  "BASE64 = ''ABCDEFGHIJKLMNOPQRSTUVWXYZabcdefghijklmnopqrstuvwxyz0123456789+/''"

definition b64 :: "nat \<Rightarrow> char" where
  "b64 n = BASE64 ! (n mod 64)"

fun b64encode :: "nat list \<Rightarrow> string" where
  "b64encode [] = []"
| "b64encode [a] = [b64 (a div 4), b64 (a * 16), CHR ''='', CHR ''='']"
| "b64encode [a, b] = [b64 (a div 4), b64 (a * 16 + b div 16), b64 (b * 4), CHR ''='']"
| "b64encode (a # b # c # bs) =
     b64 (a div 4) # b64 (a * 16 + b div 16) # b64 (b * 4 + c div 64) # b64 c # b64encode bs"

definition basic_b64 :: "string \<Rightarrow> string" where
  "basic_b64 token = b64encode (utf8 (''x-access-token:'' @ token))"

definition auth_header :: "string \<Rightarrow> string" where
  "auth_header token = [CHR 0x27] @ ''http.https://github.com/.extraheader=AUTHORIZATION: Basic '' @ basic_b64 token @ [CHR 0x27]"

definition build_clone_env :: "env \<Rightarrow> string \<Rightarrow> env" where
  "build_clone_env environ repo_url =
     (let env = (git_child_env environ)(''GIT_TERMINAL_PROMPT'' \<mapsto> ''0'')
      in case environ ''OC_GIT_TOKEN'' of
           None \<Rightarrow> env
         | Some token \<Rightarrow>
             if token \<noteq> [] \<and> prefix ''https://github.com/'' repo_url
             then env(''GIT_CONFIG_PARAMETERS'' \<mapsto> auth_header token)
             else env)"

section \<open>Redaction\<close>

text \<open>\<open>text.replace(old, new)\<close> for a non-empty \<open>old\<close>, from left to right.\<close>

function replace_all :: "string \<Rightarrow> string \<Rightarrow> string \<Rightarrow> string" where
  "replace_all old new [] = []"
| "replace_all old new (c # cs) =
     (if old \<noteq> [] \<and> prefix old (c # cs) then new @ replace_all old new (drop (length old) (c # cs))
      else c # replace_all old new cs)"
  by pat_completeness auto
termination
  by (relation "measure (\<lambda>(old, new, s). length s)") (auto simp: neq_Nil_conv)

text \<open>What follows the first occurrence of \<open>sep\<close>.\<close>

fun after_first :: "string \<Rightarrow> string \<Rightarrow> string option" where
  "after_first sep [] = (if sep = [] then Some [] else None)"
| "after_first sep (c # cs) =
     (if prefix sep (c # cs) then Some (drop (length sep) (c # cs)) else after_first sep cs)"

definition rstrip_quotes :: "string \<Rightarrow> string" where
  "rstrip_quotes s = rev (dropWhile (\<lambda>c. c = CHR 0x27) (rev s))"

definition clone_secrets :: "env \<Rightarrow> env \<Rightarrow> string list" where
  "clone_secrets environ clone_env =
     (case environ ''OC_GIT_TOKEN'' of None \<Rightarrow> [] | Some t \<Rightarrow> t)
     # (case after_first ''Basic '' (case clone_env ''GIT_CONFIG_PARAMETERS'' of None \<Rightarrow> [] | Some p \<Rightarrow> p) of
          None \<Rightarrow> [] | Some r \<Rightarrow> [rstrip_quotes r])"

definition redact_clone_secrets :: "env \<Rightarrow> string \<Rightarrow> env \<Rightarrow> string" where
  "redact_clone_secrets environ text clone_env =
     fold (\<lambda>secret text. if secret = [] then text else replace_all secret ''***'' text)
       (clone_secrets environ clone_env) text"

end
