(* ===== verification/OC_Git_Onboard.thy ===== *)
theory OC_Git_Onboard
  imports OC_Git_Policy OC_Portability
begin

text \<open>
  Git onboarding (\<open>git_onboard.py\<close> and the tool \<open>onboard_git\<close>): running \<open>git\<close>, reading its log,
  recovering from a watermark that is gone, and the orchestration with the store. The program
  \<open>git\<close> is a parameter, a function from arguments and environment to what the process did;
  \<open>now\<close> is the clock and \<open>new_id\<close> makes identifiers. A \<open>RuntimeError\<close> is \<^const>\<open>OtherError\<close> with
  its message.
\<close>

section \<open>Text operations\<close>

text \<open>\<open>s.partition(sep)\<close>: the text before and after the first occurrence, if there is one.\<close>

fun partition_at :: "string \<Rightarrow> string \<Rightarrow> (string \<times> string) option" where
  "partition_at sep [] = None"
| "partition_at sep (c # cs) =
     (if prefix sep (c # cs) then Some ([], drop (length sep) (c # cs))
      else map_option (\<lambda>(a, b). (c # a, b)) (partition_at sep cs))"

lemma partition_at_length: "partition_at sep s = Some (a, b) \<Longrightarrow> sep \<noteq> [] \<Longrightarrow> length b < length s"
  by (induction sep s arbitrary: a rule: partition_at.induct) (auto split: if_splits simp: neq_Nil_conv)

text \<open>\<open>s.split(sep)\<close> for a non-empty separator, and with a limit on the number of splits.\<close>

function split_str :: "string \<Rightarrow> string \<Rightarrow> string list" where
  "split_str sep s =
     (if sep = [] then [s]
      else (case partition_at sep s of None \<Rightarrow> [s] | Some (a, b) \<Rightarrow> a # split_str sep b))"
  by pat_completeness auto
termination
  by (relation "measure (\<lambda>(sep, s). length s)") (auto dest: partition_at_length)

declare split_str.simps [simp del]

fun split_max :: "nat \<Rightarrow> string \<Rightarrow> string \<Rightarrow> string list" where
  "split_max 0 sep s = [s]"
| "split_max (Suc n) sep s =
     (case partition_at sep s of None \<Rightarrow> [s] | Some (a, b) \<Rightarrow> a # split_max n sep b)"

section \<open>Running git\<close>

datatype git_run = NotInstalled | TimedOut | Exited int string string

type_synonym git_program = "string list \<Rightarrow> env \<Rightarrow> git_run"

record extracted_history =
  eh_commits :: "git_commit list"
  eh_branch :: string
  eh_head :: string
  eh_watermark_unreachable :: bool

definition resolve_ref :: "git_program \<Rightarrow> env \<Rightarrow> string \<Rightarrow> exc + string \<times> string" where
  "resolve_ref git environ repo_path =
     (case (git [''git'', ''-C'', repo_path, ''rev-parse'', ''--abbrev-ref'', ''HEAD''] (git_child_env environ),
            git [''git'', ''-C'', repo_path, ''rev-parse'', ''HEAD''] (git_child_env environ)) of
        (Exited rc1 out1 err1, Exited rc2 out2 err2) \<Rightarrow>
          if rc1 \<noteq> 0 \<or> rc2 \<noteq> 0 then Inl (OtherError (''git rev-parse failed: '' @ py_strip (err1 @ err2)))
          else Inr (py_strip out1, py_strip out2)
      | _ \<Rightarrow> Inl (OtherError ''rev-parse could not run''))"

definition SEPARATOR :: string where
  "SEPARATOR = ''---GIT_ONBOARD_SEP---''"

definition FIELD_SEP :: string where
  "FIELD_SEP = ''---GIT_ONBOARD_FIELD---''"

definition BODY_END :: string where
  "BODY_END = ''---GIT_ONBOARD_BODYEND---''"

definition log_cmd :: "string \<Rightarrow> int \<Rightarrow> string option \<Rightarrow> string list" where
  "log_cmd repo_path max_commits since_commit =
     [''git'', ''-C'', repo_path, ''log'']
     @ (case since_commit of None \<Rightarrow> [] | Some h \<Rightarrow> if h = [] then [] else [h @ ''..HEAD''])
     @ [''--max-count='' @ int_text max_commits, ''--no-merges'',
        ''--format='' @ SEPARATOR @ py_join FIELD_SEP [''%H'', ''%an'', ''%aI'', ''%s'', ''%b''] @ BODY_END, ''--numstat'']"

text \<open>A number of a \<open>--numstat\<close> line: a dash counts as 0, anything else must be a number.\<close>

definition numstat_count :: "string \<Rightarrow> int option" where
  "numstat_count s = (if s = ''-'' then Some 0 else py_int s)"

definition add_numstat :: "string \<Rightarrow> string list \<times> int \<times> int \<Rightarrow> string list \<times> int \<times> int" where
  "add_numstat line acc =
     (case acc of (files, insertions, deletions) \<Rightarrow>
       (case split_char (CHR 0x09) (py_strip line) of
          a # b # f # _ \<Rightarrow>
            (case (numstat_count a, numstat_count b) of
               (Some ins, Some dels) \<Rightarrow> (files @ [f], insertions + ins, deletions + dels)
             | _ \<Rightarrow> acc)
        | _ \<Rightarrow> acc))"

definition parse_commit_date :: "iso8601 \<Rightarrow> datetime \<Rightarrow> string \<Rightarrow> exc + datetime" where
  "parse_commit_date dt now date_str =
     (case iso_parse dt date_str of
        None \<Rightarrow> Inr now
      | Some t \<Rightarrow> map_sum id (\<lambda>_. t) (require_utc t ''git author date''))"

definition parse_entry :: "iso8601 \<Rightarrow> datetime \<Rightarrow> string \<Rightarrow> exc + git_commit option" where
  "parse_entry dt now raw =
     (case partition_at BODY_END (py_strip raw) of
        None \<Rightarrow> Inr None
      | Some (header_part, numstat_part) \<Rightarrow>
          (case split_max 4 FIELD_SEP header_part of
             commit_hash # author # date_str # subject # rest \<Rightarrow>
               (case parse_commit_date dt now date_str of
                  Inl e \<Rightarrow> Inl e
                | Inr date \<Rightarrow>
                    (case fold add_numstat (split_char (CHR 0x0A) numstat_part) ([], 0, 0) of
                       (files, insertions, deletions) \<Rightarrow>
                         Inr (Some \<lparr>gc_hash = commit_hash, gc_author = author, gc_date = date, gc_subject = subject,
                                   gc_body = py_strip (case rest of [] \<Rightarrow> [] | b # _ \<Rightarrow> b), gc_files_changed = files,
                                   gc_insertions = insertions, gc_deletions = deletions\<rparr>)))
           | _ \<Rightarrow> Inr None))"

fun parse_entries :: "iso8601 \<Rightarrow> datetime \<Rightarrow> string list \<Rightarrow> exc + git_commit list" where
  "parse_entries dt now [] = Inr []"
| "parse_entries dt now (raw # raws) =
     (case parse_entry dt now raw of
        Inl e \<Rightarrow> Inl e
      | Inr c \<Rightarrow> map_sum id (\<lambda>cs. (case c of None \<Rightarrow> cs | Some c \<Rightarrow> c # cs)) (parse_entries dt now raws))"

definition parse_log :: "iso8601 \<Rightarrow> datetime \<Rightarrow> string \<Rightarrow> exc + git_commit list" where
  "parse_log dt now output =
     (if py_strip output = [] then Inr [] else parse_entries dt now (split_str SEPARATOR output))"

definition extract_commits_from_git :: "git_program \<Rightarrow> env \<Rightarrow> iso8601 \<Rightarrow> datetime \<Rightarrow> string \<Rightarrow> int \<Rightarrow> string option \<Rightarrow>
    exc + git_commit list" where
  "extract_commits_from_git git environ dt now repo_path max_commits since_commit =
     (case git (log_cmd repo_path max_commits since_commit) (git_child_env environ) of
        NotInstalled \<Rightarrow> Inl (OtherError ''git is not installed or not in PATH'')
      | TimedOut \<Rightarrow> Inl (OtherError ''git log timed out after 60 seconds'')
      | Exited rc out err \<Rightarrow>
          if rc \<noteq> 0 then
            (let stderr = py_strip err
             in if py_in ''not a git repository'' (py_lower stderr)
                then Inl (OtherError (''Not a git repository: '' @ repo_path))
                else Inl (OtherError (''git log failed: '' @ stderr)))
          else parse_log dt now out)"

definition is_unreachable_revision_error :: "exc \<Rightarrow> bool" where
  "is_unreachable_revision_error e =
     (case e of
        OtherError msg \<Rightarrow>
          list_ex (\<lambda>marker. py_in marker (py_lower msg)) [''invalid revision range'', ''unknown revision'', ''bad revision'']
      | _ \<Rightarrow> False)"

definition extract_with_recovery :: "git_program \<Rightarrow> env \<Rightarrow> iso8601 \<Rightarrow> datetime \<Rightarrow> string \<Rightarrow> int \<Rightarrow> string option \<Rightarrow>
    exc + git_commit list \<times> bool" where
  "extract_with_recovery git environ dt now repo_path max_commits since_commit =
     (let full = extract_commits_from_git git environ dt now repo_path max_commits None
      in case since_commit of
           None \<Rightarrow> map_sum id (\<lambda>cs. (cs, False)) full
         | Some h \<Rightarrow>
             (case extract_commits_from_git git environ dt now repo_path max_commits (Some h) of
                Inr cs \<Rightarrow> Inr (cs, False)
              | Inl e \<Rightarrow> if is_unreachable_revision_error e then map_sum id (\<lambda>cs. (cs, True)) full else Inl e))"

definition extract_history_from_path :: "git_program \<Rightarrow> env \<Rightarrow> iso8601 \<Rightarrow> datetime \<Rightarrow> string \<Rightarrow> int \<Rightarrow> string option \<Rightarrow>
    exc + extracted_history" where
  "extract_history_from_path git environ dt now repo_path max_commits since_commit =
     (case resolve_ref git environ repo_path of
        Inl e \<Rightarrow> Inl e
      | Inr (branch, head) \<Rightarrow>
          map_sum id (\<lambda>(cs, unreachable). \<lparr>eh_commits = cs, eh_branch = branch, eh_head = head,
              eh_watermark_unreachable = unreachable\<rparr>)
            (extract_with_recovery git environ dt now repo_path max_commits since_commit))"

text \<open>\<open>redact_url\<close> stands for \<open>redact_url_userinfo\<close>, which rests on \<open>urllib\<close>.\<close>

definition extract_commits_from_url :: "(string \<Rightarrow> string) \<Rightarrow> git_program \<Rightarrow> env \<Rightarrow> iso8601 \<Rightarrow> datetime \<Rightarrow> string \<Rightarrow> string \<Rightarrow>
    int \<Rightarrow> string option \<Rightarrow> string option \<Rightarrow> exc + extracted_history" where
  "extract_commits_from_url redact_url git environ dt now tmpdir repo_url max_commits since_commit branch =
     (case validate_repo_url repo_url of
        Inl e \<Rightarrow> Inl e
      | Inr _ \<Rightarrow>
          (case (case branch of None \<Rightarrow> Inr () | Some b \<Rightarrow> validate_branch b) of
             Inl e \<Rightarrow> Inl e
           | Inr _ \<Rightarrow>
               (let clone_env = build_clone_env environ repo_url
                in case git (clone_cmd repo_url max_commits since_commit branch tmpdir) clone_env of
                     NotInstalled \<Rightarrow> Inl (OtherError ''git is not installed or not in PATH'')
                   | TimedOut \<Rightarrow> Inl (OtherError ''git clone timed out after 300 seconds'')
                   | Exited rc out err \<Rightarrow>
                       if rc \<noteq> 0
                       then Inl (OtherError (''git clone failed for '' @ redact_url repo_url @ '': ''
                              @ redact_clone_secrets environ (py_strip err) clone_env))
                       else extract_history_from_path git environ dt now tmpdir max_commits since_commit)))"

section \<open>The watermark and the store\<close>

definition hex_char :: "char \<Rightarrow> bool" where
  "hex_char c = (let n = of_char c :: nat in (48 \<le> n \<and> n \<le> 57) \<or> (65 \<le> n \<and> n \<le> 70) \<or> (97 \<le> n \<and> n \<le> 102))"

definition is_watermark_hash :: "string \<Rightarrow> bool" where
  "is_watermark_hash s =
     (let h = takeWhile hex_char s in 7 \<le> length h \<and> length h \<le> 64 \<and> at_end (dropWhile hex_char s))"

fun delete_memories :: "memory_item list \<Rightarrow> store \<Rightarrow> unit store_result" where
  "delete_memories [] s = (Inr (), s)"
| "delete_memories (m # ms) s =
     (case delete_memory (m_id m) s of
        (Inl e, s1) \<Rightarrow> (Inl e, s1)
      | (Inr _, s1) \<Rightarrow> delete_memories ms s1)"

definition watermark_item :: "string \<Rightarrow> datetime \<Rightarrow> string \<Rightarrow> string \<Rightarrow> memory_item" where
  "watermark_item new_id now project_id latest_hash =
     \<lparr>m_id = new_id, m_content = latest_hash, m_tags = [WATERMARK_SOURCE], m_created_at = now, m_pinned = False,
      m_project_id = Some project_id, m_source = WATERMARK_SOURCE, m_updated_at = None\<rparr>"

definition save_watermark :: "string \<Rightarrow> datetime \<Rightarrow> string \<Rightarrow> string \<Rightarrow> store \<Rightarrow> unit store_result" where
  "save_watermark new_id now project_id latest_hash s =
     (case delete_memories (list_memory_by_source WATERMARK_SOURCE (Some project_id) s) s of
        (Inl e, s1) \<Rightarrow> (Inl e, s1)
      | (Inr _, s1) \<Rightarrow> add_memory (watermark_item new_id now project_id latest_hash) s1)"

record onboard_prepared =
  op_status :: string
  op_history :: extracted_history
  op_filtered :: "git_commit list"
  op_clusters :: "commit_cluster list"
  op_watermark_before :: "string option"
  op_existing_count :: nat

definition empty_history :: extracted_history where
  "empty_history = \<lparr>eh_commits = [], eh_branch = [], eh_head = [], eh_watermark_unreachable = False\<rparr>"

definition prepared :: "string \<Rightarrow> onboard_prepared" where
  "prepared status = \<lparr>op_status = status, op_history = empty_history, op_filtered = [], op_clusters = [],
     op_watermark_before = None, op_existing_count = 0\<rparr>"

definition incremental :: "onboard_prepared \<Rightarrow> bool" where
  "incremental p = (op_watermark_before p \<noteq> None \<and> \<not> eh_watermark_unreachable (op_history p))"

text \<open>The content of the newest watermark row, if it looks like a hash.\<close>

definition stored_watermark :: "string \<Rightarrow> store \<Rightarrow> string option" where
  "stored_watermark project_id s =
     (case list_memory_by_source WATERMARK_SOURCE (Some project_id) s of
        [] \<Rightarrow> None
      | m # _ \<Rightarrow> if is_watermark_hash (m_content m) then Some (m_content m) else None)"

definition onboard_walk :: "char \<Rightarrow> string \<Rightarrow> datetime \<Rightarrow> (string option \<Rightarrow> exc + extracted_history) \<Rightarrow> string \<Rightarrow> int \<Rightarrow>
    string option \<Rightarrow> store \<Rightarrow> onboard_prepared store_result" where
  "onboard_walk dash new_id now extract project_id max_clusters watermark_hash s =
     (case extract watermark_hash of
        Inl e \<Rightarrow> (Inl e, s)
      | Inr history \<Rightarrow>
          (case eh_commits history of
             [] \<Rightarrow>
               if watermark_hash \<noteq> None
               then (Inr ((prepared ''up_to_date'')\<lparr>op_history := history, op_watermark_before := watermark_hash\<rparr>), s)
               else (Inr ((prepared ''empty'')\<lparr>op_history := history\<rparr>), s)
           | c0 # _ \<Rightarrow>
               (let filtered = filter_commits (eh_commits history);
                    clusters = cluster_commits dash filtered max_clusters 72
                in case save_watermark new_id now project_id (gc_hash c0) s of
                     (Inl e, s1) \<Rightarrow> (Inl e, s1)
                   | (Inr _, s1) \<Rightarrow>
                       (Inr \<lparr>op_status = ''ok'', op_history = history, op_filtered = filtered, op_clusters = clusters,
                             op_watermark_before = watermark_hash, op_existing_count = 0\<rparr>, s1))))"

definition onboard_git_prepare :: "char \<Rightarrow> string \<Rightarrow> datetime \<Rightarrow> (string option \<Rightarrow> exc + extracted_history) \<Rightarrow> string \<Rightarrow> int \<Rightarrow>
    bool \<Rightarrow> store \<Rightarrow> onboard_prepared store_result" where
  "onboard_git_prepare dash new_id now extract project_id max_clusters force s =
     (let existing = list_memory_by_source ''git-onboard'' (Some project_id) s;
          watermark_items = list_memory_by_source WATERMARK_SOURCE (Some project_id) s;
          watermark_hash = stored_watermark project_id s
      in if force then
           (case delete_memories (existing @ watermark_items) s of
              (Inl e, s1) \<Rightarrow> (Inl e, s1)
            | (Inr _, s1) \<Rightarrow> onboard_walk dash new_id now extract project_id max_clusters None s1)
         else if existing \<noteq> [] \<and> watermark_hash = None
         then (Inr ((prepared ''exists'')\<lparr>op_existing_count := length existing\<rparr>), s)
         else onboard_walk dash new_id now extract project_id max_clusters watermark_hash s)"

section \<open>The command line: clusters as memories\<close>

definition newest_date :: "git_commit list \<Rightarrow> datetime" where
  "newest_date cs = gc_date (foldl (\<lambda>a c. if commit_time a < commit_time c then c else a) (hd cs) (tl cs))"

definition cluster_memory :: "(datetime \<Rightarrow> string) \<Rightarrow> string \<Rightarrow> string \<Rightarrow> commit_cluster \<Rightarrow> memory_item" where
  "cluster_memory day new_id project_id cl =
     \<lparr>m_id = new_id, m_content = format_cluster_as_raw_memory day cl, m_tags = [''git-derived''],
      m_created_at = newest_date (cc_commits cl), m_pinned = False, m_project_id = Some project_id,
      m_source = ''git-onboard'', m_updated_at = None\<rparr>"

text \<open>\<open>ids\<close>: the identifiers of the new memories, in turn.\<close>

fun materialize_clusters :: "(datetime \<Rightarrow> string) \<Rightarrow> string \<Rightarrow> (string \<times> commit_cluster) list \<Rightarrow> store \<Rightarrow> memory_item list store_result" where
  "materialize_clusters day project_id [] s = (Inr [], s)"
| "materialize_clusters day project_id ((new_id, cl) # rest) s =
     (let item = cluster_memory day new_id project_id cl
      in case add_memory item s of
           (Inl e, s1) \<Rightarrow> (Inl e, s1)
         | (Inr _, s1) \<Rightarrow>
             (case materialize_clusters day project_id rest s1 of
                (Inl e, s2) \<Rightarrow> (Inl e, s2)
              | (Inr items, s2) \<Rightarrow> (Inr (item # items), s2)))"

end
