(* ===== verification/OC_Git_Cluster_Props.thy ===== *)
theory OC_Git_Cluster_Props
  imports OC_Git_Clusters
begin

text \<open>
  Clustering keeps every commit: each pass turns a division of the history into blocks into
  another one by joining neighbours, and the blocks stay in order of time, with a gap longer
  than the window between any two of them.
\<close>

section \<open>Divisions into blocks\<close>

definition divides :: "('a \<Rightarrow> 'a \<Rightarrow> bool) \<Rightarrow> 'a list \<Rightarrow> 'a list list \<Rightarrow> bool" where
  "divides R cs gs \<longleftrightarrow> mset (concat gs) = mset cs \<and> [] \<notin> set gs \<and>
     sorted_wrt (\<lambda>g h. \<forall>x \<in> set g. \<forall>y \<in> set h. R x y) gs"

lemma divides_join:
  assumes "divides R cs (xs @ [a, b] @ ys)" "mset ab = mset a + mset b"
  shows "divides R cs (xs @ [ab] @ ys)"
proof -
  have s: "set ab = set a \<union> set b" using assms(2) by (metis set_mset_mset set_mset_union)
  have ne: "ab \<noteq> []" using assms by (auto simp: divides_def)
  have "mset (concat (xs @ [ab] @ ys)) = mset (concat (xs @ [a, b] @ ys))" using assms(2) by simp
  moreover have "sorted_wrt (\<lambda>g h. \<forall>x \<in> set g. \<forall>y \<in> set h. R x y) (xs @ [ab] @ ys)"
    using assms(1) by (auto simp: divides_def sorted_wrt_append s)
  moreover have "[] \<notin> set (xs @ [ab] @ ys)" using assms(1) ne by (auto simp: divides_def)
  ultimately show ?thesis using assms(1) unfolding divides_def by metis
qed

lemma divides_nonempty: "divides R cs gs \<Longrightarrow> cs \<noteq> [] \<Longrightarrow> gs \<noteq> []"
  by (auto simp: divides_def)

lemma list_as_pair:
  assumes "i + 1 < length xs"
  shows "xs = take i xs @ [xs ! i, xs ! (i + 1)] @ drop (i + 2) xs"
proof -
  have "drop i xs = xs ! i # xs ! (i + 1) # drop (i + 2) xs"
    using assms by (simp add: Cons_nth_drop_Suc)
  then show ?thesis by (metis append_Cons append_Nil append_take_drop_id)
qed

section \<open>The passes\<close>

definition apart :: "rat \<Rightarrow> git_commit \<Rightarrow> git_commit \<Rightarrow> bool" where
  "apart window x y \<longleftrightarrow> commit_time x \<le> commit_time y \<and> gap_hours x y > window"

lemma gap_mono: "commit_time x \<le> commit_time x' \<Longrightarrow> gap_hours x' y \<le> gap_hours x y"
  by (simp add: gap_hours_def divide_right_mono)

lemma gap_mono_right: "commit_time y \<le> commit_time y' \<Longrightarrow> gap_hours x y \<le> gap_hours x y'"
  by (simp add: gap_hours_def divide_right_mono)

lemma sorted_last_max: "sorted (map f xs) \<Longrightarrow> x \<in> set xs \<Longrightarrow> f x \<le> f (last xs)"
  by (induction xs rule: rev_induct) (auto simp: sorted_append)

lemma sorted_add_by_time:
  assumes "divides (apart w) cs gs" "concat gs = cs" "gs \<noteq> []" "sorted (map commit_time (cs @ [c]))"
  shows "divides (apart w) (cs @ [c]) (add_by_time w gs c) \<and> concat (add_by_time w gs c) = cs @ [c] \<and> add_by_time w gs c \<noteq> []"
proof -
  obtain bs l where gs: "gs = bs @ [l]" using assms(3) by (metis rev_exhaust)
  have cat: "cs = concat bs @ l" using gs assms(2) by simp
  have nel: "l \<noteq> []" using assms(1) gs by (auto simp: divides_def)
  have le: "commit_time x \<le> commit_time c" if "x \<in> set cs" for x using assms(4) that by (auto simp: sorted_append)
  show ?thesis
  proof (cases "gap_hours (last l) c > w")
    case True
    have "sorted (map commit_time cs)" "last cs = last l" using assms(4) cat nel by (auto simp: sorted_append)
    then have "commit_time x \<le> commit_time (last l)" if "x \<in> set cs" for x
      using sorted_last_max [of commit_time cs x] that by simp
    then have far: "apart w x c" if "x \<in> set (concat gs)" for x
      using gap_mono [of x "last l" c] True le [of x] that assms(2) by (auto simp: apart_def)
    have "divides (apart w) (cs @ [c]) (gs @ [[c]])"
      using assms(1) far by (auto simp: divides_def sorted_wrt_append)
    then show ?thesis using True assms(2) gs by (simp add: add_by_time_def)
  next
    case False
    have "apart w x c" if "g \<in> set bs" "x \<in> set g" for g x
    proof -
      have "apart w x (last l)" using assms(1) that nel gs by (auto simp: divides_def sorted_wrt_append)
      moreover have "commit_time (last l) \<le> commit_time c" using le cat nel by simp
      ultimately show ?thesis using gap_mono_right [of "last l" c x] by (auto simp: apart_def)
    qed
    then have "divides (apart w) (cs @ [c]) (bs @ [l @ [c]])"
      using assms(1) gs unfolding divides_def by (auto simp: sorted_wrt_append)
    then show ?thesis using False cat gs by (simp add: add_by_time_def)
  qed
qed

lemma divides_time_groups:
  assumes "sorted (map commit_time cs)" "cs \<noteq> []"
  shows "divides (apart w) cs (time_groups w cs)"
proof -
  obtain c ds where cs: "cs = c # ds" using assms(2) by (cases cs) auto
  have "divides (apart w) (c # ds) (foldl (add_by_time w) [[c]] ds) \<and> concat (foldl (add_by_time w) [[c]] ds) = c # ds \<and>
      foldl (add_by_time w) [[c]] ds \<noteq> []"
    if "sorted (map commit_time (c # ds))" for ds
    using that
  proof (induction ds rule: rev_induct)
    case Nil
    then show ?case by (simp add: divides_def)
  next
    case (snoc d ds)
    then have "sorted (map commit_time (c # ds))" by (simp add: sorted_append)
    with snoc show ?case
      using sorted_add_by_time [of w "c # ds" "foldl (add_by_time w) [[c]] ds" d] by simp
  qed
  then show ?thesis using assms(1) cs by (simp add: time_groups_def)
qed

lemma divides_snoc_join:
  "divides R cs (gs @ [a, b] @ hs) \<Longrightarrow> divides R cs (gs @ [a @ b] @ hs)"
  by (rule divides_join) auto

lemma divides_file_groups:
  assumes "divides R cs gs" "gs \<noteq> []"
  shows "divides R cs (file_groups gs)"
proof -
  have "divides R cs (foldl add_by_files ms hs)" if "divides R cs (ms @ hs)" "ms \<noteq> []" for ms hs
    using that
  proof (induction hs arbitrary: ms)
    case (Cons h hs)
    have "ms @ h # hs = butlast ms @ [last ms, h] @ hs" using Cons.prems(2) by (metis append_butlast_last_id append.assoc append_Cons append_Nil)
    then have "divides R cs (butlast ms @ [last ms, h] @ hs)" using Cons.prems(1) by metis
    then have "divides R cs (butlast ms @ [last ms @ h] @ hs)" by (rule divides_snoc_join)
    then have "divides R cs (add_by_files ms h @ hs)" using Cons.prems by (auto simp: add_by_files_def)
    then show ?case using Cons.IH by (simp add: add_by_files_def)
  qed simp
  from this [of "[hd gs]" "tl gs"] show ?thesis using assms by (cases gs) (auto simp: file_groups_def)
qed

lemma divides_merge_smallest:
  assumes "divides R cs gs" "2 \<le> length gs"
  shows "divides R cs (merge_smallest gs)"
proof (cases "smallest_idx gs")
  case 0
  have "divides R cs ([] @ [gs ! 0, gs ! 1] @ drop 2 gs)" using assms list_as_pair [of 0 gs] by (simp add: numeral_2_eq_2)
  then have "divides R cs ([] @ [gs ! 1 @ gs ! 0] @ drop 2 gs)" by (rule divides_join) simp
  then show ?thesis using 0 by (simp add: merge_smallest_def)
next
  case (Suc k)
  have "gs \<noteq> []" using assms(2) by auto
  then have "k + 1 < length gs" using smallest_idx_less [of gs] Suc by simp
  then have "divides R cs (take k gs @ [gs ! k, gs ! (k + 1)] @ drop (k + 2) gs)" using assms(1) list_as_pair [of k gs] by simp
  then have "divides R cs (take k gs @ [gs ! k @ gs ! (k + 1)] @ drop (k + 2) gs)" by (rule divides_snoc_join)
  then show ?thesis using Suc by (simp add: merge_smallest_def)
qed

lemma divides_cap_clusters: "divides R cs gs \<Longrightarrow> divides R cs (cap_clusters n gs)"
proof (induction n gs rule: cap_clusters.induct)
  case (1 n gs)
  show ?case
  proof (cases "length gs \<le> max 1 n")
    case False
    then have "divides R cs (merge_smallest gs)" using divides_merge_smallest "1.prems" by fastforce
    then show ?thesis using "1.IH" False by (simp add: cap_clusters.simps [of n gs])
  qed (use "1.prems" in \<open>simp add: cap_clusters.simps [of n gs]\<close>)
qed

lemma length_cap_clusters: "length (cap_clusters n gs) \<le> max 1 n"
proof (induction n gs rule: cap_clusters.induct)
  case (1 n gs)
  then show ?case by (cases "length gs \<le> max 1 n") (simp_all add: cap_clusters.simps [of n gs])
qed

lemma cluster_commits_divides:
  assumes "commits \<noteq> []"
  obtains gs where "cluster_commits dash commits n w = map (make_cluster dash) gs"
    "divides (apart w) commits gs" "length gs \<le> nat (max 1 n)"
proof -
  let ?cs = "sort_key commit_time commits"
  let ?gs = "cap_clusters (nat (max 1 n)) (file_groups (time_groups w ?cs))"
  have ne: "?cs \<noteq> []" using assms by (metis length_0_conv length_sort)
  have tg: "divides (apart w) ?cs (time_groups w ?cs)" using ne by (intro divides_time_groups) simp_all
  then have "divides (apart w) ?cs ?gs"
    using divides_cap_clusters divides_file_groups divides_nonempty [OF tg ne] by blast
  then have "divides (apart w) commits ?gs" by (simp add: divides_def)
  moreover have "length ?gs \<le> nat (max 1 n)" 
    using length_cap_clusters [of "nat (max 1 n)" "file_groups (time_groups w ?cs)"] by simp
  ultimately show thesis using that assms by (simp add: cluster_commits_def)
qed

end
