(* ===== verification/OC_Git_Theorems.thy ===== *)
theory OC_Git_Theorems
  imports OC_Git_Cluster_Props OC_Git_Policy
begin

text \<open>
  The theorems about git onboarding: clustering loses no commit and keeps neighbours
  together, the server clones from GitHub only, and the token reaches neither the environment
  of \<open>git\<close> nor an error message.
\<close>

section \<open>Clusters\<close>

lemma make_cluster_commits [simp]:
  "mset (cc_commits (make_cluster dash g)) = mset g" "set (cc_commits (make_cluster dash g)) = set g"
  "sorted (map commit_time (cc_commits (make_cluster dash g)))"
  by (simp_all add: make_cluster_def Let_def)

lemma mset_concat_clusters: "mset (concat (map cc_commits (map (make_cluster dash) gs))) = mset (concat gs)"
  by (induction gs) simp_all

text \<open>
  C17. Clustering a history, with any cap (also zero or negative) and any time window, puts every
  commit in exactly one cluster, makes at least one and at most the asked number of non-empty
  clusters, each in order of time, and never parts neighbours: of two commits in different
  clusters, the one in the earlier cluster is older by more than the time window.
\<close>

theorem cluster_commits_partition:
  assumes "commits \<noteq> []"
  shows "mset (concat (map cc_commits (cluster_commits dash commits n window))) = mset commits \<and>
    1 \<le> length (cluster_commits dash commits n window) \<and>
    int (length (cluster_commits dash commits n window)) \<le> max 1 n \<and>
    list_all (\<lambda>cl. cc_commits cl \<noteq> [] \<and> sorted (map commit_time (cc_commits cl))) (cluster_commits dash commits n window) \<and>
    sorted_wrt (\<lambda>A B. \<forall>x \<in> set (cc_commits A). \<forall>y \<in> set (cc_commits B).
      commit_time x \<le> commit_time y \<and> gap_hours x y > window) (cluster_commits dash commits n window)"
proof -
  obtain gs where gs: "cluster_commits dash commits n window = map (make_cluster dash) gs"
    "divides (apart window) commits gs" "length gs \<le> nat (max 1 n)"
    using cluster_commits_divides [OF assms] by blast
  have "mset (concat (map cc_commits (map (make_cluster dash) gs))) = mset commits"
    using mset_concat_clusters [of dash gs] gs(2) by (simp add: divides_def)
  moreover have "1 \<le> length gs" using divides_nonempty [OF gs(2) assms] by (simp add: Suc_le_eq)
  moreover have "int (length gs) \<le> max 1 n" using gs(3) by linarith
  moreover have "cc_commits (make_cluster dash g) \<noteq> []" if "g \<in> set gs" for g
  proof -
    have "g \<noteq> []" using gs(2) that by (auto simp: divides_def)
    then show ?thesis by (metis make_cluster_commits(2) set_empty)
  qed
  ultimately show ?thesis
    using gs(2) make_cluster_commits(3) [unfolded sorted_map] unfolding gs(1)
    by (auto simp: divides_def apart_def sorted_wrt_map list_all_iff)
qed

definition sample_commit :: "string \<Rightarrow> int \<Rightarrow> git_commit" where
  "sample_commit h day = \<lparr>gc_hash = h, gc_author = ''a'', gc_date = \<lparr>wall = 86400000000 * day, utcoffset = Some 0\<rparr>,
     gc_subject = ''feat: x'', gc_body = [], gc_files_changed = [''src/a.py''], gc_insertions = 1, gc_deletions = 0\<rparr>"

theorem cluster_commits_partition_witness:
  "mset (concat (map cc_commits (cluster_commits (CHR ''-'') [sample_commit ''a'' 1, sample_commit ''b'' 9] 0 72))) =
     mset [sample_commit ''a'' 1, sample_commit ''b'' 9] \<and>
   length (cluster_commits (CHR ''-'') [sample_commit ''a'' 1, sample_commit ''b'' 9] 0 72) = 1"
  using cluster_commits_partition [of "[sample_commit ''a'' 1, sample_commit ''b'' 9]" "CHR ''-''" 0 72] by auto

section \<open>Where the server clones from\<close>

lemma skip_name_iff:
  assumes "\<not> name_char sep"
  shows "skip_name sep s = Some r \<longleftrightarrow> (\<exists>w. s = w @ sep # r \<and> w \<noteq> [] \<and> set w \<subseteq> Collect name_char)"
proof
  assume "skip_name sep s = Some r"
  then have "dropWhile name_char s = sep # r" "takeWhile name_char s \<noteq> []"
    by (auto simp: skip_name_def split: if_splits list.splits)
  then show "\<exists>w. s = w @ sep # r \<and> w \<noteq> [] \<and> set w \<subseteq> Collect name_char"
    by (metis takeWhile_dropWhile_id set_takeWhileD mem_Collect_eq subsetI)
next
  assume "\<exists>w. s = w @ sep # r \<and> w \<noteq> [] \<and> set w \<subseteq> Collect name_char"
  then obtain w where "s = w @ sep # r" "w \<noteq> []" "\<forall>x \<in> set w. name_char x" by auto
  then show "skip_name sep s = Some r"
    using takeWhile_append_stop [of w name_char "sep # r"] assms by (simp add: skip_name_def)
qed

lemma name_char_not [simp]:
  "\<not> name_char (CHR ''/'')" "\<not> name_char (CHR ''@'')" "\<not> name_char (CHR ''?'')" "\<not> name_char (CHR ''#'')"
  "\<not> name_char (CHR '':'')" "\<not> name_char (CHR 0x0A)"
  by (simp_all add: name_char_def)

definition url_tails :: "string set" where
  "url_tails = {[], ''/'', [CHR 0x0A], [CHR ''/'', CHR 0x0A]}"

lemma github_tail_iff:
  "(takeWhile name_char r \<noteq> [] \<and> (case dropWhile name_char r of
      c # cs \<Rightarrow> if c = CHR ''/'' then at_end cs else at_end (c # cs) | [] \<Rightarrow> True)) \<longleftrightarrow>
   (\<exists>repo tail. r = repo @ tail \<and> repo \<noteq> [] \<and> set repo \<subseteq> Collect name_char \<and> tail \<in> url_tails)"
proof
  assume l: "takeWhile name_char r \<noteq> [] \<and> (case dropWhile name_char r of
      c # cs \<Rightarrow> if c = CHR ''/'' then at_end cs else at_end (c # cs) | [] \<Rightarrow> True)"
  then have "dropWhile name_char r \<in> url_tails"
    by (auto simp: url_tails_def at_end_def split: list.splits if_splits)
  moreover have "set (takeWhile name_char r) \<subseteq> Collect name_char" by (auto dest: set_takeWhileD)
  ultimately show "\<exists>repo tail. r = repo @ tail \<and> repo \<noteq> [] \<and> set repo \<subseteq> Collect name_char \<and> tail \<in> url_tails"
    using l by (metis takeWhile_dropWhile_id)
next
  assume "\<exists>repo tail. r = repo @ tail \<and> repo \<noteq> [] \<and> set repo \<subseteq> Collect name_char \<and> tail \<in> url_tails"
  then obtain repo tl where r: "r = repo @ tl" "repo \<noteq> []" "\<forall>x \<in> set repo. name_char x" "tl \<in> url_tails" by auto
  then have "takeWhile name_char r = repo \<and> dropWhile name_char r = tl"
    using takeWhile_append_stop [of repo name_char tl] by (auto simp: url_tails_def)
  then show "takeWhile name_char r \<noteq> [] \<and> (case dropWhile name_char r of
      c # cs \<Rightarrow> if c = CHR ''/'' then at_end cs else at_end (c # cs) | [] \<Rightarrow> True)"
    using r by (auto simp: url_tails_def at_end_def)
qed

lemma github_url_iff:
  "is_github_https u \<longleftrightarrow> (\<exists>owner repo tail. u = ''https://github.com/'' @ owner @ ''/'' @ repo @ tail \<and> owner \<noteq> [] \<and>
     repo \<noteq> [] \<and> set owner \<subseteq> Collect name_char \<and> set repo \<subseteq> Collect name_char \<and> tail \<in> url_tails)"
proof -
  have u: "prefix ''https://github.com/'' u \<longleftrightarrow> (\<exists>r. u = ''https://github.com/'' @ r)" by (auto simp: prefix_def)
  have "is_github_https u \<longleftrightarrow> (\<exists>r. u = ''https://github.com/'' @ r \<and> (\<exists>q. skip_name (CHR ''/'') r = Some q \<and>
      takeWhile name_char q \<noteq> [] \<and> (case dropWhile name_char q of
        c # cs \<Rightarrow> if c = CHR ''/'' then at_end cs else at_end (c # cs) | [] \<Rightarrow> True)))"
    unfolding is_github_https_def u by (auto split: option.splits)
  also have "\<dots> \<longleftrightarrow> (\<exists>r. u = ''https://github.com/'' @ r \<and> (\<exists>q. (\<exists>w. r = w @ CHR ''/'' # q \<and> w \<noteq> [] \<and>
      set w \<subseteq> Collect name_char) \<and> (\<exists>repo tail. q = repo @ tail \<and> repo \<noteq> [] \<and> set repo \<subseteq> Collect name_char \<and> tail \<in> url_tails)))"
    unfolding github_tail_iff skip_name_iff [OF name_char_not(1)] ..
  also have "\<dots> \<longleftrightarrow> (\<exists>owner repo tail. u = ''https://github.com/'' @ owner @ ''/'' @ repo @ tail \<and> owner \<noteq> [] \<and>
     repo \<noteq> [] \<and> set owner \<subseteq> Collect name_char \<and> set repo \<subseteq> Collect name_char \<and> tail \<in> url_tails)"
    by auto
  finally show ?thesis .
qed

lemma name_char_no_space: "name_char c \<Longrightarrow> \<not> is_space c"
  by (auto simp: name_char_def is_space_def Let_def)

lemma some_non_spaceI:
  assumes "u \<noteq> []" "\<forall>c \<in> set u. \<not> is_space c" "at_end v"
  shows "some_non_space (u @ v)"
  using assms takeWhile_append_stop [of u "\<lambda>c. \<not> is_space c" v]
  by (auto simp: some_non_space_def at_end_def is_space_def)

text \<open>A URL of that form passes the general checks too.\<close>

lemma github_url_valid:
  assumes "owner \<noteq> []" "repo \<noteq> []" "set owner \<subseteq> Collect name_char" "set repo \<subseteq> Collect name_char" "tail \<in> url_tails"
  shows "validate_repo_url (''https://github.com/'' @ owner @ ''/'' @ repo @ tail) = Inr ()"
proof -
  let ?u = "''https://github.com/'' @ owner @ ''/'' @ repo @ tail"
  obtain a b where tl: "tail = a @ b" "a \<in> {[], ''/''}" "at_end b"
    using assms(5) that [of "[]" "[]"] that [of "''/''" "[]"] that [of "[]" "[CHR 0x0A]"] that [of "''/''" "[CHR 0x0A]"]
    by (auto simp: url_tails_def at_end_def)
  have chars: "name_char c" if "c \<in> set owner \<union> set repo" for c using that assms(3,4) by auto
  have "some_non_space ((''github.com/'' @ owner @ ''/'' @ repo @ a) @ b)"
    using tl chars name_char_no_space by (intro some_non_spaceI) (auto simp: is_space_def)
  then have https: "is_https_url ?u" by (simp add: is_https_url_def tl(1) py_lower_def lower_char_def)
  have netloc: "url_netloc ?u = ''github.com''" by (simp add: url_netloc_def)
  have "CHR ''?'' \<notin> set tail" "CHR ''#'' \<notin> set tail" using assms(5) by (auto simp: url_tails_def)
  then have "CHR ''?'' \<notin> set ?u" "CHR ''#'' \<notin> set ?u"
    using chars [of "CHR ''?''"] chars [of "CHR ''#''"] by auto
  then show ?thesis using https netloc by (simp add: validate_repo_url_def)
qed

text \<open>
  C19. The server accepts exactly the URLs \<open>https://github.com/<owner>/<repo>\<close>, with one optional
  slash (and one optional line feed) at the end, whose two names consist of letters, digits,
  dots, underscores and dashes: no other host, port, user information, query or deeper path
  reaches \<open>git clone\<close>.
\<close>

theorem server_url_policy:
  "validate_server_repo_url u = Inr () \<longleftrightarrow>
     (\<exists>owner repo tail. u = ''https://github.com/'' @ owner @ ''/'' @ repo @ tail \<and> owner \<noteq> [] \<and> repo \<noteq> [] \<and>
        set owner \<subseteq> Collect name_char \<and> set repo \<subseteq> Collect name_char \<and>
        tail \<in> {[], ''/'', [CHR 0x0A], [CHR ''/'', CHR 0x0A]})"
proof -
  have "validate_server_repo_url u = Inr () \<longleftrightarrow> validate_repo_url u = Inr () \<and> is_github_https u"
    by (auto simp: validate_server_repo_url_def split: sum.split)
  moreover have "validate_repo_url u = Inr ()" if gh: "is_github_https u"
  proof -
    obtain owner repo tl where "u = ''https://github.com/'' @ owner @ ''/'' @ repo @ tl" "owner \<noteq> []" "repo \<noteq> []"
      "set owner \<subseteq> Collect name_char" "set repo \<subseteq> Collect name_char" "tl \<in> url_tails"
      using gh unfolding github_url_iff by blast
    then show ?thesis using github_url_valid by simp
  qed
  ultimately have "validate_server_repo_url u = Inr () \<longleftrightarrow> is_github_https u" by blast
  then show ?thesis by (simp only: github_url_iff url_tails_def)
qed

text \<open>
  The general check is meant to refuse a leading dash, which \<open>git\<close> reads as an option; the
  form \<open>user@host:path\<close> lets one through. The clone command puts \<open>--\<close> before the URL.
\<close>

lemma leading_dash_accepted: "validate_repo_url ''-a@b:c'' = Inr ()"
  by (simp add: validate_repo_url_def is_scp_url_def skip_name_def name_char_def some_non_space_def is_space_def
      at_end_def is_https_url_def is_ssh_url_def py_lower_def lower_char_def)

section \<open>What git gets to know\<close>

lemma replace_all_prefix:
  "CHR ''*'' \<notin> set t \<Longrightarrow> prefix t (replace_all old ''***'' s) \<Longrightarrow> prefix t s"
proof (induction t arbitrary: s)
  case (Cons a t)
  show ?case
  proof (cases s)
    case (Cons c cs)
    have "\<not> (old \<noteq> [] \<and> prefix old (c # cs))" using Cons.prems \<open>s = c # cs\<close> by (auto simp del: drop_Cons' split: if_splits)
    then have "replace_all old ''***'' s = c # replace_all old ''***'' cs" using \<open>s = c # cs\<close> by auto
    then show ?thesis using Cons.IH [of cs] Cons.prems \<open>s = c # cs\<close> by simp
  qed (use Cons.prems in simp)
qed simp

lemma replace_all_sublist:
  "CHR ''*'' \<notin> set t \<Longrightarrow> sublist t (replace_all old ''***'' s) \<Longrightarrow> sublist t s"
proof (induction old "''***''" s rule: replace_all.induct)
  case (2 old c cs)
  show ?case
  proof (cases "old \<noteq> [] \<and> prefix old (c # cs)")
    case True
    then have "sublist t (''***'' @ replace_all old ''***'' (drop (length old) (c # cs)))" using "2.prems"(2) by simp
    then have "sublist t (replace_all old ''***'' (drop (length old) (c # cs))) \<or> t = []"
      using "2.prems"(1) by (auto simp: sublist_Cons_right prefix_Cons)
    then have "sublist t (drop (length old) (c # cs))" using "2.hyps"(1) [OF True] "2.prems"(1) by auto
    then show ?thesis using sublist_drop sublist_order.order_trans by blast
  next
    case False
    then have "sublist t (c # replace_all old ''***'' cs)" using "2.prems"(2) by (auto split: if_splits)
    then have "prefix t (c # replace_all old ''***'' cs) \<or> sublist t (replace_all old ''***'' cs)"
      by (simp add: sublist_Cons_right)
    moreover have "prefix t (c # replace_all old ''***'' cs) \<Longrightarrow> prefix t (c # cs)"
      using replace_all_prefix [of t old "c # cs"] "2.prems"(1) False by auto
    ultimately show ?thesis using "2.hyps"(2) [OF False] "2.prems"(1) by (auto simp: sublist_Cons_right)
  qed
qed simp

lemma replace_all_removes:
  "old \<noteq> [] \<Longrightarrow> CHR ''*'' \<notin> set old \<Longrightarrow> \<not> sublist old (replace_all old ''***'' s)"
proof (induction old "''***''" s rule: replace_all.induct)
  case (2 old c cs)
  show ?case
  proof (cases "prefix old (c # cs)")
    case True
    then have t: "old \<noteq> [] \<and> prefix old (c # cs)" using "2.prems" by simp
    show ?thesis
    proof
      assume "sublist old (replace_all old ''***'' (c # cs))"
      then have "sublist old (''***'' @ replace_all old ''***'' (drop (length old) (c # cs)))" using t by simp
      then have "sublist old (replace_all old ''***'' (drop (length old) (c # cs)))"
        using "2.prems" by (auto simp: sublist_Cons_right prefix_Cons)
      then show False using "2.hyps"(1) [OF t] "2.prems" by blast
    qed
  next
    case False
    then have "\<not> sublist old (replace_all old ''***'' cs)" using "2.hyps"(2) "2.prems" by blast
    moreover have "\<not> prefix old (c # replace_all old ''***'' cs)"
      using replace_all_prefix [of old old "c # cs"] "2.prems" False by auto
    ultimately show ?thesis using False by (simp add: sublist_Cons_right)
  qed
qed (simp add: sublist_code)

lemma b64_in: "b64 n \<in> set BASE64"
proof -
  have "length BASE64 = 64" by (simp add: BASE64_def)
  then show ?thesis unfolding b64_def by (intro nth_mem) simp
qed

lemma set_b64encode: "set (b64encode bs) \<subseteq> insert (CHR ''='') (set BASE64)"
  by (induction bs rule: b64encode.induct) (auto simp: b64_in)

lemma basic_b64_chars: "CHR ''*'' \<notin> set (basic_b64 token)" "CHR 0x27 \<notin> set (basic_b64 token)" "basic_b64 token \<noteq> []"
proof -
  have "CHR ''*'' \<notin> insert (CHR ''='') (set BASE64)" "CHR 0x27 \<notin> insert (CHR ''='') (set BASE64)"
    by (simp_all add: BASE64_def)
  then show "CHR ''*'' \<notin> set (basic_b64 token)" "CHR 0x27 \<notin> set (basic_b64 token)"
    using set_b64encode unfolding basic_b64_def by blast+
  show "basic_b64 token \<noteq> []" by (simp add: basic_b64_def utf8_def)
qed

lemma rstrip_quotes_snoc: "CHR 0x27 \<notin> set s \<Longrightarrow> rstrip_quotes (s @ [CHR 0x27]) = s"
proof -
  assume "CHR 0x27 \<notin> set s"
  then have "dropWhile (\<lambda>c. c = CHR 0x27) (rev s) = rev s" by (cases s rule: rev_cases) auto
  then show ?thesis by (simp add: rstrip_quotes_def)
qed

lemma clone_env_parameters:
  assumes "environ ''OC_GIT_TOKEN'' = Some token" "token \<noteq> []"
  shows "build_clone_env environ url ''GIT_CONFIG_PARAMETERS'' =
    (if prefix ''https://github.com/'' url then Some (auth_header token) else None)"
  using assms by (simp add: build_clone_env_def git_child_env_def GIT_ENV_PASSTHROUGH_def)

lemma clone_secrets_eq:
  assumes "environ ''OC_GIT_TOKEN'' = Some token" "token \<noteq> []"
  shows "clone_secrets environ (build_clone_env environ url) =
    token # (if prefix ''https://github.com/'' url then [basic_b64 token] else [])"
proof -
  have "after_first ''Basic '' (auth_header token) = Some (basic_b64 token @ [CHR 0x27])"
    by (simp add: auth_header_def)
  then show ?thesis
    unfolding clone_secrets_def clone_env_parameters [where environ = environ and token = token, OF assms] using assms(1)
    by (simp add: rstrip_quotes_snoc [OF basic_b64_chars(2)])
qed

text \<open>
  C20. The environment of \<open>git clone\<close> has no variable beyond the allowed ones and the two the
  server sets; the token itself is not in it, and the header derived from it only for a URL of
  GitHub. Neither the token nor the header value is left in an error text that has been
  redacted, whatever \<open>git\<close> wrote, for a token without an asterisk.
\<close>

theorem clone_secrets_contained:
  assumes "environ ''OC_GIT_TOKEN'' = Some token" "token \<noteq> []" "CHR ''*'' \<notin> set token"
  shows "dom (build_clone_env environ url) \<subseteq>
      set GIT_ENV_PASSTHROUGH \<union> {''GIT_TERMINAL_PROMPT'', ''GIT_CONFIG_PARAMETERS''} \<and>
    build_clone_env environ url ''OC_GIT_TOKEN'' = None \<and>
    (build_clone_env environ url ''GIT_CONFIG_PARAMETERS'' \<noteq> None \<longleftrightarrow> prefix ''https://github.com/'' url) \<and>
    \<not> sublist token (redact_clone_secrets environ text (build_clone_env environ url)) \<and>
    (prefix ''https://github.com/'' url \<longrightarrow>
      \<not> sublist (basic_b64 token) (redact_clone_secrets environ text (build_clone_env environ url)))"
proof (intro conjI impI)
  show "dom (build_clone_env environ url) \<subseteq>
      set GIT_ENV_PASSTHROUGH \<union> {''GIT_TERMINAL_PROMPT'', ''GIT_CONFIG_PARAMETERS''}"
    by (auto simp: build_clone_env_def git_child_env_def Let_def split: option.splits if_splits)
  show "build_clone_env environ url ''OC_GIT_TOKEN'' = None"
    using assms(1) by (simp add: build_clone_env_def git_child_env_def GIT_ENV_PASSTHROUGH_def Let_def)
  show "build_clone_env environ url ''GIT_CONFIG_PARAMETERS'' \<noteq> None \<longleftrightarrow> prefix ''https://github.com/'' url"
    unfolding clone_env_parameters [where environ = environ and token = token, OF assms(1,2)] by simp
  have red: "redact_clone_secrets environ text (build_clone_env environ url) =
      (if prefix ''https://github.com/'' url then replace_all (basic_b64 token) ''***'' (replace_all token ''***'' text)
       else replace_all token ''***'' text)"
    unfolding redact_clone_secrets_def clone_secrets_eq [where environ = environ and token = token, OF assms(1,2)] using assms(2) basic_b64_chars(3) by simp
  show "\<not> sublist token (redact_clone_secrets environ text (build_clone_env environ url))"
  proof
    assume "sublist token (redact_clone_secrets environ text (build_clone_env environ url))"
    then have "sublist token (replace_all token ''***'' text)"
      unfolding red using replace_all_sublist [OF assms(3)] by (simp only: split: if_splits)
    then show False using replace_all_removes [OF assms(2,3)] by blast
  qed
  show "\<not> sublist (basic_b64 token) (redact_clone_secrets environ text (build_clone_env environ url))"
    if "prefix ''https://github.com/'' url"
    unfolding red using that replace_all_removes [OF basic_b64_chars(3,1)] by simp
qed

theorem clone_secrets_contained_witness:
  "\<not> sublist ''tok'' (redact_clone_secrets [''OC_GIT_TOKEN'' \<mapsto> ''tok''] ''bad tok''
      (build_clone_env [''OC_GIT_TOKEN'' \<mapsto> ''tok''] ''https://github.com/a/b''))"
  using clone_secrets_contained [of "[''OC_GIT_TOKEN'' \<mapsto> ''tok'']" "''tok''"] by simp

end
