(* ===== verification/OC_Onboard_Theorems.thy ===== *)
theory OC_Onboard_Theorems
  imports OC_Git_Onboard OC_Git_Theorems OC_Store_Theorems
begin

text \<open>
  The store under git onboarding: what a run deletes and keeps, that a run which found commits
  leaves one watermark row with the hash of the newest commit, and that the next run resumes
  from it.
\<close>

section \<open>Deleting a list of memories\<close>

lemma wf_delete_memories: "wf_store s \<Longrightarrow> delete_memories ms s = (r, s') \<Longrightarrow> wf_store s'"
  by (induction ms s arbitrary: r s' rule: delete_memories.induct)
     (auto split: prod.splits sum.splits dest: preserves_wfD [OF preserves_wf_delete_memory])

lemma delete_memories_keeps:
  "delete_memories ms s = (r, s') \<Longrightarrow>
   (\<forall>m \<in> set (memory_items (the_db s)). m_id m \<in> m_id ` set ms \<longrightarrow> \<not> P m) \<Longrightarrow>
   filter P (memory_items (the_db s')) = filter P (memory_items (the_db s))
   \<and> projects (the_db s') = projects (the_db s)"
proof (induction ms s arbitrary: r s' rule: delete_memories.induct)
  case (2 m ms s)
  obtain q s1 where del: "delete_memory (m_id m) s = (q, s1)" by (cases "delete_memory (m_id m) s")
  show ?case
  proof (cases q)
    case (Inl e)
    then show ?thesis using "2.prems"(1) del delete_memory_raised [OF del [unfolded Inl]] by simp
  next
    case (Inr u)
    have db: "the_db s1 = delete_memory_rows (\<lambda>x. m_id x = m_id m) (the_db s)"
      using delete_memory_ok(2) del Inr by blast
    have rest: "delete_memories ms s1 = (r, s')" using "2.prems"(1) del Inr by simp
    have "filter P (memory_items (the_db s')) = filter P (memory_items (the_db s1))
        \<and> projects (the_db s') = projects (the_db s1)"
      using "2.IH" [OF del [symmetric] Inr rest] "2.prems"(2) by (auto simp: db)
    moreover have "filter P (memory_items (the_db s1)) = filter P (memory_items (the_db s))"
      using "2.prems"(2) by (auto simp: db intro!: filter_cong)
    ultimately show ?thesis by (simp add: db)
  qed
qed simp

lemma delete_memories_gone:
  "delete_memories ms s = (Inr u, s') \<Longrightarrow>
   memory_items (the_db s') = filter (\<lambda>m. m_id m \<notin> m_id ` set ms) (memory_items (the_db s))"
proof (induction ms s arbitrary: s' rule: delete_memories.induct)
  case (2 m ms s)
  then obtain v s1 where del: "delete_memory (m_id m) s = (Inr v, s1)" and rest: "delete_memories ms s1 = (Inr u, s')"
    by (auto split: prod.splits sum.splits)
  from "2.IH" [OF del [symmetric] refl rest]
  show ?case using delete_memory_ok(2) [OF del] by (auto intro!: filter_cong)
qed simp

section \<open>A run\<close>

definition source_row :: "string \<Rightarrow> string \<Rightarrow> memory_item \<Rightarrow> bool" where
  "source_row source project_id m \<longleftrightarrow> m_source m = source \<and> m_project_id m = Some project_id"

lemma set_list_memory_by_source:
  "set (list_memory_by_source source (Some p) s) = {m \<in> set (memory_items (the_db s)). source_row source p m}"
  by (auto simp: list_memory_by_source_def source_row_def)

lemma id_in_rows:
  assumes "wf_store s" "m \<in> set (memory_items (the_db s))" "A \<subseteq> set (memory_items (the_db s))"
  shows "m_id m \<in> m_id ` A \<longleftrightarrow> m \<in> A"
proof -
  have "inj_on m_id (set (memory_items (the_db s)))"
    using assms(1) by (simp add: wf_store_def wf_db_def keys_ok_def distinct_map)
  then show ?thesis using assms(2,3) by (rule inj_on_image_mem_iff)
qed

lemma insert_memory_items: "insert_memory r d = Inr d' \<Longrightarrow> memory_items d' = memory_items d @ [r]"
  by (auto simp: insert_memory_def split: if_splits option.splits)

definition other_row :: "string \<Rightarrow> memory_item \<Rightarrow> bool" where
  "other_row p m \<longleftrightarrow> \<not> source_row WATERMARK_SOURCE p m"

text \<open>The watermark row after \<open>save_watermark\<close>.\<close>

lemma save_watermark_keeps:
  assumes "wf_store s" "save_watermark i now p h s = (r, s')"
  shows "wf_store s'" "filter (other_row p) (memory_items (the_db s')) = filter (other_row p) (memory_items (the_db s))"
proof -
  let ?ws = "list_memory_by_source WATERMARK_SOURCE (Some p) s"
  obtain q s1 where del: "delete_memories ?ws s = (q, s1)" by (cases "delete_memories ?ws s")
  have wf1: "wf_store s1" using wf_delete_memories [OF assms(1) del] .
  have keep1: "filter (other_row p) (memory_items (the_db s1)) = filter (other_row p) (memory_items (the_db s))"
    using delete_memories_keeps [OF del, of "other_row p"] id_in_rows [OF assms(1)]
    by (auto simp: set_list_memory_by_source other_row_def)
  obtain u t where add: "add_memory (watermark_item i now p h) s1 = (u, t)" by fastforce
  have wft: "wf_store t" using preserves_wfD [OF preserves_wf_add_memory wf1 add] .
  have "\<not> other_row p r" if "stored_form (watermark_item i now p h) = Inr r" for r
    using stored_form_Inr [OF that] by (simp add: other_row_def source_row_def watermark_item_def)
  then have keep2: "filter (other_row p) (memory_items (the_db t)) = filter (other_row p) (memory_items (the_db s1))"
    using add by (cases u) (auto elim!: add_memory_Inr dest: add_memory_raised simp: insert_memory_items)
  show "wf_store s'" "filter (other_row p) (memory_items (the_db s')) = filter (other_row p) (memory_items (the_db s))"
    using assms(2) wf1 wft keep1 keep2 by (auto simp: save_watermark_def del add split: sum.splits)
qed

lemma save_watermark_row:
  assumes "wf_store s" "save_watermark i now p h s = (Inr u, s')"
  obtains r where "stored_form (watermark_item i now p h) = Inr r"
    "filter (source_row WATERMARK_SOURCE p) (memory_items (the_db s')) = [r]"
proof -
  let ?ws = "list_memory_by_source WATERMARK_SOURCE (Some p) s"
  obtain v s1 where del: "delete_memories ?ws s = (Inr v, s1)" and add: "add_memory (watermark_item i now p h) s1 = (Inr u, s')"
    using assms(2) by (auto simp: save_watermark_def split: prod.splits sum.splits)
  have "filter (source_row WATERMARK_SOURCE p) (memory_items (the_db s1)) = []"
    unfolding delete_memories_gone [OF del] using id_in_rows [OF assms(1)]
    by (auto simp: filter_empty_conv set_list_memory_by_source)
  then show thesis
    using add that by (auto elim!: add_memory_Inr simp: insert_memory_items stored_form_Inr source_row_def watermark_item_def)
qed

definition watermarked :: "string \<Rightarrow> string \<Rightarrow> store \<Rightarrow> bool" where
  "watermarked p h s \<longleftrightarrow> map m_content (filter (source_row WATERMARK_SOURCE p) (memory_items (the_db s))) = [h]"

lemma stored_watermark_eq:
  assumes "watermarked p h s"
  shows "stored_watermark p s = (if is_watermark_hash h then Some h else None)"
proof -
  obtain r where r: "filter (source_row WATERMARK_SOURCE p) (memory_items (the_db s)) = [r]" "m_content r = h"
    using assms by (auto simp: watermarked_def)
  have "source_row WATERMARK_SOURCE p = (\<lambda>m. m_source m = WATERMARK_SOURCE \<and> m_project_id m = Some p)"
    by (auto simp: source_row_def)
  then have "list_memory_by_source WATERMARK_SOURCE (Some p) s = [r]"
    using r(1) by (simp add: list_memory_by_source_def sort_desc_def)
  then show ?thesis using r(2) by (simp add: stored_watermark_def)
qed

lemma save_watermark_watermarked:
  assumes "wf_store s" "save_watermark i now p h s = (Inr u, s')"
  shows "watermarked p h s'"
proof -
  obtain r where "stored_form (watermark_item i now p h) = Inr r"
    "filter (source_row WATERMARK_SOURCE p) (memory_items (the_db s')) = [r]"
    using save_watermark_row [OF assms] .
  then show ?thesis using stored_form_Inr(3) by (fastforce simp: watermarked_def watermark_item_def)
qed

text \<open>How a walk ends, by what the extraction found.\<close>

lemma onboard_walk_result:
  assumes "wf_store s" "onboard_walk dash i now extract p mc w s = (Inr q, s')"
  shows "extract w = Inr (op_history q)" "op_watermark_before q = w"
    "eh_commits (op_history q) = [] \<Longrightarrow> op_status q = (if w = None then ''empty'' else ''up_to_date'') \<and> s' = s"
    "eh_commits (op_history q) \<noteq> [] \<Longrightarrow> op_status q = ''ok'' \<and> watermarked p (gc_hash (hd (eh_commits (op_history q)))) s'"
  using assms save_watermark_watermarked [OF assms(1)]
  by (auto simp: onboard_walk_def prepared_def Let_def split: sum.splits prod.splits list.splits if_splits)

lemma onboard_walk_keeps:
  assumes "wf_store s" "onboard_walk dash i now extract p mc w s = (r, s')"
  shows "wf_store s' \<and> filter (other_row p) (memory_items (the_db s')) = filter (other_row p) (memory_items (the_db s))"
  using assms save_watermark_keeps [OF assms(1)]
  by (auto simp: onboard_walk_def Let_def split: sum.splits prod.splits list.splits if_splits)

text \<open>What a forced run leaves alone, and any other run.\<close>

definition kept_row :: "string \<Rightarrow> bool \<Rightarrow> memory_item \<Rightarrow> bool" where
  "kept_row p force m \<longleftrightarrow> other_row p m \<and> (force \<longrightarrow> \<not> source_row ''git-onboard'' p m)"

lemma onboard_walk_kept:
  assumes "wf_store s" "onboard_walk dash i now extract p mc w s = (r, s')"
  shows "wf_store s' \<and> filter (kept_row p force) (memory_items (the_db s')) = filter (kept_row p force) (memory_items (the_db s))"
proof -
  have "filter (other_row p) (memory_items (the_db s')) = filter (other_row p) (memory_items (the_db s))"
    using onboard_walk_keeps [OF assms] by simp
  then have "filter (kept_row p force) (memory_items (the_db s')) = filter (kept_row p force) (memory_items (the_db s))"
    by (rule filter_stronger) (simp add: kept_row_def)
  then show ?thesis using onboard_walk_keeps [OF assms] by simp
qed

lemma onboard_keeps:
  assumes "wf_store s" "onboard_git_prepare dash i now extract p mc force s = (r, s')"
  shows "wf_store s' \<and> filter (kept_row p force) (memory_items (the_db s')) = filter (kept_row p force) (memory_items (the_db s))"
proof (cases force)
  case False
  then show ?thesis
    using assms onboard_walk_kept [OF assms(1)] by (simp add: onboard_git_prepare_def Let_def split: if_splits)
next
  case True
  let ?ms = "list_memory_by_source ''git-onboard'' (Some p) s @ list_memory_by_source WATERMARK_SOURCE (Some p) s"
  obtain q s1 where del: "delete_memories ?ms s = (q, s1)" by (cases "delete_memories ?ms s")
  have wf1: "wf_store s1" by (rule wf_delete_memories [OF assms(1) del])
  have sub: "set ?ms \<subseteq> set (memory_items (the_db s))" by (auto simp: set_list_memory_by_source)
  have "filter (kept_row p force) (memory_items (the_db s1)) = filter (kept_row p force) (memory_items (the_db s))"
  proof (rule conjunct1 [OF delete_memories_keeps [OF del]], intro ballI impI)
    fix m assume "m \<in> set (memory_items (the_db s))" "m_id m \<in> m_id ` set ?ms"
    then have "m \<in> set ?ms" using id_in_rows [OF assms(1) _ sub] by blast
    then show "\<not> kept_row p force m" by (auto simp: set_list_memory_by_source kept_row_def other_row_def True)
  qed
  then show ?thesis
    using assms(2) True wf1 onboard_walk_kept [OF wf1, where force = force]
    by (auto simp: onboard_git_prepare_def Let_def del split: sum.splits)
qed

text \<open>
  C18. Git onboarding and its watermark. A run changes no memory but the watermark rows of its
  project and, when forced, the memories it derived from git. The history it returns is what
  the extraction gave for the stored watermark, or for none in a forced run, and it is refused
  with status \<open>exists\<close> only for memories without a usable watermark. A run that is not
  forced and finds nothing new leaves the store as it is; a run that finds commits leaves one
  watermark row, holding the newest hash, from which the next run resumes.
\<close>

theorem onboard_watermark:
  assumes "wf_store s" "onboard_git_prepare dash i now extract p mc force s = (r, s')"
  shows "wf_store s' \<and>
    filter (kept_row p force) (memory_items (the_db s')) = filter (kept_row p force) (memory_items (the_db s)) \<and>
    (\<forall>q w. r = Inr q \<longrightarrow> w = (if force then None else stored_watermark p s) \<longrightarrow>
      (if \<not> force \<and> w = None \<and> list_memory_by_source ''git-onboard'' (Some p) s \<noteq> []
       then op_status q = ''exists'' \<and> s' = s
       else extract w = Inr (op_history q) \<and>
         (case eh_commits (op_history q) of
            [] \<Rightarrow> op_status q = (if w = None then ''empty'' else ''up_to_date'') \<and> (\<not> force \<longrightarrow> s' = s)
          | c # _ \<Rightarrow> op_status q = ''ok'' \<and> watermarked p (gc_hash c) s' \<and>
              (is_watermark_hash (gc_hash c) \<longrightarrow> stored_watermark p s' = Some (gc_hash c)))))"
proof (intro conjI allI impI)
  show "wf_store s'" "filter (kept_row p force) (memory_items (the_db s')) = filter (kept_row p force) (memory_items (the_db s))"
    using onboard_keeps [OF assms] by simp_all
  fix q w assume r: "r = Inr q" and w: "w = (if force then None else stored_watermark p s)"
  show "if \<not> force \<and> w = None \<and> list_memory_by_source ''git-onboard'' (Some p) s \<noteq> []
       then op_status q = ''exists'' \<and> s' = s
       else extract w = Inr (op_history q) \<and>
         (case eh_commits (op_history q) of
            [] \<Rightarrow> op_status q = (if w = None then ''empty'' else ''up_to_date'') \<and> (\<not> force \<longrightarrow> s' = s)
          | c # _ \<Rightarrow> op_status q = ''ok'' \<and> watermarked p (gc_hash c) s' \<and>
              (is_watermark_hash (gc_hash c) \<longrightarrow> stored_watermark p s' = Some (gc_hash c)))"
  proof (cases "\<not> force \<and> w = None \<and> list_memory_by_source ''git-onboard'' (Some p) s \<noteq> []")
    case True
    then show ?thesis using assms(2) r w by (auto simp: onboard_git_prepare_def prepared_def Let_def)
  next
    case False
    obtain s1 where s1: "wf_store s1" "\<not> force \<longrightarrow> s1 = s" "onboard_walk dash i now extract p mc w s1 = (Inr q, s')"
      using assms r w False wf_delete_memories [OF assms(1)]
      by (auto simp: onboard_git_prepare_def Let_def split: if_splits prod.splits sum.splits)
    note walk = onboard_walk_result [OF s1(1,3)]
    show ?thesis using False walk s1(2) stored_watermark_eq by (auto split: list.split)
  qed
qed

definition sample_hash :: string where
  "sample_hash = ''0123456789abcdef''"

definition sample_history :: extracted_history where
  "sample_history = \<lparr>eh_commits = [sample_commit sample_hash 9, sample_commit ''0000000'' 1], eh_branch = ''main'',
     eh_head = sample_hash, eh_watermark_unreachable = False\<rparr>"

theorem onboard_watermark_witness:
  "\<exists>q s'. onboard_git_prepare (CHR ''-'') ''w1'' sample_time (\<lambda>_. Inr sample_history) ''p1'' 15 False sample_store = (Inr q, s')
     \<and> op_status q = ''ok'' \<and> stored_watermark ''p1'' s' = Some sample_hash"
proof -
  let ?run = "onboard_git_prepare (CHR ''-'') ''w1'' sample_time (\<lambda>_. Inr sample_history) ''p1'' 15 False sample_store"
  have ok: "is_ok ?run" "list_memory_by_source ''git-onboard'' (Some ''p1'') sample_store = []"
    "stored_watermark ''p1'' sample_store = None" "is_watermark_hash sample_hash"
    unfolding sample_store_eq by code_simp+
  from ok(1) obtain q s' where g: "?run = (Inr q, s')" by (rule is_okE)
  have commits: "eh_commits sample_history = [sample_commit sample_hash 9, sample_commit ''0000000'' 1]" "gc_hash (sample_commit sample_hash 9) = sample_hash"
    by (simp_all add: sample_history_def sample_commit_def)
  from onboard_watermark [OF wf_sample_store g] ok(2-4) commits
  show ?thesis by (auto simp: g)
qed

end
