(* ===== verification/OC_Restore.thy ===== *)
theory OC_Restore
  imports Py_Text OC_Prelude
begin

text \<open>
  The offline restore helper (\<open>scripts/offline_restore.py\<close>): staging, activation, rollback and
  retirement of a snapshot beside a stopped database.

  A volume has the files of the data directory and of the helper's own directories, and the
  \<open>state.json\<close> of each operation, which is replaced in one step (\<open>_save_state\<close>). The helper
  may die at any change of the volume: \<open>fates\<close> says, change by change, whether it takes place
  or the helper dies there, in the middle of a copy with part of the bytes written. What SQLite,
  SHA-256 and the operating system answer is the parameter \<open>host\<close>. A change that took place
  stays (the code flushes files and directories).
\<close>

section \<open>The volume\<close>

datatype place = Data | Stage | RecoveryRoot | Recovery string | RawOld string | Forward string | Scratch string | Elsewhere string

type_synonym path = "place \<times> string"

datatype node = Regular string | Symlink bool | Directory

datatype fate = Done | Dies "string option"

record backup_info =
  bi_sha256 :: string
  bi_schema_version :: int
  bi_project_identity :: string
  bi_project_count :: nat
  bi_memory_count :: nat
  bi_embedding_count :: nat

record old_state =
  os_readable :: bool
  os_sha256 :: string
  os_identity :: "(int \<times> string \<times> nat \<times> nat \<times> nat) option"
  os_checks :: "string \<times> string"
  os_rollback_available :: bool
  os_verified :: bool

datatype restore_phase = Archiving | Prepared | Activated | RollingBack | RolledBack | Abandoned

record restore_state =
  rs_operation_id :: string
  rs_phase :: restore_phase
  rs_candidate :: path
  rs_candidate_info :: backup_info
  rs_raw_files :: "(string \<times> string) list"
  rs_old_state :: "old_state option"
  rs_write_probe :: "string option"
  rs_forward_files :: "(string \<times> string) list option"
  rs_retirement :: "string option"

record volume =
  files :: "(path \<times> node) list"
  dirs :: "place \<rightharpoonup> bool"
  states :: "string \<rightharpoonup> restore_state"
  fates :: "fate list"

text \<open>\<open>dirs\<close>: the directories, and whether each is a symbolic link.\<close>

record db_report =
  rp_integrity :: string
  rp_foreign_keys :: string
  rp_identity :: "(int \<times> string list \<times> nat \<times> nat) option"

record host =
  h_root :: bool
  h_same_device :: "path \<Rightarrow> bool"
  h_disk_free :: "volume \<Rightarrow> int"
  h_can_write :: "path \<Rightarrow> bool"
  h_sha256 :: "string \<Rightarrow> string"
  h_report :: "string \<Rightarrow> db_report"
  h_consolidate :: "(string \<times> string) list \<Rightarrow> bool + string"
  h_write_error :: "volume \<Rightarrow> string option"

text \<open>
  \<open>h_report\<close>: what the checks and queries of SQLite give on a standalone file (a check that
  raises gives its error, identity queries that raise give \<open>None\<close>). \<open>h_consolidate\<close>: the
  single file the backup API makes of a database family, or whether it failed because the
  file is corrupt or no database. \<open>h_write_error\<close>: the error of the trial write, which is
  rolled back and leaves the files as they are (up to empty sidecars that its close removes).
\<close>

datatype restore_failure = Refused string | OsError string | Died

type_synonym 'a helper = "volume \<Rightarrow> (restore_failure, 'a, volume) outcome"

definition ret :: "'a \<Rightarrow> 'a helper" where
  "ret x v = (Inr x, v)"

definition fail :: "restore_failure \<Rightarrow> 'a helper" where
  "fail e v = (Inl e, v)"

definition bind_h :: "'a helper \<Rightarrow> ('a \<Rightarrow> 'b helper) \<Rightarrow> 'b helper" where
  "bind_h m k v = (case m v of (Inl e, v') \<Rightarrow> (Inl e, v') | (Inr x, v') \<Rightarrow> k x v')"

definition ask :: "(volume \<Rightarrow> 'a) \<Rightarrow> 'a helper" where
  "ask f v = (Inr (f v), v)"

definition ensure :: "(volume \<Rightarrow> bool) \<Rightarrow> string \<Rightarrow> unit helper" where
  "ensure P msg v = (if P v then (Inr (), v) else (Inl (Refused msg), v))"

text \<open>One change of the volume, or the death of the helper in its place.\<close>

definition change :: "(volume \<Rightarrow> volume) \<Rightarrow> unit helper" where
  "change f v =
     (case fates v of
        [] \<Rightarrow> (Inr (), f v)
      | Done # rest \<Rightarrow> (Inr (), f (v\<lparr>fates := rest\<rparr>))
      | Dies _ # rest \<Rightarrow> (Inl Died, v\<lparr>fates := rest\<rparr>))"

section \<open>Files\<close>

definition node_at :: "volume \<Rightarrow> path \<Rightarrow> node option" where
  "node_at v p = map_of (files v) p"

definition put :: "path \<Rightarrow> node \<Rightarrow> volume \<Rightarrow> volume" where
  "put p n v = v\<lparr>files := (p, n) # filter (\<lambda>x. fst x \<noteq> p) (files v)\<rparr>"

definition del :: "path \<Rightarrow> volume \<Rightarrow> volume" where
  "del p v = v\<lparr>files := filter (\<lambda>x. fst x \<noteq> p) (files v)\<rparr>"

definition clear_place :: "place \<Rightarrow> volume \<Rightarrow> volume" where
  "clear_place d v = v\<lparr>files := filter (\<lambda>x. fst (fst x) \<noteq> d) (files v), dirs := (dirs v)(d := None)\<rparr>"

definition path_exists :: "volume \<Rightarrow> path \<Rightarrow> bool" where
  "path_exists v p = (case node_at v p of None \<Rightarrow> False | Some (Symlink b) \<Rightarrow> b | Some _ \<Rightarrow> True)"

definition is_symlink :: "volume \<Rightarrow> path \<Rightarrow> bool" where
  "is_symlink v p = (case node_at v p of Some (Symlink _) \<Rightarrow> True | _ \<Rightarrow> False)"

definition is_regular :: "volume \<Rightarrow> path \<Rightarrow> bool" where
  "is_regular v p = (case node_at v p of Some (Regular _) \<Rightarrow> True | _ \<Rightarrow> False)"

definition bytes :: "volume \<Rightarrow> path \<Rightarrow> string" where
  "bytes v p = (case node_at v p of Some (Regular c) \<Rightarrow> c | _ \<Rightarrow> [])"

definition sha_of :: "host \<Rightarrow> volume \<Rightarrow> path \<Rightarrow> string" where
  "sha_of h v p = h_sha256 h (bytes v p)"

definition regular :: "path \<Rightarrow> unit helper" where
  "regular p = ensure (\<lambda>v. is_regular v p) ''Missing or non-regular file''"

definition make_dir :: "place \<Rightarrow> unit helper" where
  "make_dir d v =
     (if dirs v d \<noteq> None then (Inl (OsError ''File exists''), v) else change (\<lambda>v. v\<lparr>dirs := (dirs v)(d \<mapsto> False)\<rparr>) v)"

text \<open>Opened for exclusive creation; a death in the middle leaves what was written.\<close>

definition write_new :: "path \<Rightarrow> string \<Rightarrow> unit helper" where
  "write_new target content v =
     (case fates v of
        Dies (Some part) # rest \<Rightarrow> (Inl Died, put target (Regular part) (v\<lparr>fates := rest\<rparr>))
      | _ \<Rightarrow> change (put target (Regular content)) v)"

definition copy_durable :: "path \<Rightarrow> path \<Rightarrow> unit helper" where
  "copy_durable source target =
     bind_h (regular source) (\<lambda>_ v.
       if node_at v target \<noteq> None then (Inl (OsError ''File exists''), v)
       else write_new target (bytes v source) v)"

definition replace_file :: "path \<Rightarrow> path \<Rightarrow> unit helper" where
  "replace_file source target v =
     (case node_at v source of
        None \<Rightarrow> (Inl (OsError ''No such file''), v)
      | Some n \<Rightarrow> change (\<lambda>v. put target n (del source v)) v)"

definition unlink :: "path \<Rightarrow> unit helper" where
  "unlink p = change (del p)"

definition save_state :: "string \<Rightarrow> restore_state \<Rightarrow> unit helper" where
  "save_state op st = change (\<lambda>v. v\<lparr>states := (states v)(op \<mapsto> st)\<rparr>)"

definition load_recovery :: "string \<Rightarrow> restore_state helper" where
  "load_recovery op v =
     (case states v op of
        None \<Rightarrow> (Inl (Refused ''Recovery state is missing or unreadable''), v)
      | Some st \<Rightarrow> (Inr st, v))"

section \<open>Names\<close>

definition DB :: path where
  "DB = (Data, ''openchronicle.db'')"

definition WAL :: path where
  "WAL = (Data, ''openchronicle.db-wal'')"

definition SHM :: path where
  "SHM = (Data, ''openchronicle.db-shm'')"

definition raw_copy :: "string \<Rightarrow> path \<Rightarrow> path" where
  "raw_copy op p = (RawOld op, snd p)"

definition old_consistent :: "string \<Rightarrow> path" where
  "old_consistent op = (Recovery op, ''old-consistent.db'')"

definition incoming_copy :: "string \<Rightarrow> path" where
  "incoming_copy op = (Data, ''.incoming-'' @ op @ ''.db'')"

definition rollback_copy :: "string \<Rightarrow> path" where
  "rollback_copy op = (Data, ''.rollback-'' @ op @ ''.db'')"

definition displaced_old :: "string \<Rightarrow> path \<Rightarrow> path" where
  "displaced_old op p = (Recovery op, ''displaced-'' @ snd p)"

definition forward_copy :: "string \<Rightarrow> path \<Rightarrow> path" where
  "forward_copy op p = (Forward op, snd p)"

definition displaced_forward :: "string \<Rightarrow> path \<Rightarrow> path" where
  "displaced_forward op p = (Forward op, ''displaced-'' @ snd p)"

definition lower_alnum :: "char \<Rightarrow> bool" where
  "lower_alnum c = (let n = of_char c :: nat in (48 \<le> n \<and> n \<le> 57) \<or> (97 \<le> n \<and> n \<le> 122))"

definition lower_hex :: "char \<Rightarrow> bool" where
  "lower_hex c = (let n = of_char c :: nat in (48 \<le> n \<and> n \<le> 57) \<or> (97 \<le> n \<and> n \<le> 102))"

definition valid_operation_id :: "string \<Rightarrow> bool" where
  "valid_operation_id op =
     (case op of
        [] \<Rightarrow> False
      | c # cs \<Rightarrow> lower_alnum c \<and> list_all (\<lambda>x. lower_alnum x \<or> x = CHR ''-'') cs \<and> 3 \<le> length cs \<and> length cs \<le> 63)"

definition candidate_name :: "string \<Rightarrow> bool" where
  "candidate_name s =
     (length s = 37 \<and> take 10 s = ''candidate-'' \<and> list_all lower_hex (take 24 (drop 10 s)) \<and> drop 34 s = ''.db'')"

definition MARGIN :: int where
  "MARGIN = 16 * 1024 * 1024"

definition PROBE_PENDING :: string where
  "PROBE_PENDING = ''pending: the installed file has not been probed; run `probe` after checking why the helper stopped''"

definition PROBE_STALE :: string where
  "PROBE_STALE = ''stale: the installed file was written since the swap; this result does not describe it''"

section \<open>Checks\<close>

definition family :: "volume \<Rightarrow> path list" where
  "family v = filter (\<lambda>p. path_exists v p \<or> is_symlink v p) [DB, WAL, SHM]"

definition refuse_root :: "host \<Rightarrow> unit helper" where
  "refuse_root h = ensure (\<lambda>_. \<not> h_root h) ''Run the helper as the service user (--user 1000:1000), not root''"

definition recovery_dir :: "string \<Rightarrow> unit helper" where
  "recovery_dir op =
     bind_h (ensure (\<lambda>_. valid_operation_id op) ''Invalid operation ID'') (\<lambda>_.
     ensure (\<lambda>v. dirs v RecoveryRoot \<noteq> Some True) ''Recovery root cannot be a symlink'')"

definition sidecars_of :: "path \<Rightarrow> path list" where
  "sidecars_of p = [(fst p, snd p @ ''-wal''), (fst p, snd p @ ''-shm'')]"

definition project_identity :: "host \<Rightarrow> string list \<Rightarrow> string" where
  "project_identity h ids = h_sha256 h (py_join [CHR 0x0A] ids)"

definition inspect :: "host \<Rightarrow> path \<Rightarrow> backup_info helper" where
  "inspect h p =
     bind_h (regular p) (\<lambda>_.
     bind_h (ensure (\<lambda>v. \<not> list_ex (path_exists v) (sidecars_of p)) ''Expected a standalone SQLite file without sidecars'') (\<lambda>_ v.
       let r = h_report h (bytes v p)
       in if rp_integrity r \<noteq> ''ok'' then (Inl (Refused ''SQLite integrity_check failed''), v)
          else if rp_foreign_keys r \<noteq> ''ok'' then (Inl (Refused ''SQLite foreign_key_check failed''), v)
          else (case rp_identity r of
                  None \<Rightarrow> (Inl (Refused ''Cannot inspect OpenChronicle database''), v)
                | Some (schema, project_ids, memories, embeddings) \<Rightarrow>
                    (Inr \<lparr>bi_sha256 = sha_of h v p, bi_schema_version = schema,
                          bi_project_identity = project_identity h project_ids, bi_project_count = length project_ids,
                          bi_memory_count = memories, bi_embedding_count = embeddings\<rparr>, v))))"

definition preflight :: "host \<Rightarrow> path \<Rightarrow> string \<times> int \<times> string \<Rightarrow> backup_info helper" where
  "preflight h candidate expected =
     bind_h (regular DB) (\<lambda>_.
     bind_h (ensure (\<lambda>v. dirs v Data \<noteq> Some True \<and> dirs v (fst candidate) \<noteq> Some True)
       ''Database and stage directories cannot be symlinks'') (\<lambda>_.
     bind_h (ensure (\<lambda>_. fst candidate = Stage \<and> candidate_name (snd candidate))
       ''Candidate must be a generated file in the .restore-stage directory'') (\<lambda>_.
     bind_h (regular candidate) (\<lambda>_.
     bind_h (ensure (\<lambda>_. h_same_device h candidate) ''Candidate must be on the database filesystem'') (\<lambda>_.
     bind_h (ensure (\<lambda>v. \<not> list_ex (path_exists v) (sidecars_of candidate)) ''Candidate has SQLite sidecars'') (\<lambda>_.
     bind_h (inspect h candidate) (\<lambda>actual.
     bind_h (ensure (\<lambda>_. (bi_sha256 actual, bi_schema_version actual, bi_project_identity actual) = expected)
       ''Candidate hash, schema or project identity differs from expected'') (\<lambda>_.
     ret actual))))))))"

section \<open>The old state\<close>

definition describe :: "host \<Rightarrow> string \<Rightarrow> old_state" where
  "describe h content =
     (let r = h_report h content;
          identity = map_option (\<lambda>(schema, ids, memories, embeddings).
            (schema, project_identity h ids, length ids, memories, embeddings)) (rp_identity r);
          identity_ok = (case identity of None \<Rightarrow> False | Some (schema, _) \<Rightarrow> schema > 0)
      in \<lparr>os_readable = True, os_sha256 = h_sha256 h content, os_identity = identity,
          os_checks = (rp_integrity r, rp_foreign_keys r), os_rollback_available = identity_ok,
          os_verified = (identity_ok \<and> rp_integrity r = ''ok'' \<and> rp_foreign_keys r = ''ok'')\<rparr>)"

definition unreadable :: old_state where
  "unreadable = \<lparr>os_readable = False, os_sha256 = [], os_identity = None, os_checks = ([], []),
     os_rollback_available = False, os_verified = False\<rparr>"

text \<open>The files of a directory, in the order of the listing.\<close>

definition members_of :: "place \<Rightarrow> volume \<Rightarrow> path list" where
  "members_of d v = filter (\<lambda>p. fst p = d) (map fst (files v))"

fun copy_all :: "(path \<Rightarrow> path) \<Rightarrow> path list \<Rightarrow> unit helper" where
  "copy_all target [] = ret ()"
| "copy_all target (p # ps) = bind_h (copy_durable p (target p)) (\<lambda>_. copy_all target ps)"

definition consolidate :: "host \<Rightarrow> place \<Rightarrow> path \<Rightarrow> old_state helper" where
  "consolidate h scratch target =
     bind_h (regular (scratch, snd DB)) (\<lambda>_ v.
       case h_consolidate h (map (\<lambda>p. (snd p, bytes v p)) (filter (\<lambda>p. node_at v p \<noteq> None)
              (map (\<lambda>p. (scratch, snd p)) [DB, WAL, SHM]))) of
         Inl corrupt \<Rightarrow> if corrupt then (Inr unreadable, v) else (Inl (OsError ''sqlite3.DatabaseError''), v)
       | Inr content \<Rightarrow> bind_h (write_new target content) (\<lambda>_. ret (describe h content)) v)"

definition assess_old_state :: "host \<Rightarrow> string \<Rightarrow> old_state helper" where
  "assess_old_state h op =
     bind_h (make_dir (Scratch op)) (\<lambda>_.
     bind_h (ask (members_of (RawOld op))) (\<lambda>raw.
     bind_h (copy_all (\<lambda>p. (Scratch op, snd p)) raw) (\<lambda>_.
     bind_h (consolidate h (Scratch op) (old_consistent op)) (\<lambda>old.
     bind_h (change (clear_place (Scratch op))) (\<lambda>_.
     ret old)))))"

section \<open>The write probe\<close>

definition probe_writable :: "host \<Rightarrow> volume \<Rightarrow> string" where
  "probe_writable h v =
     (case filter (\<lambda>p. \<not> h_can_write h p) (family v) of
        p # _ \<Rightarrow> ''failed: EACCES: '' @ snd p @ '' is not writable by this user''
      | [] \<Rightarrow> (case h_write_error h v of None \<Rightarrow> ''ok'' | Some e \<Rightarrow> ''failed: '' @ e))"

definition HELD :: "string list" where
  "HELD = [''SQLITE_BUSY'', ''SQLITE_LOCKED'']"

definition require_writable :: "host \<Rightarrow> string \<Rightarrow> restore_state \<Rightarrow> restore_state helper" where
  "require_writable h op st =
     bind_h (ask (probe_writable h)) (\<lambda>probe.
     let st = st\<lparr>rs_write_probe := Some probe\<rparr>
     in bind_h (save_state op st) (\<lambda>_.
        if probe = ''ok'' then ret st
        else if list_ex (\<lambda>code. py_in code probe) HELD
        then fail (Refused ''Another process holds the installed database'')
        else fail (Refused ''The installed database is not writable by this user'')))"

section \<open>Activation\<close>

definition total_size :: "volume \<Rightarrow> path list \<Rightarrow> int" where
  "total_size v ps = int (sum_list (map (\<lambda>p. length (bytes v p)) ps))"

fun archive_raw :: "host \<Rightarrow> string \<Rightarrow> path list \<Rightarrow> (string \<times> string) list helper" where
  "archive_raw h op [] = ret []"
| "archive_raw h op (p # ps) =
     bind_h (ask (\<lambda>v. sha_of h v p)) (\<lambda>before.
     bind_h (copy_durable p (raw_copy op p)) (\<lambda>_.
     bind_h (ensure (\<lambda>v. sha_of h v (raw_copy op p) = before \<and> sha_of h v p = before)
       ''Live database changed while archiving; keep the service stopped'') (\<lambda>_.
     bind_h (archive_raw h op ps) (\<lambda>rest.
     ret ((snd p, before) # rest)))))"

fun displace_raw :: "string \<Rightarrow> path list \<Rightarrow> unit helper" where
  "displace_raw op [] = ret ()"
| "displace_raw op (p # ps) =
     bind_h (ask (\<lambda>v. path_exists v p)) (\<lambda>there.
     bind_h (if there then replace_file p (displaced_old op p) else ret ()) (\<lambda>_.
     displace_raw op ps))"

definition first_state :: "string \<Rightarrow> path \<Rightarrow> backup_info \<Rightarrow> restore_state" where
  "first_state op candidate info =
     \<lparr>rs_operation_id = op, rs_phase = Archiving, rs_candidate = candidate, rs_candidate_info = info, rs_raw_files = [],
      rs_old_state = None, rs_write_probe = None, rs_forward_files = None, rs_retirement = None\<rparr>"

text \<open>Everything up to the phase \<open>prepared\<close>.\<close>

definition prepare :: "host \<Rightarrow> string \<Rightarrow> path \<Rightarrow> backup_info \<Rightarrow> path list \<Rightarrow> restore_state helper" where
  "prepare h op candidate info live =
     bind_h (ask (\<lambda>v. dirs v RecoveryRoot = None)) (\<lambda>no_root.
     bind_h (if no_root then make_dir RecoveryRoot else ret ()) (\<lambda>_.
     bind_h (make_dir (Recovery op)) (\<lambda>_.
     let st = first_state op candidate info
     in bind_h (save_state op st) (\<lambda>_.
     bind_h (make_dir (RawOld op)) (\<lambda>_.
     bind_h (archive_raw h op live) (\<lambda>raw.
     let st = st\<lparr>rs_raw_files := raw\<rparr>
     in bind_h (save_state op st) (\<lambda>_.
     bind_h (assess_old_state h op) (\<lambda>old.
     let st = st\<lparr>rs_old_state := Some old\<rparr>
     in bind_h (save_state op st) (\<lambda>_.
     bind_h (copy_durable candidate (incoming_copy op)) (\<lambda>_.
     bind_h (ensure (\<lambda>v. sha_of h v (incoming_copy op) = bi_sha256 info) ''Incoming copy differs from the staged candidate'') (\<lambda>_.
     let st = st\<lparr>rs_phase := Prepared, rs_write_probe := Some PROBE_PENDING\<rparr>
     in bind_h (save_state op st) (\<lambda>_.
     ret st))))))))))))"

definition swap_in :: "host \<Rightarrow> string \<Rightarrow> restore_state \<Rightarrow> restore_state helper" where
  "swap_in h op st =
     bind_h (displace_raw op [WAL, SHM]) (\<lambda>_.
     bind_h (replace_file (incoming_copy op) DB) (\<lambda>_.
     let st = st\<lparr>rs_phase := Activated\<rparr>
     in bind_h (save_state op st) (\<lambda>_.
     require_writable h op st)))"

definition activate :: "host \<Rightarrow> path \<Rightarrow> string \<Rightarrow> string \<Rightarrow> int \<Rightarrow> string \<Rightarrow> bool \<Rightarrow> restore_state option helper" where
  "activate h candidate op sha schema project_sha apply =
     bind_h (refuse_root h) (\<lambda>_.
     bind_h (preflight h candidate (sha, schema, project_sha)) (\<lambda>info.
     bind_h (recovery_dir op) (\<lambda>_.
     bind_h (ensure (\<lambda>v. dirs v (Recovery op) = None) ''Operation ID already has recovery state; inspect or rollback it'') (\<lambda>_.
     bind_h (ask family) (\<lambda>live.
     bind_h (ensure (\<lambda>v. list_all (is_regular v) live) ''Live database family contains a non-regular file'') (\<lambda>_.
     bind_h (ensure (\<lambda>v. 4 * total_size v live + 2 * total_size v [candidate] + MARGIN \<le> h_disk_free h v)
       ''Insufficient space for raw and consolidated rollback copies plus incoming candidate'') (\<lambda>_.
     if \<not> apply then ret None
     else bind_h (prepare h op candidate info live) (\<lambda>st.
          bind_h (swap_in h op st) (\<lambda>st. ret (Some st))))))))))"

section \<open>Rollback\<close>

text \<open>The answer tells what became of a leftover copy.\<close>

definition remove_incoming :: "host \<Rightarrow> string \<Rightarrow> string \<Rightarrow> string option helper" where
  "remove_incoming h op candidate_sha v =
     (let p = incoming_copy op
      in if \<not> path_exists v p \<and> \<not> is_symlink v p then (Inr None, v)
         else if \<not> is_regular v p \<or> sha_of h v p \<noteq> candidate_sha
         then (Inr (Some (''left '' @ snd p @ '': it does not match the staged candidate'')), v)
         else bind_h (unlink p) (\<lambda>_. ret (Some (''removed '' @ snd p))) v)"

fun archive_forward :: "host \<Rightarrow> string \<Rightarrow> path list \<Rightarrow> (string \<times> string) list helper" where
  "archive_forward h op [] = ret []"
| "archive_forward h op (p # ps) =
     bind_h (copy_durable p (forward_copy op p)) (\<lambda>_.
     bind_h (ask (\<lambda>v. sha_of h v p)) (\<lambda>digest.
     bind_h (ensure (\<lambda>v. sha_of h v (forward_copy op p) = digest) ''Forward archive differs from current database'') (\<lambda>_.
     bind_h (archive_forward h op ps) (\<lambda>rest.
     ret ((snd p, digest) # rest)))))"

definition begin_rollback :: "host \<Rightarrow> string \<Rightarrow> restore_state \<Rightarrow> restore_state helper" where
  "begin_rollback h op st =
     bind_h (ensure (\<lambda>v. dirs v (Forward op) = None) ''Incomplete forward archive exists; inspect it before retrying rollback'') (\<lambda>_.
     bind_h (ask family) (\<lambda>live.
     bind_h (ensure (\<lambda>v. list_all (is_regular v) live) ''Current database family contains a non-regular file'') (\<lambda>_.
     bind_h (ensure (\<lambda>v. total_size v live + total_size v [old_consistent op] + MARGIN \<le> h_disk_free h v)
       ''Insufficient space to retain forward state and install rollback copy'') (\<lambda>_.
     bind_h (make_dir (Forward op)) (\<lambda>_.
     bind_h (archive_forward h op live) (\<lambda>fwd.
     let st = st\<lparr>rs_forward_files := Some fwd, rs_phase := RollingBack, rs_write_probe := Some PROBE_PENDING\<rparr>
     in bind_h (save_state op st) (\<lambda>_.
     ret st)))))))"

text \<open>The checks before an interrupted rollback is taken up again.\<close>

definition archived_member_ok :: "host \<Rightarrow> string \<Rightarrow> volume \<Rightarrow> string \<times> string \<Rightarrow> bool" where
  "archived_member_ok h op v nd =
     (fst nd \<in> set (map snd [DB, WAL, SHM]) \<and> is_regular v (Forward op, fst nd) \<and> sha_of h v (Forward op, fst nd) = snd nd)"

definition sidecar_ok :: "host \<Rightarrow> string \<Rightarrow> (string \<times> string) list \<Rightarrow> volume \<Rightarrow> path \<Rightarrow> bool" where
  "sidecar_ok h op recorded v p =
     (\<not> is_symlink v p \<and> \<not> is_symlink v (displaced_forward op p) \<and>
      (case map_of recorded (snd p) of
         None \<Rightarrow> \<not> path_exists v p \<and> \<not> path_exists v (displaced_forward op p)
       | Some expected \<Rightarrow>
           if path_exists v p then \<not> path_exists v (displaced_forward op p) \<and> sha_of h v p = expected
           else is_regular v (displaced_forward op p) \<and> sha_of h v (displaced_forward op p) = expected))"

definition resume_rollback :: "host \<Rightarrow> string \<Rightarrow> restore_state \<Rightarrow> string \<Rightarrow> restore_state helper" where
  "resume_rollback h op st old_digest =
     bind_h (ensure (\<lambda>v. dirs v (Forward op) = Some False) ''Verified forward archive is missing'') (\<lambda>_.
     case rs_forward_files st of
       None \<Rightarrow> fail (Refused ''Forward archive has no recorded checksums'')
     | Some recorded \<Rightarrow>
         bind_h (ensure (\<lambda>_. recorded \<noteq> []) ''Forward archive has no recorded checksums'') (\<lambda>_.
         bind_h (ensure (\<lambda>v. list_all (archived_member_ok h op v) recorded) ''Forward archive differs from recorded checksum'') (\<lambda>_.
         bind_h (ensure (\<lambda>v. map_of recorded (snd DB) = Some (sha_of h v DB) \<or> sha_of h v DB = old_digest)
           ''Current database changed during rollback; keep the service stopped'') (\<lambda>_.
         bind_h (ensure (\<lambda>v. list_all (sidecar_ok h op recorded v) [WAL, SHM])
           ''Current sidecar changed during rollback; keep the service stopped'') (\<lambda>_.
         ret st)))))"

fun displace_forward :: "string \<Rightarrow> path list \<Rightarrow> unit helper" where
  "displace_forward op [] = ret ()"
| "displace_forward op (p # ps) =
     bind_h (ask (\<lambda>v. path_exists v p)) (\<lambda>there.
     bind_h (if there
             then bind_h (ensure (\<lambda>v. \<not> path_exists v (displaced_forward op p))
                    ''A sidecar reappeared after being displaced; keep the service stopped'') (\<lambda>_.
                  replace_file p (displaced_forward op p))
             else ret ()) (\<lambda>_.
     displace_forward op ps))"

definition install_old :: "host \<Rightarrow> string \<Rightarrow> restore_state \<Rightarrow> string \<Rightarrow> restore_state helper" where
  "install_old h op st old_digest =
     bind_h (unlink (rollback_copy op)) (\<lambda>_.
     bind_h (copy_durable (old_consistent op) (rollback_copy op)) (\<lambda>_.
     bind_h (ensure (\<lambda>v. sha_of h v (rollback_copy op) = old_digest) ''Rollback copy differs from archived old state'') (\<lambda>_.
     bind_h (displace_forward op [WAL, SHM]) (\<lambda>_.
     bind_h (replace_file (rollback_copy op) DB) (\<lambda>_.
     let st = st\<lparr>rs_phase := RolledBack\<rparr>
     in bind_h (save_state op st) (\<lambda>_.
     bind_h (remove_incoming h op (bi_sha256 (rs_candidate_info st))) (\<lambda>_.
     require_writable h op st)))))))"

definition abandon_activation :: "host \<Rightarrow> string \<Rightarrow> restore_state \<Rightarrow> restore_state option helper" where
  "abandon_activation h op st =
     bind_h (remove_incoming h op (bi_sha256 (rs_candidate_info st))) (\<lambda>_.
     let st = st\<lparr>rs_phase := Abandoned\<rparr>
     in bind_h (save_state op st) (\<lambda>_. ret (Some st)))"

definition own_state :: "string \<Rightarrow> restore_state helper" where
  "own_state op =
     bind_h (recovery_dir op) (\<lambda>_.
     bind_h (load_recovery op) (\<lambda>st.
     bind_h (ensure (\<lambda>_. rs_operation_id st = op) ''Recovery state belongs to a different database or operation'') (\<lambda>_.
     ret st)))"

definition rollback_to :: "host \<Rightarrow> string \<Rightarrow> bool \<Rightarrow> restore_state \<Rightarrow> old_state \<Rightarrow> restore_state option helper" where
  "rollback_to h op apply st old =
     bind_h (ensure (\<lambda>_. os_rollback_available old) ''The old state was not a readable OpenChronicle database'') (\<lambda>_.
     bind_h (regular (old_consistent op)) (\<lambda>_.
     bind_h (ensure (\<lambda>v. sha_of h v (old_consistent op) = os_sha256 old)
       ''Consolidated rollback snapshot differs from its recorded identity'') (\<lambda>_.
     if \<not> apply then ret None
     else bind_h (if rs_phase st \<noteq> RollingBack then begin_rollback h op st
                  else resume_rollback h op st (os_sha256 old)) (\<lambda>st.
          bind_h (install_old h op st (os_sha256 old)) (\<lambda>st. ret (Some st))))))"

definition rollback :: "host \<Rightarrow> string \<Rightarrow> bool \<Rightarrow> restore_state option helper" where
  "rollback h op apply =
     bind_h (refuse_root h) (\<lambda>_.
     bind_h (regular DB) (\<lambda>_.
     bind_h (own_state op) (\<lambda>st.
     if rs_phase st = Archiving then (if apply then abandon_activation h op st else ret None)
     else if rs_phase st \<notin> {Prepared, Activated, RollingBack} then fail (Refused ''Nothing to roll back'')
     else (case rs_old_state st of
       None \<Rightarrow> fail (Refused ''The old state was not a readable OpenChronicle database'')
     | Some old \<Rightarrow> rollback_to h op apply st old))))"

section \<open>Probe, retirement and staging\<close>

definition foreign_sidecar :: "volume \<Rightarrow> path option" where
  "foreign_sidecar v =
     (let extras = filter (\<lambda>p. p \<noteq> DB) (family v)
      in case filter (is_symlink v) (filter (\<lambda>p. p \<in> set extras) [SHM, WAL]) of
           p # _ \<Rightarrow> Some p
         | [] \<Rightarrow> if SHM \<in> set extras \<and> WAL \<notin> set extras then Some SHM else None)"

definition unchanged_since_swap :: "host \<Rightarrow> string \<Rightarrow> volume \<Rightarrow> bool" where
  "unchanged_since_swap h expected_sha v =
     (expected_sha \<noteq> [] \<and> \<not> (path_exists v WAL \<and> bytes v WAL \<noteq> []) \<and> sha_of h v DB = expected_sha)"

definition probe :: "host \<Rightarrow> string \<Rightarrow> restore_state helper" where
  "probe h op =
     bind_h (refuse_root h) (\<lambda>_.
     bind_h (regular DB) (\<lambda>_.
     bind_h (own_state op) (\<lambda>st.
     bind_h (ensure (\<lambda>_. rs_phase st \<in> {Activated, RolledBack}) ''Nothing installed to probe'') (\<lambda>_.
     let expected_sha = (if rs_phase st = Activated then bi_sha256 (rs_candidate_info st)
                         else (case rs_old_state st of None \<Rightarrow> [] | Some old \<Rightarrow> os_sha256 old))
     in bind_h (ensure (\<lambda>v. foreign_sidecar v = None) ''not something SQLite leaves; remove it'') (\<lambda>_ v.
        if unchanged_since_swap h expected_sha v then require_writable h op st v
        else bind_h (save_state op (st\<lparr>rs_write_probe := Some PROBE_STALE\<rparr>)) (\<lambda>_.
             fail (Refused ''The installed database was written since the swap'')) v)))))"

definition check_staged :: "host \<Rightarrow> restore_state \<Rightarrow> unit helper" where
  "check_staged h st =
     bind_h (ask (\<lambda>v. path_exists v (rs_candidate st))) (\<lambda>there.
     if there
     then bind_h (inspect h (rs_candidate st)) (\<lambda>info.
          ensure (\<lambda>_. info = rs_candidate_info st) ''Staged candidate changed before retirement'')
     else ensure (\<lambda>_. rs_retirement st = Some ''in_progress'') ''Staged candidate is missing without a recorded retirement'')"

definition remove_staged :: "host \<Rightarrow> string \<Rightarrow> restore_state \<Rightarrow> bool helper" where
  "remove_staged h op st =
     bind_h (save_state op (st\<lparr>rs_retirement := Some ''in_progress''\<rparr>)) (\<lambda>_.
     bind_h (unlink (rs_candidate st)) (\<lambda>_.
     bind_h (save_state op (st\<lparr>rs_retirement := Some ''done''\<rparr>)) (\<lambda>_.
     bind_h (remove_incoming h op (bi_sha256 (rs_candidate_info st))) (\<lambda>_.
     ret True))))"

definition retire_stage :: "host \<Rightarrow> string \<Rightarrow> bool \<Rightarrow> bool helper" where
  "retire_stage h op apply =
     bind_h (own_state op) (\<lambda>st.
     bind_h (ensure (\<lambda>_. rs_phase st \<in> {Activated, RolledBack, Abandoned})
       ''Cannot retire a stage before activation or rollback completes'') (\<lambda>_.
     bind_h (ensure (\<lambda>v. fst (rs_candidate st) = Stage \<and> dirs v Stage \<noteq> Some True \<and> candidate_name (snd (rs_candidate st)))
       ''Recorded staged path is invalid'') (\<lambda>_.
     if rs_retirement st = Some ''done''
     then bind_h (ensure (\<lambda>v. \<not> path_exists v (rs_candidate st)) ''Retired staged file unexpectedly reappeared'') (\<lambda>_. ret False)
     else bind_h (ensure (\<lambda>_. rs_retirement st \<in> {None, Some ''in_progress''}) ''Unrecognized stage retirement state'') (\<lambda>_.
          bind_h (check_staged h st) (\<lambda>_.
          if \<not> apply then ret False else remove_staged h op st)))))"

fun helper_place :: "place \<Rightarrow> bool" where
  "helper_place Data = False"
| "helper_place (Elsewhere _) = False"
| "helper_place _ = True"

text \<open>\<open>resolved\<close> is the source with symbolic links followed, \<open>token\<close> the random part of the name.\<close>

definition stage :: "host \<Rightarrow> path \<Rightarrow> path \<Rightarrow> string \<Rightarrow> string \<Rightarrow> bool \<Rightarrow> path option helper" where
  "stage h source resolved expected_sha token apply =
     bind_h (ensure (\<lambda>_. length expected_sha = 64 \<and> list_all lower_hex expected_sha)
       ''--expected-sha256 must be 64 lowercase hex characters from an independent record'') (\<lambda>_.
     bind_h (ensure (\<lambda>_. \<not> helper_place (fst resolved)) ''Stage a snapshot, not a file from .restore-stage or .recovery'') (\<lambda>_.
     bind_h (ensure (\<lambda>_. resolved \<notin> {DB, WAL, SHM} \<and> take 10 (snd source) \<notin> {''.incoming-'', ''.rollback-''})
       ''The live database family cannot be staged; stage a verified snapshot'') (\<lambda>_.
     bind_h (inspect h source) (\<lambda>info.
     bind_h (ensure (\<lambda>_. bi_sha256 info = expected_sha) ''Snapshot digest differs from the independently recorded SHA-256'') (\<lambda>_.
     bind_h (ensure (\<lambda>v. dirs v Stage \<noteq> Some True) ''Stage directory cannot be a symlink'') (\<lambda>_.
     bind_h (ensure (\<lambda>v. \<not> list_ex (\<lambda>p. suffix ''.db'' (snd p)) (members_of Stage v))
       ''A restore candidate is already staged; activate it or retire it first'') (\<lambda>_.
     bind_h (ensure (\<lambda>v. total_size v [source] + MARGIN \<le> h_disk_free h v) ''Insufficient space to stage the snapshot'') (\<lambda>_.
     if \<not> apply then ret None
     else
       let temp = (Stage, ''candidate-'' @ token @ ''.tmp''); final = (Stage, ''candidate-'' @ token @ ''.db'')
       in bind_h (ask (\<lambda>v. dirs v Stage = None)) (\<lambda>no_dir.
          bind_h (if no_dir then make_dir Stage else ret ()) (\<lambda>_.
          bind_h (copy_durable source temp) (\<lambda>_.
          bind_h (\<lambda>v. if sha_of h v temp = expected_sha then (Inr (), v)
                      else bind_h (unlink temp) (\<lambda>_. fail (Refused ''Staged copy differs from the verified snapshot'')) v) (\<lambda>_.
          bind_h (replace_file temp final) (\<lambda>_.
          bind_h (inspect h final) (\<lambda>staged.
          if staged = info then ret (Some final)
          else bind_h (unlink final) (\<lambda>_. fail (Refused ''Staged candidate failed re-verification''))))))))))))))))"

end
