(* ===== verification/OC_Restore_Logic.thy ===== *)
theory OC_Restore_Logic
  imports OC_Restore
begin

text \<open>
  Reasoning about the restore helper when it may die at any change: \<open>wpe m Q E v\<close> says that a
  run of \<open>m\<close> from \<open>v\<close> that returns ends in \<open>Q\<close>, and a run that is refused, fails or dies
  ends in \<open>E\<close> of its failure; \<open>wp\<close> is the case where the failure does not matter. The rules follow the constructs of the helper; \<open>restore_simps\<close> tells what a
  change does to the files.
\<close>

named_theorems restore_simps

section \<open>Files after a change\<close>

lemma map_of_filter_ne: "map_of (filter (\<lambda>x. fst x \<noteq> p) xs) q = (if q = p then None else map_of xs q)"
  by (induction xs) auto

lemma map_of_filter_place: "map_of (filter (\<lambda>x. fst (fst x) \<noteq> d) xs) q = (if fst q = d then None else map_of xs q)"
  by (induction xs) auto

lemma node_at_put [restore_simps]: "node_at (put p n v) q = (if q = p then Some n else node_at v q)"
  by (simp add: node_at_def put_def map_of_filter_ne)

lemma node_at_del [restore_simps]: "node_at (del p v) q = (if q = p then None else node_at v q)"
  by (simp add: node_at_def del_def map_of_filter_ne)

lemma node_at_clear [restore_simps]: "node_at (clear_place d v) q = (if fst q = d then None else node_at v q)"
  by (simp add: node_at_def clear_place_def map_of_filter_place)

lemma other_fields [restore_simps]:
  "dirs (put p n v) = dirs v" "states (put p n v) = states v" "fates (put p n v) = fates v"
  "dirs (del p v) = dirs v" "states (del p v) = states v" "fates (del p v) = fates v"
  "dirs (clear_place d v) = (dirs v)(d := None)" "states (clear_place d v) = states v" "fates (clear_place d v) = fates v"
  by (simp_all add: put_def del_def clear_place_def)

lemma node_at_upd [restore_simps]:
  "node_at (v\<lparr>fates := r\<rparr>) = node_at v" "node_at (v\<lparr>dirs := ds\<rparr>) = node_at v" "node_at (v\<lparr>states := ss\<rparr>) = node_at v"
  by (simp_all add: node_at_def fun_eq_iff)

lemma is_regular_iff: "is_regular v p \<longleftrightarrow> (\<exists>c. node_at v p = Some (Regular c))"
  by (auto simp: is_regular_def split: option.split node.split)

lemma bytes_Regular [restore_simps]: "node_at v p = Some (Regular c) \<Longrightarrow> bytes v p = c"
  by (simp add: bytes_def)

lemma node_at_None_iff: "node_at v p = None \<longleftrightarrow> p \<notin> fst ` set (files v)"
  by (simp add: node_at_def map_of_eq_None_iff)

lemma set_members: "set (members_of d v) = {p. fst p = d \<and> node_at v p \<noteq> None}"
proof -
  have "set (members_of d v) = {p \<in> fst ` set (files v). fst p = d}" by (auto simp: members_of_def)
  then show ?thesis using node_at_None_iff by auto
qed

lemma names_distinct [simp]: "DB \<noteq> WAL" "DB \<noteq> SHM" "WAL \<noteq> SHM" "WAL \<noteq> DB" "SHM \<noteq> DB" "SHM \<noteq> WAL"
  "incoming_copy op \<noteq> DB" "incoming_copy op \<noteq> WAL" "incoming_copy op \<noteq> SHM"
  "rollback_copy op \<noteq> DB" "rollback_copy op \<noteq> WAL" "rollback_copy op \<noteq> SHM" "rollback_copy op \<noteq> incoming_copy op"
  "DB \<noteq> incoming_copy op" "WAL \<noteq> incoming_copy op" "SHM \<noteq> incoming_copy op"
  "DB \<noteq> rollback_copy op" "WAL \<noteq> rollback_copy op" "SHM \<noteq> rollback_copy op" "incoming_copy op \<noteq> rollback_copy op"
  by (simp_all add: DB_def WAL_def SHM_def incoming_copy_def rollback_copy_def)

lemma places [simp]: "fst DB = Data" "fst WAL = Data" "fst SHM = Data" "fst (incoming_copy op) = Data" "fst (rollback_copy op) = Data"
  "fst (old_consistent op) = Recovery op" "fst (raw_copy op p) = RawOld op" "fst (displaced_old op p) = Recovery op"
  "fst (forward_copy op p) = Forward op" "fst (displaced_forward op p) = Forward op"
  by (simp_all add: DB_def WAL_def SHM_def incoming_copy_def rollback_copy_def old_consistent_def raw_copy_def
      displaced_old_def forward_copy_def displaced_forward_def)

section \<open>Runs\<close>

definition wpe :: "'a helper \<Rightarrow> ('a \<Rightarrow> volume \<Rightarrow> bool) \<Rightarrow> (restore_failure \<Rightarrow> volume \<Rightarrow> bool) \<Rightarrow> volume \<Rightarrow> bool" where
  "wpe m Q E v = (case m v of (Inl e, v') \<Rightarrow> E e v' | (Inr x, v') \<Rightarrow> Q x v')"

abbreviation wp :: "'a helper \<Rightarrow> ('a \<Rightarrow> volume \<Rightarrow> bool) \<Rightarrow> (volume \<Rightarrow> bool) \<Rightarrow> volume \<Rightarrow> bool" where
  "wp m Q E \<equiv> wpe m Q (\<lambda>_. E)"

lemma wpI: "(\<And>x v'. m v = (Inr x, v') \<Longrightarrow> Q x v') \<Longrightarrow> (\<And>e v'. m v = (Inl e, v') \<Longrightarrow> E e v') \<Longrightarrow> wpe m Q E v"
  by (auto simp: wpe_def split: prod.split sum.split)

lemma wpD: "wpe m Q E v \<Longrightarrow> m v = (r, v') \<Longrightarrow> (case r of Inl e \<Rightarrow> E e v' | Inr x \<Rightarrow> Q x v')"
  by (auto simp: wpe_def split: sum.splits)

lemma wp_mono: "wpe m Q E v \<Longrightarrow> (\<And>x v'. Q x v' \<Longrightarrow> Q' x v') \<Longrightarrow> (\<And>e v'. E e v' \<Longrightarrow> E' e v') \<Longrightarrow> wpe m Q' E' v"
  by (auto simp: wpe_def split: prod.splits sum.splits)

lemma wp_bind: "wpe m (\<lambda>x. wpe (k x) Q E) E v \<Longrightarrow> wpe (bind_h m k) Q E v"
  by (auto simp: wpe_def bind_h_def split: prod.splits sum.splits)

lemma wp_seq: "wpe m R E v \<Longrightarrow> (\<And>x v'. R x v' \<Longrightarrow> wpe (k x) Q E v') \<Longrightarrow> wpe (bind_h m k) Q E v"
  by (rule wp_bind) (erule wp_mono, auto)

lemma wp_ret: "Q x v \<Longrightarrow> wpe (ret x) Q E v"
  by (simp add: wpe_def ret_def)

lemma wp_fail: "E e v \<Longrightarrow> wpe (fail e) Q E v"
  by (simp add: wpe_def fail_def)

lemma wp_ask: "Q (f v) v \<Longrightarrow> wpe (ask f) Q E v"
  by (simp add: wpe_def ask_def)

lemma wp_ensure: "(P v \<Longrightarrow> Q () v) \<Longrightarrow> (\<not> P v \<Longrightarrow> E (Refused msg) v) \<Longrightarrow> wpe (ensure P msg) Q E v"
  by (simp add: wpe_def ensure_def)

lemma wp_change:
  assumes "\<And>r. Q () (f (v\<lparr>fates := r\<rparr>))" "\<And>r. E Died (v\<lparr>fates := r\<rparr>)"
  shows "wpe (change f) Q E v"
proof -
  have "Q () (f v)" using assms(1) [of "fates v"] by simp
  then show ?thesis using assms by (auto simp: wpe_def change_def split: list.split fate.split)
qed

lemma wp_make_dir:
  assumes "\<And>r. dirs v d = None \<Longrightarrow> Q () (v\<lparr>fates := r, dirs := (dirs v)(d \<mapsto> False)\<rparr>)"
    "\<And>e r. e = Died \<or> dirs v d \<noteq> None \<Longrightarrow> E e (v\<lparr>fates := r\<rparr>)"
  shows "wpe (make_dir d) Q E v"
proof (cases "dirs v d")
  case None
  then have "wpe (change (\<lambda>v. v\<lparr>dirs := (dirs v)(d \<mapsto> False)\<rparr>)) Q E v" using assms by (intro wp_change) simp_all
  then show ?thesis using None by (simp add: wpe_def make_dir_def)
next
  case (Some b)
  then show ?thesis using assms(2) [of _ "fates v"] by (simp add: wpe_def make_dir_def)
qed

lemma wp_write_new:
  assumes "\<And>r. Q () (put p (Regular c) (v\<lparr>fates := r\<rparr>))" "\<And>r. E Died (v\<lparr>fates := r\<rparr>)"
    "\<And>r part. E Died (put p (Regular part) (v\<lparr>fates := r\<rparr>))"
  shows "wpe (write_new p c) Q E v"
proof -
  have "wpe (change (put p (Regular c))) Q E v" using assms(1,2) by (rule wp_change)
  then show ?thesis using assms(3) by (auto simp: wpe_def write_new_def split: list.split fate.split option.split)
qed

lemma wp_regular:
  "(is_regular v p \<Longrightarrow> Q () v) \<Longrightarrow> (\<not> is_regular v p \<Longrightarrow> E (Refused ''Missing or non-regular file'') v) \<Longrightarrow> wpe (regular p) Q E v"
  by (simp add: wpe_def regular_def ensure_def)

lemma wp_copy:
  assumes "\<And>c r. node_at v source = Some (Regular c) \<Longrightarrow> node_at v target = None \<Longrightarrow>
      Q () (put target (Regular c) (v\<lparr>fates := r\<rparr>))"
    "\<And>e r. e = Died \<or> \<not> is_regular v source \<or> node_at v target \<noteq> None \<Longrightarrow> E e (v\<lparr>fates := r\<rparr>)"
    "\<And>r part. node_at v target = None \<Longrightarrow> E Died (put target (Regular part) (v\<lparr>fates := r\<rparr>))"
  shows "wpe (copy_durable source target) Q E v"
proof -
  have e: "E e v" if "e = Died \<or> \<not> is_regular v source \<or> node_at v target \<noteq> None" for e
    using assms(2) [of e "fates v"] that by simp
  show ?thesis unfolding copy_durable_def
  proof (intro wp_bind wp_regular)
    assume "is_regular v source"
    then obtain c where c: "node_at v source = Some (Regular c)" unfolding is_regular_iff ..
    show "wpe (\<lambda>v. if node_at v target \<noteq> None then (Inl (OsError ''File exists''), v)
        else write_new target (bytes v source) v) Q E v"
    proof (cases "node_at v target")
      case None
      then have "wpe (write_new target c) Q E v" using assms c by (intro wp_write_new) auto
      then show ?thesis using None c by (simp add: wpe_def bytes_Regular)
    next
      case (Some n)
      then show ?thesis using e by (simp add: wpe_def)
    qed
  qed (use e in blast)
qed

lemma wp_replace:
  assumes "\<And>n r. node_at v source = Some n \<Longrightarrow> Q () (put target n (del source (v\<lparr>fates := r\<rparr>)))"
    "\<And>e r. e = Died \<or> node_at v source = None \<Longrightarrow> E e (v\<lparr>fates := r\<rparr>)"
  shows "wpe (replace_file source target) Q E v"
proof (cases "node_at v source")
  case None
  then show ?thesis using assms(2) [of _ "fates v"] by (simp add: wpe_def replace_file_def)
next
  case (Some n)
  then have "wpe (change (\<lambda>v. put target n (del source v))) Q E v" using assms by (intro wp_change) simp_all
  then show ?thesis using Some by (simp add: wpe_def replace_file_def)
qed

lemma wp_unlink: "(\<And>r. Q () (del p (v\<lparr>fates := r\<rparr>))) \<Longrightarrow> (\<And>r. E Died (v\<lparr>fates := r\<rparr>)) \<Longrightarrow> wpe (unlink p) Q E v"
  unfolding unlink_def by (rule wp_change)

lemma wp_save:
  "(\<And>r. Q () (v\<lparr>fates := r, states := (states v)(op \<mapsto> st)\<rparr>)) \<Longrightarrow> (\<And>r. E Died (v\<lparr>fates := r\<rparr>)) \<Longrightarrow> wpe (save_state op st) Q E v"
  unfolding save_state_def by (rule wp_change) simp_all

lemma wp_if: "(b \<Longrightarrow> wpe m Q E v) \<Longrightarrow> (\<not> b \<Longrightarrow> wpe k Q E v) \<Longrightarrow> wpe (if b then m else k) Q E v"
  by simp

lemma wp_if_now: "(b v \<Longrightarrow> wpe m Q E v) \<Longrightarrow> (\<not> b v \<Longrightarrow> wpe k Q E v) \<Longrightarrow> wpe (\<lambda>v. if b v then m v else k v) Q E v"
  by (simp add: wpe_def)

text \<open>A read of the volume that does not change it.\<close>

definition reads :: "'a helper \<Rightarrow> bool" where
  "reads m \<longleftrightarrow> (\<forall>v. snd (m v) = v)"

lemma wp_reads: "reads m \<Longrightarrow> (\<And>x. m v = (Inr x, v) \<Longrightarrow> Q x v) \<Longrightarrow> (\<And>e. m v = (Inl e, v) \<Longrightarrow> E e v) \<Longrightarrow> wpe m Q E v"
  unfolding reads_def by (rule wpI) (metis snd_conv)+

lemma reads_bind: "reads m \<Longrightarrow> (\<And>x. reads (k x)) \<Longrightarrow> reads (bind_h m k)"
  unfolding reads_def bind_h_def by (auto split: prod.split sum.split) (metis snd_conv)+

lemma reads_basic [simp]: "reads (ret x)" "reads (fail e)" "reads (ask f)" "reads (ensure P msg)" "reads (regular p)" "reads (load_recovery op)"
  by (auto simp: reads_def ret_def fail_def ask_def ensure_def regular_def load_recovery_def split: option.split)

lemma reads_inspect [simp]: "reads (inspect h p)"
  unfolding inspect_def by (intro reads_bind reads_basic) (auto simp: reads_def Let_def split: option.split prod.split)

lemma reads_preflight [simp]: "reads (preflight h c e)"
  unfolding preflight_def by (intro reads_bind reads_basic reads_inspect)

lemma reads_recovery_dir [simp]: "reads (recovery_dir op)"
  unfolding recovery_dir_def by (intro reads_bind reads_basic)

lemma reads_own_state [simp]: "reads (own_state op)"
  unfolding own_state_def by (intro reads_bind reads_basic reads_recovery_dir)

lemma reads_refuse_root [simp]: "reads (refuse_root h)"
  by (simp add: refuse_root_def)

lemma bind_Inr_D: "bind_h m k v = (Inr y, v') \<Longrightarrow> \<exists>x v1. m v = (Inr x, v1) \<and> k x v1 = (Inr y, v')"
  by (auto simp: bind_h_def split: prod.splits sum.splits)

lemma ensure_Inr_D: "ensure P msg v = (Inr x, v') \<Longrightarrow> P v \<and> v' = v"
  by (auto simp: ensure_def split: if_splits)

end
