(* ===== verification/OC_Restore_Props.thy ===== *)
theory OC_Restore_Props
  imports OC_Restore_Logic
begin

text \<open>
  What activation and rollback keep at every point where the helper may stop. \<open>v0\<close> is the
  volume before the activation.
\<close>

section \<open>Archives\<close>

definition FAMILY :: "path list" where
  "FAMILY = [DB, WAL, SHM]"

definition own_places :: "string \<Rightarrow> place set" where
  "own_places op = {Recovery op, RawOld op, Scratch op}"

text \<open>Activation changes nothing but the database family, its copy beside it and its own directories.\<close>

definition untouched :: "string \<Rightarrow> volume \<Rightarrow> volume \<Rightarrow> bool" where
  "untouched op v0 v \<longleftrightarrow>
     (\<forall>p. fst p \<notin> own_places op \<longrightarrow> p \<notin> set FAMILY \<union> {incoming_copy op} \<longrightarrow> node_at v p = node_at v0 p)
     \<and> (\<forall>q. q \<noteq> op \<longrightarrow> states v q = states v0 q)"

definition live_same :: "volume \<Rightarrow> volume \<Rightarrow> bool" where
  "live_same v0 v \<longleftrightarrow> (\<forall>p \<in> set FAMILY. node_at v p = node_at v0 p)"

text \<open>Directory \<open>d\<close> holds the copies of the named files of \<open>v0\<close> and nothing else.\<close>

definition holds :: "place \<Rightarrow> string set \<Rightarrow> volume \<Rightarrow> volume \<Rightarrow> bool" where
  "holds d N v0 v \<longleftrightarrow> (\<forall>n. node_at v (d, n) = (if n \<in> N then node_at v0 (Data, n) else None))"

lemma holds_upd [restore_simps]:
  "holds d N v0 (v\<lparr>fates := r\<rparr>) = holds d N v0 v" "holds d N v0 (v\<lparr>dirs := ds\<rparr>) = holds d N v0 v"
  "holds d N v0 (v\<lparr>states := ss\<rparr>) = holds d N v0 v" "e \<noteq> d \<Longrightarrow> holds d N v0 (clear_place e v) = holds d N v0 v"
  by (simp_all add: holds_def restore_simps)

lemma holds_elsewhere [restore_simps]:
  assumes "fst p \<noteq> d"
  shows "holds d N v0 (put p x v) = holds d N v0 v" "holds d N v0 (del p v) = holds d N v0 v"
proof -
  have "(d, n) \<noteq> p" for n using assms by auto
  then show "holds d N v0 (put p x v) = holds d N v0 v" "holds d N v0 (del p v) = holds d N v0 v"
    by (simp_all add: holds_def restore_simps)
qed

lemma holds_put:
  assumes "holds d N v0 v" "node_at v0 (Data, n) = Some x"
  shows "holds d (insert n N) v0 (put (d, n) x v)"
  using assms by (auto simp: holds_def restore_simps)

definition archiving :: "string \<Rightarrow> backup_info \<Rightarrow> volume \<Rightarrow> volume \<Rightarrow> bool" where
  "archiving op info v0 v \<longleftrightarrow> untouched op v0 v \<and> live_same v0 v \<and>
     (\<forall>st. states v op = Some st \<longrightarrow> rs_phase st = Archiving \<and> rs_operation_id st = op \<and> rs_candidate_info st = info)"

lemma archiving_upd [restore_simps]:
  "archiving op info v0 (v\<lparr>fates := r\<rparr>) = archiving op info v0 v"
  "archiving op info v0 (v\<lparr>dirs := ds\<rparr>) = archiving op info v0 v"
  by (simp_all add: archiving_def untouched_def live_same_def restore_simps)

lemma archiving_own [simp]:
  assumes "archiving op info v0 v"
  shows "fst p \<in> own_places op \<Longrightarrow> archiving op info v0 (put p x v)"
    and "archiving op info v0 (put (incoming_copy op) x v)"
    and "d \<in> own_places op \<Longrightarrow> archiving op info v0 (clear_place d v)"
    and "rs_phase st = Archiving \<Longrightarrow> rs_operation_id st = op \<Longrightarrow> rs_candidate_info st = info \<Longrightarrow>
      archiving op info v0 (v\<lparr>states := (states v)(op \<mapsto> st)\<rparr>)"
  using assms by (auto simp: archiving_def untouched_def live_same_def restore_simps FAMILY_def own_places_def)

definition digests :: "host \<Rightarrow> volume \<Rightarrow> path list \<Rightarrow> (string \<times> string) list" where
  "digests h v ps = map (\<lambda>p. (snd p, sha_of h v p)) ps"

lemma data_path: "fst p = Data \<Longrightarrow> (Data, snd p) = p"
  by (cases p) simp

lemma in_FAMILY: "p \<in> set FAMILY \<Longrightarrow> fst p = Data \<and> fst p \<notin> own_places op \<and> p \<noteq> incoming_copy op \<and> p \<noteq> rollback_copy op"
  by (auto simp: FAMILY_def own_places_def)

lemma archiving_live: "archiving op info v0 v \<Longrightarrow> p \<in> set FAMILY \<Longrightarrow> node_at v p = node_at v0 p"
  by (simp add: archiving_def live_same_def)

section \<open>Copying into a directory\<close>

text \<open>The step from \<open>v\<close> to \<open>v'\<close> changed nothing but directory \<open>d\<close>, which holds the named copies.\<close>

definition filled :: "place \<Rightarrow> string set \<Rightarrow> volume \<Rightarrow> volume \<Rightarrow> volume \<Rightarrow> bool" where
  "filled d N v0 v v' \<longleftrightarrow> holds d N v0 v' \<and> dirs v' = dirs v \<and> states v' = states v \<and>
     (\<forall>p. fst p \<noteq> d \<longrightarrow> node_at v' p = node_at v p)"

lemma filled_refl: "holds d N v0 v \<Longrightarrow> filled d N v0 v v"
  by (simp add: filled_def)

lemma filled_trans: "filled d M v0 v v1 \<Longrightarrow> filled d N v0 v1 v2 \<Longrightarrow> filled d N v0 v v2"
  by (simp add: filled_def)

lemma filled_node: "filled d N v0 v v' \<Longrightarrow> fst p \<noteq> d \<Longrightarrow> node_at v' p = node_at v p"
  unfolding filled_def by blast

lemma filled_live: "filled d N v0 v v' \<Longrightarrow> d \<noteq> Data \<Longrightarrow> live_same v0 v \<Longrightarrow> live_same v0 v'"
  unfolding live_same_def using in_FAMILY filled_node by metis

lemma filled_sha: "filled d N v0 v v' \<Longrightarrow> fst p \<noteq> d \<Longrightarrow> sha_of h v' p = sha_of h v p"
  by (simp add: filled_node sha_of_def bytes_def)

definition closed_in :: "place \<Rightarrow> (volume \<Rightarrow> bool) \<Rightarrow> bool" where
  "closed_in d E \<longleftrightarrow> (\<forall>v r. E v \<longrightarrow> E (v\<lparr>fates := r\<rparr>)) \<and> (\<forall>v n x. E v \<longrightarrow> E (put (d, n) x v))"

lemma archiving_closed: "d \<in> own_places op \<Longrightarrow> closed_in d (archiving op info v0)"
  by (simp add: closed_in_def restore_simps)

lemma wp_copy_into:
  assumes E: "closed_in d E" "E v" and h: "holds d N v0 v" and src: "node_at v source = node_at v0 (Data, n)"
  shows "wp (copy_durable source (d, n)) (\<lambda>_ v'. E v' \<and> filled d (insert n N) v0 v v') E v"
proof (rule wp_copy)
  have E': "E (v\<lparr>fates := r\<rparr>)" "E (put (d, n) x (v\<lparr>fates := r\<rparr>))" for x r using E by (auto simp: closed_in_def)
  show "E (v\<lparr>fates := r\<rparr>)" "E (put (d, n) (Regular part) (v\<lparr>fates := r\<rparr>))" for r part by (rule E')+
  fix c r assume "node_at v source = Some (Regular c)"
  then have "holds d (insert n N) v0 (put (d, n) (Regular c) (v\<lparr>fates := r\<rparr>))"
    using h src by (intro holds_put) (simp_all add: restore_simps)
  then show "E (put (d, n) (Regular c) (v\<lparr>fates := r\<rparr>)) \<and> filled d (insert n N) v0 v (put (d, n) (Regular c) (v\<lparr>fates := r\<rparr>))"
    using E'(2) by (auto simp: filled_def restore_simps)
qed

lemma wp_archive_raw:
  assumes "closed_in (RawOld op) E" "E v" "holds (RawOld op) N v0 v" "live_same v0 v" "set ps \<subseteq> set FAMILY"
  shows "wp (archive_raw h op ps)
    (\<lambda>raw v'. E v' \<and> filled (RawOld op) (N \<union> snd ` set ps) v0 v v' \<and> raw = digests h v0 ps) E v"
  using assms
proof (induction ps arbitrary: v N)
  case Nil
  then show ?case by (auto simp: digests_def filled_refl intro: wp_ret)
next
  case (Cons p ps)
  have p: "p \<in> set FAMILY" "fst p = Data" "node_at v p = node_at v0 p"
    using Cons.prems(4,5) in_FAMILY by (auto simp: live_same_def)
  have "node_at v p = node_at v0 (Data, snd p)" using p by (simp add: data_path)
  note copy = wp_copy_into [OF Cons.prems(1-3) this, folded raw_copy_def [of op p]]
  show ?case unfolding archive_raw.simps
  proof (intro wp_bind wp_ask, rule wp_mono [OF copy])
    fix x v1 assume v1: "E v1 \<and> filled (RawOld op) (insert (snd p) N) v0 v v1"
    then have "wp (archive_raw h op ps)
      (\<lambda>raw v'. E v' \<and> filled (RawOld op) (insert (snd p) N \<union> snd ` set ps) v0 v1 v' \<and> raw = digests h v0 ps) E v1"
      using Cons.prems(4,5) filled_live by (intro Cons.IH [OF Cons.prems(1)]) (auto simp: filled_def)
    then have "wp (bind_h (archive_raw h op ps) (\<lambda>rest. ret ((snd p, sha_of h v p) # rest)))
      (\<lambda>raw v'. E v' \<and> filled (RawOld op) (N \<union> snd ` set (p # ps)) v0 v v' \<and> raw = digests h v0 (p # ps)) E v1"
      using v1 p(3) filled_trans by (elim wp_seq) (auto intro!: wp_ret simp: digests_def sha_of_def bytes_def)
    then show "wp (bind_h (ensure (\<lambda>v'. sha_of h v' (raw_copy op p) = sha_of h v p \<and> sha_of h v' p = sha_of h v p)
        ''Live database changed while archiving; keep the service stopped'')
      (\<lambda>_. bind_h (archive_raw h op ps) (\<lambda>rest. ret ((snd p, sha_of h v p) # rest))))
        (\<lambda>raw v'. E v' \<and> filled (RawOld op) (N \<union> snd ` set (p # ps)) v0 v v' \<and> raw = digests h v0 (p # ps)) E v1"
      using v1 by (intro wp_bind [where m = "ensure _ _"] wp_ensure) auto
  qed
qed

lemma wp_copy_all:
  assumes "closed_in d E" "E v" "holds d N v0 v" "d \<noteq> e"
    "\<forall>p \<in> set ps. fst p = e \<and> node_at v p = node_at v0 (Data, snd p)"
  shows "wp (copy_all (\<lambda>p. (d, snd p)) ps) (\<lambda>_ v'. E v' \<and> filled d (N \<union> snd ` set ps) v0 v v') E v"
  using assms
proof (induction ps arbitrary: v N)
  case Nil
  then show ?case by (auto simp: filled_refl intro: wp_ret)
next
  case (Cons p ps)
  have src: "node_at v p = node_at v0 (Data, snd p)" using Cons.prems(5) by simp
  show ?case unfolding copy_all.simps
  proof (rule wp_seq [OF wp_copy_into [OF Cons.prems(1-3) src]])
    fix x v1 assume v1: "E v1 \<and> filled d (insert (snd p) N) v0 v v1"
    then have "wp (copy_all (\<lambda>p. (d, snd p)) ps) (\<lambda>_ v'. E v' \<and> filled d (insert (snd p) N \<union> snd ` set ps) v0 v1 v') E v1"
      using Cons.prems(4,5) by (intro Cons.IH [OF Cons.prems(1)]) (auto simp: filled_def)
    then show "wp (copy_all (\<lambda>p. (d, snd p)) ps) (\<lambda>_ v'. E v' \<and> filled d (N \<union> snd ` set (p # ps)) v0 v v') E v1"
      using v1 filled_trans by (elim wp_mono) auto
  qed
qed

section \<open>Preparation\<close>

lemma family_eq: "family v = filter (\<lambda>p. node_at v p \<noteq> None) FAMILY"
proof -
  have "path_exists v p \<or> is_symlink v p \<longleftrightarrow> node_at v p \<noteq> None" for p
    by (auto simp: path_exists_def is_symlink_def split: option.splits node.splits)
  then show ?thesis by (simp add: family_def FAMILY_def)
qed

lemma path_exists_regular: "node_at v p = None \<or> is_regular v p \<Longrightarrow> path_exists v p \<longleftrightarrow> node_at v p \<noteq> None"
  by (auto simp: path_exists_def is_regular_iff)

text \<open>The family in a directory that holds its copies.\<close>

lemma holds_family:
  assumes "holds d (snd ` set (family v0)) v0 v" "p \<in> set FAMILY"
  shows "node_at v (d, snd p) = node_at v0 p"
proof -
  have p: "(Data, snd p) = p" using in_FAMILY [OF assms(2)] data_path by blast
  show ?thesis
  proof (cases "node_at v0 p")
    case None
    then show ?thesis using assms(1) p by (simp add: holds_def)
  next
    case (Some n)
    then have "p \<in> set (family v0)" using assms(2) by (simp add: family_eq)
    then have "snd p \<in> snd ` set (family v0)" by (rule imageI)
    then show ?thesis using assms(1) p by (simp add: holds_def)
  qed
qed

definition family_bytes :: "volume \<Rightarrow> (string \<times> string) list" where
  "family_bytes v = map (\<lambda>p. (snd p, bytes v p)) (filter (\<lambda>p. node_at v p \<noteq> None) FAMILY)"

lemma family_bytes_copy:
  assumes "holds d (snd ` set (family v0)) v0 v"
  shows "map (\<lambda>p. (snd p, bytes v p)) (filter (\<lambda>p. node_at v p \<noteq> None) (map (\<lambda>p. (d, snd p)) [DB, WAL, SHM])) = family_bytes v0"
proof -
  have "node_at v (d, snd p) = node_at v0 p" "bytes v (d, snd p) = bytes v0 p" if "p \<in> {DB, WAL, SHM}" for p
    using holds_family [OF assms, of p] that by (auto simp: FAMILY_def bytes_def)
  then show ?thesis by (simp add: family_bytes_def FAMILY_def)
qed

definition assessed :: "host \<Rightarrow> string \<Rightarrow> volume \<Rightarrow> volume \<Rightarrow> old_state \<Rightarrow> bool" where
  "assessed h op v0 v old \<longleftrightarrow>
     (case h_consolidate h (family_bytes v0) of
        Inr c \<Rightarrow> node_at v (old_consistent op) = Some (Regular c) \<and> old = describe h c
      | Inl corrupt \<Rightarrow> corrupt \<and> old = unreadable)"

definition recovery_clean :: "string \<Rightarrow> volume \<Rightarrow> bool" where
  "recovery_clean op v \<longleftrightarrow> (\<forall>p. fst p = Recovery op \<longrightarrow> p \<noteq> old_consistent op \<longrightarrow> node_at v p = None)"

text \<open>While the old state is archived: everything of \<open>raw-old\<close> in place.\<close>

definition raw_kept :: "string \<Rightarrow> backup_info \<Rightarrow> volume \<Rightarrow> volume \<Rightarrow> bool" where
  "raw_kept op info v0 v \<longleftrightarrow> archiving op info v0 v \<and> holds (RawOld op) (snd ` set (family v0)) v0 v \<and> recovery_clean op v"

lemma raw_kept_upd [simp]:
  assumes "raw_kept op info v0 v"
  shows "raw_kept op info v0 (v\<lparr>fates := r\<rparr>)" "raw_kept op info v0 (v\<lparr>dirs := ds\<rparr>)"
    "raw_kept op info v0 (put (Scratch op, n) x v)" "raw_kept op info v0 (clear_place (Scratch op) v)"
    "raw_kept op info v0 (put (old_consistent op) x v)" "raw_kept op info v0 (put (incoming_copy op) x v)"
    "rs_phase st = Archiving \<Longrightarrow> rs_operation_id st = op \<Longrightarrow> rs_candidate_info st = info \<Longrightarrow>
      raw_kept op info v0 (v\<lparr>states := (states v)(op \<mapsto> st)\<rparr>)"
proof -
  have own: "Scratch op \<in> own_places op" "Recovery op \<in> own_places op" "(Recovery op, m) \<noteq> incoming_copy op" for m
    by (simp_all add: own_places_def incoming_copy_def)
  show "raw_kept op info v0 (v\<lparr>fates := r\<rparr>)" "raw_kept op info v0 (v\<lparr>dirs := ds\<rparr>)"
    "raw_kept op info v0 (put (Scratch op, n) x v)" "raw_kept op info v0 (clear_place (Scratch op) v)"
    "raw_kept op info v0 (put (old_consistent op) x v)" "raw_kept op info v0 (put (incoming_copy op) x v)"
    "rs_phase st = Archiving \<Longrightarrow> rs_operation_id st = op \<Longrightarrow> rs_candidate_info st = info \<Longrightarrow>
      raw_kept op info v0 (v\<lparr>states := (states v)(op \<mapsto> st)\<rparr>)"
    using assms own by (auto simp: raw_kept_def recovery_clean_def restore_simps)
qed

lemma wp_consolidate:
  assumes "raw_kept op info v0 v" "holds (Scratch op) (snd ` set (family v0)) v0 v"
  shows "wp (consolidate h (Scratch op) (old_consistent op))
    (\<lambda>old v'. raw_kept op info v0 v' \<and> assessed h op v0 v' old \<and> states v' = states v) (archiving op info v0) v"
proof -
  have arch: "archiving op info v0 v'" if "raw_kept op info v0 v'" for v' using that by (simp add: raw_kept_def)
  show ?thesis unfolding consolidate_def
  proof (intro wp_bind wp_regular)
    show "wp (\<lambda>v. case h_consolidate h (map (\<lambda>p. (snd p, bytes v p)) (filter (\<lambda>p. node_at v p \<noteq> None)
              (map (\<lambda>p. (Scratch op, snd p)) [DB, WAL, SHM]))) of
         Inl corrupt \<Rightarrow> if corrupt then (Inr unreadable, v) else (Inl (OsError ''sqlite3.DatabaseError''), v)
       | Inr content \<Rightarrow> bind_h (write_new (old_consistent op) content) (\<lambda>_. ret (describe h content)) v)
      (\<lambda>old v'. raw_kept op info v0 v' \<and> assessed h op v0 v' old \<and> states v' = states v) (archiving op info v0) v"
    proof (cases "h_consolidate h (family_bytes v0)")
      case (Inl corrupt)
      then show ?thesis using assms(1) arch unfolding wpe_def family_bytes_copy [OF assms(2)] by (simp add: assessed_def)
    next
      case (Inr c)
      have "wp (bind_h (write_new (old_consistent op) c) (\<lambda>_. ret (describe h c)))
        (\<lambda>old v'. raw_kept op info v0 v' \<and> assessed h op v0 v' old \<and> states v' = states v) (archiving op info v0) v"
        using assms(1) arch Inr by (intro wp_bind wp_write_new wp_ret) (auto simp: assessed_def restore_simps)
      then show ?thesis unfolding wpe_def family_bytes_copy [OF assms(2)] by (simp add: Inr)
    qed
  qed (rule arch [OF assms(1)])
qed

lemma wp_assess_old_state:
  assumes "raw_kept op info v0 v" "holds (Scratch op) {} v0 v"
  shows "wp (assess_old_state h op)
    (\<lambda>old v'. raw_kept op info v0 v' \<and> assessed h op v0 v' old \<and> states v' = states v) (archiving op info v0) v"
proof -
  have arch: "archiving op info v0 v'" if "raw_kept op info v0 v'" for v' using that by (simp add: raw_kept_def)
  have closed: "closed_in (Scratch op) (raw_kept op info v0)" by (simp add: closed_in_def)
  have raw: "set (members_of (RawOld op) v') = Pair (RawOld op) ` snd ` set (family v0)"
    "\<forall>p \<in> set (members_of (RawOld op) v'). fst p = RawOld op \<and> node_at v' p = node_at v0 (Data, snd p)"
    if "raw_kept op info v0 v'" for v'
  proof -
    have h: "holds (RawOld op) (snd ` set (family v0)) v0 v'" using that by (simp add: raw_kept_def)
    have in0: "node_at v0 (Data, n) \<noteq> None" if "n \<in> snd ` set (family v0)" for n
      using that in_FAMILY data_path by (fastforce simp: family_eq)
    have iff: "node_at v' (RawOld op, n) \<noteq> None \<longleftrightarrow> n \<in> snd ` set (family v0)" for n
      using h in0 [of n] by (simp add: holds_def)
    show "set (members_of (RawOld op) v') = Pair (RawOld op) ` snd ` set (family v0)"
    proof (rule set_eqI)
      show "p \<in> set (members_of (RawOld op) v') \<longleftrightarrow> p \<in> Pair (RawOld op) ` snd ` set (family v0)" for p
        using iff [of "snd p"] by (cases p) (auto simp: set_members)
    qed
    then show "\<forall>p \<in> set (members_of (RawOld op) v'). fst p = RawOld op \<and> node_at v' p = node_at v0 (Data, snd p)"
      using h by (auto simp: holds_def)
  qed
  show ?thesis unfolding assess_old_state_def
  proof (intro wp_bind [where m = "make_dir _"] wp_make_dir)
    fix r
    let ?v = "v\<lparr>fates := r, dirs := (dirs v)(Scratch op \<mapsto> False)\<rparr>"
    have kept: "raw_kept op info v0 ?v" using assms(1) by simp
    have copy: "wp (copy_all (\<lambda>p. (Scratch op, snd p)) (members_of (RawOld op) ?v))
      (\<lambda>_ v'. raw_kept op info v0 v' \<and> filled (Scratch op) ({} \<union> snd ` set (members_of (RawOld op) ?v)) v0 ?v v') (raw_kept op info v0) ?v"
      using assms(2) by (intro wp_copy_all [OF closed kept _ _ raw(2) [OF kept]]) (simp_all add: restore_simps)
    have names: "snd ` set (members_of (RawOld op) ?v) = snd ` set (family v0)" unfolding raw(1) [OF kept] by force
    show "wp (bind_h (ask (members_of (RawOld op))) (\<lambda>raw.
        bind_h (copy_all (\<lambda>p. (Scratch op, snd p)) raw) (\<lambda>_.
        bind_h (consolidate h (Scratch op) (old_consistent op)) (\<lambda>old.
        bind_h (change (clear_place (Scratch op))) (\<lambda>_. ret old)))))
      (\<lambda>old v'. raw_kept op info v0 v' \<and> assessed h op v0 v' old \<and> states v' = states v) (archiving op info v0) ?v"
    proof (intro wp_bind [where m = "ask _"] wp_ask, rule wp_seq)
      show "wp (copy_all (\<lambda>p. (Scratch op, snd p)) (members_of (RawOld op) ?v))
        (\<lambda>_ v'. raw_kept op info v0 v' \<and> holds (Scratch op) (snd ` set (family v0)) v0 v' \<and> states v' = states v) (archiving op info v0) ?v"
        using copy arch by (elim wp_mono) (auto simp: filled_def names)
      fix x v1 assume v1: "raw_kept op info v0 v1 \<and> holds (Scratch op) (snd ` set (family v0)) v0 v1 \<and> states v1 = states v"
      show "wp (bind_h (consolidate h (Scratch op) (old_consistent op)) (\<lambda>old. bind_h (change (clear_place (Scratch op))) (\<lambda>_. ret old)))
        (\<lambda>old v'. raw_kept op info v0 v' \<and> assessed h op v0 v' old \<and> states v' = states v) (archiving op info v0) v1"
      proof (rule wp_seq [OF wp_consolidate])
        fix old v2 assume "raw_kept op info v0 v2 \<and> assessed h op v0 v2 old \<and> states v2 = states v1"
        then show "wp (bind_h (change (clear_place (Scratch op))) (\<lambda>_. ret old))
          (\<lambda>old v'. raw_kept op info v0 v' \<and> assessed h op v0 v' old \<and> states v' = states v) (archiving op info v0) v2"
          using v1 arch by (intro wp_bind wp_change wp_ret) (auto simp: assessed_def restore_simps split: sum.split)
      qed (use v1 in auto)
    qed
  qed (use assms(1) arch in simp)
qed

end
