(* ===== verification/OC_Restore_Activation.thy ===== *)
theory OC_Restore_Activation
  imports OC_Restore_Props
begin

text \<open>
  Activation: the volume at every point where it may stop, as one predicate on the volume
  before it and the volume after it (\<open>act_state\<close>).
\<close>

section \<open>The archived old state\<close>

definition archive_ok :: "host \<Rightarrow> string \<Rightarrow> volume \<Rightarrow> volume \<Rightarrow> restore_state \<Rightarrow> bool" where
  "archive_ok h op v0 v st \<longleftrightarrow>
     (\<forall>p \<in> set FAMILY. node_at v (raw_copy op p) = node_at v0 p) \<and> rs_raw_files st = digests h v0 (family v0) \<and>
     (\<exists>old. rs_old_state st = Some old \<and> assessed h op v0 v old)"

lemma assessed_cong:
  "node_at v (old_consistent op) = node_at v' (old_consistent op) \<Longrightarrow> assessed h op v0 v old = assessed h op v0 v' old"
  by (simp add: assessed_def split: sum.split)

lemma archive_ok_cong:
  assumes "\<And>p. fst p = RawOld op \<or> p = old_consistent op \<Longrightarrow> node_at v p = node_at v' p"
  shows "archive_ok h op v0 v st = archive_ok h op v0 v' st"
  using assms assessed_cong [of v op v' h v0] by (simp add: archive_ok_def)

lemma archive_ok_upd [simp]:
  "archive_ok h op v0 (v\<lparr>fates := r\<rparr>) st = archive_ok h op v0 v st" "archive_ok h op v0 (v\<lparr>states := ss\<rparr>) st = archive_ok h op v0 v st"
  "archive_ok h op v0 (v\<lparr>dirs := ds\<rparr>) st = archive_ok h op v0 v st"
  "fst p \<noteq> RawOld op \<Longrightarrow> p \<noteq> old_consistent op \<Longrightarrow> archive_ok h op v0 (put p x v) st = archive_ok h op v0 v st"
  "fst p \<noteq> RawOld op \<Longrightarrow> p \<noteq> old_consistent op \<Longrightarrow> archive_ok h op v0 (del p v) st = archive_ok h op v0 v st"
  by (rule archive_ok_cong, force simp: restore_simps)+

lemma untouched_upd [simp]:
  "untouched op v0 (v\<lparr>fates := r\<rparr>) = untouched op v0 v" "untouched op v0 (v\<lparr>dirs := ds\<rparr>) = untouched op v0 v"
  "untouched op v0 v \<Longrightarrow> untouched op v0 (v\<lparr>states := (states w)(op := x)\<rparr>) = (\<forall>q. q \<noteq> op \<longrightarrow> states w q = states v0 q)"
  by (auto simp: untouched_def restore_simps)

lemma untouched_own:
  assumes "untouched op v0 v" "fst p \<in> own_places op \<or> p \<in> set FAMILY \<union> {incoming_copy op}"
  shows "untouched op v0 (put p x v)" "untouched op v0 (del p v)"
  using assms unfolding untouched_def by (auto simp: restore_simps simp del: split_paired_All)

text \<open>A sidecar is where it was, or in the recovery directory.\<close>

definition moved :: "string \<Rightarrow> volume \<Rightarrow> volume \<Rightarrow> path \<Rightarrow> bool" where
  "moved op v0 v p \<longleftrightarrow>
     node_at v p = node_at v0 p \<and> node_at v (displaced_old op p) = None \<or>
     node_at v p = None \<and> node_at v (displaced_old op p) = node_at v0 p"

definition swapped :: "string \<Rightarrow> path \<Rightarrow> volume \<Rightarrow> volume \<Rightarrow> bool" where
  "swapped op candidate v0 v \<longleftrightarrow> node_at v DB = node_at v0 candidate \<and>
     (\<forall>p \<in> {WAL, SHM}. node_at v p = None \<and> node_at v (displaced_old op p) = node_at v0 p)"

definition swapping :: "string \<Rightarrow> path \<Rightarrow> volume \<Rightarrow> volume \<Rightarrow> bool" where
  "swapping op candidate v0 v \<longleftrightarrow>
     node_at v DB = node_at v0 DB \<and> moved op v0 v WAL \<and> moved op v0 v SHM \<or> swapped op candidate v0 v"

definition act_state :: "host \<Rightarrow> string \<Rightarrow> path \<Rightarrow> volume \<Rightarrow> volume \<Rightarrow> bool" where
  "act_state h op candidate v0 v \<longleftrightarrow> untouched op v0 v \<and>
     (case states v op of
        None \<Rightarrow> live_same v0 v
      | Some st \<Rightarrow> rs_operation_id st = op \<and>
          (case rs_phase st of
             Archiving \<Rightarrow> live_same v0 v
           | Prepared \<Rightarrow> archive_ok h op v0 v st \<and> swapping op candidate v0 v
           | Activated \<Rightarrow> archive_ok h op v0 v st \<and> swapped op candidate v0 v
           | _ \<Rightarrow> False))"

lemma archiving_act_state: "archiving op info v0 v \<Longrightarrow> act_state h op candidate v0 v"
  by (auto simp: archiving_def act_state_def split: option.split restore_phase.split)

section \<open>Preparation\<close>

definition fresh :: "string \<Rightarrow> volume \<Rightarrow> bool" where
  "fresh op v \<longleftrightarrow> states v op = None \<and> (\<forall>p. fst p \<in> insert (Forward op) (own_places op) \<longrightarrow> node_at v p = None)"

definition ready :: "host \<Rightarrow> string \<Rightarrow> path \<Rightarrow> volume \<Rightarrow> restore_state \<Rightarrow> volume \<Rightarrow> bool" where
  "ready h op candidate v0 st v \<longleftrightarrow> untouched op v0 v \<and> live_same v0 v \<and> archive_ok h op v0 v st \<and> recovery_clean op v \<and>
     node_at v (incoming_copy op) = node_at v0 candidate \<and> states v op = Some st \<and> rs_phase st = Prepared \<and> rs_operation_id st = op"

lemma raw_kept_ready:
  assumes kept: "raw_kept op info v0 v" and a: "assessed h op v0 v old" and c: "node_at v candidate = Some (Regular c)" "fst candidate = Stage"
    and st: "rs_raw_files st = digests h v0 (family v0)" "rs_old_state st = Some old" "rs_phase st = Prepared" "rs_operation_id st = op"
    and w: "node_at w = node_at (put (incoming_copy op) (Regular c) v)" "states w = (states v)(op \<mapsto> st)"
  shows "ready h op candidate v0 st w"
proof -
  have kept': "raw_kept op info v0 (put (incoming_copy op) (Regular c) v)" using kept by simp
  then have raw: "\<forall>p \<in> set FAMILY. node_at (put (incoming_copy op) (Regular c) v) (raw_copy op p) = node_at v0 p"
    using holds_family by (auto simp: raw_kept_def raw_copy_def)
  have "candidate \<notin> set FAMILY \<union> {incoming_copy op}" "fst candidate \<notin> own_places op"
    using c(2) by (auto simp: FAMILY_def own_places_def)
  then have "node_at v0 candidate = Some (Regular c)"
    using kept c(1) unfolding raw_kept_def archiving_def untouched_def by metis
  moreover have "old_consistent op \<noteq> incoming_copy op" by (simp add: old_consistent_def incoming_copy_def)
  ultimately show ?thesis using kept' raw a st w
    by (auto simp: ready_def archive_ok_def raw_kept_def archiving_def untouched_def live_same_def recovery_clean_def assessed_def
        restore_simps split: sum.splits)
qed

text \<open>Up to the archive: the own directories are empty, then \<open>raw-old\<close> is filled.\<close>

definition started :: "string \<Rightarrow> backup_info \<Rightarrow> volume \<Rightarrow> volume \<Rightarrow> bool" where
  "started op info v0 v \<longleftrightarrow> archiving op info v0 v \<and> (\<forall>p. fst p \<in> own_places op \<longrightarrow> node_at v p = None)"

lemma started_upd [simp]:
  assumes "started op info v0 v"
  shows "started op info v0 (v\<lparr>fates := r\<rparr>)" "started op info v0 (v\<lparr>dirs := ds\<rparr>)" "archiving op info v0 (v\<lparr>fates := r\<rparr>)"
    "rs_phase st = Archiving \<Longrightarrow> rs_operation_id st = op \<Longrightarrow> rs_candidate_info st = info \<Longrightarrow>
      started op info v0 (v\<lparr>states := (states v)(op \<mapsto> st)\<rparr>)"
  using assms by (auto simp: started_def restore_simps)

lemma wp_save_archiving:
  assumes st: "rs_phase st = Archiving" "rs_operation_id st = op" "rs_candidate_info st = info"
  shows "started op info v0 v \<Longrightarrow> wp (save_state op st) (\<lambda>_ v'. started op info v0 v') (archiving op info v0) v"
    and "raw_kept op info v0 v \<Longrightarrow> wp (save_state op st)
      (\<lambda>_ v'. raw_kept op info v0 v' \<and> node_at v' = node_at v) (archiving op info v0) v"
proof -
  have upd: "v\<lparr>fates := r, states := (states v)(op \<mapsto> st)\<rparr> = (v\<lparr>fates := r\<rparr>)\<lparr>states := (states (v\<lparr>fates := r\<rparr>))(op \<mapsto> st)\<rparr>" for r
    by simp
  show "wp (save_state op st) (\<lambda>_ v'. started op info v0 v') (archiving op info v0) v" if "started op info v0 v"
    by (rule wp_save) (use that st in \<open>simp_all only: upd started_upd\<close>)
  show "wp (save_state op st) (\<lambda>_ v'. raw_kept op info v0 v' \<and> node_at v' = node_at v) (archiving op info v0) v"
    if "raw_kept op info v0 v"
  proof (rule wp_save)
    have kept: "raw_kept op info v0 (v\<lparr>fates := r\<rparr>)" for r using that by simp
    show "archiving op info v0 (v\<lparr>fates := r\<rparr>)" for r using kept [of r] by (simp add: raw_kept_def)
    show "raw_kept op info v0 (v\<lparr>fates := r, states := (states v)(op \<mapsto> st)\<rparr>) \<and>
        node_at (v\<lparr>fates := r, states := (states v)(op \<mapsto> st)\<rparr>) = node_at v" for r
      unfolding upd using raw_kept_upd(7) [OF kept st] by (simp add: restore_simps)
  qed
qed

lemma wp_archive_started:
  assumes "started op info v0 v"
  shows "wp (archive_raw h op (family v0)) (\<lambda>raw v'. raw_kept op info v0 v' \<and> holds (Scratch op) {} v0 v' \<and> raw = digests h v0 (family v0))
    (archiving op info v0) v"
proof -
  have "wp (archive_raw h op (family v0)) (\<lambda>raw v'. archiving op info v0 v' \<and>
      filled (RawOld op) ({} \<union> snd ` set (family v0)) v0 v v' \<and> raw = digests h v0 (family v0)) (archiving op info v0) v"
    using assms by (intro wp_archive_raw archiving_closed)
      (auto simp: started_def holds_def own_places_def family_eq archiving_def)
  moreover have "raw_kept op info v0 v' \<and> holds (Scratch op) {} v0 v'"
    if "archiving op info v0 v'" "filled (RawOld op) ({} \<union> snd ` set (family v0)) v0 v v'" for v'
  proof -
    have "node_at v' p = None" if "fst p \<in> {Recovery op, Scratch op}" for p
      using filled_node [OF \<open>filled _ _ _ _ _\<close>, of p] that assms by (cases p) (auto simp: started_def own_places_def)
    then show ?thesis using that by (auto simp: raw_kept_def recovery_clean_def holds_def filled_def)
  qed
  ultimately show ?thesis by (elim wp_mono) auto
qed

lemma wp_finish_prepare:
  assumes "raw_kept op info v0 v" "assessed h op v0 v old" "fst candidate = Stage"
    "rs_raw_files st = digests h v0 (family v0)" "rs_old_state st = Some old" "rs_operation_id st = op"
  shows "wp (bind_h (copy_durable candidate (incoming_copy op)) (\<lambda>_.
      bind_h (ensure (\<lambda>v. sha_of h v (incoming_copy op) = bi_sha256 info) ''Incoming copy differs from the staged candidate'') (\<lambda>_.
      bind_h (save_state op (st\<lparr>rs_phase := Prepared, rs_write_probe := Some PROBE_PENDING\<rparr>)) (\<lambda>_.
      ret (st\<lparr>rs_phase := Prepared, rs_write_probe := Some PROBE_PENDING\<rparr>)))))
    (ready h op candidate v0) (archiving op info v0) v"
proof -
  have arch: "archiving op info v0 v'" if "raw_kept op info v0 v'" for v' using that by (simp add: raw_kept_def)
  show ?thesis
  proof (intro wp_bind wp_copy wp_ensure wp_save wp_ret)
    fix c r q assume c: "node_at v candidate = Some (Regular c)"
    let ?st = "st\<lparr>rs_phase := Prepared, rs_write_probe := Some PROBE_PENDING\<rparr>" and ?v = "put (incoming_copy op) (Regular c) (v\<lparr>fates := r\<rparr>)"
    show "ready h op candidate v0 ?st (?v\<lparr>fates := q, states := (states ?v)(op \<mapsto> ?st)\<rparr>)"
      by (rule raw_kept_ready [OF assms(1,2) c]) (use assms in \<open>auto simp: restore_simps\<close>)
  qed (use assms(1) arch in \<open>auto simp: restore_simps\<close>)
qed

lemma wp_prepare:
  assumes "fresh op v0" "fst candidate = Stage"
  shows "wp (prepare h op candidate info (family v0)) (ready h op candidate v0) (archiving op info v0) v0"
proof -
  have st0: "rs_phase (first_state op candidate info) = Archiving" "rs_operation_id (first_state op candidate info) = op"
    "rs_candidate_info (first_state op candidate info) = info" by (simp_all add: first_state_def)
  have "started op info v0 v0"
    using assms(1) by (auto simp: started_def archiving_def untouched_def live_same_def fresh_def)
  then show ?thesis unfolding prepare_def Let_def
    apply (intro wp_bind [where m = "ask _"] wp_ask)
    apply (rule wp_seq [where R = "\<lambda>_. started op info v0"], simp add: wp_make_dir wp_ret)
    apply (rule wp_seq [where R = "\<lambda>_. started op info v0"], simp add: wp_make_dir)
    apply (rule wp_seq [OF wp_save_archiving(1)], use st0 in simp_all)
    apply (rule wp_seq [where R = "\<lambda>_. started op info v0"], simp add: wp_make_dir)
    apply (rule wp_seq [OF wp_archive_started], assumption)
    apply (rule wp_seq [OF wp_save_archiving(2)], use st0 in simp_all)
    apply (rule wp_seq [OF wp_assess_old_state], blast)
     apply (simp add: holds_def)
    apply (rule wp_seq [OF wp_save_archiving(2)], use st0 in simp_all)
    apply (rule wp_finish_prepare, use assms(2) in simp_all)
    apply (simp add: assessed_def split: sum.splits)
    done
qed

section \<open>The swap\<close>

definition mid :: "host \<Rightarrow> string \<Rightarrow> path \<Rightarrow> volume \<Rightarrow> restore_state \<Rightarrow> volume \<Rightarrow> bool" where
  "mid h op candidate v0 st v \<longleftrightarrow> untouched op v0 v \<and> archive_ok h op v0 v st \<and> node_at v (incoming_copy op) = node_at v0 candidate \<and>
     node_at v DB = node_at v0 DB \<and> moved op v0 v WAL \<and> moved op v0 v SHM \<and>
     states v op = Some st \<and> rs_phase st = Prepared \<and> rs_operation_id st = op"

lemma mid_act_state: "mid h op candidate v0 st v \<Longrightarrow> act_state h op candidate v0 (v\<lparr>fates := r\<rparr>)"
  by (simp add: mid_def act_state_def swapping_def moved_def restore_simps)

lemma displaced_distinct [simp]:
  "displaced_old op WAL \<noteq> displaced_old op SHM" "displaced_old op SHM \<noteq> displaced_old op WAL"
  "old_consistent op \<noteq> displaced_old op p" "displaced_old op p \<noteq> old_consistent op" "raw_copy op q \<noteq> displaced_old op p"
  "old_consistent op \<noteq> raw_copy op q" "raw_copy op q \<noteq> old_consistent op"
  by (simp_all add: displaced_old_def old_consistent_def raw_copy_def WAL_def SHM_def)

lemma in_data_distinct:
  assumes "fst p = Data"
  shows "p \<noteq> old_consistent op" "p \<noteq> raw_copy op q" "p \<noteq> displaced_old op q" "old_consistent op \<noteq> p" "raw_copy op q \<noteq> p" "displaced_old op q \<noteq> p"
    "p \<noteq> forward_copy op q" "p \<noteq> displaced_forward op q" "forward_copy op q \<noteq> p" "displaced_forward op q \<noteq> p"
  using assms by (auto simp: old_consistent_def raw_copy_def displaced_old_def forward_copy_def displaced_forward_def)

lemma ready_mid:
  assumes "ready h op candidate v0 st v"
  shows "mid h op candidate v0 st v" "\<And>p. p \<in> set FAMILY \<Longrightarrow> node_at v p = node_at v0 p"
proof -
  have "node_at v (displaced_old op p) = None" for p
    using assms by (simp add: ready_def recovery_clean_def del: split_paired_All)
  then show "mid h op candidate v0 st v" "\<And>p. p \<in> set FAMILY \<Longrightarrow> node_at v p = node_at v0 p"
    using assms by (auto simp: ready_def mid_def live_same_def FAMILY_def moved_def)
qed

lemma wp_displace_one:
  assumes m: "mid h op candidate v0 st v" and p: "p \<in> {WAL, SHM}" and reg: "node_at v p = None \<or> is_regular v p"
  shows "wp (if path_exists v p then replace_file p (displaced_old op p) else ret ())
    (\<lambda>_ v'. mid h op candidate v0 st v' \<and> node_at v' p = None \<and> (\<forall>q \<in> set FAMILY. q \<noteq> p \<longrightarrow> node_at v' q = node_at v q))
    (act_state h op candidate v0) v"
proof (rule wp_if)
  assume there: "path_exists v p"
  show "wp (replace_file p (displaced_old op p))
    (\<lambda>_ v'. mid h op candidate v0 st v' \<and> node_at v' p = None \<and> (\<forall>q \<in> set FAMILY. q \<noteq> p \<longrightarrow> node_at v' q = node_at v q))
    (act_state h op candidate v0) v"
  proof (rule wp_replace)
    show "act_state h op candidate v0 (v\<lparr>fates := r\<rparr>)" for r using mid_act_state [OF m] .
    fix n r assume n: "node_at v p = Some n"
    let ?v = "put (displaced_old op p) n (del p (v\<lparr>fates := r\<rparr>))"
    have Data: "fst p = Data" "p \<in> set FAMILY" using p by (auto simp: FAMILY_def)
    have "untouched op v0 ?v"
      using m Data by (intro untouched_own) (auto simp: mid_def own_places_def)
    moreover have "archive_ok h op v0 ?v st"
      using m Data(1) in_data_distinct [OF Data(1)] by (simp add: mid_def)
    moreover have at: "node_at ?v q = (if q = p then None else node_at v q)" if "fst q = Data" for q
      using in_data_distinct(3) [OF that] by (simp add: restore_simps)
    have here: "moved op v0 ?v p"
      using m n p at [OF Data(1)] by (auto simp: mid_def moved_def restore_simps)
    have there: "moved op v0 ?v q" if "q \<in> {WAL, SHM}" "q \<noteq> p" for q
      using m that p at [of q] by (auto simp: mid_def moved_def restore_simps in_data_distinct)
    have "moved op v0 ?v WAL" "moved op v0 ?v SHM" using here there [of WAL] there [of SHM] by (cases "p = WAL"; cases "p = SHM"; simp)+
    moreover have "DB \<noteq> p" "incoming_copy op \<noteq> p" using p by auto
    moreover have "\<forall>q \<in> set FAMILY. q \<noteq> p \<longrightarrow> node_at ?v q = node_at v q" using at by (simp add: FAMILY_def)
    ultimately show "mid h op candidate v0 st ?v \<and> node_at ?v p = None \<and> (\<forall>q \<in> set FAMILY. q \<noteq> p \<longrightarrow> node_at ?v q = node_at v q)"
      using m at [of DB] at [of "incoming_copy op"] at [OF Data(1)] by (simp add: mid_def other_fields)
  qed
next
  assume "\<not> path_exists v p"
  then show "wp (ret ())
    (\<lambda>_ v'. mid h op candidate v0 st v' \<and> node_at v' p = None \<and> (\<forall>q \<in> set FAMILY. q \<noteq> p \<longrightarrow> node_at v' q = node_at v q))
    (act_state h op candidate v0) v"
    using m reg path_exists_regular by (intro wp_ret) auto
qed

lemma wp_displace_raw:
  assumes "mid h op candidate v0 st v" "\<forall>p \<in> {WAL, SHM}. node_at v p = None \<or> is_regular v p"
  shows "wp (displace_raw op [WAL, SHM]) (\<lambda>_ v'. mid h op candidate v0 st v' \<and> node_at v' WAL = None \<and> node_at v' SHM = None)
    (act_state h op candidate v0) v"
  unfolding displace_raw.simps
proof (intro wp_bind [where m = "ask _"] wp_ask, rule wp_seq [OF wp_displace_one [OF assms(1)]])
  fix x v1 assume v1: "mid h op candidate v0 st v1 \<and> node_at v1 WAL = None \<and> (\<forall>q \<in> set FAMILY. q \<noteq> WAL \<longrightarrow> node_at v1 q = node_at v q)"
  then have "node_at v1 SHM = node_at v SHM" by (simp add: FAMILY_def)
  then have reg: "node_at v1 SHM = None \<or> is_regular v1 SHM" using assms(2) by (auto simp: is_regular_iff)
  show "wp (bind_h (ask (\<lambda>v. path_exists v SHM)) (\<lambda>there. bind_h (if there then replace_file SHM (displaced_old op SHM) else ret ()) (\<lambda>_. ret ())))
    (\<lambda>_ v'. mid h op candidate v0 st v' \<and> node_at v' WAL = None \<and> node_at v' SHM = None) (act_state h op candidate v0) v1"
  proof (intro wp_bind [where m = "ask _"] wp_ask, rule wp_seq [OF wp_displace_one])
    show "mid h op candidate v0 st v1" "node_at v1 SHM = None \<or> is_regular v1 SHM" using v1 reg by blast+
    fix x v2 assume "mid h op candidate v0 st v2 \<and> node_at v2 SHM = None \<and> (\<forall>q \<in> set FAMILY. q \<noteq> SHM \<longrightarrow> node_at v2 q = node_at v1 q)"
    then show "wp (ret ()) (\<lambda>_ v'. mid h op candidate v0 st v' \<and> node_at v' WAL = None \<and> node_at v' SHM = None) (act_state h op candidate v0) v2"
      using v1 by (intro wp_ret) (simp add: FAMILY_def)
  qed simp
qed (use assms(2) in auto)

text \<open>The new file is in place; only the recorded state changes from here on.\<close>

definition installed :: "host \<Rightarrow> string \<Rightarrow> path \<Rightarrow> volume \<Rightarrow> restore_state \<Rightarrow> volume \<Rightarrow> bool" where
  "installed h op candidate v0 st v \<longleftrightarrow> untouched op v0 v \<and> archive_ok h op v0 v st \<and> swapped op candidate v0 v \<and> rs_operation_id st = op"

lemma installed_upd [simp]:
  "installed h op candidate v0 st (v\<lparr>fates := r\<rparr>) = installed h op candidate v0 st v"
  "installed h op candidate v0 st (v\<lparr>fates := r, states := (states v)(op \<mapsto> st')\<rparr>) = installed h op candidate v0 st v"
  "installed h op candidate v0 (st\<lparr>rs_phase := ph\<rparr>) v = installed h op candidate v0 st v"
  "installed h op candidate v0 (st\<lparr>rs_write_probe := pr\<rparr>) v = installed h op candidate v0 st v"
  by (auto simp: installed_def untouched_def archive_ok_def assessed_def swapped_def restore_simps split: sum.splits)

lemma installed_act_state:
  "states v op = Some st \<Longrightarrow> installed h op candidate v0 st v \<Longrightarrow> rs_phase st \<in> {Prepared, Activated} \<Longrightarrow> act_state h op candidate v0 v"
  by (auto simp: installed_def act_state_def swapping_def)

lemma act_state_fates [simp]: "act_state h op candidate v0 (v\<lparr>fates := r\<rparr>) = act_state h op candidate v0 v"
proof -
  have "untouched op v0 (v\<lparr>fates := r\<rparr>) = untouched op v0 v" "live_same v0 (v\<lparr>fates := r\<rparr>) = live_same v0 v"
    "swapped op candidate v0 (v\<lparr>fates := r\<rparr>) = swapped op candidate v0 v" "swapping op candidate v0 (v\<lparr>fates := r\<rparr>) = swapping op candidate v0 v"
    "archive_ok h op v0 (v\<lparr>fates := r\<rparr>) st = archive_ok h op v0 v st" for st
    by (simp_all add: live_same_def swapped_def swapping_def moved_def restore_simps)
  then show ?thesis by (simp add: act_state_def split: option.split restore_phase.split)
qed

lemma mid_swapped:
  assumes "mid h op candidate v0 st v" "node_at v WAL = None" "node_at v SHM = None" "node_at v (incoming_copy op) = Some n"
  shows "installed h op candidate v0 st (put DB n (del (incoming_copy op) v))"
proof -
  have "untouched op v0 (put DB n (del (incoming_copy op) v))"
    using assms(1) by (intro untouched_own) (auto simp: mid_def FAMILY_def)
  moreover have "archive_ok h op v0 (put DB n (del (incoming_copy op) v)) st"
    using assms(1) in_data_distinct [of DB] in_data_distinct [of "incoming_copy op"] by (simp add: mid_def)
  ultimately show ?thesis
    using assms in_data_distinct [of DB] in_data_distinct [of "incoming_copy op"]
    by (auto simp: mid_def installed_def swapped_def moved_def restore_simps)
qed

lemma wp_require_writable:
  assumes "installed h op candidate v0 st v" "states v op = Some st" "rs_phase st = Activated"
  shows "wp (require_writable h op st)
    (\<lambda>st' v'. act_state h op candidate v0 v' \<and> states v' op = Some st' \<and> rs_phase st' = Activated \<and> rs_write_probe st' = Some ''ok'')
    (act_state h op candidate v0) v"
  unfolding require_writable_def Let_def
  using assms by (intro wp_bind wp_ask wp_save wp_if wp_ret wp_fail) (auto intro!: installed_act_state)

lemma wp_swap_in:
  assumes "ready h op candidate v0 st v" "\<forall>p \<in> {WAL, SHM}. node_at v0 p = None \<or> is_regular v0 p"
  shows "wp (swap_in h op st)
    (\<lambda>st' v'. act_state h op candidate v0 v' \<and> states v' op = Some st' \<and> rs_phase st' = Activated \<and> rs_write_probe st' = Some ''ok'')
    (act_state h op candidate v0) v"
proof -
  note m = ready_mid [OF assms(1)]
  have reg: "\<forall>p \<in> {WAL, SHM}. node_at v p = None \<or> is_regular v p"
    using assms(2) m(2) by (auto simp: FAMILY_def is_regular_iff)
  show ?thesis unfolding swap_in_def Let_def
  proof (rule wp_seq [OF wp_displace_raw [OF m(1) reg]])
    fix x v1 assume v1: "mid h op candidate v0 st v1 \<and> node_at v1 WAL = None \<and> node_at v1 SHM = None"
    show "wp (bind_h (replace_file (incoming_copy op) DB) (\<lambda>_. bind_h (save_state op (st\<lparr>rs_phase := Activated\<rparr>)) (\<lambda>_.
        require_writable h op (st\<lparr>rs_phase := Activated\<rparr>))))
      (\<lambda>st' v'. act_state h op candidate v0 v' \<and> states v' op = Some st' \<and> rs_phase st' = Activated \<and> rs_write_probe st' = Some ''ok'')
      (act_state h op candidate v0) v1"
    proof (intro wp_bind wp_replace wp_save)
      show "act_state h op candidate v0 (v1\<lparr>fates := r\<rparr>)" for r using v1 mid_act_state by blast
      fix n r assume n: "node_at v1 (incoming_copy op) = Some n"
      let ?v = "put DB n (del (incoming_copy op) (v1\<lparr>fates := r\<rparr>))"
      have "put DB n (del (incoming_copy op) (v1\<lparr>fates := r\<rparr>)) = (put DB n (del (incoming_copy op) v1))\<lparr>fates := r\<rparr>"
        by (simp add: put_def del_def)
      then have inst: "installed h op candidate v0 st ?v" using mid_swapped v1 n by simp
      show "act_state h op candidate v0 (?v\<lparr>fates := q\<rparr>)" for q
        using inst v1 by (intro installed_act_state [where st = st]) (auto simp: mid_def restore_simps)
      show "wp (require_writable h op (st\<lparr>rs_phase := Activated\<rparr>))
        (\<lambda>st' v'. act_state h op candidate v0 v' \<and> states v' op = Some st' \<and> rs_phase st' = Activated \<and> rs_write_probe st' = Some ''ok'')
        (act_state h op candidate v0) (?v\<lparr>fates := q, states := (states ?v)(op \<mapsto> st\<lparr>rs_phase := Activated\<rparr>)\<rparr>)" for q
        by (rule wp_require_writable) (use inst in simp_all)
    qed
  qed
qed

section \<open>Activation\<close>

lemma inspect_sha: "inspect h p v = (Inr info, v') \<Longrightarrow> bi_sha256 info = sha_of h v p"
  by (auto simp: inspect_def regular_def Let_def dest!: bind_Inr_D ensure_Inr_D split: if_splits option.splits)

lemma preflight_Inr:
  assumes "preflight h candidate (sha, schema, project) v = (Inr info, v')"
  shows "fst candidate = Stage" "is_regular v candidate" "is_regular v DB" "sha_of h v candidate = sha"
proof -
  have inspected: "inspect h candidate v = (Inr i, w) \<Longrightarrow> bi_sha256 i = sha_of h v candidate \<and> w = v" for i w
    using inspect_sha reads_inspect unfolding reads_def by (metis snd_conv)
  show "fst candidate = Stage" "is_regular v candidate" "is_regular v DB" "sha_of h v candidate = sha"
    using assms unfolding preflight_def by (auto simp: regular_def ret_def dest!: bind_Inr_D ensure_Inr_D inspected)
qed

text \<open>An operation whose directory does not exist has neither state nor files.\<close>

definition tidy :: "string \<Rightarrow> volume \<Rightarrow> bool" where
  "tidy op v \<longleftrightarrow> (dirs v (Recovery op) = None \<longrightarrow> fresh op v)"

definition live_ok :: "volume \<Rightarrow> bool" where
  "live_ok v \<longleftrightarrow> is_regular v DB \<and> (\<forall>p \<in> {WAL, SHM}. node_at v p = None \<or> is_regular v p)"

lemma live_ok_family: "is_regular v DB \<Longrightarrow> list_all (is_regular v) (family v) \<Longrightarrow> live_ok v"
  unfolding live_ok_def family_eq list_all_iff set_filter
  by (auto simp: FAMILY_def simp del: split_paired_All)

lemma wp_activate:
  assumes "tidy op v0"
  shows "wp (activate h candidate op sha schema project apply)
    (\<lambda>r v'. case r of
       None \<Rightarrow> v' = v0
     | Some st \<Rightarrow> act_state h op candidate v0 v' \<and> live_ok v0 \<and> is_regular v0 candidate \<and> states v' op = Some st \<and>
         rs_phase st = Activated \<and> rs_write_probe st = Some ''ok'' \<and> sha_of h v0 candidate = sha)
    (\<lambda>v'. v' = v0 \<or> act_state h op candidate v0 v' \<and> live_ok v0 \<and> is_regular v0 candidate) v0"
  unfolding activate_def
proof (intro wp_bind wp_reads [OF reads_refuse_root] wp_reads [OF reads_preflight] wp_reads [OF reads_recovery_dir] wp_ensure wp_ask wp_if wp_ret)
  fix info assume "preflight h candidate (sha, schema, project) v0 = (Inr info, v0)"
    and new: "dirs v0 (Recovery op) = None" and fam: "list_all (is_regular v0) (family v0)"
  note pre = preflight_Inr [OF this(1)]
  have ok: "live_ok v0" using pre(3) fam by (rule live_ok_family)
  have fresh: "fresh op v0" using assms new by (simp add: tidy_def)
  have reg: "\<forall>p \<in> {WAL, SHM}. node_at v0 p = None \<or> is_regular v0 p" using ok by (simp add: live_ok_def)
  show "wp (prepare h op candidate info (family v0))
    (\<lambda>st. wp (bind_h (swap_in h op st) (\<lambda>st. ret (Some st)))
      (\<lambda>r v'. case r of None \<Rightarrow> v' = v0
         | Some st \<Rightarrow> act_state h op candidate v0 v' \<and> live_ok v0 \<and> is_regular v0 candidate \<and> states v' op = Some st \<and>
             rs_phase st = Activated \<and> rs_write_probe st = Some ''ok'' \<and> sha_of h v0 candidate = sha)
      (\<lambda>v'. v' = v0 \<or> act_state h op candidate v0 v' \<and> live_ok v0 \<and> is_regular v0 candidate))
    (\<lambda>v'. v' = v0 \<or> act_state h op candidate v0 v' \<and> live_ok v0 \<and> is_regular v0 candidate) v0"
  proof (rule wp_mono [OF wp_prepare [OF fresh pre(1)]])
    fix st v1 assume "ready h op candidate v0 st v1"
    from wp_swap_in [OF this reg]
    show "wp (bind_h (swap_in h op st) (\<lambda>st. ret (Some st)))
      (\<lambda>r v'. case r of None \<Rightarrow> v' = v0
         | Some st \<Rightarrow> act_state h op candidate v0 v' \<and> live_ok v0 \<and> is_regular v0 candidate \<and> states v' op = Some st \<and>
             rs_phase st = Activated \<and> rs_write_probe st = Some ''ok'' \<and> sha_of h v0 candidate = sha)
      (\<lambda>v'. v' = v0 \<or> act_state h op candidate v0 v' \<and> live_ok v0 \<and> is_regular v0 candidate) v1"
      by (intro wp_bind, elim wp_mono) (auto intro!: wp_ret simp: ok pre)
  qed (use ok pre(2) archiving_act_state in blast)
qed simp_all

end
