(* ===== verification/OC_Restore_Rollback.thy ===== *)
theory OC_Restore_Rollback
  imports OC_Restore_Activation
begin

text \<open>
  Rollback: \<open>recoverable\<close> holds after every activation and is kept by every operation and by
  every death in the middle of one. The failures are tracked, so that a run whose
  preconditions hold is seen to fail by death alone.
\<close>

section \<open>The forward archive\<close>

lemma wp_copy_certain:
  assumes E: "closed_in d E" "E v" and h: "holds d N v0 v" and src: "node_at v source = node_at v0 (Data, n)"
    and ok: "is_regular v source" "n \<notin> N"
  shows "wpe (copy_durable source (d, n)) (\<lambda>_ v'. E v' \<and> filled d (insert n N) v0 v v') (\<lambda>e v'. E v' \<and> e = Died) v"
proof (rule wp_copy)
  have E': "E (v\<lparr>fates := r\<rparr>)" "E (put (d, n) x (v\<lparr>fates := r\<rparr>))" for x r using E by (auto simp: closed_in_def)
  show "E (put (d, n) (Regular part) (v\<lparr>fates := r\<rparr>)) \<and> Died = Died" for r part using E' by simp
  have "node_at v (d, n) = None" using h ok(2) by (simp add: holds_def)
  then show "E (v\<lparr>fates := r\<rparr>) \<and> e = Died" if "e = Died \<or> \<not> is_regular v source \<or> node_at v (d, n) \<noteq> None" for e r
    using that E' ok(1) by auto
  fix c r assume "node_at v source = Some (Regular c)"
  then have "holds d (insert n N) v0 (put (d, n) (Regular c) (v\<lparr>fates := r\<rparr>))"
    using h src by (intro holds_put) (simp_all add: restore_simps)
  then show "E (put (d, n) (Regular c) (v\<lparr>fates := r\<rparr>)) \<and> filled d (insert n N) v0 v (put (d, n) (Regular c) (v\<lparr>fates := r\<rparr>))"
    using E'(2) by (auto simp: filled_def restore_simps)
qed

lemma wp_archive_forward:
  assumes "closed_in (Forward op) E" "E v" "holds (Forward op) N v0 v" "live_same v0 v" "set ps \<subseteq> set FAMILY"
    "\<forall>p \<in> set ps. is_regular v0 p" "distinct (map snd ps)" "snd ` set ps \<inter> N = {}"
  shows "wpe (archive_forward h op ps)
    (\<lambda>fwd v'. E v' \<and> filled (Forward op) (N \<union> snd ` set ps) v0 v v' \<and> fwd = digests h v0 ps) (\<lambda>e v'. E v' \<and> e = Died) v"
  using assms
proof (induction ps arbitrary: v N)
  case Nil
  then show ?case by (auto simp: digests_def filled_refl intro: wp_ret)
next
  case (Cons p ps)
  let ?Q = "\<lambda>fwd v'. E v' \<and> filled (Forward op) (N \<union> snd ` set (p # ps)) v0 v v' \<and> fwd = digests h v0 (p # ps)"
  let ?E = "\<lambda>e v'. E v' \<and> e = Died"
  have p: "fst p = Data" "node_at v p = node_at v0 p" "is_regular v p"
    using Cons.prems(4-6) in_FAMILY by (auto simp: live_same_def is_regular_iff)
  have src: "node_at v p = node_at v0 (Data, snd p)" "snd p \<notin> N" using p Cons.prems(8) by (auto simp: data_path)
  show ?case unfolding archive_forward.simps
  proof (rule wp_seq [OF wp_copy_certain [OF Cons.prems(1-3) src(1) p(3) src(2), folded forward_copy_def [of op p]]])
    fix x v1 assume v1: "E v1 \<and> filled (Forward op) (insert (snd p) N) v0 v v1"
    then have "node_at v1 p = node_at v0 p" using filled_node [of "Forward op" "insert (snd p) N" v0 v v1 p] p by simp
    moreover have "node_at v1 (forward_copy op p) = node_at v0 p"
      using v1 p(1) by (simp add: filled_def holds_def forward_copy_def data_path)
    ultimately have sha: "sha_of h v1 p = sha_of h v0 p" "sha_of h v1 (forward_copy op p) = sha_of h v1 p"
      by (simp_all add: sha_of_def bytes_def)
    have "wpe (archive_forward h op ps)
      (\<lambda>fwd v'. E v' \<and> filled (Forward op) (insert (snd p) N \<union> snd ` set ps) v0 v1 v' \<and> fwd = digests h v0 ps) ?E v1"
      using v1 Cons.prems(4-8) filled_live by (intro Cons.IH [OF Cons.prems(1)]) (auto simp: filled_def)
    then have "wpe (bind_h (archive_forward h op ps) (\<lambda>rest. ret ((snd p, sha_of h v1 p) # rest))) ?Q ?E v1"
      using v1 sha(1) filled_trans by (elim wp_seq) (auto intro!: wp_ret simp: digests_def)
    then show "wpe (bind_h (ask (\<lambda>v. sha_of h v p))
      (\<lambda>digest. bind_h (ensure (\<lambda>v. sha_of h v (forward_copy op p) = digest) ''Forward archive differs from current database'') (\<lambda>_.
          bind_h (archive_forward h op ps) (\<lambda>rest. ret ((snd p, digest) # rest))))) ?Q ?E v1"
      using sha(2) by (intro wp_bind [where m = "ask _"] wp_ask wp_bind [where m = "ensure _ _"] wp_ensure) auto
  qed
qed

definition moved_forward :: "string \<Rightarrow> volume \<Rightarrow> volume \<Rightarrow> path \<Rightarrow> bool" where
  "moved_forward op vb v p \<longleftrightarrow>
     node_at v p = node_at vb p \<and> node_at v (displaced_forward op p) = None \<or>
     node_at v p = None \<and> node_at v (displaced_forward op p) = node_at vb p"

text \<open>\<open>vb\<close> is the volume when the rollback began.\<close>

definition forwarded :: "host \<Rightarrow> string \<Rightarrow> volume \<Rightarrow> volume \<Rightarrow> restore_state \<Rightarrow> bool" where
  "forwarded h op vb v st \<longleftrightarrow> dirs v (Forward op) = Some False \<and> live_ok vb \<and>
     rs_forward_files st = Some (digests h vb (family vb)) \<and> (\<forall>p \<in> set FAMILY. node_at v (forward_copy op p) = node_at vb p) \<and>
     (node_at v DB = node_at vb DB \<or> node_at v DB = node_at v (old_consistent op)) \<and>
     moved_forward op vb v WAL \<and> moved_forward op vb v SHM"

definition recoverable :: "host \<Rightarrow> string \<Rightarrow> volume \<Rightarrow> volume \<Rightarrow> bool" where
  "recoverable h op v0 v \<longleftrightarrow> live_ok v \<and>
     (dirs v (Forward op) = None \<longrightarrow> (\<forall>p. fst p = Forward op \<longrightarrow> node_at v p = None)) \<and>
     (\<forall>st. states v op = Some st \<longrightarrow> rs_operation_id st = op \<and>
        (rs_phase st \<in> {Prepared, Activated, RollingBack, RolledBack} \<longrightarrow> archive_ok h op v0 v st) \<and>
        (rs_phase st = RollingBack \<longrightarrow> (\<exists>vb. forwarded h op vb v st)))"

section \<open>Beginning\<close>

text \<open>Up to the recorded phase: the forward directory fills, the rest stands still.\<close>

definition beginning :: "host \<Rightarrow> string \<Rightarrow> volume \<Rightarrow> volume \<Rightarrow> restore_state \<Rightarrow> volume \<Rightarrow> bool" where
  "beginning h op v0 vb st v \<longleftrightarrow> live_same vb v \<and> live_ok vb \<and> dirs v (Forward op) = Some False \<and>
     archive_ok h op v0 v st \<and> states v op = Some st \<and> rs_operation_id st = op \<and> rs_phase st \<in> {Prepared, Activated}"

lemma live_same_ok: "live_same vb v \<Longrightarrow> live_ok v \<longleftrightarrow> live_ok vb"
  by (simp add: live_same_def live_ok_def FAMILY_def is_regular_iff)

lemma beginning_recoverable: "beginning h op v0 vb st v \<Longrightarrow> recoverable h op v0 v"
  by (auto simp: beginning_def recoverable_def live_same_ok)

lemma beginning_closed: "closed_in (Forward op) (beginning h op v0 vb st)"
proof -
  have "(Forward op, n) \<notin> set FAMILY" "(Forward op, n) \<noteq> old_consistent op" for n
    by (auto simp: FAMILY_def DB_def WAL_def SHM_def old_consistent_def)
  then show ?thesis by (auto simp: closed_in_def beginning_def live_same_def restore_simps)
qed

lemma family_regular: "live_ok v \<Longrightarrow> \<forall>p \<in> set (family v). is_regular v p"
  by (auto simp: live_ok_def family_eq FAMILY_def)

lemma family_names: "set (family v) \<subseteq> set FAMILY" "distinct (map snd (family v))"
  by (auto simp: family_eq FAMILY_def DB_def WAL_def SHM_def)

lemma forward_distinct [simp]:
  "displaced_forward op p \<noteq> forward_copy op q" if "q \<in> set FAMILY"
  using that by (auto simp: displaced_forward_def forward_copy_def FAMILY_def DB_def WAL_def SHM_def)

lemma begun:
  assumes b: "beginning h op v0 vb st v" and f: "holds (Forward op) (snd ` set (family vb)) vb v"
    and st: "rs_forward_files st' = Some (digests h vb (family vb))" "rs_phase st' = RollingBack" "rs_operation_id st' = op"
      "rs_raw_files st' = rs_raw_files st" "rs_old_state st' = rs_old_state st"
  shows "archive_ok h op v0 v st'" "forwarded h op vb v st'"
proof -
  show "archive_ok h op v0 v st'" using b st by (simp add: beginning_def archive_ok_def)
  have "node_at v (displaced_forward op p) = None" for p
  proof -
    have "''displaced-'' @ snd p \<notin> snd ` set (family vb)"
      using family_names(1) by (fastforce simp: FAMILY_def DB_def WAL_def SHM_def)
    then show ?thesis using f by (simp add: holds_def displaced_forward_def)
  qed
  moreover have "node_at v (forward_copy op p) = node_at vb p" if "p \<in> set FAMILY" for p
    using holds_family [OF f that] by (simp add: forward_copy_def)
  ultimately show "forwarded h op vb v st'"
    using b st by (auto simp: forwarded_def beginning_def moved_forward_def live_same_def FAMILY_def)
qed

text \<open>During the installation of the old file.\<close>

definition rolling :: "host \<Rightarrow> string \<Rightarrow> volume \<Rightarrow> volume \<Rightarrow> restore_state \<Rightarrow> volume \<Rightarrow> bool" where
  "rolling h op v0 vb st v \<longleftrightarrow> live_ok v \<and> archive_ok h op v0 v st \<and> forwarded h op vb v st \<and>
     states v op = Some st \<and> rs_operation_id st = op \<and> rs_phase st = RollingBack"

lemma rolling_recoverable: "rolling h op v0 vb st v \<Longrightarrow> recoverable h op v0 v"
  by (auto simp: rolling_def recoverable_def forwarded_def)

lemma recoverable_fates [simp]: "recoverable h op v0 (v\<lparr>fates := r\<rparr>) = recoverable h op v0 v"
  by (simp add: recoverable_def live_ok_def is_regular_iff forwarded_def moved_forward_def restore_simps)

lemma live_ok_upd [simp]: "live_ok (v\<lparr>fates := r\<rparr>) = live_ok v" "live_ok (v\<lparr>states := ss\<rparr>) = live_ok v"
  by (simp_all add: live_ok_def is_regular_iff restore_simps)

lemma forwarded_upd [simp]: "forwarded h op vb (v\<lparr>fates := r\<rparr>) st = forwarded h op vb v st" "forwarded h op vb (v\<lparr>states := ss\<rparr>) st = forwarded h op vb v st"
  by (simp_all add: forwarded_def moved_forward_def restore_simps)

lemma recoverable_save:
  assumes "recoverable h op v0 v" "rs_operation_id st = op"
    "rs_phase st \<in> {Prepared, Activated, RollingBack, RolledBack} \<longrightarrow> archive_ok h op v0 v st"
    "rs_phase st = RollingBack \<longrightarrow> (\<exists>vb. forwarded h op vb v st)"
  shows "recoverable h op v0 (v\<lparr>fates := r, states := (states v)(op \<mapsto> st)\<rparr>)"
  using assms by (simp add: recoverable_def restore_simps)

definition begin_ready :: "host \<Rightarrow> string \<Rightarrow> volume \<Rightarrow> bool" where
  "begin_ready h op v \<longleftrightarrow> dirs v (Forward op) = None \<and>
     total_size v (family v) + total_size v [old_consistent op] + MARGIN \<le> h_disk_free h v"

lemma wp_begin_rollback:
  assumes rec: "recoverable h op v0 v" and st: "states v op = Some st" "rs_phase st \<in> {Prepared, Activated}"
  shows "wpe (begin_rollback h op st) (\<lambda>st' v'. rolling h op v0 v st' v' \<and> rs_old_state st' = rs_old_state st)
    (\<lambda>e v'. recoverable h op v0 v' \<and> (begin_ready h op v \<longrightarrow> e = Died)) v"
proof -
  let ?E = "\<lambda>e v'. recoverable h op v0 v' \<and> (begin_ready h op v \<longrightarrow> e = Died)"
  let ?st = "\<lambda>fwd. st\<lparr>rs_forward_files := Some fwd, rs_phase := RollingBack, rs_write_probe := Some PROBE_PENDING\<rparr>"
  have ok: "live_ok v" "archive_ok h op v0 v st" "rs_operation_id st = op" using rec st by (auto simp: recoverable_def)
  have fam: "list_all (is_regular v) (family v)" using family_regular [OF ok(1)] by (simp add: list_all_iff)
  have after_dir: "wpe (bind_h (archive_forward h op (family v)) (\<lambda>fwd. bind_h (save_state op (?st fwd)) (\<lambda>_. ret (?st fwd))))
      (\<lambda>st' v'. rolling h op v0 v st' v' \<and> rs_old_state st' = rs_old_state st) ?E (v\<lparr>fates := r, dirs := (dirs v)(Forward op \<mapsto> False)\<rparr>)"
    if none: "dirs v (Forward op) = None" for r
  proof -
    let ?v = "v\<lparr>fates := r, dirs := (dirs v)(Forward op \<mapsto> False)\<rparr>"
    have b: "beginning h op v0 v st ?v" using ok st by (simp add: beginning_def live_same_def restore_simps)
    have "holds (Forward op) {} v ?v" using rec none by (simp add: recoverable_def holds_def restore_simps)
    then have "wpe (archive_forward h op (family v)) (\<lambda>fwd v'. beginning h op v0 v st v' \<and>
        filled (Forward op) ({} \<union> snd ` set (family v)) v ?v v' \<and> fwd = digests h v (family v)) (\<lambda>e v'. beginning h op v0 v st v' \<and> e = Died) ?v"
      using beginning_closed b family_names family_regular [OF ok(1)]
      by (intro wp_archive_forward) (simp_all add: live_same_def restore_simps)
    then show ?thesis
    proof (intro wp_bind [where m = "archive_forward _ _ _"], elim wp_mono)
      fix fwd v1 assume v1: "beginning h op v0 v st v1 \<and> filled (Forward op) ({} \<union> snd ` set (family v)) v ?v v1 \<and> fwd = digests h v (family v)"
      have fw: "archive_ok h op v0 v1 (?st fwd)" "forwarded h op v v1 (?st fwd)"
        by (rule begun [of h op v0 v st v1]; use v1 ok(3) in \<open>simp add: filled_def\<close>)+
      have live: "live_ok v1" using v1 live_same_ok by (auto simp: beginning_def)
      show "wpe (bind_h (save_state op (?st fwd)) (\<lambda>_. ret (?st fwd)))
        (\<lambda>st' v'. rolling h op v0 v st' v' \<and> rs_old_state st' = rs_old_state st) ?E v1"
      proof (intro wp_bind wp_save wp_ret)
        show "?E Died (v1\<lparr>fates := q\<rparr>)" for q using v1 beginning_recoverable [of h op v0 v st v1] by simp
        show "rolling h op v0 v (?st fwd) (v1\<lparr>fates := q, states := (states v1)(op \<mapsto> ?st fwd)\<rparr>) \<and> rs_old_state (?st fwd) = rs_old_state st" for q
          using fw live ok(3) by (simp add: rolling_def forwarded_def moved_forward_def live_ok_def is_regular_iff restore_simps)
      qed
    qed (use beginning_recoverable in blast)
  qed
  show ?thesis unfolding begin_rollback_def Let_def
    using rec fam after_dir
    by (intro wp_bind [where m = "ensure _ _"] wp_bind [where m = "ask _"] wp_bind [where m = "make_dir _"] wp_ensure wp_ask wp_make_dir)
       (auto simp: begin_ready_def)
qed

section \<open>Resuming\<close>

lemma map_of_digests: "p \<in> set FAMILY \<Longrightarrow> map_of (digests h v (family v)) (snd p) = (if node_at v p = None then None else Some (sha_of h v p))"
  by (auto simp: digests_def family_eq FAMILY_def DB_def WAL_def SHM_def)

lemma none_or_regular:
  assumes "node_at v p = None \<or> is_regular v p"
  shows "\<not> is_symlink v p" "path_exists v p \<longleftrightarrow> node_at v p \<noteq> None"
  using assms by (auto simp: is_symlink_def path_exists_def is_regular_iff)

lemma moved_forward_ok:
  assumes vb: "live_ok vb" and p: "p \<in> {WAL, SHM}" and m: "moved_forward op vb v p"
  shows "sidecar_ok h op (digests h vb (family vb)) v p"
proof -
  have reg: "node_at vb p = None \<or> is_regular vb p" "p \<in> set FAMILY" using vb p by (auto simp: live_ok_def FAMILY_def)
  have here: "node_at v p = None \<or> is_regular v p" "node_at v (displaced_forward op p) = None \<or> is_regular v (displaced_forward op p)"
    using m reg(1) by (auto simp: moved_forward_def is_regular_iff)
  show ?thesis
    using m here reg none_or_regular [OF here(1)] none_or_regular [OF here(2)]
    by (auto simp: sidecar_ok_def map_of_digests moved_forward_def sha_of_def bytes_def is_regular_iff)
qed

lemma archived_members:
  assumes "forwarded h op vb v st"
  shows "list_all (archived_member_ok h op v) (digests h vb (family vb))"
proof -
  have "archived_member_ok h op v (snd p, sha_of h vb p)" if "p \<in> set (family vb)" for p
  proof -
    have p: "p \<in> set FAMILY" using family_names(1) that by blast
    then have "node_at v (Forward op, snd p) = node_at vb p" using assms by (simp add: forwarded_def forward_copy_def)
    moreover have "is_regular vb p" using assms family_regular that by (auto simp: forwarded_def)
    moreover have "snd p \<in> set (map snd [DB, WAL, SHM])" using p by (auto simp: FAMILY_def)
    ultimately show ?thesis by (simp add: archived_member_ok_def is_regular_iff sha_of_def bytes_def)
  qed
  then show ?thesis by (auto simp: digests_def list_all_iff)
qed

lemma wp_resume_rollback:
  assumes f: "forwarded h op vb v st" and old: "sha_of h v (old_consistent op) = old_digest"
  shows "wpe (resume_rollback h op st old_digest) (\<lambda>st' v'. st' = st \<and> v' = v) (\<lambda>_ _. False) v"
proof -
  have fw: "rs_forward_files st = Some (digests h vb (family vb))" "dirs v (Forward op) = Some False" "live_ok vb"
    using f by (simp_all add: forwarded_def)
  have DB: "DB \<in> set FAMILY" "node_at vb DB \<noteq> None" using fw(3) by (auto simp: FAMILY_def live_ok_def is_regular_iff)
  have ne: "digests h vb (family vb) \<noteq> []" using DB by (auto simp: digests_def family_eq filter_empty_conv)
  have main: "map_of (digests h vb (family vb)) (snd DB) = Some (sha_of h v DB) \<or> sha_of h v DB = old_digest"
    using f DB old by (auto simp: map_of_digests forwarded_def sha_of_def bytes_def)
  have side: "list_all (sidecar_ok h op (digests h vb (family vb)) v) [WAL, SHM]"
    using f moved_forward_ok [OF fw(3)] by (simp add: forwarded_def)
  show ?thesis unfolding resume_rollback_def
    apply (rule wp_bind, rule wp_ensure, simp_all add: fw(1,2))
    apply (intro wp_bind wp_ensure wp_ret)
    using ne archived_members [OF f] main side by auto
qed

section \<open>Installing the old file\<close>

definition restored :: "string \<Rightarrow> volume \<Rightarrow> bool" where
  "restored op v \<longleftrightarrow> node_at v DB = node_at v (old_consistent op) \<and> node_at v WAL = None \<and> node_at v SHM = None"

definition finished :: "host \<Rightarrow> string \<Rightarrow> volume \<Rightarrow> restore_state \<Rightarrow> volume \<Rightarrow> bool" where
  "finished h op v0 st v \<longleftrightarrow> recoverable h op v0 v \<and> states v op = Some st \<and> rs_phase st = RolledBack \<and> restored op v"

text \<open>The copies beside the database matter to no check.\<close>

lemma recoverable_beside:
  assumes "p \<in> {incoming_copy op, rollback_copy op}"
  shows "recoverable h op v0 v \<Longrightarrow> recoverable h op v0 (del p v)" "rolling h op v0 vb st v \<Longrightarrow> rolling h op v0 vb st (del p v)"
    "rolling h op v0 vb st v \<Longrightarrow> rolling h op v0 vb st (put p x v)" "restored op v \<Longrightarrow> restored op (del p v)"
proof -
  have Data: "fst p = Data" "p \<notin> set FAMILY" using assms by (auto simp: FAMILY_def)
  note dist = in_data_distinct [OF Data(1)]
  have fwd: "forwarded h op b (del p v) t = forwarded h op b v t" "forwarded h op b (put p x v) t = forwarded h op b v t" for b t
    using Data(2) dist by (auto simp: forwarded_def moved_forward_def FAMILY_def restore_simps)
  have live: "live_ok (del p v) = live_ok v" "live_ok (put p x v) = live_ok v"
    using Data(2) by (auto simp: live_ok_def is_regular_iff restore_simps FAMILY_def)
  have arch: "archive_ok h op v0 (del p v) t = archive_ok h op v0 v t" "archive_ok h op v0 (put p x v) t = archive_ok h op v0 v t" for t
    using Data(1) dist by simp_all
  show "recoverable h op v0 v \<Longrightarrow> recoverable h op v0 (del p v)"
    unfolding recoverable_def live arch fwd by (auto simp: restore_simps)
  show "rolling h op v0 vb st v \<Longrightarrow> rolling h op v0 vb st (del p v)" "rolling h op v0 vb st v \<Longrightarrow> rolling h op v0 vb st (put p x v)"
    unfolding rolling_def live arch fwd by (simp_all add: restore_simps)
  show "restored op v \<Longrightarrow> restored op (del p v)"
    using Data(2) dist by (auto simp: restored_def restore_simps FAMILY_def)
qed

lemma rolling_fates [simp]: "rolling h op v0 vb st (v\<lparr>fates := r\<rparr>) = rolling h op v0 vb st v"
  by (simp add: rolling_def live_ok_def is_regular_iff forwarded_def moved_forward_def restore_simps)

lemma displaced_forward_distinct [simp]:
  "displaced_forward op WAL \<noteq> displaced_forward op SHM" "displaced_forward op SHM \<noteq> displaced_forward op WAL"
  "displaced_forward op p \<noteq> old_consistent op" "old_consistent op \<noteq> displaced_forward op p" "q \<in> set FAMILY \<Longrightarrow> forward_copy op q \<noteq> displaced_forward op p"
  using forward_distinct [of q op p] by (auto simp: displaced_forward_def old_consistent_def WAL_def SHM_def simp del: forward_distinct)

lemma rolling_displaced:
  assumes r: "rolling h op v0 vb st v" and p: "p \<in> {WAL, SHM}" and n: "node_at v p = Some n"
  shows "rolling h op v0 vb st (put (displaced_forward op p) n (del p v))"
proof -
  let ?v = "put (displaced_forward op p) n (del p v)"
  have Data: "fst p = Data" "p \<in> set FAMILY" "p \<noteq> DB" using p by (auto simp: FAMILY_def)
  have at: "node_at ?v q = (if q = p then None else node_at v q)" if "fst q = Data" for q
    using in_data_distinct(8) [OF that] by (simp add: restore_simps)
  have f: "forwarded h op vb v st" and live: "live_ok v" using r by (simp_all add: rolling_def)
  have here: "moved_forward op vb ?v p" using f n p at [OF Data(1)] by (auto simp: forwarded_def moved_forward_def restore_simps)
  have there: "moved_forward op vb ?v q" if "q \<in> {WAL, SHM}" "q \<noteq> p" for q
    using f that p at [of q] by (auto simp: forwarded_def moved_forward_def restore_simps in_data_distinct)
  have "moved_forward op vb ?v WAL" "moved_forward op vb ?v SHM"
    using here there [of WAL] there [of SHM] by (cases "p = WAL"; cases "p = SHM"; simp)+
  moreover have "node_at ?v (forward_copy op q) = node_at v (forward_copy op q)" if "q \<in> set FAMILY" for q
    using that in_data_distinct(9) [OF Data(1)] by (simp add: restore_simps)
  moreover have "node_at ?v (old_consistent op) = node_at v (old_consistent op)"
    using in_data_distinct(4) [OF Data(1)] by (simp add: restore_simps)
  ultimately have "forwarded h op vb ?v st" using f at [of DB] Data(3) by (simp add: forwarded_def other_fields)
  moreover have "live_ok ?v" using live at [of DB] at [of WAL] at [of SHM] Data(3) by (auto simp: live_ok_def is_regular_iff)
  moreover have "archive_ok h op v0 ?v st" using r Data(1) in_data_distinct [OF Data(1)] by (simp add: rolling_def)
  ultimately show ?thesis using r by (simp add: rolling_def other_fields)
qed

lemma wp_displace_forward_one:
  assumes r: "rolling h op v0 vb st v" and p: "p \<in> {WAL, SHM}"
  shows "wpe (if path_exists v p
      then bind_h (ensure (\<lambda>v. \<not> path_exists v (displaced_forward op p)) ''A sidecar reappeared after being displaced; keep the service stopped'')
        (\<lambda>_. replace_file p (displaced_forward op p)) else ret ())
    (\<lambda>_ v'. rolling h op v0 vb st v' \<and> node_at v' p = None \<and> (\<forall>q. fst q = Data \<longrightarrow> q \<noteq> p \<longrightarrow> node_at v' q = node_at v q)
       \<and> node_at v' (old_consistent op) = node_at v (old_consistent op))
    (\<lambda>e v'. recoverable h op v0 v' \<and> e = Died) v"
proof -
  have Data: "fst p = Data" using p by auto
  have reg: "node_at v p = None \<or> is_regular v p" using r p by (auto simp: rolling_def live_ok_def)
  have free: "node_at v (displaced_forward op p) = None" if "node_at v p \<noteq> None"
    using r p that by (auto simp: rolling_def forwarded_def moved_forward_def)
  show ?thesis
  proof (intro wp_if wp_bind wp_ensure wp_replace wp_ret)
    show "recoverable h op v0 (v\<lparr>fates := q\<rparr>) \<and> e = Died" if "path_exists v p" "e = Died \<or> node_at v p = None" for e q
      using that none_or_regular(2) [OF reg] rolling_recoverable [OF r] by auto
    show "recoverable h op v0 v \<and> Refused ''A sidecar reappeared after being displaced; keep the service stopped'' = Died"
      if "path_exists v p" "\<not> \<not> path_exists v (displaced_forward op p)"
      using that free none_or_regular(2) [OF reg] by (simp add: path_exists_def)
    show "rolling h op v0 vb st v \<and> node_at v p = None \<and> (\<forall>q. fst q = Data \<longrightarrow> q \<noteq> p \<longrightarrow> node_at v q = node_at v q)
        \<and> node_at v (old_consistent op) = node_at v (old_consistent op)" if "\<not> path_exists v p"
      using that r none_or_regular(2) [OF reg] by simp
    fix n q assume n: "node_at v p = Some n"
    let ?v = "put (displaced_forward op p) n (del p (v\<lparr>fates := q\<rparr>))"
    have "rolling h op v0 vb st ?v" using r n by (intro rolling_displaced p) (simp_all add: restore_simps)
    moreover have "node_at ?v x = (if x = p then None else node_at v x)" if "fst x = Data" for x
      using in_data_distinct(8) [OF that] by (simp add: restore_simps)
    moreover have "node_at ?v (old_consistent op) = node_at v (old_consistent op)"
      using in_data_distinct(4) [OF Data] by (simp add: restore_simps)
    ultimately show "rolling h op v0 vb st ?v \<and> node_at ?v p = None \<and> (\<forall>x. fst x = Data \<longrightarrow> x \<noteq> p \<longrightarrow> node_at ?v x = node_at v x)
        \<and> node_at ?v (old_consistent op) = node_at v (old_consistent op)"
      using Data by presburger
  qed
qed

lemma wp_displace_forward:
  assumes "rolling h op v0 vb st v" "node_at v (rollback_copy op) = node_at v (old_consistent op)"
  shows "wpe (displace_forward op [WAL, SHM])
    (\<lambda>_ v'. rolling h op v0 vb st v' \<and> node_at v' WAL = None \<and> node_at v' SHM = None \<and>
       node_at v' (rollback_copy op) = node_at v (old_consistent op) \<and> node_at v' (old_consistent op) = node_at v (old_consistent op))
    (\<lambda>e v'. recoverable h op v0 v' \<and> e = Died) v"
  unfolding displace_forward.simps
proof (intro wp_bind [where m = "ask _"] wp_ask, rule wp_seq [OF wp_displace_forward_one [OF assms(1)]])
  let ?Q = "\<lambda>_ v'. rolling h op v0 vb st v' \<and> node_at v' WAL = None \<and> node_at v' SHM = None \<and>
       node_at v' (rollback_copy op) = node_at v (old_consistent op) \<and> node_at v' (old_consistent op) = node_at v (old_consistent op)"
  fix x v1 assume v1: "rolling h op v0 vb st v1 \<and> node_at v1 WAL = None \<and> (\<forall>q. fst q = Data \<longrightarrow> q \<noteq> WAL \<longrightarrow> node_at v1 q = node_at v q)
    \<and> node_at v1 (old_consistent op) = node_at v (old_consistent op)"
  then have copy: "node_at v1 (rollback_copy op) = node_at v1 (old_consistent op)" using assms(2) by (simp del: split_paired_All)
  show "wpe (bind_h (ask (\<lambda>v. path_exists v SHM)) (\<lambda>there.
      bind_h (if there then bind_h (ensure (\<lambda>v. \<not> path_exists v (displaced_forward op SHM))
            ''A sidecar reappeared after being displaced; keep the service stopped'') (\<lambda>_. replace_file SHM (displaced_forward op SHM)) else ret ())
      (\<lambda>_. ret ()))) ?Q (\<lambda>e v'. recoverable h op v0 v' \<and> e = Died) v1"
  proof (intro wp_bind [where m = "ask _"] wp_ask, rule wp_seq [OF wp_displace_forward_one])
    show "rolling h op v0 vb st v1" using v1 by blast
    fix y v2 assume v2: "rolling h op v0 vb st v2 \<and> node_at v2 SHM = None \<and> (\<forall>q. fst q = Data \<longrightarrow> q \<noteq> SHM \<longrightarrow> node_at v2 q = node_at v1 q)
      \<and> node_at v2 (old_consistent op) = node_at v1 (old_consistent op)"
    have "node_at v2 WAL = node_at v1 WAL" "node_at v2 (rollback_copy op) = node_at v1 (rollback_copy op)" using v2 by (simp_all del: split_paired_All)
    then show "wpe (ret ()) ?Q (\<lambda>e v'. recoverable h op v0 v' \<and> e = Died) v2" using v1 v2 copy by (intro wp_ret) (simp del: split_paired_All)
  qed simp
qed simp

lemma rolling_installed:
  assumes r: "rolling h op v0 vb st v" and "node_at v WAL = None" "node_at v SHM = None"
    and c: "node_at v (rollback_copy op) = Some (Regular c)" "node_at v (old_consistent op) = Some (Regular c)"
  shows "rolling h op v0 vb st (put DB (Regular c) (del (rollback_copy op) v)) \<and> restored op (put DB (Regular c) (del (rollback_copy op) v))"
proof -
  let ?v = "del (rollback_copy op) v"
  have r': "rolling h op v0 vb st ?v" using recoverable_beside(2) r by blast
  have at: "node_at ?v WAL = None" "node_at ?v SHM = None" "node_at ?v (old_consistent op) = Some (Regular c)"
    using assms in_data_distinct(4) [of "rollback_copy op" op] by (simp_all add: restore_simps)
  have d: "DB \<noteq> old_consistent op" "old_consistent op \<noteq> DB" "DB \<noteq> forward_copy op q" "DB \<noteq> displaced_forward op q" "forward_copy op q \<noteq> DB" "displaced_forward op q \<noteq> DB" for q
    using in_data_distinct [of DB] by simp_all
  have "forwarded h op vb (put DB (Regular c) ?v) st"
    using r' at d by (auto simp: rolling_def forwarded_def moved_forward_def restore_simps)
  moreover have "live_ok (put DB (Regular c) ?v)" using at by (auto simp: live_ok_def is_regular_iff restore_simps)
  moreover have "archive_ok h op v0 (put DB (Regular c) ?v) st" using r' d by (simp add: rolling_def)
  ultimately show ?thesis using r' at d by (simp add: rolling_def restored_def restore_simps)
qed

lemma rolled_back:
  assumes "rolling h op v0 vb st v" "restored op v"
  shows "finished h op v0 (st\<lparr>rs_phase := RolledBack\<rparr>) (v\<lparr>fates := r, states := (states v)(op \<mapsto> st\<lparr>rs_phase := RolledBack\<rparr>)\<rparr>)"
proof -
  have "archive_ok h op v0 v (st\<lparr>rs_phase := RolledBack\<rparr>)" using assms(1) by (simp add: rolling_def archive_ok_def)
  then show ?thesis using assms
    by (auto simp: finished_def rolling_def recoverable_def restored_def forwarded_def live_ok_def is_regular_iff restore_simps)
qed

lemma finished_upd [simp]: "finished h op v0 st (v\<lparr>fates := r\<rparr>) = finished h op v0 st v"
  by (simp add: finished_def restored_def restore_simps)

lemma finished_probe:
  assumes "finished h op v0 st v"
  shows "finished h op v0 (st\<lparr>rs_write_probe := pr\<rparr>) (v\<lparr>fates := r, states := (states v)(op \<mapsto> st\<lparr>rs_write_probe := pr\<rparr>)\<rparr>)"
proof -
  have "archive_ok h op v0 v (st\<lparr>rs_write_probe := pr\<rparr>) = archive_ok h op v0 v st" by (simp add: archive_ok_def)
  then show ?thesis using assms
    by (auto simp: finished_def recoverable_def restored_def live_ok_def is_regular_iff restore_simps)
qed

lemma wp_remove_incoming:
  assumes "finished h op v0 st v"
  shows "wpe (remove_incoming h op c) (\<lambda>_ v'. finished h op v0 st v') (\<lambda>e v'. finished h op v0 st v') v"
proof -
  have "finished h op v0 st (del (incoming_copy op) (v\<lparr>fates := r\<rparr>))" for r
    using assms recoverable_beside(1,4) by (simp add: finished_def restored_def restore_simps in_data_distinct)
  then have "wpe (bind_h (unlink (incoming_copy op)) (\<lambda>_. ret x)) (\<lambda>_ v'. finished h op v0 st v') (\<lambda>e v'. finished h op v0 st v') v" for x :: "string option"
    using assms by (intro wp_bind wp_unlink wp_ret) simp_all
  then show ?thesis using assms by (simp add: wpe_def remove_incoming_def Let_def)
qed

text \<open>A failure of the installation is the death of the helper or comes after the old file is in place.\<close>

lemma wp_install_old:
  assumes r: "rolling h op v0 vb st v" and c: "node_at v (old_consistent op) = Some (Regular c)" "h_sha256 h c = old_digest"
  shows "wpe (install_old h op st old_digest) (\<lambda>st' v'. finished h op v0 st' v')
    (\<lambda>e v'. recoverable h op v0 v' \<and> (e = Died \<or> (\<exists>st'. finished h op v0 st' v'))) v"
proof -
  let ?Q = "\<lambda>st' v'. finished h op v0 st' v'"
  let ?E = "\<lambda>e v'. recoverable h op v0 v' \<and> (e = Died \<or> (\<exists>st'. finished h op v0 st' v'))"
  let ?st = "st\<lparr>rs_phase := RolledBack\<rparr>"
  have fin: "wpe (bind_h (remove_incoming h op (bi_sha256 (rs_candidate_info ?st))) (\<lambda>_. require_writable h op ?st)) ?Q ?E v'"
    if f: "finished h op v0 ?st v'" for v'
  proof (rule wp_seq [where R = "\<lambda>_. finished h op v0 ?st"])
    show "wpe (remove_incoming h op (bi_sha256 (rs_candidate_info ?st))) (\<lambda>_. finished h op v0 ?st) ?E v'"
      by (rule wp_mono [OF wp_remove_incoming [OF f]]) (auto simp: finished_def)
    fix x w assume w: "finished h op v0 ?st w"
    have E: "?E e (w\<lparr>fates := q\<rparr>)" for e q using w by (auto simp: finished_def restored_def restore_simps)
    show "wpe (require_writable h op ?st) ?Q ?E w" unfolding require_writable_def Let_def
      using E finished_probe [OF w] by (intro wp_bind wp_ask wp_save wp_if wp_ret wp_fail) (auto simp: finished_def)
  qed
  have swap: "wpe (bind_h (replace_file (rollback_copy op) DB) (\<lambda>_. bind_h (save_state op ?st) (\<lambda>_.
      bind_h (remove_incoming h op (bi_sha256 (rs_candidate_info ?st))) (\<lambda>_. require_writable h op ?st)))) ?Q ?E v'"
    if "rolling h op v0 vb st v'" "node_at v' WAL = None" "node_at v' SHM = None" "node_at v' (old_consistent op) = Some (Regular d)"
      "node_at v' (rollback_copy op) = Some (Regular d)" for v' d
  proof (intro wp_bind [where m = "replace_file _ _"] wp_bind [where m = "save_state _ _"] wp_replace wp_save fin)
    fix n q
    assume n: "node_at v' (rollback_copy op) = Some n"
    let ?v = "put DB n (del (rollback_copy op) (v'\<lparr>fates := q\<rparr>))"
    have inst: "rolling h op v0 vb st ?v \<and> restored op ?v"
      using rolling_installed [of h op v0 vb st "v'\<lparr>fates := q\<rparr>" d] that n by (simp add: restore_simps)
    show "?E Died (?v\<lparr>fates := x\<rparr>)" for x using inst rolling_recoverable by auto
    show "finished h op v0 ?st (?v\<lparr>fates := x, states := (states ?v)(op \<mapsto> ?st)\<rparr>)" for x
      using inst by (intro rolled_back) auto
  qed (use that rolling_recoverable in auto)
  let ?rest = "bind_h (displace_forward op [WAL, SHM]) (\<lambda>_. bind_h (replace_file (rollback_copy op) DB) (\<lambda>_. bind_h (save_state op ?st) (\<lambda>_.
      bind_h (remove_incoming h op (bi_sha256 (rs_candidate_info ?st))) (\<lambda>_. require_writable h op ?st))))"
  have rest: "wpe ?rest ?Q ?E v'"
    if "rolling h op v0 vb st v'" "node_at v' (rollback_copy op) = node_at v' (old_consistent op)" "node_at v' (old_consistent op) = Some (Regular d)" for v' d
  proof (rule wp_bind, rule wp_mono [OF wp_displace_forward [OF that(1,2)]])
    fix x w assume "rolling h op v0 vb st w \<and> node_at w WAL = None \<and> node_at w SHM = None \<and>
       node_at w (rollback_copy op) = node_at v' (old_consistent op) \<and> node_at w (old_consistent op) = node_at v' (old_consistent op)"
    then show "wpe (bind_h (replace_file (rollback_copy op) DB) (\<lambda>_. bind_h (save_state op ?st) (\<lambda>_.
      bind_h (remove_incoming h op (bi_sha256 (rs_candidate_info ?st))) (\<lambda>_. require_writable h op ?st)))) ?Q ?E w"
      using that(3) by (intro swap) auto
  qed auto
  have old: "rollback_copy op \<noteq> old_consistent op" "old_consistent op \<noteq> rollback_copy op" by (simp_all add: rollback_copy_def old_consistent_def)
  show ?thesis unfolding install_old_def Let_def
  proof (intro wp_bind [where m = "unlink _"] wp_bind [where m = "copy_durable _ _"] wp_bind [where m = "ensure _ _"] wp_unlink wp_copy wp_ensure rest)
    fix q
    let ?v = "del (rollback_copy op) (v\<lparr>fates := q\<rparr>)"
    have r1: "rolling h op v0 vb st ?v" using r by (intro recoverable_beside) simp_all
    have at: "node_at ?v (old_consistent op) = Some (Regular c)" "node_at ?v (rollback_copy op) = None"
      using c(1) old by (simp_all add: restore_simps)
    show "?E e (?v\<lparr>fates := x\<rparr>)" if "e = Died \<or> \<not> is_regular ?v (old_consistent op) \<or> node_at ?v (rollback_copy op) \<noteq> None" for e x
      using that at r1 rolling_recoverable [OF r1] by (auto simp: is_regular_iff)
    show "?E Died (put (rollback_copy op) (Regular part) (?v\<lparr>fates := x\<rparr>))" for x part
    proof -
      have "rolling h op v0 vb st (put (rollback_copy op) (Regular part) (?v\<lparr>fates := x\<rparr>))"
        using r1 by (intro recoverable_beside(3)) simp_all
      then show ?thesis using rolling_recoverable by blast
    qed
    fix d x assume d: "node_at ?v (old_consistent op) = Some (Regular d)"
    let ?w = "put (rollback_copy op) (Regular d) (?v\<lparr>fates := x\<rparr>)"
    show "rolling h op v0 vb st ?w" using r1 by (intro recoverable_beside(3)) simp_all
    show "node_at ?w (rollback_copy op) = node_at ?w (old_consistent op)" "node_at ?w (old_consistent op) = Some (Regular d)"
      using d old by (simp_all add: restore_simps)
    show "?E (Refused ''Rollback copy differs from archived old state'') ?w" if "sha_of h ?w (rollback_copy op) \<noteq> old_digest"
      using that d at(1) c(2) by (simp add: sha_of_def bytes_def restore_simps)
  qed (use rolling_recoverable [OF r] in auto)
qed

section \<open>The whole rollback\<close>

definition rollback_ready :: "host \<Rightarrow> string \<Rightarrow> volume \<Rightarrow> bool" where
  "rollback_ready h op v \<longleftrightarrow> \<not> h_root h \<and> valid_operation_id op \<and> dirs v RecoveryRoot \<noteq> Some True \<and>
     (\<exists>st old. states v op = Some st \<and> rs_old_state st = Some old \<and> os_rollback_available old \<and>
        rs_phase st \<in> {Prepared, Activated, RollingBack} \<and> (rs_phase st \<noteq> RollingBack \<longrightarrow> begin_ready h op v))"

lemma own_state_Inr: "own_state op v = (Inr st, v') \<Longrightarrow> states v op = Some st \<and> rs_operation_id st = op"
  by (auto simp: own_state_def recovery_dir_def load_recovery_def ret_def dest!: bind_Inr_D ensure_Inr_D split: option.splits)

lemma own_state_Inl:
  assumes "own_state op v = (Inl e, v')" "recoverable h op v0 v"
  shows "\<not> rollback_ready h op v"
proof
  assume ready: "rollback_ready h op v"
  then obtain st where "states v op = Some st" by (auto simp: rollback_ready_def)
  moreover then have "rs_operation_id st = op" using assms(2) by (simp add: recoverable_def)
  ultimately have "own_state op v = (Inr st, v)"
    using ready by (simp add: rollback_ready_def own_state_def recovery_dir_def load_recovery_def ret_def bind_h_def ensure_def)
  then show False using assms(1) by simp
qed

lemma wp_abandon:
  assumes "recoverable h op v0 v" "states v op = Some st" "rs_phase st = Archiving"
  shows "wp (abandon_activation h op st)
    (\<lambda>r v'. recoverable h op v0 v' \<and> live_same v v' \<and> (\<exists>st'. r = Some st' \<and> states v' op = Some st' \<and> rs_phase st' = Abandoned)) (recoverable h op v0) v"
proof -
  let ?st = "st\<lparr>rs_phase := Abandoned\<rparr>"
  have id: "rs_operation_id st = op" using assms by (simp add: recoverable_def)
  have save: "wp (bind_h (save_state op ?st) (\<lambda>_. ret (Some ?st)))
      (\<lambda>r v'. recoverable h op v0 v' \<and> live_same v v' \<and> (\<exists>st'. r = Some st' \<and> states v' op = Some st' \<and> rs_phase st' = Abandoned)) (recoverable h op v0) w"
    if "recoverable h op v0 w" "live_same v w" for w
  proof (intro wp_bind wp_save wp_ret)
    show "recoverable h op v0 (w\<lparr>fates := r\<rparr>)" for r using that by simp
    have "recoverable h op v0 (w\<lparr>fates := r, states := (states w)(op \<mapsto> ?st)\<rparr>)" for r
      by (rule recoverable_save) (use that(1) id in simp_all)
    then show "recoverable h op v0 (w\<lparr>fates := r, states := (states w)(op \<mapsto> ?st)\<rparr>) \<and> live_same v (w\<lparr>fates := r, states := (states w)(op \<mapsto> ?st)\<rparr>) \<and>
        (\<exists>st'. Some ?st = Some st' \<and> states (w\<lparr>fates := r, states := (states w)(op \<mapsto> ?st)\<rparr>) op = Some st' \<and> rs_phase st' = Abandoned)" for r
      using that(2) by (simp add: live_same_def restore_simps)
  qed
  have "recoverable h op v0 (del (incoming_copy op) (v\<lparr>fates := r\<rparr>)) \<and> live_same v (del (incoming_copy op) (v\<lparr>fates := r\<rparr>))" for r
    using assms(1) recoverable_beside(1) by (simp add: live_same_def restore_simps FAMILY_def)
  then have "wp (bind_h (unlink (incoming_copy op)) (\<lambda>_. ret x)) (\<lambda>_ w. recoverable h op v0 w \<and> live_same v w) (recoverable h op v0) v" for x :: "string option"
    using assms(1) by (intro wp_bind wp_unlink wp_ret) simp_all
  then have "wp (remove_incoming h op c) (\<lambda>_ w. recoverable h op v0 w \<and> live_same v w) (recoverable h op v0) v" for c
    using assms(1) by (simp add: wpe_def remove_incoming_def Let_def live_same_def)
  then show ?thesis unfolding abandon_activation_def Let_def by (rule wp_seq) (use save in blast)
qed

definition rollback_result :: "host \<Rightarrow> string \<Rightarrow> volume \<Rightarrow> volume \<Rightarrow> bool \<Rightarrow> restore_state option \<Rightarrow> volume \<Rightarrow> bool" where
  "rollback_result h op v0 v apply r v' \<longleftrightarrow> recoverable h op v0 v' \<and>
     (case r of
        None \<Rightarrow> \<not> apply \<and> v' = v
      | Some st \<Rightarrow> states v' op = Some st \<and>
          (rs_phase st = Abandoned \<and> live_same v v' \<and> map_option rs_phase (states v op) = Some Archiving \<or> finished h op v0 st v' \<and> (\<exists>c. h_consolidate h (family_bytes v0) = Inr c)))"

definition rollback_failure :: "host \<Rightarrow> string \<Rightarrow> volume \<Rightarrow> volume \<Rightarrow> bool \<Rightarrow> restore_failure \<Rightarrow> volume \<Rightarrow> bool" where
  "rollback_failure h op v0 v apply e v' \<longleftrightarrow> recoverable h op v0 v' \<and>
     (rollback_ready h op v \<longrightarrow> apply \<longrightarrow> e = Died \<or> (\<exists>st. finished h op v0 st v'))"

text \<open>From the archived old state on.\<close>

lemma wp_rollback_to:
  assumes rec: "recoverable h op v0 v" and st: "states v op = Some st" "rs_phase st \<in> {Prepared, Activated, RollingBack}"
    and old: "rs_old_state st = Some old"
  shows "wpe (rollback_to h op apply st old) (rollback_result h op v0 v apply) (rollback_failure h op v0 v apply) v"
proof (cases "os_rollback_available old")
  case False
  then have "\<not> rollback_ready h op v" using st old by (auto simp: rollback_ready_def)
  then show ?thesis unfolding rollback_to_def using False rec
    by (intro wp_bind [where m = "ensure _ _"] wp_ensure) (simp_all add: rollback_failure_def)
next
  case True
  let ?Q = "rollback_result h op v0 v" and ?E = "rollback_failure h op v0 v"
  have arch: "archive_ok h op v0 v st" "rs_operation_id st = op" "live_ok v" using rec st by (auto simp: recoverable_def)
  then obtain c where c: "h_consolidate h (family_bytes v0) = Inr c" "node_at v (old_consistent op) = Some (Regular c)" "old = describe h c"
    using old True by (auto simp: archive_ok_def assessed_def unreadable_def split: sum.splits)
  have sha: "h_sha256 h c = os_sha256 old" "sha_of h v (old_consistent op) = os_sha256 old"
    using c(2,3) by (simp_all add: describe_def Let_def sha_of_def restore_simps)
  have inst: "wpe (bind_h (install_old h op st' (os_sha256 old)) (\<lambda>st. ret (Some st))) (?Q True) (?E True) w"
    if "rolling h op v0 vb st' w" for vb st' w
  proof -
    have "node_at w (old_consistent op) = Some (Regular c)"
      using that c(1) by (auto simp: rolling_def archive_ok_def assessed_def)
    from wp_install_old [OF that this sha(1)] show ?thesis
      by (intro wp_bind [where m = "install_old _ _ _ _"], elim wp_mono)
         (auto intro!: wp_ret simp: rollback_result_def rollback_failure_def finished_def c(1))
  qed
  have start: "wpe (if rs_phase st \<noteq> RollingBack then begin_rollback h op st else resume_rollback h op st (os_sha256 old))
      (\<lambda>st' w. \<exists>vb. rolling h op v0 vb st' w) (?E True) v"
  proof (cases "rs_phase st = RollingBack")
    case True
    then obtain vb where f: "forwarded h op vb v st" using rec st by (auto simp: recoverable_def)
    then have "rolling h op v0 vb st v" using True arch st by (simp add: rolling_def)
    with wp_resume_rollback [OF f sha(2)] True show ?thesis by (simp, elim wp_mono) auto
  next
    case False
    then have "rs_phase st \<in> {Prepared, Activated}" using st(2) by simp
    from wp_begin_rollback [OF rec st(1) this] False show ?thesis
      by (simp, elim wp_mono) (use st in \<open>auto simp: rollback_failure_def rollback_ready_def\<close>)
  qed
  have all: "wpe (bind_h (if rs_phase st \<noteq> RollingBack then begin_rollback h op st else resume_rollback h op st (os_sha256 old))
      (\<lambda>st. bind_h (install_old h op st (os_sha256 old)) (\<lambda>st. ret (Some st)))) (?Q True) (?E True) v"
    by (rule wp_seq [OF start]) (use inst in blast)
  show ?thesis unfolding rollback_to_def
  proof (intro wp_bind [where m = "ensure _ _"] wp_bind [where m = "regular _"] wp_ensure wp_regular wp_if wp_ret)
    assume "\<not> \<not> apply"
    with all show "wpe (bind_h (if rs_phase st \<noteq> RollingBack then begin_rollback h op st else resume_rollback h op st (os_sha256 old))
        (\<lambda>st. bind_h (install_old h op st (os_sha256 old)) (\<lambda>st. ret (Some st)))) (?Q apply) (?E apply) v"
      by simp
  qed (use True c(2) sha(2) rec in \<open>auto simp: is_regular_iff rollback_result_def\<close>)
qed

lemma wp_rollback:
  assumes rec: "recoverable h op v0 v"
  shows "wpe (rollback h op apply) (rollback_result h op v0 v apply) (rollback_failure h op v0 v apply) v"
proof -
  let ?Q = "rollback_result h op v0 v apply" and ?E = "rollback_failure h op v0 v apply"
  have E: "?E e v" if "\<not> rollback_ready h op v" for e using that rec by (simp add: rollback_failure_def)
  have dry: "?Q None v" if "\<not> apply" using that rec by (simp add: rollback_result_def)
  show ?thesis unfolding rollback_def
  proof (intro wp_bind wp_reads [OF reads_refuse_root] wp_regular wp_reads [OF reads_own_state])
    show "?E e v" if "refuse_root h v = (Inl e, v)" for e
      using that by (intro E) (auto simp: rollback_ready_def refuse_root_def ensure_def)
    show "?E (Refused ''Missing or non-regular file'') v" if "\<not> is_regular v DB"
      using that rec by (simp add: recoverable_def live_ok_def)
    show "?E e v" if "own_state op v = (Inl e, v)" for e using own_state_Inl [OF that rec] E by blast
    fix st assume "own_state op v = (Inr st, v)"
    then have st: "states v op = Some st" using own_state_Inr by blast
    have idle: "\<not> rollback_ready h op v" if "rs_phase st \<notin> {Prepared, Activated, RollingBack} \<or> rs_old_state st = None"
      using that st by (auto simp: rollback_ready_def)
    show "wpe (if rs_phase st = Archiving then (if apply then abandon_activation h op st else ret None)
       else if rs_phase st \<notin> {Prepared, Activated, RollingBack} then fail (Refused ''Nothing to roll back'')
       else (case rs_old_state st of
         None \<Rightarrow> fail (Refused ''The old state was not a readable OpenChronicle database'')
       | Some old \<Rightarrow> rollback_to h op apply st old)) ?Q ?E v"
    proof (intro wp_if wp_ret wp_fail E dry idle)
      assume arch: "rs_phase st = Archiving" and ap: "apply"
      show "wpe (abandon_activation h op st) ?Q ?E v"
        by (rule wp_mono [OF wp_abandon [OF rec st arch]])
           (use idle arch ap st in \<open>auto simp: rollback_result_def rollback_failure_def\<close>)
    next
      assume "\<not> rs_phase st \<notin> {Prepared, Activated, RollingBack}"
      then show "wpe (case rs_old_state st of
         None \<Rightarrow> fail (Refused ''The old state was not a readable OpenChronicle database'')
       | Some old \<Rightarrow> rollback_to h op apply st old) ?Q ?E v"
        using idle E wp_rollback_to [OF rec st] by (cases "rs_old_state st") (auto intro!: wp_fail)
    qed auto
  qed
qed

end
