(* ===== verification/OC_Restore_Theorems.thy ===== *)
theory OC_Restore_Theorems
  imports OC_Restore_Rollback
begin

text \<open>
  The theorems about the offline restore: activation is safe wherever it stops, every state
  reachable after it can be rolled back, and a rollback that is not interrupted restores the
  old database. The reachable states are those of an inductive relation in which the helper
  may die anywhere and the service may write whenever no swap is half done.
\<close>

section \<open>Operations that only record\<close>

lemma recoverable_same_archive:
  assumes "recoverable h op v0 v" "states v op = Some st" "rs_phase st' = rs_phase st" "rs_operation_id st' = op"
    "rs_raw_files st' = rs_raw_files st" "rs_old_state st' = rs_old_state st" "rs_forward_files st' = rs_forward_files st"
  shows "recoverable h op v0 (v\<lparr>fates := r, states := (states v)(op \<mapsto> st')\<rparr>)"
proof (rule recoverable_save [OF assms(1,4)])
  have "archive_ok h op v0 v st' = archive_ok h op v0 v st" "forwarded h op vb v st' = forwarded h op vb v st" for vb
    using assms(5-7) by (simp_all add: archive_ok_def forwarded_def)
  then show "rs_phase st' \<in> {Prepared, Activated, RollingBack, RolledBack} \<longrightarrow> archive_ok h op v0 v st'"
    "rs_phase st' = RollingBack \<longrightarrow> (\<exists>vb. forwarded h op vb v st')"
    using assms(1-3) by (simp_all add: recoverable_def)
qed

lemma wp_record:
  assumes "recoverable h op v0 v" "states v op = Some st" "rs_phase st' = rs_phase st" "rs_operation_id st' = op"
    "rs_raw_files st' = rs_raw_files st" "rs_old_state st' = rs_old_state st" "rs_forward_files st' = rs_forward_files st"
  shows "wp (save_state op st') (\<lambda>_ v'. recoverable h op v0 v' \<and> states v' op = Some st') (recoverable h op v0) v"
  using assms recoverable_same_archive [OF assms] by (intro wp_save) auto

lemma wp_probe:
  assumes "recoverable h op v0 v"
  shows "wp (probe h op) (\<lambda>_. recoverable h op v0) (recoverable h op v0) v"
  unfolding probe_def
proof (intro wp_bind wp_reads [OF reads_refuse_root] wp_regular wp_reads [OF reads_own_state] wp_ensure)
  fix st assume "own_state op v = (Inr st, v)"
  then have st: "states v op = Some st" "rs_operation_id st = op" using own_state_Inr by blast+
  have writes: "wp (require_writable h op st) (\<lambda>_. recoverable h op v0) (recoverable h op v0) v"
    unfolding require_writable_def Let_def
    by (intro wp_bind [where m = "ask _"] wp_ask, rule wp_seq, rule wp_record [OF assms st(1)], use st(2) in \<open>auto intro!: wp_if wp_ret wp_fail\<close>)
  have stale: "wp (bind_h (save_state op (st\<lparr>rs_write_probe := Some PROBE_STALE\<rparr>)) (\<lambda>_. fail e)) (\<lambda>_. recoverable h op v0) (recoverable h op v0) v"
    for e :: restore_failure
    by (rule wp_seq, rule wp_record [OF assms st(1)], use st(2) in \<open>auto intro!: wp_fail\<close>)
  show "wp (let expected_sha = (if rs_phase st = Activated then bi_sha256 (rs_candidate_info st)
                         else (case rs_old_state st of None \<Rightarrow> [] | Some old \<Rightarrow> os_sha256 old))
     in bind_h (ensure (\<lambda>v. foreign_sidecar v = None) ''not something SQLite leaves; remove it'') (\<lambda>_ v.
        if unchanged_since_swap h expected_sha v then require_writable h op st v
        else bind_h (save_state op (st\<lparr>rs_write_probe := Some PROBE_STALE\<rparr>)) (\<lambda>_.
             fail (Refused ''The installed database was written since the swap'')) v)) (\<lambda>_. recoverable h op v0) (recoverable h op v0) v"
    unfolding Let_def using writes stale assms
    by (intro wp_bind [where m = "ensure _ _"] wp_ensure wp_if_now) auto
qed (use assms in auto)

lemma recoverable_del_stage:
  assumes "recoverable h op v0 v" "fst p = Stage"
  shows "recoverable h op v0 (del p v)"
proof -
  have p: "p \<noteq> DB" "p \<noteq> WAL" "p \<noteq> SHM" "p \<noteq> old_consistent op" "p \<noteq> forward_copy op q" "p \<noteq> displaced_forward op q" for q
    using assms(2) by (auto simp: DB_def WAL_def SHM_def old_consistent_def forward_copy_def displaced_forward_def)
  have fwd: "forwarded h op vb (del p v) st = forwarded h op vb v st" for vb st
    by (simp add: forwarded_def moved_forward_def restore_simps p [symmetric])
  have live: "live_ok (del p v) = live_ok v" by (simp add: live_ok_def is_regular_iff restore_simps p [symmetric])
  have arch: "archive_ok h op v0 (del p v) st = archive_ok h op v0 v st" for st using p assms(2) by simp
  show ?thesis using assms(1) unfolding recoverable_def live arch fwd by (auto simp: restore_simps)
qed

lemma wp_remove_incoming_any:
  assumes "recoverable h op v0 v"
  shows "wp (remove_incoming h op c) (\<lambda>_. recoverable h op v0) (recoverable h op v0) v"
proof -
  have "wp (bind_h (unlink (incoming_copy op)) (\<lambda>_. ret x)) (\<lambda>_. recoverable h op v0) (recoverable h op v0) v" for x :: "string option"
    using assms recoverable_beside(1) by (intro wp_bind wp_unlink wp_ret) simp_all
  then show ?thesis using assms by (simp add: wpe_def remove_incoming_def Let_def)
qed

lemma reads_check_staged: "reads (check_staged h st)"
  unfolding check_staged_def by (intro reads_bind reads_basic) (simp add: reads_bind)

lemma wp_remove_staged:
  assumes rec: "recoverable h op v0 v" and st: "states v op = Some st" "rs_operation_id st = op" and c: "fst (rs_candidate st) = Stage"
  shows "wp (remove_staged h op st) (\<lambda>_. recoverable h op v0) (recoverable h op v0) v"
  unfolding remove_staged_def
proof (rule wp_seq [OF wp_record [OF rec st(1)]])
  let ?R = "recoverable h op v0"
  let ?last = "bind_h (save_state op (st\<lparr>rs_retirement := Some ''done''\<rparr>)) (\<lambda>_.
      bind_h (remove_incoming h op (bi_sha256 (rs_candidate_info st))) (\<lambda>_. ret True))"
  fix x w assume w: "?R w \<and> states w op = Some (st\<lparr>rs_retirement := Some ''in_progress''\<rparr>)"
  have last: "wp ?last (\<lambda>_. ?R) ?R u" if "?R u" "states u op = Some (st\<lparr>rs_retirement := Some ''in_progress''\<rparr>)" for u
  proof (rule wp_seq [OF wp_record [OF that]])
    show "wp (bind_h (remove_incoming h op (bi_sha256 (rs_candidate_info st))) (\<lambda>_. ret True)) (\<lambda>_. ?R) ?R y"
      if "?R y \<and> states y op = Some (st\<lparr>rs_retirement := Some ''done''\<rparr>)" for y
      using that by (intro wp_seq [OF wp_remove_incoming_any] wp_ret) auto
  qed (use st(2) in simp_all)
  show "wp (bind_h (unlink (rs_candidate st)) (\<lambda>_. ?last)) (\<lambda>_. ?R) ?R w"
    by (intro wp_bind [where m = "unlink _"] wp_unlink last) (use w c recoverable_del_stage in \<open>auto simp: other_fields\<close>)
qed (use st(2) in simp_all)

lemma wp_retire_stage:
  assumes "recoverable h op v0 v"
  shows "wp (retire_stage h op apply) (\<lambda>_. recoverable h op v0) (recoverable h op v0) v"
  unfolding retire_stage_def
  by (intro wp_bind wp_reads [OF reads_own_state] wp_reads [OF reads_check_staged] wp_ensure wp_if wp_ret wp_remove_staged)
     (use assms in \<open>auto dest: own_state_Inr\<close>)

section \<open>Reachable volumes\<close>

text \<open>The service may run while no swap is half done; it keeps to the database family.\<close>

definition may_serve :: "string \<Rightarrow> volume \<Rightarrow> bool" where
  "may_serve op v \<longleftrightarrow> (\<forall>st. states v op = Some st \<longrightarrow> rs_phase st \<notin> {Prepared, RollingBack})"

definition served :: "volume \<Rightarrow> volume \<Rightarrow> bool" where
  "served v v' \<longleftrightarrow> live_ok v' \<and> dirs v' = dirs v \<and> states v' = states v \<and> (\<forall>p. p \<notin> set FAMILY \<longrightarrow> node_at v' p = node_at v p)"

inductive after_activation :: "host \<Rightarrow> string \<Rightarrow> volume \<Rightarrow> volume \<Rightarrow> bool" for h op v0 where
  activated: "activate h candidate op sha schema project ap v0 = (r, v) \<Longrightarrow> after_activation h op v0 v"
| next_run: "after_activation h op v0 v \<Longrightarrow> after_activation h op v0 (v\<lparr>fates := fs\<rparr>)"
| rolled: "after_activation h op v0 v \<Longrightarrow> rollback h op ap v = (r', v') \<Longrightarrow> after_activation h op v0 v'"
| probed: "after_activation h op v0 v \<Longrightarrow> probe h op v = (r'', v') \<Longrightarrow> after_activation h op v0 v'"
| retired: "after_activation h op v0 v \<Longrightarrow> retire_stage h op ap v = (q, v') \<Longrightarrow> after_activation h op v0 v'"
| service: "after_activation h op v0 v \<Longrightarrow> may_serve op v \<Longrightarrow> served v v' \<Longrightarrow> after_activation h op v0 v'"

lemma wp_post: "wp m (\<lambda>_. P) P v \<Longrightarrow> m v = (r, v') \<Longrightarrow> P v'"
  by (drule (1) wpD) (simp split: sum.splits)

lemma fresh_recoverable: "fresh op v \<Longrightarrow> live_ok v \<Longrightarrow> recoverable h op v0 v"
  by (auto simp: recoverable_def fresh_def)

lemma act_state_live:
  assumes "act_state h op candidate v0 v" "live_ok v0" "is_regular v0 candidate"
  shows "live_ok v"
proof -
  have swap: "live_ok v" if "swapping op candidate v0 v"
    using that assms(2,3) by (auto simp: swapping_def swapped_def moved_def live_ok_def is_regular_iff)
  then have "live_ok v" if "swapped op candidate v0 v" using that by (simp add: swapping_def)
  with swap assms(1,2) live_same_ok show ?thesis
    by (auto simp: act_state_def split: option.splits restore_phase.splits)
qed

lemma act_state_recoverable:
  assumes "act_state h op candidate v0 v" "live_ok v0" "is_regular v0 candidate" "fresh op v0"
  shows "recoverable h op v0 v"
proof -
  have "node_at v p = None" if "fst p = Forward op" for p
  proof -
    have "p \<notin> set FAMILY \<union> {incoming_copy op}" "fst p \<notin> own_places op" using that by (auto simp: FAMILY_def own_places_def)
    then have "node_at v p = node_at v0 p" using assms(1) unfolding act_state_def untouched_def by blast
    then show ?thesis using that assms(4) by (simp add: fresh_def del: split_paired_All)
  qed
  then show ?thesis using act_state_live [OF assms(1-3)] assms(1)
    by (auto simp: recoverable_def act_state_def split: option.splits restore_phase.splits)
qed

lemma served_recoverable:
  assumes "recoverable h op v0 v" "may_serve op v" "served v v'"
  shows "recoverable h op v0 v'"
proof -
  have at: "node_at v' p = node_at v p" if "fst p \<noteq> Data" for p
    using assms(3) that in_FAMILY unfolding served_def by blast
  have "archive_ok h op v0 v' st = archive_ok h op v0 v st" for st
    by (rule archive_ok_cong) (auto intro!: at)
  then show ?thesis using assms at by (auto simp: recoverable_def served_def may_serve_def)
qed

lemma reachable_recoverable:
  assumes "after_activation h op v0 v" "fresh op v0" "live_ok v0"
  shows "recoverable h op v0 v"
  using assms(1)
proof (induction rule: after_activation.induct)
  case (activated candidate sha schema project ap r v)
  have "tidy op v0" using assms(2) by (simp add: tidy_def)
  from wpD [OF wp_activate [OF this] activated] show ?case
    using fresh_recoverable [OF assms(2,3)] act_state_recoverable [where candidate = candidate, OF _ assms(3) _ assms(2)]
    by (auto split: sum.splits option.splits)
next
  case (rolled v ap r' v')
  from wpD [OF wp_rollback [OF rolled.IH] rolled.hyps(2)] show ?case
    by (auto simp: rollback_result_def rollback_failure_def split: sum.splits)
next
  case (probed v r'' v')
  then show ?case using wp_post [OF wp_probe] by blast
next
  case (retired v ap q v')
  then show ?case using wp_post [OF wp_retire_stage] by blast
next
  case (service v v')
  then show ?case using served_recoverable by blast
qed simp

section \<open>Runs that are not interrupted\<close>

definition alive :: "'a helper \<Rightarrow> bool" where
  "alive m \<longleftrightarrow> (\<forall>v. fates v = [] \<longrightarrow> fst (m v) \<noteq> Inl Died \<and> fates (snd (m v)) = [])"

lemma aliveD: "alive m \<Longrightarrow> fates v = [] \<Longrightarrow> m v = (r, v') \<Longrightarrow> r \<noteq> Inl Died \<and> fates v' = []"
  unfolding alive_def by (metis fst_conv snd_conv)

lemma aliveI: "(\<And>v r v'. fates v = [] \<Longrightarrow> m v = (r, v') \<Longrightarrow> r \<noteq> Inl Died \<and> fates v' = []) \<Longrightarrow> alive m"
  unfolding alive_def by (metis prod.collapse)

lemma alive_bind: "alive m \<Longrightarrow> (\<And>x. alive (k x)) \<Longrightarrow> alive (bind_h m k)"
  by (rule aliveI) (auto simp: bind_h_def split: prod.splits sum.splits dest!: aliveD)

lemma alive_basic [simp]: "alive (ret x)" "e \<noteq> Died \<Longrightarrow> alive (fail e)" "alive (ask f)" "alive (ensure P msg)" "alive (regular p)" "alive (load_recovery op)"
  by (auto simp: alive_def ret_def fail_def ask_def ensure_def regular_def load_recovery_def split: option.split)

lemma alive_change: "(\<And>v. fates (f v) = fates v) \<Longrightarrow> alive (change f)"
  by (simp add: alive_def change_def)

lemma alive_steps [simp]: "alive (make_dir d)" "alive (write_new p c)" "alive (replace_file p q)" "alive (unlink p)" "alive (save_state op st)"
  by (auto simp: alive_def make_dir_def write_new_def replace_file_def unlink_def save_state_def change_def other_fields split: option.split)

lemma alive_copy [simp]: "alive (copy_durable p q)"
  unfolding copy_durable_def by (rule alive_bind) (simp, rule aliveI, auto split: if_splits dest: aliveD [OF alive_steps(2)])

lemma alive_if [simp]: "alive m \<Longrightarrow> alive k \<Longrightarrow> alive (if b then m else k)"
  by simp

lemma alive_archive_forward [simp]: "alive (archive_forward h op ps)"
  by (induction ps) (simp_all add: alive_bind)

lemma alive_displace_forward [simp]: "alive (displace_forward op ps)"
  by (induction ps) (simp_all add: alive_bind)

lemma alive_remove_incoming [simp]: "alive (remove_incoming h op c)"
proof -
  have "alive (bind_h (unlink (incoming_copy op)) (\<lambda>_. ret x))" for x :: "string option" by (simp add: alive_bind)
  then show ?thesis by (auto simp: alive_def remove_incoming_def Let_def)
qed

lemma alive_require_writable [simp]: "alive (require_writable h op st)"
  by (simp add: require_writable_def Let_def alive_bind)

lemma alive_rollback: "alive (rollback h op ap)"
proof -
  have "alive (own_state op)" by (simp add: own_state_def recovery_dir_def alive_bind)
  moreover have "alive (abandon_activation h op st)" for st by (simp add: abandon_activation_def Let_def alive_bind)
  moreover have "alive (begin_rollback h op st)" for st by (simp add: begin_rollback_def Let_def alive_bind)
  moreover have "alive (resume_rollback h op st d)" for st d by (simp add: resume_rollback_def alive_bind split: option.split)
  moreover have "alive (install_old h op st d)" for st d by (simp add: install_old_def Let_def alive_bind)
  ultimately have "alive (rollback_to h op ap st old)" "alive (own_state op)" "alive (abandon_activation h op st)" for st old
    by (simp_all add: rollback_to_def alive_bind)
  then show ?thesis by (simp add: rollback_def refuse_root_def alive_bind split: option.split)
qed

section \<open>An operation on a small volume\<close>

definition sample_host :: host where
  "sample_host =
     \<lparr>h_root = False, h_same_device = (\<lambda>_. True), h_disk_free = (\<lambda>_. 20000000), h_can_write = (\<lambda>_. True), h_sha256 = (\<lambda>c. c),
      h_report = (\<lambda>_. \<lparr>rp_integrity = ''ok'', rp_foreign_keys = ''ok'', rp_identity = Some (7, [''p1''], 1, 0)\<rparr>),
      h_consolidate = (\<lambda>fs. Inr (concat (map snd fs))), h_write_error = (\<lambda>_. None)\<rparr>"

definition sample_candidate :: path where
  "sample_candidate = (Stage, ''candidate-0123456789abcdef01234567.db'')"

definition sample_volume :: "fate list \<Rightarrow> volume" where
  "sample_volume fs =
     \<lparr>files = [(DB, Regular ''old''), (WAL, Regular ''+wal''), (sample_candidate, Regular ''new'')],
      dirs = [Data \<mapsto> False, Stage \<mapsto> False], states = Map.empty, fates = fs\<rparr>"

definition sample_activate :: "fate list \<Rightarrow> (restore_failure, restore_state option, volume) outcome" where
  "sample_activate fs = activate sample_host sample_candidate ''op-1'' ''new'' 7 ''p1'' True (sample_volume fs)"

text \<open>Killed between the displacement of the write-ahead log and the swap of the database file.\<close>

definition sample_half :: volume where
  "sample_half = snd (sample_activate (replicate 16 Done @ [Dies None]))"

lemma fresh_files:
  assumes "list_all (\<lambda>x. fst (fst x) \<notin> {Forward op, Recovery op, RawOld op, Scratch op}) (files v)" "states v op = None"
  shows "fresh op v"
proof -
  have "node_at v p = None" if "fst p \<in> insert (Forward op) (own_places op)" for p
    using assms(1) that by (auto simp: node_at_def map_of_eq_None_iff list_all_iff own_places_def)
  then show ?thesis using assms(2) by (simp add: fresh_def)
qed

lemma sample_fresh: "fresh ''op-1'' (sample_volume fs)" "live_ok (sample_volume fs)"
  by (auto intro!: fresh_files simp: sample_volume_def sample_candidate_def DB_def WAL_def SHM_def live_ok_def is_regular_def node_at_def)

lemma sample_tidy: "tidy ''op-1'' (sample_volume fs)"
  by (simp add: tidy_def sample_fresh)

lemma sample_after: "after_activation sample_host ''op-1'' (sample_volume fs) (snd (sample_activate fs))"
  unfolding sample_activate_def by (rule activated [OF prod.collapse [symmetric]])

section \<open>Theorems\<close>

text \<open>
  C21. Activating a staged snapshot is safe wherever it stops: refused, failed or killed, even in
  the middle of a copy. The database file is then a regular file, the old one or the staged
  one, and nothing outside the database family and the operation's own files has changed.
  Until \<open>state.json\<close> says \<open>prepared\<close> the family is exactly the old one; from then on a byte
  copy of all of it is in \<open>raw-old\<close> and its consolidation is recorded. A run that returns has
  installed a file with the expected digest, without sidecars.
\<close>

theorem activation_crash_safe:
  assumes "tidy op v" "live_ok v" "activate h candidate op sha schema project True v = (r, v')"
  shows "live_ok v' \<and> (v' = v \<or> act_state h op candidate v v') \<and>
    (\<forall>st. r = Inr (Some st) \<longrightarrow> states v' op = Some st \<and> rs_phase st = Activated \<and> sha_of h v' DB = sha \<and>
       node_at v' WAL = None \<and> node_at v' SHM = None)"
proof -
  note run = wpD [OF wp_activate [OF assms(1)] assms(3)]
  have live: "live_ok v'" using run assms(2) act_state_live by (fastforce split: sum.splits option.splits)
  have "states v' op = Some st \<and> rs_phase st = Activated \<and> sha_of h v' DB = sha \<and> node_at v' WAL = None \<and> node_at v' SHM = None"
    if "r = Inr (Some st)" for st
    using run that by (auto simp: act_state_def swapped_def sha_of_def bytes_def)
  then show ?thesis using run live by (auto split: sum.splits option.splits)
qed

theorem activation_crash_safe_witness:
  "(\<exists>st v'. sample_activate [] = (Inr (Some st), v') \<and> sha_of sample_host v' DB = ''new'' \<and> node_at v' WAL = None) \<and>
   fst (sample_activate (replicate 16 Done @ [Dies None])) = Inl Died \<and> live_ok sample_half \<and>
   act_state sample_host ''op-1'' sample_candidate (sample_volume (replicate 16 Done @ [Dies None])) sample_half"
proof -
  have whole: "is_ok (sample_activate []) \<and> fst (sample_activate []) \<noteq> Inr None" by code_simp
  then obtain st v' where run: "sample_activate [] = (Inr (Some st), v')"
    by (cases "sample_activate []"; cases "fst (sample_activate [])") (auto simp: is_ok_def)
  have half: "fst (sample_activate (replicate 16 Done @ [Dies None])) = Inl Died \<and> states sample_half ''op-1'' \<noteq> None" by code_simp
  then have "sample_half \<noteq> sample_volume fs" for fs by (metis sample_fresh(1) fresh_def)
  then show ?thesis
    using half run activation_crash_safe [OF sample_tidy sample_fresh(2) run [unfolded sample_activate_def]]
      activation_crash_safe [OF sample_tidy sample_fresh(2) prod.collapse [symmetric],
        of sample_host sample_candidate "''new''" 7 "''p1''" "replicate 16 Done @ [Dies None]"]
    unfolding sample_half_def sample_activate_def by blast
qed

text \<open>
  C22. After an activation from a fresh operation, whatever the helper did since, wherever it
  died, and whatever the service wrote while no swap was half done: the database file is there,
  and as long as the old state may be needed its byte copy and its consolidation are intact,
  with the recorded digests; in the middle of a rollback the state before it is archived too.
\<close>

theorem restore_stays_recoverable:
  assumes "fresh op v0" "live_ok v0" "after_activation h op v0 v"
  shows "live_ok v \<and> (\<forall>st. states v op = Some st \<longrightarrow> rs_phase st \<in> {Prepared, Activated, RollingBack, RolledBack} \<longrightarrow>
    archive_ok h op v0 v st \<and> (rs_phase st = RollingBack \<longrightarrow> (\<exists>vb. forwarded h op vb v st)))"
  using reachable_recoverable [OF assms(3,1,2)] by (simp add: recoverable_def)

theorem restore_stays_recoverable_witness:
  "\<exists>st. states sample_half ''op-1'' = Some st \<and> rs_phase st = Prepared \<and> node_at sample_half WAL = None \<and>
     archive_ok sample_host ''op-1'' (sample_volume (replicate 16 Done @ [Dies None])) sample_half st"
proof -
  have "map_option rs_phase (states sample_half ''op-1'') = Some Prepared" "node_at sample_half WAL = None" by code_simp+
  then show ?thesis
    using restore_stays_recoverable [OF sample_fresh sample_after, of "replicate 16 Done @ [Dies None]"]
    by (auto simp: sample_half_def)
qed

text \<open>
  C23. From every such state in which the old database was readable and an operator may roll
  back, a rollback that is not killed restores it: also after an activation that was killed
  half way and any number of rollbacks that were. The database file becomes the consolidation
  of the family as it was before the activation, without sidecars; the only error left is the
  refusal to call a database writable that is not.
\<close>

theorem rollback_restores_old:
  assumes "fresh op v0" "live_ok v0" "after_activation h op v0 v" "rollback_ready h op v" "fates v = []"
  shows "\<exists>r v' c. rollback h op True v = (r, v') \<and> h_consolidate h (family_bytes v0) = Inr c \<and>
    node_at v' DB = Some (Regular c) \<and> node_at v' WAL = None \<and> node_at v' SHM = None \<and>
    (\<exists>st. states v' op = Some st \<and> rs_phase st = RolledBack)"
proof -
  obtain r v' where run: "rollback h op True v = (r, v')" by (cases "rollback h op True v")
  have rec: "recoverable h op v0 v" by (rule reachable_recoverable [OF assms(3,1,2)])
  note post = wpD [OF wp_rollback [OF rec] run]
  obtain st old where st: "states v op = Some st" "rs_old_state st = Some old" "os_rollback_available old" "rs_phase st \<in> {Prepared, Activated, RollingBack}"
    using assms(4) by (auto simp: rollback_ready_def)
  then obtain c where c: "h_consolidate h (family_bytes v0) = Inr c"
    using rec by (auto simp: recoverable_def archive_ok_def assessed_def unreadable_def split: sum.splits)
  have "r \<noteq> Inl Died" using aliveD [OF alive_rollback assms(5) run] by simp
  then obtain s where "finished h op v0 s v'"
    using post assms(4) st by (auto simp: rollback_result_def rollback_failure_def split: sum.splits option.splits)
  moreover then have "node_at v' (old_consistent op) = Some (Regular c)"
    using c by (auto simp: finished_def recoverable_def archive_ok_def assessed_def)
  ultimately show ?thesis using run c by (auto simp: finished_def restored_def)
qed

theorem rollback_restores_old_witness:
  "\<exists>r v'. rollback sample_host ''op-1'' True sample_half = (r, v') \<and>
     node_at v' DB = Some (Regular ''old+wal'') \<and> node_at v' WAL = None \<and> node_at v' SHM = None"
proof -
  let ?fs = "replicate 16 Done @ [Dies None]"
  have "\<not> h_root sample_host \<and> valid_operation_id ''op-1'' \<and> dirs sample_half RecoveryRoot \<noteq> Some True \<and>
    begin_ready sample_host ''op-1'' sample_half" by code_simp
  moreover have "case states sample_half ''op-1'' of None \<Rightarrow> False
    | Some st \<Rightarrow> rs_phase st = Prepared \<and> (case rs_old_state st of None \<Rightarrow> False | Some old \<Rightarrow> os_rollback_available old)" by code_simp
  ultimately have "rollback_ready sample_host ''op-1'' sample_half"
    by (auto simp: rollback_ready_def split: option.splits)
  moreover have "fates sample_half = []" by code_simp
  moreover have "h_consolidate sample_host (family_bytes (sample_volume ?fs)) = Inr ''old+wal''" by code_simp
  ultimately show ?thesis
    using rollback_restores_old [OF sample_fresh sample_after, of ?fs] unfolding sample_half_def by fastforce
qed

end
