(* ===== verification/OC_Restore_Main.thy ===== *)
theory OC_Restore_Main
  imports OC_Restore_Theorems
begin

text \<open>
  The command line of the offline restore helper (\<open>main\<close> and \<open>_require_helper\<close> in
  \<open>scripts/offline_restore.py\<close>): which command runs under which conditions, and what a command
  without \<open>--apply\<close> may change. The database of the model is \<open>/data/openchronicle.db\<close>; an absent
  option is \<open>None\<close>; a source comes with the path its symbolic links lead to.
\<close>

section \<open>Commands\<close>

datatype action = StageAction | ActivateAction | RollbackAction | ProbeAction | RetireStageAction | StatusAction

record arguments =
  ar_action :: action
  ar_db :: string
  ar_operation_id :: "string option"
  ar_source :: "(path \<times> path) option"
  ar_candidate :: "path option"
  ar_expected_sha256 :: "string option"
  ar_expected_schema :: "int option"
  ar_expected_project_sha256 :: "string option"
  ar_apply :: bool

datatype command_result =
    Staging "path option" | Activation "restore_state option" | Rollback "restore_state option"
  | Probing restore_state | Retirement bool | Status restore_state

text \<open>\<open>OC_OFFLINE_RESTORE\<close>, and whether the helper is process 1 (or not on Linux).\<close>

definition require_helper :: "host \<Rightarrow> string option \<Rightarrow> bool \<Rightarrow> unit helper" where
  "require_helper h env pid1 =
     bind_h (ensure (\<lambda>_. env = Some ''1'') ''Set OC_OFFLINE_RESTORE=1 only in the stopped-volume helper container'') (\<lambda>_.
     bind_h (ensure (\<lambda>_. pid1) ''Run as PID 1 of a disposable helper, not docker exec in the live service'') (\<lambda>_.
     refuse_root h))"

definition given :: "string option \<Rightarrow> bool" where
  "given x = (x \<noteq> None \<and> x \<noteq> Some [])"

definition stage_command :: "host \<Rightarrow> string \<Rightarrow> arguments \<Rightarrow> command_result helper" where
  "stage_command h token args =
     (case ar_source args of
        Some (source, resolved) \<Rightarrow>
          if given (ar_expected_sha256 args)
          then bind_h (stage h source resolved (the (ar_expected_sha256 args)) token (ar_apply args)) (\<lambda>r. ret (Staging r))
          else fail (Refused ''Staging requires --source and --expected-sha256 from an independent record'')
      | None \<Rightarrow> fail (Refused ''Staging requires --source and --expected-sha256 from an independent record''))"

definition activate_command :: "host \<Rightarrow> string \<Rightarrow> arguments \<Rightarrow> command_result helper" where
  "activate_command h op args =
     (case (ar_candidate args, ar_expected_schema args) of
        (Some candidate, Some schema) \<Rightarrow>
          if given (ar_expected_sha256 args) \<and> schema \<noteq> 0 \<and> given (ar_expected_project_sha256 args)
          then bind_h (activate h candidate op (the (ar_expected_sha256 args)) schema
                 (the (ar_expected_project_sha256 args)) (ar_apply args)) (\<lambda>r. ret (Activation r))
          else fail (Refused ''Activation requires candidate, digest, schema and project identity'')
      | _ \<Rightarrow> fail (Refused ''Activation requires candidate, digest, schema and project identity''))"

definition operation_command :: "host \<Rightarrow> string \<Rightarrow> arguments \<Rightarrow> command_result helper" where
  "operation_command h op args =
     (case ar_action args of
        ActivateAction \<Rightarrow> activate_command h op args
      | RollbackAction \<Rightarrow> bind_h (rollback h op (ar_apply args)) (\<lambda>r. ret (Rollback r))
      | ProbeAction \<Rightarrow>
          if ar_apply args then fail (Refused ''Probe takes no --apply: it changes nothing but its recorded result'')
          else bind_h (probe h op) (\<lambda>r. ret (Probing r))
      | RetireStageAction \<Rightarrow> bind_h (retire_stage h op (ar_apply args)) (\<lambda>r. ret (Retirement r))
      | _ \<Rightarrow>
          if ar_apply args then fail (Refused ''Status is read-only'')
          else bind_h (recovery_dir op) (\<lambda>_. bind_h (load_recovery op) (\<lambda>r. ret (Status r))))"

definition main_command :: "host \<Rightarrow> string option \<Rightarrow> bool \<Rightarrow> string \<Rightarrow> arguments \<Rightarrow> command_result helper" where
  "main_command h env pid1 token args =
     bind_h (require_helper h env pid1) (\<lambda>_.
     bind_h (ensure (\<lambda>_. ar_db args = ''/data/openchronicle.db'') ''Helper commands require --db /data/openchronicle.db'') (\<lambda>_.
     if ar_action args = StageAction then stage_command h token args
     else if \<not> given (ar_operation_id args) then fail (Refused ''requires --operation-id'')
     else operation_command h (the (ar_operation_id args)) args))"

text \<open>The exit code, and whether the error text says that the service must stay down.\<close>

definition main_exit :: "arguments \<Rightarrow> restore_failure + command_result \<Rightarrow> (int \<times> bool) option" where
  "main_exit args r =
     (case r of
        Inr _ \<Rightarrow> Some (0, False)
      | Inl Died \<Rightarrow> None
      | Inl _ \<Rightarrow> Some (1, ar_action args \<noteq> StageAction))"

section \<open>Commands that only look\<close>

lemma reads_if [simp]: "reads m \<Longrightarrow> reads k \<Longrightarrow> reads (if b then m else k)"
  by simp

lemma reads_dry [simp]:
  "reads (activate h c op sha schema project False)" "reads (rollback h op False)" "reads (retire_stage h op False)"
  "reads (stage h source resolved sha token False)"
  by (simp_all add: activate_def rollback_def rollback_to_def retire_stage_def stage_def reads_bind reads_check_staged split: option.split)

lemma reads_main:
  assumes "\<not> ar_apply args" "ar_action args \<noteq> ProbeAction"
  shows "reads (main_command h env pid1 token args)"
proof -
  have "reads (stage_command h token args)" "reads (activate_command h op args)" for op
    using assms(1) by (auto simp: stage_command_def activate_command_def intro!: reads_bind split: option.split)
  then have "reads (operation_command h op args)" for op
    using assms by (cases "ar_action args") (simp_all add: operation_command_def reads_bind)
  then show ?thesis using \<open>reads (stage_command h token args)\<close>
    by (simp add: main_command_def require_helper_def reads_bind)
qed

section \<open>What staging touches\<close>

definition only_stage :: "volume \<Rightarrow> volume \<Rightarrow> bool" where
  "only_stage v v' \<longleftrightarrow> states v' = states v \<and> (\<forall>p. fst p \<noteq> Stage \<longrightarrow> node_at v' p = node_at v p) \<and> (\<forall>d. d \<noteq> Stage \<longrightarrow> dirs v' d = dirs v d)"

definition stages :: "'a helper \<Rightarrow> bool" where
  "stages m \<longleftrightarrow> (\<forall>v. only_stage v (snd (m v)))"

lemma only_stage_refl [simp]: "only_stage v v"
  by (simp add: only_stage_def)

lemma only_stage_trans: "only_stage u v \<Longrightarrow> only_stage v w \<Longrightarrow> only_stage u w"
  by (simp add: only_stage_def)

lemma reads_stages [simp]: "reads m \<Longrightarrow> stages m"
  by (simp add: reads_def stages_def)

lemma stages_bind: "stages m \<Longrightarrow> (\<And>x. stages (k x)) \<Longrightarrow> stages (bind_h m k)"
  unfolding stages_def bind_h_def
  by (auto split: prod.split sum.split) (metis only_stage_trans snd_conv)+

lemma stages_if [simp]: "stages m \<Longrightarrow> stages k \<Longrightarrow> stages (if b then m else k)"
  by simp

lemma stages_now: "stages m \<Longrightarrow> stages k \<Longrightarrow> stages (\<lambda>v. if b v then m v else k v)"
  by (simp add: stages_def)

lemma only_stage_fates [simp]: "only_stage v (w\<lparr>fates := r\<rparr>) = only_stage v w" "only_stage (v\<lparr>fates := r\<rparr>) w = only_stage v w"
  by (simp_all add: only_stage_def restore_simps)

lemma stages_change: "(\<And>v. only_stage v (f v)) \<Longrightarrow> stages (change f)"
proof -
  assume "\<And>v. only_stage v (f v)"
  then have "only_stage v (f (v\<lparr>fates := r\<rparr>))" for v r using only_stage_fates(2) by metis
  then show ?thesis using \<open>\<And>v. only_stage v (f v)\<close> by (auto simp: stages_def change_def split: list.split fate.split)
qed

lemma stages_steps:
  "stages (make_dir Stage)" "fst p = Stage \<Longrightarrow> stages (unlink p)" "fst p = Stage \<Longrightarrow> stages (write_new p c)"
  "fst p = Stage \<Longrightarrow> fst q = Stage \<Longrightarrow> stages (replace_file p q)"
proof -
  show "stages (make_dir Stage)"
    unfolding make_dir_def by (rule stages_now) (simp add: stages_def, intro stages_change, simp add: only_stage_def restore_simps)
  show "stages (unlink p)" if "fst p = Stage"
    using that unfolding unlink_def by (intro stages_change) (auto simp: only_stage_def restore_simps)
  show "stages (write_new p c)" if "fst p = Stage"
  proof -
    have "stages (change (put p (Regular c)))" using that by (intro stages_change) (auto simp: only_stage_def restore_simps)
    then show ?thesis using that by (auto simp: stages_def write_new_def only_stage_def restore_simps split: list.split fate.split option.split)
  qed
  show "stages (replace_file p q)" if "fst p = Stage" "fst q = Stage"
  proof -
    have "stages (change (\<lambda>v. put q n (del p v)))" for n using that by (intro stages_change) (auto simp: only_stage_def restore_simps)
    then show ?thesis by (auto simp: stages_def replace_file_def split: option.split)
  qed
qed

lemma stages_copy: "fst q = Stage \<Longrightarrow> stages (copy_durable p q)"
  unfolding copy_durable_def by (rule stages_bind) (simp, use stages_steps(3) in \<open>auto simp: stages_def\<close>)

lemma stages_stage: "stages (stage h source resolved sha token ap)"
  unfolding stage_def Let_def by (intro stages_bind stages_if stages_now) (simp_all add: stages_steps stages_copy stages_bind stages_def [of "\<lambda>v. (_, v)"])

lemma wp_pure: "Q x v \<Longrightarrow> wpe (\<lambda>v. (Inr x, v)) Q E v"
  by (simp add: wpe_def)

lemma inspect_regular: "inspect h p v = (Inr info, v') \<Longrightarrow> is_regular v p"
  by (auto simp: inspect_def regular_def dest!: bind_Inr_D ensure_Inr_D)

lemma wp_stage:
  "wp (stage h source resolved sha token ap)
     (\<lambda>r v'. \<forall>p. r = Some p \<longrightarrow> p = (Stage, ''candidate-'' @ token @ ''.db'') \<and> sha_of h v' p = sha \<and> is_regular v' p) (\<lambda>_. True) v"
  unfolding stage_def Let_def
  by (intro wp_bind wp_ensure wp_reads [OF reads_inspect] wp_if wp_ret wp_fail wp_ask wp_make_dir wp_copy wp_if_now wp_pure wp_replace wp_unlink)
     (auto dest: inspect_sha inspect_regular)

lemma candidate_name_token: "length token = 24 \<Longrightarrow> list_all lower_hex token \<Longrightarrow> candidate_name (''candidate-'' @ token @ ''.db'')"
  by (simp add: candidate_name_def)

section \<open>Staging on a small volume\<close>

definition sample_snapshot :: path where
  "sample_snapshot = (Elsewhere ''backups'', ''snapshot.db'')"

definition sample_args :: arguments where
  "sample_args =
     \<lparr>ar_action = StageAction, ar_db = ''/data/openchronicle.db'', ar_operation_id = None, ar_source = Some (sample_snapshot, sample_snapshot),
      ar_candidate = None, ar_expected_sha256 = Some (replicate 64 CHR ''a''), ar_expected_schema = None,
      ar_expected_project_sha256 = None, ar_apply = True\<rparr>"

definition sample_stage :: "fate list \<Rightarrow> (restore_failure, command_result, volume) outcome" where
  "sample_stage fs = main_command sample_host (Some ''1'') True ''0123456789abcdef01234567'' sample_args
     \<lparr>files = [(DB, Regular ''old''), (sample_snapshot, Regular (replicate 64 CHR ''a''))], dirs = [Data \<mapsto> False], states = Map.empty, fates = fs\<rparr>"

section \<open>Theorems\<close>

text \<open>
  What the helper may touch. Without \<open>--apply\<close> no command but \<open>probe\<close> changes anything, and
  no command does outside a helper container, as root or for another database. Staging, also
  when it is killed in the middle of its copy, changes nothing outside the stage directory; when
  it returns, the staged file has the digest that was asked for and a name that activation
  accepts.
\<close>

lemma restore_commands_confined:
  assumes "main_command h env pid1 token args v = (r, v')"
  shows "(\<not> ar_apply args \<and> ar_action args \<noteq> ProbeAction \<longrightarrow> v' = v) \<and>
    (env \<noteq> Some ''1'' \<or> \<not> pid1 \<or> h_root h \<or> ar_db args \<noteq> ''/data/openchronicle.db'' \<longrightarrow> v' = v \<and> main_exit args r = Some (1, ar_action args \<noteq> StageAction)) \<and>
    (ar_action args = StageAction \<longrightarrow> only_stage v v' \<and>
      (\<forall>p. r = Inr (Staging (Some p)) \<longrightarrow> ar_expected_sha256 args = Some (sha_of h v' p) \<and> is_regular v' p \<and>
         (length token = 24 \<and> list_all lower_hex token \<longrightarrow> fst p = Stage \<and> candidate_name (snd p))))"
proof (intro conjI impI)
  show "v' = v" if "\<not> ar_apply args \<and> ar_action args \<noteq> ProbeAction"
    using reads_main [of args h env pid1 token] that assms by (auto simp: reads_def) (metis snd_conv)
  show "v' = v" "main_exit args r = Some (1, ar_action args \<noteq> StageAction)"
    if "env \<noteq> Some ''1'' \<or> \<not> pid1 \<or> h_root h \<or> ar_db args \<noteq> ''/data/openchronicle.db''"
    using assms that
    by (auto simp: main_command_def require_helper_def refuse_root_def bind_h_def ensure_def main_exit_def split: if_splits)
next
  assume a: "ar_action args = StageAction"
  have run: "stage_command h token args v = (r, v') \<or> v' = v \<and> \<not> is_ok (r, v')"
    using assms a by (auto simp: main_command_def require_helper_def refuse_root_def bind_h_def ensure_def is_ok_def split: if_splits)
  have "stages (stage_command h token args)" unfolding stage_command_def
    by (auto intro!: stages_bind stages_stage split: option.split)
  then show "only_stage v v'" using run by (auto simp: stages_def) (metis snd_conv)
  show "\<forall>p. r = Inr (Staging (Some p)) \<longrightarrow> ar_expected_sha256 args = Some (sha_of h v' p) \<and> is_regular v' p \<and>
      (length token = 24 \<and> list_all lower_hex token \<longrightarrow> fst p = Stage \<and> candidate_name (snd p))"
  proof (intro allI impI)
    fix p assume r: "r = Inr (Staging (Some p))"
    then have "stage_command h token args v = (Inr (Staging (Some p)), v')" using run by (auto simp: is_ok_def)
    then obtain source resolved sha where sha: "ar_expected_sha256 args = Some sha"
      "stage h source resolved sha token (ar_apply args) v = (Inr (Some p), v')"
      by (auto simp: stage_command_def given_def ret_def fail_def dest!: bind_Inr_D split: option.splits prod.splits if_splits)
    show "ar_expected_sha256 args = Some (sha_of h v' p) \<and> is_regular v' p \<and>
      (length token = 24 \<and> list_all lower_hex token \<longrightarrow> fst p = Stage \<and> candidate_name (snd p))"
      using wpD [OF wp_stage sha(2)] sha(1) candidate_name_token by auto
  qed
qed

lemma restore_commands_confined_witness:
  "(\<exists>p v'. sample_stage [] = (Inr (Staging (Some p)), v') \<and> sha_of sample_host v' p = replicate 64 CHR ''a'' \<and> candidate_name (snd p)) \<and>
   fst (sample_stage [Done, Dies (Some ''aa'')]) = Inl Died \<and> node_at (snd (sample_stage [Done, Dies (Some ''aa'')])) DB = Some (Regular ''old'')"
proof -
  have "case fst (sample_stage []) of Inr (Staging (Some p)) \<Rightarrow> True | _ \<Rightarrow> False" by code_simp
  then obtain p v' where run: "sample_stage [] = (Inr (Staging (Some p)), v')"
    by (cases "sample_stage []") (auto split: sum.splits command_result.splits option.splits)
  have token: "length ''0123456789abcdef01234567'' = 24 \<and> list_all lower_hex ''0123456789abcdef01234567''" by code_simp
  have "fst (sample_stage [Done, Dies (Some ''aa'')]) = Inl Died" by code_simp
  then obtain w where killed: "sample_stage [Done, Dies (Some ''aa'')] = (Inl Died, w)" by (cases "sample_stage [Done, Dies (Some ''aa'')]") simp
  have "ar_action sample_args = StageAction" "ar_expected_sha256 sample_args = Some (replicate 64 CHR ''a'')" by (simp_all add: sample_args_def)
  then show ?thesis
    using run killed token restore_commands_confined [OF run [unfolded sample_stage_def]] restore_commands_confined [OF killed [unfolded sample_stage_def]]
    by (simp add: only_stage_def) (simp add: node_at_def DB_def)
qed

end
