(* ===== verification/OC_Backup.thy ===== *)
theory OC_Backup
  imports OC_Portability OC_Restore
begin

text \<open>
  Backups (\<open>infrastructure/persistence/backup.py\<close> and \<open>backup_catalog.py\<close>): online snapshots,
  their manifests, verification, and the staging of a restore candidate.

  The backup root has two directories of files, in the order of their listing; a file is a
  database, a JSON text or something else. An operation returns or raises, and passes a list of
  roots, one after each of its changes: a process that is killed leaves one of these. The copy
  that SQLite makes, its checks, SHA-256, the clock and the free space are the parameter
  \<open>backup_env\<close>.
\<close>

section \<open>The backup root\<close>

datatype backup_kind = AutoKind | ManualKind

fun kind_text :: "backup_kind \<Rightarrow> string" where
  "kind_text AutoKind = ''auto''"
| "kind_text ManualKind = ''manual''"

type_synonym file_key = "backup_kind \<times> string"

datatype backup_node = Snapshot string | Json json | Garbage | Link bool

datatype dir_status = NoDir | RealDir | LinkDir

record backup_root =
  br_files :: "(file_key \<times> backup_node \<times> int) list"
  br_dir :: "backup_kind \<Rightarrow> dir_status"
  br_stage :: "(string \<times> string) list"
  br_stage_dir :: dir_status

text \<open>
  \<open>be_copy\<close>: the file that the backup API and the switch of the journal mode leave, or an error;
  \<open>be_torn\<close>: the bytes written when the process dies before that. \<open>be_acquired\<close>: whether the
  operation lock was obtained. \<open>be_root_ok\<close>: whether the configured root is an absolute path of
  a directory. \<open>be_write_fails\<close>: whether writing the manifest or the staged copy raises.
\<close>

record backup_env =
  be_acquired :: bool
  be_require_existing_root :: bool
  be_root_ok :: bool
  be_db_size :: int
  be_free :: int
  be_stamp :: string
  be_token :: string
  be_created_at :: string
  be_mtime :: int
  be_copy :: "string + string"
  be_torn :: string
  be_quick_check :: "string \<Rightarrow> string"
  be_report :: "string \<Rightarrow> db_report"
  be_sha256 :: "string \<Rightarrow> string"
  be_write_fails :: bool

type_synonym 'a steps = "backup_root \<Rightarrow> (string + 'a) \<times> backup_root \<times> backup_root list"

definition ret_s :: "'a \<Rightarrow> 'a steps" where
  "ret_s x r = (Inr x, r, [])"

definition raise_s :: "string \<Rightarrow> 'a steps" where
  "raise_s e r = (Inl e, r, [])"

definition read_s :: "(backup_root \<Rightarrow> 'a) \<Rightarrow> 'a steps" where
  "read_s f r = (Inr (f r), r, [])"

definition guard_s :: "(backup_root \<Rightarrow> bool) \<Rightarrow> string \<Rightarrow> unit steps" where
  "guard_s P e r = (if P r then Inr () else Inl e, r, [])"

definition step_s :: "(backup_root \<Rightarrow> backup_root) \<Rightarrow> unit steps" where
  "step_s f r = (Inr (), f r, [f r])"

definition bind_s :: "'a steps \<Rightarrow> ('a \<Rightarrow> 'b steps) \<Rightarrow> 'b steps" where
  "bind_s m k r =
     (case m r of
        (Inl e, r', t) \<Rightarrow> (Inl e, r', t)
      | (Inr x, r', t) \<Rightarrow> (case k x r' of (y, r'', t') \<Rightarrow> (y, r'', t @ t')))"

text \<open>An \<open>except\<close> clause that cleans up and raises again.\<close>

definition on_raise :: "'a steps \<Rightarrow> unit steps \<Rightarrow> 'a steps" where
  "on_raise m c r =
     (case m r of
        (Inl e, r', t) \<Rightarrow> (case c r' of (_, r'', t') \<Rightarrow> (Inl e, r'', t @ t'))
      | (Inr x, r', t) \<Rightarrow> (Inr x, r', t))"

definition node_of :: "backup_root \<Rightarrow> file_key \<Rightarrow> backup_node option" where
  "node_of r k = map_option fst (map_of (br_files r) k)"

definition mtime_of :: "backup_root \<Rightarrow> file_key \<Rightarrow> int" where
  "mtime_of r k = (case map_of (br_files r) k of None \<Rightarrow> 0 | Some (_, t) \<Rightarrow> t)"

definition drop_file :: "file_key \<Rightarrow> backup_root \<Rightarrow> backup_root" where
  "drop_file k r = r\<lparr>br_files := filter (\<lambda>x. fst x \<noteq> k) (br_files r)\<rparr>"

definition store_file :: "file_key \<Rightarrow> backup_node \<Rightarrow> int \<Rightarrow> backup_root \<Rightarrow> backup_root" where
  "store_file k n t r = r\<lparr>br_files := filter (\<lambda>x. fst x \<noteq> k) (br_files r) @ [(k, n, t)]\<rparr>"

definition rename_file :: "file_key \<Rightarrow> file_key \<Rightarrow> backup_root \<Rightarrow> backup_root" where
  "rename_file k k' r =
     (case map_of (br_files r) k of None \<Rightarrow> r | Some (n, t) \<Rightarrow> store_file k' n t (drop_file k r))"

fun is_file_node :: "backup_node option \<Rightarrow> bool" where
  "is_file_node None = False"
| "is_file_node (Some (Link b)) = b"
| "is_file_node (Some _) = True"

fun plain_file :: "backup_node option \<Rightarrow> bool" where
  "plain_file None = False"
| "plain_file (Some (Link _)) = False"
| "plain_file (Some _) = True"

section \<open>Artifact identifiers\<close>

definition artifact_name :: "string \<Rightarrow> bool" where
  "artifact_name s =
     (length s = 35 \<and> list_all is_digit (take 8 s) \<and> s ! 8 = CHR ''T'' \<and> list_all is_digit (take 12 (drop 9 s)) \<and>
      s ! 21 = CHR ''Z'' \<and> s ! 22 = CHR ''-'' \<and> list_all lower_hex (drop 23 s))"

definition split_id :: "string \<Rightarrow> (backup_kind \<times> string) option" where
  "split_id s =
     (if take 5 s = ''auto:'' \<and> artifact_name (drop 5 s) then Some (AutoKind, drop 5 s)
      else if take 7 s = ''manual:'' \<and> artifact_name (drop 7 s) then Some (ManualKind, drop 7 s)
      else None)"

definition artifact_id :: "backup_kind \<Rightarrow> string \<Rightarrow> string" where
  "artifact_id kind name = kind_text kind @ '':'' @ name"

definition db_key :: "backup_kind \<Rightarrow> string \<Rightarrow> file_key" where
  "db_key kind name = (kind, ''openchronicle-'' @ name @ ''.db'')"

definition manifest_key :: "backup_kind \<Rightarrow> string \<Rightarrow> file_key" where
  "manifest_key kind name = (kind, ''openchronicle-'' @ name @ ''.json'')"

definition beside :: "file_key \<Rightarrow> string \<Rightarrow> file_key" where
  "beside k s = (fst k, snd k @ s)"

section \<open>Inspection\<close>

definition inspect_bytes :: "backup_env \<Rightarrow> string \<Rightarrow> string + (string \<times> json) list" where
  "inspect_bytes e c =
     (let rep = be_report e c
      in if rp_integrity rep \<noteq> ''ok'' then Inl ''Backup artifact failed SQLite integrity_check''
         else if rp_foreign_keys rep \<noteq> ''ok'' then Inl ''Backup artifact failed SQLite foreign_key_check''
         else (case rp_identity rep of
                 None \<Rightarrow> Inl ''Backup artifact is not a valid OpenChronicle database''
               | Some (schema, ids, memories, embeddings) \<Rightarrow>
                   Inr [(''schema_version'', JInt schema), (''project_count'', JInt (int (length ids))),
                        (''project_identity_sha256'', JStr (be_sha256 e (py_join [CHR 0x0A] ids))),
                        (''memory_count'', JInt (int memories)), (''embedding_count'', JInt (int embeddings)),
                        (''size_bytes'', JInt (int (length c))), (''sha256'', JStr (be_sha256 e c))]))"

definition inspect_backup :: "backup_env \<Rightarrow> file_key \<Rightarrow> backup_root \<Rightarrow> string + (string \<times> json) list" where
  "inspect_backup e k r =
     (if \<not> plain_file (node_of r k) then Inl ''Backup artifact is not a regular file''
      else if node_of r (beside k ''-wal'') \<notin> {None, Some (Link False)} \<or> node_of r (beside k ''-shm'') \<notin> {None, Some (Link False)}
      then Inl ''Backup artifact must be a standalone SQLite file''
      else (case node_of r k of
              Some (Snapshot c) \<Rightarrow> inspect_bytes e c
            | _ \<Rightarrow> Inl ''Backup artifact is not a valid OpenChronicle database''))"

section \<open>Creation\<close>

definition make_kind_dir :: "backup_kind \<Rightarrow> unit steps" where
  "make_kind_dir kind r = (if br_dir r kind = NoDir then step_s (\<lambda>r. r\<lparr>br_dir := (br_dir r)(kind := RealDir)\<rparr>) r else ret_s () r)"

definition drop_if_there :: "file_key \<Rightarrow> unit steps" where
  "drop_if_there k r = (if node_of r k \<notin> {None, Some (Link False)} then step_s (drop_file k) r else ret_s () r)"

text \<open>The copy goes to a temporary file, is checked there, and replaces the destination.\<close>

definition copy_checked :: "backup_env \<Rightarrow> file_key \<Rightarrow> unit steps" where
  "copy_checked e dest =
     (let tmp = beside dest ''.tmp''
      in bind_s (step_s (store_file tmp (Snapshot (be_torn e)) (be_mtime e))) (\<lambda>_.
         case be_copy e of
           Inl err \<Rightarrow> raise_s err
         | Inr c \<Rightarrow>
             bind_s (step_s (store_file tmp (Snapshot c) (be_mtime e))) (\<lambda>_.
             if be_quick_check e c \<noteq> ''ok''
             then bind_s (step_s (rename_file tmp (beside dest ''.failed-quick-check''))) (\<lambda>_.
                  raise_s ''staged backup failed quick_check'')
             else step_s (rename_file tmp dest))))"

definition backup_from_connection :: "backup_env \<Rightarrow> file_key \<Rightarrow> unit steps" where
  "backup_from_connection e dest =
     bind_s (make_kind_dir (fst dest)) (\<lambda>_.
     bind_s (drop_if_there (beside dest ''.tmp'')) (\<lambda>_.
     on_raise (copy_checked e dest) (drop_if_there (beside dest ''.tmp''))))"

definition publish_manifest :: "backup_env \<Rightarrow> file_key \<Rightarrow> (string \<times> json) list \<Rightarrow> unit steps" where
  "publish_manifest e path payload =
     (let temp = beside path ''.tmp''
      in on_raise
           (bind_s (guard_s (\<lambda>r. node_of r temp = None) ''File exists'') (\<lambda>_.
            bind_s (step_s (store_file temp Garbage (be_mtime e))) (\<lambda>_.
            bind_s (guard_s (\<lambda>_. \<not> be_write_fails e) ''write failed'') (\<lambda>_.
            bind_s (step_s (store_file temp (Json (JObj payload)) (be_mtime e))) (\<lambda>_.
            step_s (rename_file temp path))))))
           (step_s (drop_file temp)))"

definition MIN_FREE_MARGIN :: int where
  "MIN_FREE_MARGIN = 1024 * 1024"

definition publish_checked :: "backup_env \<Rightarrow> backup_kind \<Rightarrow> string \<Rightarrow> (string \<times> json) list steps" where
  "publish_checked e kind name =
     (let db = db_key kind name
      in bind_s (read_s (inspect_backup e db)) (\<lambda>inspected.
         case inspected of
           Inl err \<Rightarrow>
             bind_s (step_s (rename_file db (beside db ''.failed-verify''))) (\<lambda>_.
             raise_s (err @ ''; snapshot preserved as '' @ snd db @ ''.failed-verify''))
         | Inr found \<Rightarrow>
             let metadata = (''artifact_id'', JStr (artifact_id kind name)) # (''created_at'', JStr (be_created_at e)) # found
             in bind_s (on_raise (publish_manifest e (manifest_key kind name) metadata) (step_s (drop_file db))) (\<lambda>_.
                ret_s metadata)))"

definition create_backup :: "backup_env \<Rightarrow> backup_kind \<Rightarrow> (string \<times> json) list steps" where
  "create_backup e kind =
     bind_s (guard_s (\<lambda>_. be_acquired e) ''Another backup operation is already running'') (\<lambda>_.
     bind_s (guard_s (\<lambda>_. be_require_existing_root e \<longrightarrow> be_root_ok e) ''Configured backup directory is missing or not a directory'') (\<lambda>_.
     bind_s (make_kind_dir kind) (\<lambda>_.
     bind_s (guard_s (\<lambda>r. br_dir r kind \<noteq> LinkDir) ''Backup directory must not be a symlink'') (\<lambda>_.
     bind_s (guard_s (\<lambda>_. max (be_db_size e) MIN_FREE_MARGIN + MIN_FREE_MARGIN \<le> be_free e) ''Insufficient free space for a backup snapshot'') (\<lambda>_.
     let name = be_stamp e @ ''-'' @ be_token e
     in bind_s (guard_s (\<lambda>_. split_id (artifact_id kind name) \<noteq> None) ''Invalid backup artifact ID'') (\<lambda>_.
        bind_s (backup_from_connection e (db_key kind name)) (\<lambda>_.
        publish_checked e kind name)))))))"

section \<open>Listing and verification\<close>

definition load_manifest :: "string \<Rightarrow> backup_root \<Rightarrow> string + (string \<times> json) list" where
  "load_manifest aid r =
     (case split_id aid of
        None \<Rightarrow> Inl ''Invalid backup artifact ID''
      | Some (kind, name) \<Rightarrow>
          if \<not> plain_file (node_of r (db_key kind name)) \<or> \<not> plain_file (node_of r (manifest_key kind name))
          then Inl ''Completed backup artifact not found''
          else (case node_of r (manifest_key kind name) of
                  Some (Json (JObj data)) \<Rightarrow>
                    if json_get data ''artifact_id'' = JStr aid then Inr data else Inl ''Backup manifest ID mismatch''
                | Some (Json _) \<Rightarrow> Inl ''Backup manifest ID mismatch''
                | _ \<Rightarrow> Inl ''Backup manifest is unreadable''))"

text \<open>\<open>repr\<close>: \<open>str()\<close> of a JSON value that is no string.\<close>

definition created_key :: "(json \<Rightarrow> string) \<Rightarrow> (string \<times> json) list \<Rightarrow> string" where
  "created_key repr data = (case map_of data ''created_at'' of None \<Rightarrow> [] | Some (JStr s) \<Rightarrow> s | Some j \<Rightarrow> repr j)"

definition manifest_name_of :: "string \<Rightarrow> string option" where
  "manifest_name_of f =
     (if take 14 f = ''openchronicle-'' \<and> suffix ''.json'' f \<and> 19 \<le> length f then Some (drop 14 (take (length f - 5) f)) else None)"

definition kind_manifests :: "backup_kind \<Rightarrow> backup_root \<Rightarrow> (string \<times> json) list list" where
  "kind_manifests kind r =
     (if br_dir r kind \<noteq> RealDir then []
      else List.map_filter (\<lambda>((k, f), _). if k = kind then
             (case manifest_name_of f of
                None \<Rightarrow> None
              | Some name \<Rightarrow> (case load_manifest (artifact_id kind name) r of Inl _ \<Rightarrow> None | Inr data \<Rightarrow> Some data))
             else None) (br_files r))"

definition list_backups :: "(json \<Rightarrow> string) \<Rightarrow> int \<Rightarrow> backup_root \<Rightarrow> string + (string \<times> json) list list" where
  "list_backups repr limit r =
     (if limit < 1 \<or> 500 < limit then Inl ''limit must be between 1 and 500''
      else Inr (take (nat limit) (sort_desc (created_key repr) (kind_manifests AutoKind r @ kind_manifests ManualKind r))))"

text \<open>Python's \<open>==\<close> of a manifest member with a counted or digested value.\<close>

fun same_value :: "json \<Rightarrow> json \<Rightarrow> bool" where
  "same_value (JInt m) (JInt n) = (m = n)"
| "same_value (JFloat x) (JInt n) = (x = of_int n)"
| "same_value (JBool b) (JInt n) = ((if b then 1 else 0) = n)"
| "same_value (JStr s) (JStr t) = (s = t)"
| "same_value _ _ = False"

definition agrees :: "(string \<times> json) list \<Rightarrow> (string \<times> json) list \<Rightarrow> bool" where
  "agrees expected actual = list_all (\<lambda>(key, value). same_value (json_get expected key) value) actual"

definition verify_backup :: "backup_env \<Rightarrow> string \<Rightarrow> backup_root \<Rightarrow> string + (string \<times> json) list" where
  "verify_backup e aid r =
     (case load_manifest aid r of
        Inl err \<Rightarrow> Inl err
      | Inr expected \<Rightarrow>
          (case split_id aid of
             None \<Rightarrow> Inl ''Invalid backup artifact ID''
           | Some (kind, name) \<Rightarrow>
               (case inspect_backup e (db_key kind name) r of
                  Inl err \<Rightarrow> Inl err
                | Inr actual \<Rightarrow>
                    if agrees expected actual then Inr (filter (\<lambda>x. fst x \<noteq> ''verified'') expected @ [(''verified'', JBool True)])
                    else Inl ''Backup artifact differs from its manifest'')))"

section \<open>Comparison with the running store\<close>

record identity =
  id_schema_version :: int
  id_project_ids :: "string list"
  id_memory_count :: nat

record comparison =
  cp_stop_reasons :: "string list"
  cp_memory_delta :: int
  cp_projects_only_in_snapshot :: nat
  cp_projects_only_in_current :: nat

definition current_identity :: "int \<Rightarrow> store \<Rightarrow> identity" where
  "current_identity schema s =
     \<lparr>id_schema_version = schema, id_project_ids = sort (map p_id (list_projects None s)), id_memory_count = count_memory None s\<rparr>"

definition artifact_project_ids :: "backup_env \<Rightarrow> string \<Rightarrow> string list" where
  "artifact_project_ids e c = (case rp_identity (be_report e c) of None \<Rightarrow> [] | Some (_, ids, _) \<Rightarrow> dict_fromkeys ids)"

definition json_int :: "json \<Rightarrow> int" where
  "json_int j = (case j of JInt n \<Rightarrow> n | JFloat x \<Rightarrow> (if 0 \<le> x then \<lfloor>x\<rfloor> else \<lceil>x\<rceil>) | JBool b \<Rightarrow> (if b then 1 else 0) | _ \<Rightarrow> 0)"

definition compare_candidate :: "(string \<times> json) list \<Rightarrow> string list \<Rightarrow> identity \<Rightarrow> comparison" where
  "compare_candidate candidate ids current =
     (let cur = dict_fromkeys (id_project_ids current)
      in \<lparr>cp_stop_reasons =
            (if id_schema_version current < json_int (json_get candidate ''schema_version'')
             then [''backup schema is newer than this running version''] else []) @
            (if ids \<noteq> [] \<and> cur \<noteq> [] \<and> set ids \<inter> set cur = {}
             then [''the snapshot shares no project with the running store: likely another instance''] else []),
          cp_memory_delta = json_int (json_get candidate ''memory_count'') - int (id_memory_count current),
          cp_projects_only_in_snapshot = length (filter (\<lambda>x. x \<notin> set cur) ids),
          cp_projects_only_in_current = length (filter (\<lambda>x. x \<notin> set ids) cur)\<rparr>)"

definition snapshot_bytes :: "string \<Rightarrow> backup_root \<Rightarrow> string" where
  "snapshot_bytes aid r =
     (case split_id aid of
        None \<Rightarrow> []
      | Some (kind, name) \<Rightarrow> (case node_of r (db_key kind name) of Some (Snapshot c) \<Rightarrow> c | _ \<Rightarrow> []))"

definition restore_plan :: "backup_env \<Rightarrow> string \<Rightarrow> identity \<Rightarrow> backup_root \<Rightarrow> string + (string \<times> json) list \<times> comparison" where
  "restore_plan e aid current r =
     (case verify_backup e aid r of
        Inl err \<Rightarrow> Inl err
      | Inr candidate \<Rightarrow> Inr (candidate, compare_candidate candidate (artifact_project_ids e (snapshot_bytes aid r)) current))"

section \<open>Staging\<close>

definition stage_put :: "string \<Rightarrow> string \<Rightarrow> backup_root \<Rightarrow> backup_root" where
  "stage_put f c r = r\<lparr>br_stage := filter (\<lambda>x. fst x \<noteq> f) (br_stage r) @ [(f, c)]\<rparr>"

definition stage_drop :: "string \<Rightarrow> backup_root \<Rightarrow> backup_root" where
  "stage_drop f r = r\<lparr>br_stage := filter (\<lambda>x. fst x \<noteq> f) (br_stage r)\<rparr>"

text \<open>\<open>temp\<close> is the name of the temporary file, \<open>be_token\<close> the stage identifier.\<close>

definition copy_to_stage :: "backup_env \<Rightarrow> string \<Rightarrow> (string \<times> json) list \<Rightarrow> string \<Rightarrow> (string \<times> string) steps" where
  "copy_to_stage e temp candidate c =
     (let final = ''candidate-'' @ be_token e @ ''.db''
      in on_raise
           (bind_s (step_s (stage_put temp (be_torn e))) (\<lambda>_.
            bind_s (guard_s (\<lambda>_. \<not> be_write_fails e) ''write failed'') (\<lambda>_.
            bind_s (step_s (stage_put temp c)) (\<lambda>_.
            case inspect_bytes e c of
              Inl err \<Rightarrow> raise_s err
            | Inr actual \<Rightarrow>
                bind_s (guard_s (\<lambda>_. agrees candidate actual) ''Staged candidate differs from verified backup'') (\<lambda>_.
                bind_s (step_s (\<lambda>r. stage_put final c (stage_drop temp r))) (\<lambda>_.
                ret_s (final, be_sha256 e c)))))))
           (step_s (stage_drop temp)))"

definition restore_stage :: "backup_env \<Rightarrow> string \<Rightarrow> string \<Rightarrow> identity \<Rightarrow> (string \<times> string) steps" where
  "restore_stage e temp aid current =
     bind_s (guard_s (\<lambda>_. be_acquired e) ''Another backup operation is already running'') (\<lambda>_.
     bind_s (read_s (restore_plan e aid current)) (\<lambda>plan.
     case plan of
       Inl err \<Rightarrow> raise_s err
     | Inr (candidate, cmp) \<Rightarrow>
         bind_s (guard_s (\<lambda>_. cp_stop_reasons cmp = []) ''Refusing to stage'') (\<lambda>_.
         bind_s (\<lambda>r. if br_stage_dir r = NoDir then step_s (\<lambda>r. r\<lparr>br_stage_dir := RealDir\<rparr>) r else ret_s () r) (\<lambda>_.
         bind_s (guard_s (\<lambda>r. br_stage_dir r \<noteq> LinkDir \<and> \<not> list_ex (\<lambda>x. suffix ''.db'' (fst x)) (br_stage r))
           ''A restore candidate is already staged'') (\<lambda>_.
         bind_s (guard_s (\<lambda>_. json_int (json_get candidate ''size_bytes'') + MIN_FREE_MARGIN \<le> be_free e)
           ''Insufficient free space to stage restore candidate'') (\<lambda>_.
         bind_s (read_s (snapshot_bytes aid)) (\<lambda>c.
         copy_to_stage e temp candidate c)))))))"

end
