(* ===== verification/OC_Backup_Jobs.thy ===== *)
theory OC_Backup_Jobs
  imports OC_Backup OC_Config OC_Embedding_Service
begin

text \<open>
  The maintenance jobs (\<open>infrastructure/maintenance/jobs.py\<close>, \<open>application/config/offsite.py\<close>):
  the backup with its retention, vacuum, the integrity check, the embedding backfill, and the
  offsite copy. A job ends as the loop sees it (\<^typ>\<open>handler_end\<close>). Instants and modification
  times are microseconds; \<open>age\<close>, \<open>rclone\<close> and the parser of read_stamp are parameters. Temporary
  directories of the offsite copy and log lines are left out.
\<close>

section \<open>A window over snapshots\<close>

definition day_of :: "int \<Rightarrow> int" where
  "day_of t = t div 86400000000"

text \<open>The first hit of each day, over a list that starts with the newest; then the newest days.\<close>

fun per_day :: "('a \<Rightarrow> int) \<Rightarrow> (int \<times> 'a) list \<Rightarrow> 'a list \<Rightarrow> (int \<times> 'a) list" where
  "per_day day d [] = d"
| "per_day day d (x # xs) = per_day day (if day x \<in> fst ` set d then d else d @ [(day x, x)]) xs"

definition recent_days :: "('a \<Rightarrow> int) \<Rightarrow> nat \<Rightarrow> 'a list \<Rightarrow> 'a list" where
  "recent_days day n xs =
     (let d = per_day day [] xs in map (\<lambda>x. the (map_of d x)) (take n (sort_desc (\<lambda>x. x) (map fst d))))"

definition window :: "('a \<Rightarrow> int) \<Rightarrow> nat \<Rightarrow> 'a list \<Rightarrow> 'a list" where
  "window day n xs = take n xs @ recent_days day n xs"

section \<open>Retention\<close>

definition BACKUP_RETENTION :: nat where
  "BACKUP_RETENTION = 7"

definition json_beside :: "file_key \<Rightarrow> file_key" where
  "json_beside k = (fst k, take (length (snd k) - 3) (snd k) @ ''.json'')"

definition is_published :: "backup_root \<Rightarrow> file_key \<Rightarrow> bool" where
  "is_published r k = (suffix ''.db'' (snd k) \<and> 3 < length (snd k) \<and> is_file_node (node_of r (json_beside k)))"

definition published_keys :: "backup_kind \<Rightarrow> backup_root \<Rightarrow> file_key list" where
  "published_keys dir r = filter (\<lambda>k. fst k = dir \<and> is_published r k) (map fst (br_files r))"

definition retention_candidates :: "backup_kind \<Rightarrow> backup_root \<Rightarrow> file_key list" where
  "retention_candidates dir r = sort_desc (mtime_of r) (published_keys dir r)"

definition keep_set :: "nat \<Rightarrow> backup_kind \<Rightarrow> backup_root \<Rightarrow> file_key list" where
  "keep_set n dir r = window (\<lambda>k. day_of (mtime_of r k)) n (retention_candidates dir r)"

text \<open>\<open>stuck\<close>: the files whose deletion fails; the manifest goes after its database.\<close>

definition prune_one :: "(file_key \<Rightarrow> bool) \<Rightarrow> file_key \<Rightarrow> unit steps" where
  "prune_one stuck k r =
     (if stuck k then ret_s () r
      else bind_s (step_s (drop_file k)) (\<lambda>_. if stuck (json_beside k) then ret_s () else step_s (drop_file (json_beside k))) r)"

fun prune_all :: "(file_key \<Rightarrow> bool) \<Rightarrow> file_key list \<Rightarrow> unit steps" where
  "prune_all stuck [] = ret_s ()"
| "prune_all stuck (k # ks) = bind_s (prune_one stuck k) (\<lambda>_. prune_all stuck ks)"

definition retention_prune :: "(file_key \<Rightarrow> bool) \<Rightarrow> backup_kind \<Rightarrow> nat \<Rightarrow> unit steps" where
  "retention_prune stuck dir n r =
     (if list_ex (\<lambda>k. node_of r k = Some (Link False)) (published_keys dir r) then raise_s ''OSError'' r
      else prune_all stuck (filter (\<lambda>k. k \<notin> set (keep_set n dir r)) (retention_candidates dir r)) r)"

section \<open>Jobs\<close>

record job_container =
  jc_root :: backup_root
  jc_degraded :: bool

definition db_backup :: "backup_env \<Rightarrow> (file_key \<Rightarrow> bool) \<Rightarrow> unit steps" where
  "db_backup e stuck = bind_s (create_backup e AutoKind) (\<lambda>_. retention_prune stuck AutoKind BACKUP_RETENTION)"

definition ended :: "string + 'a \<Rightarrow> handler_end" where
  "ended x = (case x of Inl err \<Rightarrow> Raised err | Inr _ \<Rightarrow> Returned JNull)"

definition job_db_backup :: "backup_env \<Rightarrow> (file_key \<Rightarrow> bool) \<Rightarrow> job_container \<Rightarrow> handler_end \<times> job_container" where
  "job_db_backup e stuck c = (case db_backup e stuck (jc_root c) of (x, r, _) \<Rightarrow> (ended x, c\<lparr>jc_root := r\<rparr>))"

text \<open>\<open>vacuum\<close>: what \<open>wal_checkpoint\<close> and \<open>VACUUM\<close> answer.\<close>

definition db_vacuum :: "backup_env \<Rightarrow> (file_key \<Rightarrow> bool) \<Rightarrow> string + unit \<Rightarrow> job_container \<Rightarrow> handler_end \<times> job_container" where
  "db_vacuum e stuck vacuum c =
     (case db_backup e stuck (jc_root c) of
        (Inl err, r, _) \<Rightarrow> (Raised err, c\<lparr>jc_root := r\<rparr>)
      | (Inr _, r, _) \<Rightarrow> (ended vacuum, c\<lparr>jc_root := r\<rparr>))"

definition db_integrity_check :: "backup_env \<Rightarrow> (file_key \<Rightarrow> bool) \<Rightarrow> string \<Rightarrow> job_container \<Rightarrow> handler_end \<times> job_container" where
  "db_integrity_check e stuck result c =
     (if result \<noteq> ''ok''
      then (case db_backup e stuck (jc_root c) of
              (_, r, _) \<Rightarrow> (Raised (''integrity_check failed: '' @ result), c\<lparr>jc_root := r, jc_degraded := True\<rparr>))
      else (Returned JNull, c\<lparr>jc_degraded := False\<rparr>))"

definition backfill_summary :: "backfill_result \<Rightarrow> (string \<times> json) list" where
  "backfill_summary r =
     [(''generated'', JInt (int (br_generated r))), (''failed'', JInt (int (br_failed r))), (''tombstoned'', JInt (int (br_tombstoned r)))]"

text \<open>\<open>None\<close>: no embedding service is configured. An exception of the backfill ends the job.\<close>

definition embedding_backfill :: "world \<Rightarrow> service option \<Rightarrow> handler_end \<times> service option" where
  "embedding_backfill w sv =
     (case sv of
        None \<Rightarrow> (Returned JNull, None)
      | Some sv \<Rightarrow>
          (case generate_missing w None False sv of
             (Inl err, sv') \<Rightarrow> (Raised ''exception'', Some sv')
           | (Inr r, sv') \<Rightarrow>
               (if br_skipped r then Returned (JObj (backfill_summary r @ [(''skipped'', JInt 1)]))
                else if outcome_of r = ''failed'' then Raised ''embedding_backfill: 0 generated''
                else Returned (JObj (backfill_summary r)), Some sv')))"

definition git_onboard_resync :: handler_end where
  "git_onboard_resync = Returned (JObj [(''skipped'', JInt 1), (''reason'', JStr ''not implemented yet'')])"

section \<open>The offsite copy\<close>

record cloud_config =
  cc_enabled :: bool
  cc_remote :: string
  cc_recipients :: "string list"
  cc_problem :: "string option"

definition remote_name_char :: "char \<Rightarrow> bool" where
  "remote_name_char c =
     (let n = of_char c :: nat
      in (48 \<le> n \<and> n \<le> 57) \<or> (65 \<le> n \<and> n \<le> 90) \<or> (97 \<le> n \<and> n \<le> 122) \<or> c \<in> set ''_.-'')"

definition remote_ok :: "string \<Rightarrow> bool" where
  "remote_ok s =
     (let name = takeWhile remote_name_char s; rest = dropWhile remote_name_char s
      in name \<noteq> [] \<and> (case rest of [] \<Rightarrow> False | c # path \<Rightarrow> c = CHR '':'' \<and> list_all (\<lambda>x. remote_name_char x \<or> x = CHR ''/'') path))"

definition read_cloud_backup_config :: "string option \<Rightarrow> string option \<Rightarrow> cloud_config" where
  "read_cloud_backup_config remote_var recipients_var =
     (let remote = py_strip (case remote_var of None \<Rightarrow> [] | Some s \<Rightarrow> s);
          recipients = filter (\<lambda>s. s \<noteq> []) (map py_strip (split_char CHR '','' (case recipients_var of None \<Rightarrow> [] | Some s \<Rightarrow> s)))
      in if remote = [] then \<lparr>cc_enabled = False, cc_remote = [], cc_recipients = recipients, cc_problem = None\<rparr>
         else if take 1 remote = ''-'' \<or> \<not> remote_ok remote
         then \<lparr>cc_enabled = True, cc_remote = [], cc_recipients = recipients, cc_problem = Some ''OC_CLOUD_REMOTE must be an rclone remote in name:path form''\<rparr>
         else if recipients = []
         then \<lparr>cc_enabled = True, cc_remote = remote, cc_recipients = [], cc_problem = Some ''OC_CLOUD_AGE_RECIPIENTS is empty; refusing to push unencrypted''\<rparr>
         else \<lparr>cc_enabled = True, cc_remote = remote, cc_recipients = recipients, cc_problem = None\<rparr>)"

text \<open>\<open>strptime\<close> of the stamp is a parameter; a file name is \<open>openchronicle-<stamp>-<hex>.db\<close>.\<close>

definition stem_of :: "file_key \<Rightarrow> string" where
  "stem_of k = (let s = take (length (snd k) - 3) (snd k) in if take 14 s = ''openchronicle-'' then drop 14 s else s)"

definition snapshot_stamp :: "(string \<Rightarrow> int option) \<Rightarrow> file_key \<Rightarrow> int option" where
  "snapshot_stamp read_stamp k = read_stamp (takeWhile (\<lambda>c. c \<noteq> CHR ''-'') (stem_of k))"

definition published_snapshots :: "(string \<Rightarrow> int option) \<Rightarrow> backup_root \<Rightarrow> (int \<times> file_key) list" where
  "published_snapshots read_stamp r =
     sort_key (\<lambda>(t, k). (t, snd k)) (List.map_filter (\<lambda>k. map_option (\<lambda>t. (t, k)) (snapshot_stamp read_stamp k)) (published_keys AutoKind r))"

definition CLOUD_WINDOW :: nat where
  "CLOUD_WINDOW = 3"

definition select_for_push :: "(int \<times> file_key) list \<Rightarrow> file_key list" where
  "select_for_push published =
     (let chosen = map snd (window (\<lambda>x. day_of (fst x)) CLOUD_WINDOW (rev published))
      in filter (\<lambda>k. k \<in> set chosen) (map snd published))"

definition CLOUD_CLOCK_SKEW :: int where
  "CLOUD_CLOCK_SKEW = 300000000"

definition CLOUD_SOURCE_MAX_AGE :: int where
  "CLOUD_SOURCE_MAX_AGE = 93600000000"

definition rclone_argv :: "string \<Rightarrow> string \<Rightarrow> string list" where
  "rclone_argv source remote =
     [''rclone'', ''copy'', ''--ignore-existing'', ''--transfers'', ''1'', ''--contimeout'', ''30s'', ''--stats'', ''0'',
      ''--ask-password=false'', ''--log-level'', ''INFO'', ''--'', source, rev (dropWhile (\<lambda>c. c = CHR ''/'') (rev remote)) @ ''/'']"

definition age_argv :: "string list \<Rightarrow> string \<Rightarrow> string \<Rightarrow> string list" where
  "age_argv recipients target source = ''age'' # concat (map (\<lambda>key. [''-r'', key]) recipients) @ [''-o'', target, source]"

text \<open>
  \<open>ce_stamps\<close> reads a stamp, \<open>ce_now\<close> is the clock, \<open>ce_age\<close> and \<open>ce_rclone\<close> are exit codes,
  \<open>ce_timeout\<close> says that the time limit of the job ran out.
\<close>

record cloud_env =
  ce_is_root :: bool
  ce_rclone_config :: bool
  ce_stamps :: "string \<Rightarrow> int option"
  ce_now :: int
  ce_timeout :: bool
  ce_age :: "file_key \<Rightarrow> int"
  ce_rclone :: int

text \<open>The job's end, and the files whose encrypted copies have gone offsite.\<close>

definition push_selected :: "cloud_env \<Rightarrow> backup_env \<Rightarrow> file_key list \<Rightarrow> backup_root \<Rightarrow> handler_end \<times> file_key list" where
  "push_selected ce e selected r =
     (let sources = concat (map (\<lambda>k. [k, json_beside k]) selected)
      in if list_ex (\<lambda>k. case verify_backup e (''auto:'' @ stem_of k) r of Inl _ \<Rightarrow> True | Inr _ \<Rightarrow> False) selected then (Raised ''BackupCatalogError'', [])
         else if list_ex (\<lambda>k. ce_age ce k \<noteq> 0) sources then (Raised ''cloud_backup: age exited'', [])
         else if ce_rclone ce \<noteq> 0 then (Raised ''cloud_backup: rclone exited'', [])
         else (Returned (JObj [(''selected'', JInt (int (length selected)))]), sources))"

text \<open>
  The sweep of directories that a killed push left behind, over the entries of the backup
  root: name, whether it is a directory, and its time in microseconds. It runs before the
  snapshots are listed and touches none of them.
\<close>

definition CLOUD_TIMEOUT :: int where
  "CLOUD_TIMEOUT = 900000000"

definition sweep_stale_push_dirs :: "int \<Rightarrow> (string \<times> bool \<times> int) list \<Rightarrow> (string \<times> bool \<times> int) list" where
  "sweep_stale_push_dirs now entries =
     filter (\<lambda>(name, is_dir, mtime). \<not> (prefix ''cloud-push-'' name \<and> is_dir \<and> now - mtime > CLOUD_TIMEOUT)) entries"

definition cloud_backup :: "cloud_config \<Rightarrow> cloud_env \<Rightarrow> backup_env \<Rightarrow> backup_root \<Rightarrow> handler_end \<times> file_key list" where
  "cloud_backup cfg ce e r =
     (if \<not> cc_enabled cfg then (Returned (JObj [(''skipped'', JInt 1), (''reason'', JStr ''OC_CLOUD_REMOTE is unset'')]), [])
      else case cc_problem cfg of
        Some p \<Rightarrow> (Raised (''cloud_backup: '' @ p), [])
      | None \<Rightarrow>
          if ce_is_root ce then (Raised ''cloud_backup: refusing to run as root'', [])
          else if \<not> ce_rclone_config ce then (Raised ''cloud_backup: rclone config not found'', [])
          else if ce_timeout ce then (Raised ''TimeoutError'', [])
          else
            let published = published_snapshots (ce_stamps ce) r
            in if published = [] then (Raised ''cloud_backup: no published snapshot'', [])
               else
                 let newest = fst (last published)
                 in if newest > ce_now ce + CLOUD_CLOCK_SKEW then (Raised ''cloud_backup: newest snapshot is stamped in the future'', [])
                    else if ce_now ce - newest > CLOUD_SOURCE_MAX_AGE then (Raised ''cloud_backup: db_backup has stopped producing'', [])
                    else push_selected ce e (select_for_push published) r)"

end
