(* ===== verification/OC_Backup_Props.thy ===== *)
theory OC_Backup_Props
  imports OC_Backup
begin

text \<open>
  Reasoning about backups: \<open>runs I Q E m r\<close> says that every root which \<open>m\<close> passes satisfies \<open>I\<close>,
  a run that returns ends in \<open>Q\<close> and one that raises in \<open>E\<close>. A snapshot in the making touches
  files of its own name only, and its manifest appears in one step.
\<close>

named_theorems backup_simps

section \<open>Runs\<close>

definition runs :: "(backup_root \<Rightarrow> bool) \<Rightarrow> ('a \<Rightarrow> backup_root \<Rightarrow> bool) \<Rightarrow> (string \<Rightarrow> backup_root \<Rightarrow> bool) \<Rightarrow> 'a steps \<Rightarrow> backup_root \<Rightarrow> bool" where
  "runs I Q E m r \<longleftrightarrow>
     (case m r of (x, r', t) \<Rightarrow> (\<forall>u \<in> set t. I u) \<and> (case x of Inl e \<Rightarrow> E e r' | Inr y \<Rightarrow> Q y r'))"

lemma runsD:
  assumes "runs I Q E m r" "m r = (x, r', t)"
  shows "\<forall>u \<in> set t. I u" "x = Inl e \<Longrightarrow> E e r'" "x = Inr y \<Longrightarrow> Q y r'"
  using assms by (auto simp: runs_def)

lemma runs_mono:
  assumes "runs I Q E m r" "\<And>u. I u \<Longrightarrow> I' u" "\<And>y u. Q y u \<Longrightarrow> Q' y u" "\<And>e u. E e u \<Longrightarrow> E' e u"
  shows "runs I' Q' E' m r"
  using assms by (auto simp: runs_def split: prod.splits sum.splits)

lemma runs_bind: "runs I (\<lambda>x. runs I Q E (k x)) E m r \<Longrightarrow> runs I Q E (bind_s m k) r"
  by (auto simp: runs_def bind_s_def split: prod.splits sum.splits)

lemma runs_seq: "runs I R E m r \<Longrightarrow> (\<And>x u. R x u \<Longrightarrow> runs I Q E (k x) u) \<Longrightarrow> runs I Q E (bind_s m k) r"
  by (rule runs_bind) (erule runs_mono, auto)

lemma runs_on_raise: "runs I Q (\<lambda>e u. runs I (\<lambda>_. E e) (\<lambda>_. E e) c u) m r \<Longrightarrow> runs I Q E (on_raise m c) r"
  by (auto simp: runs_def on_raise_def split: prod.splits sum.splits)

lemma runs_ret: "Q x r \<Longrightarrow> runs I Q E (ret_s x) r"
  by (simp add: runs_def ret_s_def)

lemma runs_raise: "E e r \<Longrightarrow> runs I Q E (raise_s e) r"
  by (simp add: runs_def raise_s_def)

lemma runs_read: "Q (f r) r \<Longrightarrow> runs I Q E (read_s f) r"
  by (simp add: runs_def read_s_def)

lemma runs_guard: "(P r \<Longrightarrow> Q () r) \<Longrightarrow> (\<not> P r \<Longrightarrow> E e r) \<Longrightarrow> runs I Q E (guard_s P e) r"
  by (simp add: runs_def guard_s_def)

lemma runs_step: "I (f r) \<Longrightarrow> Q () (f r) \<Longrightarrow> runs I Q E (step_s f) r"
  by (simp add: runs_def step_s_def)

lemma runs_now: "(b r \<Longrightarrow> runs I Q E m r) \<Longrightarrow> (\<not> b r \<Longrightarrow> runs I Q E k r) \<Longrightarrow> runs I Q E (\<lambda>r. if b r then m r else k r) r"
  by (simp add: runs_def)

section \<open>Files\<close>

lemma map_of_filter_key: "map_of (filter (\<lambda>x. fst x \<noteq> k) xs) q = (if q = k then None else map_of xs q)"
  by (induction xs) auto

lemma node_of_drop [backup_simps]: "node_of (drop_file k r) q = (if q = k then None else node_of r q)"
  by (simp add: node_of_def drop_file_def map_of_filter_key)

lemma node_of_store [backup_simps]: "node_of (store_file k n t r) q = (if q = k then Some n else node_of r q)"
  by (auto simp: node_of_def store_file_def map_add_def map_of_filter_key split: option.split)

lemma node_of_rename [backup_simps]:
  assumes "node_of r k = Some n"
  shows "node_of (rename_file k k' r) q = (if q = k' then Some n else if q = k then None else node_of r q)"
proof -
  obtain t where "map_of (br_files r) k = Some (n, t)" using assms by (auto simp: node_of_def)
  then show ?thesis by (simp add: rename_file_def node_of_drop node_of_store)
qed

lemma node_of_dirs [backup_simps]: "node_of (r\<lparr>br_dir := d\<rparr>) = node_of r" "node_of (r\<lparr>br_stage := s\<rparr>) = node_of r" "node_of (r\<lparr>br_stage_dir := w\<rparr>) = node_of r"
  by (simp_all add: node_of_def fun_eq_iff)

lemma node_of_stage [backup_simps]: "node_of (stage_put f c r) = node_of r" "node_of (stage_drop f r) = node_of r"
  by (simp_all add: stage_put_def stage_drop_def backup_simps)

section \<open>Names\<close>

text \<open>A file belongs to the artifact whose name its own name starts with.\<close>

definition owner :: "file_key \<Rightarrow> string \<times> backup_kind" where
  "owner k = (take 49 (snd k), fst k)"

definition tail_of :: "file_key \<Rightarrow> string" where
  "tail_of k = drop 49 (snd k)"

lemma owner_keys:
  assumes "length name = 35"
  shows "owner (db_key kind name) = (''openchronicle-'' @ name, kind)" "owner (manifest_key kind name) = (''openchronicle-'' @ name, kind)"
    "owner (beside (db_key kind name) s) = (''openchronicle-'' @ name, kind)" "owner (beside (manifest_key kind name) s) = (''openchronicle-'' @ name, kind)"
    "tail_of (db_key kind name) = ''.db''" "tail_of (manifest_key kind name) = ''.json''"
    "tail_of (beside (db_key kind name) s) = ''.db'' @ s" "tail_of (beside (manifest_key kind name) s) = ''.json'' @ s"
  using assms by (simp_all add: owner_def tail_of_def db_key_def manifest_key_def beside_def)

lemma split_id_Some:
  assumes "split_id aid = Some (kind, name)"
  shows "length name = 35" "aid = artifact_id kind name"
proof -
  have t: "take 5 aid @ drop 5 aid = aid" "take 7 aid @ drop 7 aid = aid" by simp_all
  show "length name = 35" using assms by (auto simp: split_id_def artifact_name_def split: if_splits)
  show "aid = artifact_id kind name" using assms t
    by (auto simp: split_id_def artifact_id_def simp del: append_take_drop_id split: if_splits)
qed

lemma split_id_artifact: "artifact_name name \<Longrightarrow> split_id (artifact_id kind name) = Some (kind, name)"
  by (cases kind) (simp_all add: split_id_def artifact_id_def)

lemma split_id_same: "split_id aid = Some (kind, name) \<Longrightarrow> split_id (artifact_id kind name) = Some (kind, name)"
  using split_id_Some(2) by metis

section \<open>What a verdict depends on\<close>

definition same_artifact :: "backup_kind \<Rightarrow> string \<Rightarrow> backup_root \<Rightarrow> backup_root \<Rightarrow> bool" where
  "same_artifact kind name r r' \<longleftrightarrow> (\<forall>k. owner k = (''openchronicle-'' @ name, kind) \<longrightarrow> node_of r' k = node_of r k)"

lemma same_artifact_keys:
  assumes "same_artifact kind name r r'" "length name = 35"
  shows "node_of r' (db_key kind name) = node_of r (db_key kind name)" "node_of r' (manifest_key kind name) = node_of r (manifest_key kind name)"
    "node_of r' (beside (db_key kind name) s) = node_of r (beside (db_key kind name) s)"
  using assms by (simp_all add: same_artifact_def owner_keys del: split_paired_All)

lemma same_artifact_verdict:
  assumes "split_id aid = Some (kind, name)" "same_artifact kind name r r'"
  shows "load_manifest aid r' = load_manifest aid r" "verify_backup e aid r' = verify_backup e aid r" "snapshot_bytes aid r' = snapshot_bytes aid r"
proof -
  note keys = same_artifact_keys [OF assms(2) split_id_Some(1) [OF assms(1)]]
  show m: "load_manifest aid r' = load_manifest aid r" by (simp add: load_manifest_def assms(1) keys)
  have i: "inspect_backup e (db_key kind name) r' = inspect_backup e (db_key kind name) r" unfolding inspect_backup_def keys ..
  show "verify_backup e aid r' = verify_backup e aid r" unfolding verify_backup_def assms(1) m by (cases "load_manifest aid r") (simp_all add: i)
  show "snapshot_bytes aid r' = snapshot_bytes aid r" by (simp add: snapshot_bytes_def assms(1) keys)
qed

section \<open>A snapshot in the making\<close>

definition own :: "backup_kind \<Rightarrow> string \<Rightarrow> string \<times> backup_kind" where
  "own kind name = (''openchronicle-'' @ name, kind)"

definition unused :: "backup_kind \<Rightarrow> string \<Rightarrow> backup_root \<Rightarrow> bool" where
  "unused kind name r \<longleftrightarrow> (\<forall>k. owner k = own kind name \<longrightarrow> node_of r k = None)"

definition elsewhere_same :: "backup_kind \<Rightarrow> string \<Rightarrow> backup_root \<Rightarrow> backup_root \<Rightarrow> bool" where
  "elsewhere_same kind name r u \<longleftrightarrow> (\<forall>k. owner k \<noteq> own kind name \<longrightarrow> node_of u k = node_of r k)"

definition own_files :: "backup_kind \<Rightarrow> string \<Rightarrow> (string \<Rightarrow> backup_node option) \<Rightarrow> backup_root \<Rightarrow> bool" where
  "own_files kind name F u \<longleftrightarrow> (\<forall>k. owner k = own kind name \<longrightarrow> node_of u k = F (tail_of k))"

definition making :: "backup_kind \<Rightarrow> string \<Rightarrow> backup_root \<Rightarrow> (string \<Rightarrow> backup_node option) \<Rightarrow> backup_root \<Rightarrow> bool" where
  "making kind name r F u \<longleftrightarrow> elsewhere_same kind name r u \<and> own_files kind name F u"

lemma unused_making: "unused kind name r \<Longrightarrow> making kind name r (\<lambda>_. None) r"
  by (simp add: unused_def making_def own_files_def elsewhere_same_def)

lemma key_eq_iff: "k = k' \<longleftrightarrow> owner k = owner k' \<and> tail_of k = tail_of k'"
  unfolding owner_def tail_of_def by (metis append_take_drop_id prod.collapse prod.inject)

lemma making_dirs [backup_simps]: "making kind name r F (u\<lparr>br_dir := d\<rparr>) = making kind name r F u"
  by (simp add: making_def own_files_def elsewhere_same_def backup_simps)

lemma making_store:
  assumes "making kind name r F u" "owner k = own kind name"
  shows "making kind name r (F(tail_of k := Some n)) (store_file k n t u)"
  using assms by (auto simp: making_def own_files_def elsewhere_same_def backup_simps key_eq_iff simp del: split_paired_All)

lemma making_drop:
  assumes "making kind name r F u" "owner k = own kind name"
  shows "making kind name r (F(tail_of k := None)) (drop_file k u)"
  using assms by (auto simp: making_def own_files_def elsewhere_same_def backup_simps key_eq_iff simp del: split_paired_All)

lemma making_rename:
  assumes "making kind name r F u" "owner k = own kind name" "owner k' = own kind name" "F (tail_of k) = Some n"
  shows "making kind name r (F(tail_of k := None, tail_of k' := Some n)) (rename_file k k' u)"
proof -
  have "node_of u k = Some n" using assms by (simp add: making_def own_files_def del: split_paired_All)
  then show ?thesis using assms
    by (auto simp: making_def own_files_def elsewhere_same_def node_of_rename key_eq_iff simp del: split_paired_All)
qed

lemma making_node: "making kind name r F u \<Longrightarrow> owner k = own kind name \<Longrightarrow> node_of u k = F (tail_of k)"
  by (simp add: making_def own_files_def del: split_paired_All)

lemma own_keys:
  assumes "length name = 35"
  shows "owner (db_key kind name) = own kind name" "owner (manifest_key kind name) = own kind name"
    "owner (beside (db_key kind name) s) = own kind name" "owner (beside (manifest_key kind name) s) = own kind name"
  using owner_keys [OF assms] by (simp_all add: own_def)

lemma making_eq: "making kind name r F u \<Longrightarrow> (\<And>t. F t = G t) \<Longrightarrow> making kind name r G u"
  by (metis ext)

definition unpublished :: "backup_kind \<Rightarrow> string \<Rightarrow> backup_root \<Rightarrow> backup_root \<Rightarrow> bool" where
  "unpublished kind name r u \<longleftrightarrow> (\<exists>F. making kind name r F u \<and> F ''.json'' = None)"

lemma unpublishedI: "making kind name r F u \<Longrightarrow> F ''.json'' = None \<Longrightarrow> unpublished kind name r u"
  unfolding unpublished_def by blast

text \<open>What a failed backup leaves: a copy that did not pass its checks.\<close>

definition evidence :: "backup_env \<Rightarrow> string \<Rightarrow> backup_node option" where
  "evidence e =
     (case be_copy e of
        Inl _ \<Rightarrow> Map.empty
      | Inr c \<Rightarrow> if be_quick_check e c \<noteq> ''ok'' then [''.db.failed-quick-check'' \<mapsto> Snapshot c]
               else (case inspect_bytes e c of Inl _ \<Rightarrow> [''.db.failed-verify'' \<mapsto> Snapshot c] | Inr _ \<Rightarrow> Map.empty))"

lemma runs_store:
  assumes "making kind name r F u" "owner k = own kind name" "tail_of k \<noteq> ''.json''" "F ''.json'' = None"
    "\<And>u'. making kind name r (F(tail_of k := Some n)) u' \<Longrightarrow> Q () u'"
  shows "runs (unpublished kind name r) Q E (step_s (store_file k n t)) u"
  using making_store [OF assms(1,2)] assms(3-5) by (intro runs_step unpublishedI [OF making_store [OF assms(1,2)]]) simp_all

lemma runs_drop:
  assumes "making kind name r F u" "owner k = own kind name" "F ''.json'' = None"
    "\<And>u'. making kind name r (F(tail_of k := None)) u' \<Longrightarrow> Q () u'"
  shows "runs (unpublished kind name r) Q E (step_s (drop_file k)) u"
  using making_drop [OF assms(1,2)] assms(3-4) by (intro runs_step) (auto intro: unpublishedI)

lemma runs_rename:
  assumes "making kind name r F u" "owner k = own kind name" "owner k' = own kind name" "F (tail_of k) = Some n" "tail_of k' \<noteq> ''.json''" "F ''.json'' = None"
    "\<And>u'. making kind name r (F(tail_of k := None, tail_of k' := Some n)) u' \<Longrightarrow> Q () u'"
  shows "runs (unpublished kind name r) Q E (step_s (rename_file k k')) u"
  using making_rename [OF assms(1-4)] assms(5-7) by (intro runs_step) (auto intro: unpublishedI)

lemma runs_drop_if_there:
  assumes "making kind name r F u" "owner k = own kind name" "F (tail_of k) = None" "Q () u"
  shows "runs I Q E (drop_if_there k) u"
  unfolding drop_if_there_def using assms making_node [OF assms(1,2)]
  by (intro runs_now runs_ret) auto

lemma runs_make_dir:
  assumes "making kind name r F u" "F ''.json'' = None"
  shows "runs (unpublished kind name r) (\<lambda>_ u'. making kind name r F u' \<and> br_dir u' d = (if br_dir u d = NoDir then RealDir else br_dir u d)) E (make_kind_dir d) u"
  unfolding make_kind_dir_def using assms
  by (intro runs_now runs_step runs_ret) (auto simp: backup_simps intro!: unpublishedI)

lemma runs_copy:
  assumes "making kind name r Map.empty u" "length name = 35"
  shows "runs (unpublished kind name r) (\<lambda>_ u'. \<exists>c. be_copy e = Inr c \<and> be_quick_check e c = ''ok'' \<and> making kind name r [''.db'' \<mapsto> Snapshot c] u')
    (\<lambda>_ u'. (\<forall>c. be_copy e = Inr c \<longrightarrow> be_quick_check e c \<noteq> ''ok'') \<and> making kind name r (evidence e) u') (backup_from_connection e (db_key kind name)) u"
proof -
  let ?tmp = "beside (db_key kind name) ''.tmp''" and ?db = "db_key kind name" and ?I = "unpublished kind name r"
  let ?Q = "\<lambda>_ u'. \<exists>c. be_copy e = Inr c \<and> be_quick_check e c = ''ok'' \<and> making kind name r [''.db'' \<mapsto> Snapshot c] u'"
  let ?E = "\<lambda>_ u'. (\<forall>c. be_copy e = Inr c \<longrightarrow> be_quick_check e c \<noteq> ''ok'') \<and> making kind name r (evidence e) u'"
  note keys = own_keys [OF assms(2)] owner_keys(5-8) [OF assms(2)]
  have clean: "runs ?I (\<lambda>_. ?E err) (\<lambda>_. ?E err) (drop_if_there ?tmp) u'"
    if "?E err u'" for err u'
    using that by (intro runs_drop_if_there [where F = "evidence e"]) (auto simp: keys evidence_def split: sum.splits)
  have torn: "runs ?I (\<lambda>_. ?E err) (\<lambda>_. ?E err) (drop_if_there ?tmp) u'"
    if "be_copy e = Inl err'" "making kind name r [''.db.tmp'' \<mapsto> Snapshot x] u'" for err err' x u'
    unfolding drop_if_there_def using that
    by (intro runs_now runs_drop [OF that(2)] runs_ret) (auto simp: keys evidence_def making_node [OF that(2)] elim: making_eq)
  let ?C = "\<lambda>err. runs ?I (\<lambda>_. ?E err) (\<lambda>_. ?E err) (drop_if_there ?tmp)"
  have checked: "runs ?I ?Q ?C (bind_s (step_s (store_file ?tmp (Snapshot c) (be_mtime e))) (\<lambda>_.
             if be_quick_check e c \<noteq> ''ok''
             then bind_s (step_s (rename_file ?tmp (beside ?db ''.failed-quick-check''))) (\<lambda>_.
                  raise_s ''staged backup failed quick_check'')
             else step_s (rename_file ?tmp ?db))) v"
    if c: "be_copy e = Inr c" and v: "making kind name r [''.db.tmp'' \<mapsto> Snapshot (be_torn e)] v" for c v
  proof (rule runs_bind, rule runs_store [OF v])
    fix w assume "making kind name r ([''.db.tmp'' \<mapsto> Snapshot (be_torn e)](tail_of ?tmp := Some (Snapshot c))) w"
    then have w: "making kind name r [''.db.tmp'' \<mapsto> Snapshot c] w" by (simp add: keys)
    have bad: "?E err u'" if "be_quick_check e c \<noteq> ''ok''"
      "making kind name r ([''.db.tmp'' \<mapsto> Snapshot c](tail_of ?tmp := None, tail_of (beside ?db ''.failed-quick-check'') := Some (Snapshot c))) u'" for err u'
      using that c by (auto simp: keys evidence_def elim!: making_eq)
    have good: "?Q x u'" if "be_quick_check e c = ''ok''"
      "making kind name r ([''.db.tmp'' \<mapsto> Snapshot c](tail_of ?tmp := None, tail_of ?db := Some (Snapshot c))) u'" for x :: unit and u'
      using that c by (auto simp: keys elim!: making_eq)
    show "runs ?I ?Q ?C (if be_quick_check e c \<noteq> ''ok''
             then bind_s (step_s (rename_file ?tmp (beside ?db ''.failed-quick-check''))) (\<lambda>_.
                  raise_s ''staged backup failed quick_check'')
             else step_s (rename_file ?tmp ?db)) w"
      by (auto simp: keys intro!: runs_bind runs_rename [OF w, where n = "Snapshot c"] runs_raise clean bad good simp del: fun_upd_apply) simp_all
  qed (simp_all add: keys)
  have copying: "runs ?I ?Q ?E (on_raise (copy_checked e ?db) (drop_if_there ?tmp)) u'" if m: "making kind name r Map.empty u'" for u'
    unfolding copy_checked_def Let_def
  proof (rule runs_on_raise, rule runs_bind, rule runs_store [OF m])
    fix v assume "making kind name r (Map.empty(tail_of ?tmp := Some (Snapshot (be_torn e)))) v"
    then have v: "making kind name r [''.db.tmp'' \<mapsto> Snapshot (be_torn e)] v" by (simp add: keys)
    show "runs ?I ?Q ?C (case be_copy e of
           Inl err \<Rightarrow> raise_s err
         | Inr c \<Rightarrow>
             bind_s (step_s (store_file ?tmp (Snapshot c) (be_mtime e))) (\<lambda>_.
             if be_quick_check e c \<noteq> ''ok''
             then bind_s (step_s (rename_file ?tmp (beside ?db ''.failed-quick-check''))) (\<lambda>_.
                  raise_s ''staged backup failed quick_check'')
             else step_s (rename_file ?tmp ?db))) v"
    proof (cases "be_copy e")
      case (Inl err)
      show ?thesis unfolding Inl sum.case by (rule runs_raise) (use torn [OF Inl v] Inl in simp)
    next
      case (Inr c)
      show ?thesis using checked [OF Inr v] by (simp only: Inr sum.case)
    qed
  qed (simp_all add: keys)
  show ?thesis unfolding backup_from_connection_def
    by (intro runs_bind runs_mono [OF runs_make_dir [OF assms(1)]] runs_drop_if_there copying) (auto simp: keys)
qed

section \<open>Publication\<close>

definition published_as :: "backup_kind \<Rightarrow> string \<Rightarrow> backup_root \<Rightarrow> string \<Rightarrow> (string \<times> json) list \<Rightarrow> backup_root \<Rightarrow> bool" where
  "published_as kind name r c md u \<longleftrightarrow> making kind name r [''.db'' \<mapsto> Snapshot c, ''.json'' \<mapsto> Json (JObj md)] u"

lemma runs_publish:
  assumes "making kind name r [''.db'' \<mapsto> Snapshot c] u" "length name = 35"
  shows "runs (\<lambda>u. unpublished kind name r u \<or> published_as kind name r c md u) (\<lambda>_ u. published_as kind name r c md u \<and> \<not> be_write_fails e)
    (\<lambda>_ u. making kind name r [''.db'' \<mapsto> Snapshot c] u \<and> be_write_fails e) (publish_manifest e (manifest_key kind name) md) u"
proof -
  let ?temp = "beside (manifest_key kind name) ''.tmp''" and ?path = "manifest_key kind name"
  let ?I = "\<lambda>u. unpublished kind name r u \<or> published_as kind name r c md u"
  let ?E = "\<lambda>_ u. making kind name r [''.db'' \<mapsto> Snapshot c] u \<and> be_write_fails e"
  note keys = own_keys [OF assms(2)] owner_keys(5-8) [OF assms(2)]
  have weaken: "runs ?I Q E m v" if "runs (unpublished kind name r) Q E m v" for Q :: "unit \<Rightarrow> backup_root \<Rightarrow> bool" and E m v
    using that by (rule runs_mono) auto
  have clean: "runs ?I (\<lambda>_. ?E err) (\<lambda>_. ?E err) (step_s (drop_file ?temp)) v"
    if v: "making kind name r [''.db'' \<mapsto> Snapshot c, ''.json.tmp'' \<mapsto> Garbage] v" "be_write_fails e" for err v
    by (rule weaken, rule runs_drop [OF v(1)]) (use v(2) in \<open>auto simp: keys elim!: making_eq\<close>)
  have publish: "runs ?I (\<lambda>_. published_as kind name r c md) E (step_s (rename_file ?temp ?path)) v"
    if v: "making kind name r [''.db'' \<mapsto> Snapshot c, ''.json.tmp'' \<mapsto> Json (JObj md)] v" for E v
  proof -
    have "making kind name r ([''.db'' \<mapsto> Snapshot c, ''.json.tmp'' \<mapsto> Json (JObj md)](tail_of ?temp := None, tail_of ?path := Some (Json (JObj md)))) (rename_file ?temp ?path v)"
      by (rule making_rename [OF v]) (simp_all add: keys)
    then have "published_as kind name r c md (rename_file ?temp ?path v)"
      unfolding published_as_def by (rule making_eq) (auto simp: keys)
    then show ?thesis by (intro runs_step) simp_all
  qed
  have absent: "node_of u ?temp = None" using making_node [OF assms(1), of ?temp] by (simp add: keys)
  have written: "runs ?I (\<lambda>_. runs ?I (\<lambda>_ u. published_as kind name r c md u \<and> \<not> be_write_fails e) E (step_s (rename_file ?temp ?path))) E (step_s (store_file ?temp (Json (JObj md)) t)) v"
    if v: "making kind name r [''.db'' \<mapsto> Snapshot c, ''.json.tmp'' \<mapsto> Garbage] v" "\<not> be_write_fails e" for E t v
    by (rule weaken, rule runs_store [OF v(1)]) (use v(2) in \<open>auto simp: keys intro!: runs_mono [OF publish]\<close>)
  have "runs ?I (\<lambda>_. runs ?I (\<lambda>_ u. published_as kind name r c md u \<and> \<not> be_write_fails e) (\<lambda>err. runs ?I (\<lambda>_. ?E err) (\<lambda>_. ?E err) (step_s (drop_file ?temp)))
      (bind_s (guard_s (\<lambda>_. \<not> be_write_fails e) ''write failed'') (\<lambda>_.
       bind_s (step_s (store_file ?temp (Json (JObj md)) (be_mtime e))) (\<lambda>_. step_s (rename_file ?temp ?path))))) E
      (step_s (store_file ?temp Garbage t)) u" for E t
    by (rule weaken, rule runs_store [OF assms(1)]) (auto simp: keys intro!: runs_bind runs_guard written clean)
  then show ?thesis unfolding publish_manifest_def Let_def
    by (intro runs_on_raise runs_bind [where m = "guard_s _ ''File exists''"] runs_guard runs_bind [where m = "step_s (store_file _ Garbage _)"]) (auto simp: absent)
qed

section \<open>Creation\<close>

definition backup_name :: "backup_env \<Rightarrow> string" where
  "backup_name e = be_stamp e @ ''-'' @ be_token e"

definition can_create :: "backup_env \<Rightarrow> backup_kind \<Rightarrow> backup_root \<Rightarrow> bool" where
  "can_create e kind r \<longleftrightarrow> be_acquired e \<and> (be_require_existing_root e \<longrightarrow> be_root_ok e) \<and> br_dir r kind \<noteq> LinkDir \<and>
     max (be_db_size e) MIN_FREE_MARGIN + MIN_FREE_MARGIN \<le> be_free e \<and> artifact_name (backup_name e)"

definition manifest_fields :: "backup_env \<Rightarrow> backup_kind \<Rightarrow> (string \<times> json) list \<Rightarrow> (string \<times> json) list" where
  "manifest_fields e kind found =
     (''artifact_id'', JStr (artifact_id kind (backup_name e))) # (''created_at'', JStr (be_created_at e)) # found"

definition good_copy :: "backup_env \<Rightarrow> string \<Rightarrow> (string \<times> json) list \<Rightarrow> bool" where
  "good_copy e c found \<longleftrightarrow> be_copy e = Inr c \<and> be_quick_check e c = ''ok'' \<and> inspect_bytes e c = Inr found"

definition created :: "backup_env \<Rightarrow> backup_kind \<Rightarrow> backup_root \<Rightarrow> backup_root \<Rightarrow> bool" where
  "created e kind r u \<longleftrightarrow> (\<exists>c found. good_copy e c found \<and> published_as kind (backup_name e) r c (manifest_fields e kind found) u)"

definition create_failed :: "backup_env \<Rightarrow> backup_kind \<Rightarrow> backup_root \<Rightarrow> backup_root \<Rightarrow> bool" where
  "create_failed e kind r u \<longleftrightarrow>
     making kind (backup_name e) r (if can_create e kind r then evidence e else Map.empty) u \<and>
     (can_create e kind r \<longrightarrow> (\<forall>c found. good_copy e c found \<longrightarrow> be_write_fails e))"

lemma split_id_artifact_iff: "split_id (artifact_id kind name) \<noteq> None \<longleftrightarrow> artifact_name name"
proof (cases "split_id (artifact_id kind name)")
  case (Some p)
  then obtain k n where p: "split_id (artifact_id kind name) = Some (k, n)" by (cases p) auto
  then have "artifact_id kind name = artifact_id k n" "artifact_name n"
    using split_id_Some(2) [OF p] by (auto simp: split_id_def split: if_splits)
  then have "name = n" by (cases kind; cases k) (simp_all add: artifact_id_def)
  then show ?thesis using Some \<open>artifact_name n\<close> by simp
qed (use split_id_artifact [of name kind] in auto)

lemma inspect_making:
  assumes "making kind name r [''.db'' \<mapsto> Snapshot c] u" "length name = 35"
  shows "inspect_backup e (db_key kind name) u = inspect_bytes e c"
  using making_node [OF assms(1) own_keys(1) [OF assms(2)]] making_node [OF assms(1) own_keys(3) [OF assms(2)]]
  by (simp add: inspect_backup_def owner_keys [OF assms(2)])

lemma runs_verify_copy:
  assumes u: "making kind (backup_name e) r [''.db'' \<mapsto> Snapshot c] u" and name: "length (backup_name e) = 35"
    and c: "be_copy e = Inr c" "be_quick_check e c = ''ok''" and can: "can_create e kind r"
  shows "runs (\<lambda>u. unpublished kind (backup_name e) r u \<or> created e kind r u)
    (\<lambda>md u. \<exists>c found. good_copy e c found \<and> md = manifest_fields e kind found \<and> published_as kind (backup_name e) r c md u \<and> \<not> be_write_fails e)
    (\<lambda>_. create_failed e kind r)
    (publish_checked e kind (backup_name e)) u"
    (is "runs ?I ?Q ?E _ u")
proof -
  have look: "inspect_backup e (db_key kind (backup_name e)) u = inspect_bytes e c" by (rule inspect_making [OF u name])
  show ?thesis
  proof (cases "inspect_bytes e c")
    case (Inl err)
    have weaken: "runs ?I Q E m v" if "runs (unpublished kind (backup_name e) r) Q E m v" for Q :: "unit \<Rightarrow> backup_root \<Rightarrow> bool" and E m v
      using that by (rule runs_mono) auto
    show ?thesis unfolding publish_checked_def Let_def
      by (rule runs_bind, rule runs_read, simp only: look Inl sum.case, rule runs_bind, rule weaken, rule runs_rename [OF u, where n = "Snapshot c"])
         (use c can Inl in \<open>auto simp: own_keys owner_keys name create_failed_def evidence_def good_copy_def intro!: runs_raise elim!: making_eq\<close>)
  next
    case (Inr found)
    have good: "good_copy e c found" using c Inr by (simp add: good_copy_def)
    have failed: "create_failed e kind r v" if "making kind (backup_name e) r ([''.db'' \<mapsto> Snapshot c](tail_of (db_key kind (backup_name e)) := None)) v" "be_write_fails e" for v
      using that c can Inr by (auto simp: owner_keys name create_failed_def evidence_def good_copy_def elim!: making_eq)
    have clean: "runs ?I (\<lambda>_. create_failed e kind r) (\<lambda>_. create_failed e kind r) (step_s (drop_file (db_key kind (backup_name e)))) v"
      if v: "making kind (backup_name e) r [''.db'' \<mapsto> Snapshot c] v" "be_write_fails e" for v
      by (rule runs_mono, rule runs_drop [OF v(1), where Q = "\<lambda>_. create_failed e kind r"]) (use v failed in \<open>auto simp: own_keys owner_keys name\<close>)
    show ?thesis unfolding publish_checked_def Let_def
      by (rule runs_bind, rule runs_read, simp only: look Inr sum.case manifest_fields_def [symmetric],
          rule runs_bind, rule runs_on_raise, rule runs_mono [OF runs_publish [OF u name, of "manifest_fields e kind found" e]])
         (use good clean in \<open>auto simp: created_def intro!: runs_ret\<close>)
  qed
qed

lemma runs_create:
  assumes "unused kind (backup_name e) r"
  shows "runs (\<lambda>u. unpublished kind (backup_name e) r u \<or> created e kind r u)
    (\<lambda>md u. \<exists>c found. good_copy e c found \<and> md = manifest_fields e kind found \<and> published_as kind (backup_name e) r c md u \<and> \<not> be_write_fails e \<and> can_create e kind r)
    (\<lambda>_. create_failed e kind r) (create_backup e kind) r"
    (is "runs ?I ?Q ?E _ r")
proof -
  let ?name = "backup_name e"
  have m: "making kind ?name r Map.empty r" using unused_making [OF assms] by simp
  have weaken: "runs ?I Q E m v" if "runs (unpublished kind ?name r) Q E m v" for Q :: "unit \<Rightarrow> backup_root \<Rightarrow> bool" and E m v
    using that by (rule runs_mono) auto
  have refused: "create_failed e kind r u" if "making kind ?name r Map.empty u" "\<not> can_create e kind r" for u
    using that by (simp add: create_failed_def)
  have copy: "runs ?I ?Q ?E (bind_s (backup_from_connection e (db_key kind ?name)) (\<lambda>_. publish_checked e kind ?name)) u"
    if u: "making kind ?name r Map.empty u" and can: "can_create e kind r" for u
  proof -
    have name: "length ?name = 35" using can by (simp add: can_create_def artifact_name_def)
    show ?thesis
      by (rule runs_seq [OF weaken [OF runs_mono [OF runs_copy [OF u name]]]])
         (use can in \<open>auto simp: create_failed_def good_copy_def intro!: runs_mono [OF runs_verify_copy [OF _ name _ _ can]]\<close>)
  qed
  have after_dir: "runs ?I ?Q ?E
     (bind_s (guard_s (\<lambda>r. br_dir r kind \<noteq> LinkDir) ''Backup directory must not be a symlink'') (\<lambda>_.
      bind_s (guard_s (\<lambda>_. max (be_db_size e) MIN_FREE_MARGIN + MIN_FREE_MARGIN \<le> be_free e) ''Insufficient free space for a backup snapshot'') (\<lambda>_.
      bind_s (guard_s (\<lambda>_. artifact_name ?name) ''Invalid backup artifact ID'') (\<lambda>_.
      bind_s (backup_from_connection e (db_key kind ?name)) (\<lambda>_. publish_checked e kind ?name))))) u"
    if "making kind ?name r Map.empty u \<and> br_dir u kind = (if br_dir r kind = NoDir then RealDir else br_dir r kind)"
      "be_acquired e" "be_require_existing_root e \<longrightarrow> be_root_ok e" for u
    by ((rule runs_bind, rule runs_guard)+, rule copy) (use that in \<open>auto simp: can_create_def split: if_splits intro!: refused\<close>)
  show ?thesis unfolding create_backup_def Let_def backup_name_def [symmetric] split_id_artifact_iff
    by ((rule runs_bind, rule runs_guard)+, rule runs_seq [OF weaken [OF runs_make_dir [OF m]]])
       (use after_dir in \<open>auto simp: can_create_def intro!: refused m\<close>)
qed

end
