(* ===== verification/OC_Backup_Window.thy ===== *)
theory OC_Backup_Window
  imports OC_Backup_Jobs OC_Backup_Props
begin

text \<open>
  The window that retention and the offsite copy share: the newest entries, and the newest
  entry of each of the newest days. Then what pruning leaves of the backup root.
\<close>

section \<open>Days\<close>

lemma fst_per_day: "fst ` set (per_day day d xs) = fst ` set d \<union> day ` set xs"
  by (induction day d xs rule: per_day.induct) auto

lemma distinct_per_day: "distinct (map fst d) \<Longrightarrow> distinct (map fst (per_day day d xs))"
  by (induction day d xs rule: per_day.induct) auto

lemma map_of_per_day:
  "map_of (per_day day d xs) t = (case map_of d t of Some y \<Rightarrow> Some y | None \<Rightarrow> List.find (\<lambda>x. day x = t) xs)"
proof (induction day d xs rule: per_day.induct)
  case (2 day d x xs)
  show ?case
  proof (cases "day x \<in> fst ` set d")
    case True
    then have "map_of d (day x) \<noteq> None" by (simp add: map_of_eq_None_iff)
    then show ?thesis using 2 True by (auto split: option.splits)
  next
    case False
    then have "map_of d (day x) = None" by (simp add: map_of_eq_None_iff)
    then show ?thesis using 2 False by (auto simp: map_add_def split: option.splits)
  qed
qed (simp split: option.split)

lemma index_strict_desc:
  assumes "sorted_wrt (\<lambda>x y. y < (x :: 'a :: linorder)) ys" "i < length ys"
  shows "{d \<in> set ys. ys ! i < d} = set (take i ys)"
proof -
  have less: "ys ! j < ys ! i" if "i < j" "j < length ys" for i j using assms(1) that by (simp add: sorted_wrt_iff_nth_less)
  have "j < i \<longleftrightarrow> ys ! i < ys ! j" if "j < length ys" for j
    using less [of j i] less [of i j] assms(2) that by (cases i j rule: linorder_cases) auto
  note iff = this
  have "d \<in> {d \<in> set ys. ys ! i < d} \<longleftrightarrow> (\<exists>j < length ys. d = ys ! j \<and> j < i)" for d
    using iff by (auto simp: in_set_conv_nth)
  moreover have "d \<in> set (take i ys) \<longleftrightarrow> (\<exists>j < length ys. d = ys ! j \<and> j < i)" for d
    using assms(2) by (auto simp: in_set_conv_nth) (metis less_trans)
  ultimately show ?thesis by blast
qed

lemma distinct_strict_desc: "sorted_wrt (\<lambda>x y. y < (x :: 'a :: linorder)) ys \<Longrightarrow> distinct ys"
  by (induction ys) auto

lemma in_take_strict_desc:
  assumes "sorted_wrt (\<lambda>x y. y < (x :: 'a :: linorder)) ys" "d \<in> set ys"
  shows "d \<in> set (take n ys) \<longleftrightarrow> card {d' \<in> set ys. d < d'} < n"
proof -
  obtain i where i: "i < length ys" "d = ys ! i" using assms(2) by (auto simp: in_set_conv_nth)
  have dist: "distinct ys" by (rule distinct_strict_desc [OF assms(1)])
  then have "card (set (take i ys)) = i" using i by (simp add: distinct_card distinct_take)
  then have "card {d' \<in> set ys. d < d'} = i" using index_strict_desc [OF assms(1) i(1)] i(2) by simp
  moreover have "ys ! i \<in> set (take n ys) \<longleftrightarrow> i < n"
    using dist i(1) by (auto simp: in_set_conv_nth nth_eq_iff_index_eq)
  ultimately show ?thesis using i(2) by simp
qed

lemma sort_desc_strict: "distinct xs \<Longrightarrow> sorted_wrt (\<lambda>x y. y < x) (sort_desc (\<lambda>x. x) (xs :: 'a :: linorder list))"
proof -
  assume "distinct xs"
  then have "distinct (sort_desc (\<lambda>x. x) xs)" using distinct_sort_desc [of "\<lambda>x. x" "\<lambda>x. x" xs] by simp
  moreover have "sorted_wrt (\<lambda>x y. y \<le> x) (sort_desc (\<lambda>x. x) xs)" by (rule sort_desc_sorted)
  ultimately show ?thesis by (simp add: sorted_wrt_iff_nth_less order.strict_iff_order nth_eq_iff_index_eq)
qed

definition later_days :: "('a \<Rightarrow> int) \<Rightarrow> 'a list \<Rightarrow> 'a \<Rightarrow> int set" where
  "later_days day xs x = {d \<in> day ` set xs. day x < d}"

lemma set_recent_days:
  "x \<in> set (recent_days day n xs) \<longleftrightarrow> List.find (\<lambda>y. day y = day x) xs = Some x \<and> card (later_days day xs x) < n"
proof -
  let ?d = "per_day day [] xs" and ?ys = "sort_desc (\<lambda>x. x) (map fst (per_day day [] xs))"
  have ys: "sorted_wrt (\<lambda>x y. y < x) ?ys" "set ?ys = day ` set xs"
    using sort_desc_strict [OF distinct_per_day [of "[]" day xs]] fst_per_day [of day "[]" xs] by simp_all
  have found: "map_of ?d t = List.find (\<lambda>y. day y = t) xs" for t by (simp add: map_of_per_day)
  have hit: "the (map_of ?d t) = x \<longleftrightarrow> List.find (\<lambda>y. day y = t) xs = Some x" if "t \<in> day ` set xs" for t
  proof -
    have "List.find (\<lambda>y. day y = t) xs \<noteq> None" using that by (auto simp: find_None_iff)
    then show ?thesis by (auto simp: found)
  qed
  have "x \<in> set (recent_days day n xs) \<longleftrightarrow> (\<exists>t \<in> set (take n ?ys). the (map_of ?d t) = x)"
    by (auto simp: recent_days_def Let_def)
  also have "\<dots> \<longleftrightarrow> (\<exists>t \<in> set (take n ?ys). List.find (\<lambda>y. day y = t) xs = Some x)"
    using hit set_take_subset [of n ?ys] ys(2) by (metis subsetD)
  also have "\<dots> \<longleftrightarrow> day x \<in> set (take n ?ys) \<and> List.find (\<lambda>y. day y = day x) xs = Some x"
    by (auto dest: find_Some_mem)
  also have "\<dots> \<longleftrightarrow> List.find (\<lambda>y. day y = day x) xs = Some x \<and> card (later_days day xs x) < n"
  proof (cases "day x \<in> set ?ys")
    case True
    show ?thesis using in_take_strict_desc [OF ys(1) True, of n] unfolding ys(2) later_days_def by blast
  next
    case False
    then have "List.find (\<lambda>y. day y = day x) xs \<noteq> Some x" using ys(2) by (auto dest: find_Some_mem)
    then show ?thesis by blast
  qed
  finally show ?thesis .
qed

lemma window_iff:
  "x \<in> set (window day n xs) \<longleftrightarrow> x \<in> set (take n xs) \<or> List.find (\<lambda>y. day y = day x) xs = Some x \<and> card (later_days day xs x) < n"
  by (simp add: window_def set_recent_days)

lemma window_subset: "set (window day n xs) \<subseteq> set xs"
  by (auto simp: window_iff dest: find_Some_mem in_set_takeD)

lemma card_window: "card (set (window day n xs)) \<le> 2 * n"
proof -
  have "length (window day n xs) \<le> 2 * n" by (simp add: window_def recent_days_def Let_def)
  then show ?thesis using card_length le_trans by blast
qed

text \<open>In a list that starts with the newest entry, the first of a day is its newest.\<close>

lemma find_newest:
  assumes "sorted_wrt (\<lambda>x y. t y \<le> t x) xs" "List.find P xs = Some x" "y \<in> set xs" "P y"
  shows "(t :: 'a \<Rightarrow> int) y \<le> t x"
  using assms by (induction xs) (auto split: if_splits)

lemma days_by_newest:
  fixes day :: "'a \<Rightarrow> int"
  obtains ys where "sorted_wrt (\<lambda>x y. y < x) ys" "set ys = day ` set xs"
  using sort_desc_strict [OF distinct_per_day [of "[]" day xs]] fst_per_day [of day "[]" xs] that by fastforce

text \<open>The newest days are all in the window.\<close>

lemma newest_days_kept:
  assumes x: "x \<in> set xs" and late: "\<not> card (later_days day xs x) < n"
  shows "n \<le> card {d \<in> day ` set (window day n xs). day x < d}"
proof -
  obtain ys where ys: "sorted_wrt (\<lambda>x y. y < x) ys" "set ys = day ` set xs" by (rule days_by_newest)
  have "day x \<notin> set (take n ys)"
    using in_take_strict_desc [OF ys(1), of "day x" n] x late unfolding ys(2) later_days_def by auto
  then have out: "day x \<in> set (drop n ys)" using x ys(2) by (metis Un_iff append_take_drop_id image_eqI set_append)
  have "sorted_wrt (\<lambda>x y. y < x) (take n ys @ drop n ys)" using ys(1) by simp
  then have later: "day x < d" if "d \<in> set (take n ys)" for d using that out unfolding sorted_wrt_append by blast
  have kept: "d \<in> day ` set (window day n xs)" if "d \<in> set (take n ys)" for d
  proof -
    have d: "d \<in> day ` set xs" using that ys(2) by (metis in_set_takeD)
    then obtain y where y: "List.find (\<lambda>y. day y = d) xs = Some y"
      by (cases "List.find (\<lambda>y. day y = d) xs") (auto simp: find_None_iff)
    then have "day y = d" "y \<in> set xs" by (auto dest: find_Some_mem)
    moreover then have "card (later_days day xs y) < n"
      using in_take_strict_desc [OF ys(1), of d n] that d unfolding ys(2) later_days_def by auto
    ultimately show ?thesis using y by (auto simp: window_iff)
  qed
  have "n \<le> length ys" using out by (metis drop_all empty_iff empty_set nat_le_linear)
  then have "card (set (take n ys)) = n" using distinct_strict_desc [OF ys(1)] by (simp add: distinct_card distinct_take)
  moreover have "card (set (take n ys)) \<le> card {d \<in> day ` set (window day n xs). day x < d}"
    using later kept by (intro card_mono) auto
  ultimately show ?thesis by simp
qed

text \<open>What falls out of the window is outlived by newer entries and newer days.\<close>

lemma outside_window:
  assumes sorted: "sorted_wrt (\<lambda>x y. t y \<le> (t x :: int)) xs" and x: "x \<in> set xs" "x \<notin> set (window day n xs)" and dist: "distinct xs"
  shows "n \<le> card {y \<in> set (window day n xs). t x \<le> t y}"
    "(\<exists>y \<in> set (window day n xs). day y = day x \<and> t x \<le> t y) \<or> n \<le> card {d \<in> day ` set (window day n xs). day x < d}"
proof -
  have tk: "set (take n xs) \<subseteq> set (window day n xs)" by (simp add: window_def)
  have drp: "x \<in> set (drop n xs)" using x tk by (metis Un_iff append_take_drop_id set_append subsetD)
  have "sorted_wrt (\<lambda>x y. t y \<le> t x) (take n xs @ drop n xs)" using sorted by simp
  then have newer: "t x \<le> t y" if "y \<in> set (take n xs)" for y using that drp unfolding sorted_wrt_append by blast
  have "n < length xs" using drp by (metis drop_all empty_iff empty_set not_le)
  then have "card (set (take n xs)) = n" using dist by (simp add: distinct_card distinct_take)
  moreover have "card (set (take n xs)) \<le> card {y \<in> set (window day n xs). t x \<le> t y}"
    using tk newer by (intro card_mono) auto
  ultimately show "n \<le> card {y \<in> set (window day n xs). t x \<le> t y}" by simp
  show "(\<exists>y \<in> set (window day n xs). day y = day x \<and> t x \<le> t y) \<or> n \<le> card {d \<in> day ` set (window day n xs). day x < d}"
  proof (cases "card (later_days day xs x) < n")
    case True
    obtain y where y: "List.find (\<lambda>y. day y = day x) xs = Some y"
      using x(1) by (cases "List.find (\<lambda>y. day y = day x) xs") (auto simp: find_None_iff)
    then have "day y = day x" by (auto dest: find_Some_mem)
    moreover then have "y \<in> set (window day n xs)" using y True by (simp add: window_iff later_days_def)
    ultimately show ?thesis using find_newest [OF sorted y x(1)] by auto
  qed (use newest_days_kept [OF x(1)] in blast)
qed

section \<open>Pruning\<close>

definition shrunk :: "backup_root \<Rightarrow> backup_root \<Rightarrow> bool" where
  "shrunk r u \<longleftrightarrow> (\<forall>k. node_of u k = node_of r k \<or> node_of u k = None)"

lemma shrunk_refl [simp]: "shrunk r r"
  by (simp add: shrunk_def)

lemma shrunk_drop: "shrunk r u \<Longrightarrow> shrunk r (drop_file k u)"
  by (auto simp: shrunk_def backup_simps)

lemma runs_prune_one: "shrunk r u \<Longrightarrow> runs (shrunk r) (\<lambda>_. shrunk r) (\<lambda>_. shrunk r) (prune_one stuck k) u"
  unfolding prune_one_def by (auto intro!: runs_now runs_ret runs_bind runs_step shrunk_drop)

lemma runs_prune_all: "shrunk r u \<Longrightarrow> runs (shrunk r) (\<lambda>_. shrunk r) (\<lambda>_. shrunk r) (prune_all stuck ks) u"
proof (induction ks arbitrary: u)
  case (Cons k ks)
  show ?case unfolding prune_all.simps by (rule runs_seq [OF runs_prune_one [OF Cons.prems]]) (rule Cons.IH)
qed (simp add: runs_ret)

lemma runs_prune: "runs (shrunk r) (\<lambda>_. shrunk r) (\<lambda>_. shrunk r) (retention_prune stuck dir n) r"
  using runs_prune_all [OF shrunk_refl] by (simp add: retention_prune_def runs_def raise_s_def)

text \<open>Files that cannot be deleted apart: the pruned pairs are gone, the rest is as it was.\<close>

lemma prune_all_result:
  assumes "\<And>k. k \<in> set ks \<Longrightarrow> \<not> stuck k \<and> \<not> stuck (json_beside k)"
  shows "\<exists>t. prune_all stuck ks r = (Inr (), foldl (\<lambda>r k. drop_file (json_beside k) (drop_file k r)) r ks, t)"
  using assms
proof (induction ks arbitrary: r)
  case (Cons k ks)
  have "prune_one stuck k r = (Inr (), drop_file (json_beside k) (drop_file k r), [drop_file k r, drop_file (json_beside k) (drop_file k r)])"
    using Cons.prems [of k] by (simp add: prune_one_def bind_s_def step_s_def)
  moreover obtain t where "prune_all stuck ks (drop_file (json_beside k) (drop_file k r)) =
      (Inr (), foldl (\<lambda>r k. drop_file (json_beside k) (drop_file k r)) (drop_file (json_beside k) (drop_file k r)) ks, t)"
    using Cons.IH [of "drop_file (json_beside k) (drop_file k r)"] Cons.prems by auto
  ultimately show ?case by (simp add: bind_s_def)
qed (simp add: ret_s_def)

definition pruned :: "file_key list \<Rightarrow> file_key \<Rightarrow> bool" where
  "pruned ks q \<longleftrightarrow> (\<exists>k \<in> set ks. q = k \<or> q = json_beside k)"

lemma files_foldl_drop:
  "br_files (foldl (\<lambda>r k. drop_file (json_beside k) (drop_file k r)) r ks) = filter (\<lambda>x. \<not> pruned ks (fst x)) (br_files r)"
proof (induction ks arbitrary: r)
  case (Cons k ks)
  have "pruned (k # ks) q \<longleftrightarrow> q = k \<or> q = json_beside k \<or> pruned ks q" for q by (auto simp: pruned_def)
  then show ?case using Cons by (auto simp: drop_file_def intro: filter_cong)
qed (simp add: pruned_def)

end
