(* ===== verification/OC_Backup_Verify.thy ===== *)
theory OC_Backup_Verify
  imports OC_Backup_Window
begin

text \<open>
  Published artifacts verify: what creation, pruning and staging do to the verdict on every
  artifact, at every root they pass.
\<close>

section \<open>Verified artifacts\<close>

lemma inspect_bytes_cong:
  "be_report e' = be_report e \<Longrightarrow> be_sha256 e' = be_sha256 e \<Longrightarrow> inspect_bytes e' c = inspect_bytes e c"
  by (simp add: inspect_bytes_def Let_def split: option.split)

lemma inspect_backup_cong:
  "be_report e' = be_report e \<Longrightarrow> be_sha256 e' = be_sha256 e \<Longrightarrow> inspect_backup e' k r = inspect_backup e k r"
  unfolding inspect_backup_def using inspect_bytes_cong [of e' e] by (auto split: option.split backup_node.split)

lemma verify_backup_cong:
  assumes "be_report e' = be_report e" "be_sha256 e' = be_sha256 e"
  shows "verify_backup e' aid r = verify_backup e aid r"
  unfolding verify_backup_def using inspect_backup_cong [OF assms] by (simp split: sum.split option.split)

lemma agrees_manifest:
  assumes "inspect_bytes e c = Inr found"
  shows "agrees (manifest_fields e' kind found) found"
  using assms by (auto simp: inspect_bytes_def Let_def agrees_def manifest_fields_def json_get_def split: if_splits option.splits)

definition verifies :: "backup_env \<Rightarrow> backup_root \<Rightarrow> string \<Rightarrow> bool" where
  "verifies e r aid \<longleftrightarrow> (\<forall>m. load_manifest aid r = Inr m \<longrightarrow>
     verify_backup e aid r = Inr (filter (\<lambda>x. fst x \<noteq> ''verified'') m @ [(''verified'', JBool True)]))"

lemma published_loads:
  assumes "published_as kind (backup_name e) r c (manifest_fields e kind found) u" "inspect_bytes e c = Inr found" "artifact_name (backup_name e)"
  defines "aid \<equiv> artifact_id kind (backup_name e)"
  shows "load_manifest aid u = Inr (manifest_fields e kind found)" "verifies e u aid" "snapshot_bytes aid u = c"
proof -
  have name: "length (backup_name e) = 35" using assms(3) by (simp add: artifact_name_def)
  note keys = owner_keys [OF name]
  have nodes: "node_of u (db_key kind (backup_name e)) = Some (Snapshot c)"
    "node_of u (manifest_key kind (backup_name e)) = Some (Json (JObj (manifest_fields e kind found)))"
    "node_of u (beside (db_key kind (backup_name e)) ''-wal'') = None" "node_of u (beside (db_key kind (backup_name e)) ''-shm'') = None"
    using making_node [OF assms(1) [unfolded published_as_def]] by (simp_all add: own_keys [OF name] keys)
  have split: "split_id aid = Some (kind, backup_name e)" unfolding aid_def by (rule split_id_artifact [OF assms(3)])
  have "json_get (manifest_fields e kind found) ''artifact_id'' = JStr aid" by (simp add: manifest_fields_def json_get_def aid_def)
  then show load: "load_manifest aid u = Inr (manifest_fields e kind found)" by (simp add: load_manifest_def split nodes)
  have "inspect_backup e (db_key kind (backup_name e)) u = Inr found" by (simp add: inspect_backup_def nodes assms(2))
  then show "verifies e u aid" using load agrees_manifest [OF assms(2)] by (simp add: verifies_def verify_backup_def split)
  show "snapshot_bytes aid u = c" by (simp add: snapshot_bytes_def split nodes)
qed

definition all_verify :: "backup_env \<Rightarrow> backup_root \<Rightarrow> bool" where
  "all_verify e r \<longleftrightarrow> (\<forall>aid. verifies e r aid)"

lemma elsewhere_verifies:
  assumes "elsewhere_same kind name r u" "all_verify e r" "split_id aid = Some (kind', name')" "own kind' name' \<noteq> own kind name"
  shows "verifies e u aid"
proof -
  have "same_artifact kind' name' r u" using assms(1,4) unfolding same_artifact_def elsewhere_same_def own_def by auto
  then show ?thesis using same_artifact_verdict [OF assms(3)] assms(2) by (simp add: verifies_def all_verify_def)
qed

lemma all_verifyI:
  assumes "elsewhere_same kind name r u" "all_verify e r" "artifact_name name \<Longrightarrow> verifies e u (artifact_id kind name)"
  shows "all_verify e u"
  unfolding all_verify_def
proof
  fix aid
  show "verifies e u aid"
  proof (cases "split_id aid")
    case None
    then show ?thesis by (simp add: verifies_def load_manifest_def)
  next
    case (Some p)
    then obtain k n where s: "split_id aid = Some (k, n)" by (cases p) auto
    show ?thesis
    proof (cases "own k n = own kind name")
      case True
      then have "k = kind" "n = name" by (simp_all add: own_def)
      moreover have "artifact_name n" using s by (auto simp: split_id_def split: if_splits)
      ultimately show ?thesis using assms(3) split_id_Some(2) [OF s] by simp
    qed (use elsewhere_verifies [OF assms(1,2) s] in blast)
  qed
qed

lemma unpublished_all_verify:
  assumes "unpublished kind name r u" "all_verify e r"
  shows "all_verify e u"
proof -
  obtain F where F: "making kind name r F u" "F ''.json'' = None" using assms(1) by (auto simp: unpublished_def)
  show ?thesis
  proof (rule all_verifyI [OF _ assms(2)])
    show "elsewhere_same kind name r u" using F(1) by (simp add: making_def)
    assume "artifact_name name"
    then have "split_id (artifact_id kind name) = Some (kind, name)" "length name = 35" by (auto simp: split_id_artifact artifact_name_def)
    moreover then have "node_of u (manifest_key kind name) = None" using making_node [OF F(1)] F(2) by (simp add: own_keys owner_keys)
    ultimately show "verifies e u (artifact_id kind name)" by (simp add: verifies_def load_manifest_def)
  qed
qed

lemma created_all_verify:
  assumes "created e' kind r u" "all_verify e r" "be_report e' = be_report e" "be_sha256 e' = be_sha256 e"
  shows "all_verify e u"
proof -
  obtain c found where c: "good_copy e' c found" "published_as kind (backup_name e') r c (manifest_fields e' kind found) u"
    using assms(1) by (auto simp: created_def)
  show ?thesis
  proof (rule all_verifyI [OF _ assms(2)])
    show "elsewhere_same kind (backup_name e') r u" using c(2) by (simp add: published_as_def making_def)
    assume "artifact_name (backup_name e')"
    then have "verifies e' u (artifact_id kind (backup_name e'))" using published_loads(2) c by (simp add: good_copy_def)
    then show "verifies e u (artifact_id kind (backup_name e'))" by (simp add: verifies_def verify_backup_cong [OF assms(3,4)])
  qed
qed

lemma shrunk_all_verify:
  assumes "shrunk r u" "all_verify e r"
  shows "all_verify e u"
  unfolding all_verify_def verifies_def
proof (intro allI impI)
  fix aid m assume m: "load_manifest aid u = Inr m"
  then obtain kind name where s: "split_id aid = Some (kind, name)" by (auto simp: load_manifest_def split: option.splits)
  have sub: "node_of u k \<noteq> None \<Longrightarrow> node_of u k = node_of r k" for k using assms(1) by (auto simp: shrunk_def simp del: split_paired_All)
  have "plain_file (node_of u (db_key kind name))" "plain_file (node_of u (manifest_key kind name))"
    using m s by (auto simp: load_manifest_def split: if_splits)
  then have same: "node_of r (db_key kind name) = node_of u (db_key kind name)" "node_of r (manifest_key kind name) = node_of u (manifest_key kind name)"
    using sub by (metis plain_file.simps(1))+
  have r: "load_manifest aid r = Inr m" using m by (simp only: load_manifest_def s same option.case prod.case)
  then have v: "verify_backup e aid r = Inr (filter (\<lambda>x. fst x \<noteq> ''verified'') m @ [(''verified'', JBool True)])"
    using assms(2) by (simp add: all_verify_def verifies_def)
  then obtain actual where a: "inspect_backup e (db_key kind name) r = Inr actual"
    by (auto simp: verify_backup_def r s split: sum.splits)
  have side: "node_of u k \<in> {None, Some (Link False)}" if "node_of r k \<in> {None, Some (Link False)}" for k
    using sub [of k] that by (cases "node_of u k = None") simp_all
  have "inspect_backup e (db_key kind name) u = inspect_backup e (db_key kind name) r"
    using a side unfolding inspect_backup_def same by (simp only: split: if_splits) blast+
  then have "inspect_backup e (db_key kind name) u = Inr actual" using a by simp
  then show "verify_backup e aid u = Inr (filter (\<lambda>x. fst x \<noteq> ''verified'') m @ [(''verified'', JBool True)])"
    using v a by (simp add: verify_backup_def s m r)
qed

section \<open>Staging\<close>

definition catalog_same :: "backup_root \<Rightarrow> backup_root \<Rightarrow> bool" where
  "catalog_same r u \<longleftrightarrow> node_of u = node_of r"

lemma catalog_same_upd [simp]:
  "catalog_same r (stage_put f c u) = catalog_same r u" "catalog_same r (stage_drop f u) = catalog_same r u"
  "catalog_same r (u\<lparr>br_stage_dir := d\<rparr>) = catalog_same r u" "catalog_same r r"
  by (simp_all add: catalog_same_def backup_simps)

lemma catalog_same_verdict:
  assumes "catalog_same r u"
  shows "load_manifest aid u = load_manifest aid r" "verify_backup e aid u = verify_backup e aid r" "snapshot_bytes aid u = snapshot_bytes aid r"
  unfolding load_manifest_def verify_backup_def inspect_backup_def snapshot_bytes_def assms [unfolded catalog_same_def] by (rule refl)+

lemma catalog_same_all_verify: "catalog_same r u \<Longrightarrow> all_verify e r \<Longrightarrow> all_verify e u"
  by (simp add: all_verify_def verifies_def catalog_same_verdict)

definition staged_names :: "backup_root \<Rightarrow> string list" where
  "staged_names r = filter (suffix ''.db'') (map fst (br_stage r))"

text \<open>
  Every root on the way has the same catalog, and in the stage directory no more database files
  than before; a run that returns has put exactly one there, with the bytes of the artifact.
\<close>

definition staging :: "string \<Rightarrow> backup_root \<Rightarrow> backup_root \<Rightarrow> bool" where
  "staging aid r u \<longleftrightarrow> catalog_same r u \<and>
     (\<forall>f \<in> set (staged_names u). f \<in> set (staged_names r) \<or> map_of (br_stage u) f = Some (snapshot_bytes aid r))"

lemma staged_put [simp]: "set (staged_names (stage_put f c r)) = (set (staged_names r) - {f}) \<union> (if suffix ''.db'' f then {f} else {})"
  by (auto simp: staged_names_def stage_put_def)

lemma staged_drop [simp]: "set (staged_names (stage_drop f r)) = set (staged_names r) - {f}"
  by (auto simp: staged_names_def stage_drop_def)

lemma staged_dir [simp]: "staged_names (u\<lparr>br_stage_dir := d\<rparr>) = staged_names u"
  by (simp add: staged_names_def)

lemma map_of_stage_put [simp]: "map_of (br_stage (stage_put f c r)) g = (if g = f then Some c else map_of (br_stage r) g)"
  by (auto simp: stage_put_def map_add_def map_of_filter_key split: option.split)

lemma map_of_stage_drop [simp]: "map_of (br_stage (stage_drop f r)) g = (if g = f then None else map_of (br_stage r) g)"
  by (simp add: stage_drop_def map_of_filter_key)

definition candidate_file :: "backup_env \<Rightarrow> string" where
  "candidate_file e = ''candidate-'' @ be_token e @ ''.db''"

definition staged :: "backup_env \<Rightarrow> string \<Rightarrow> identity \<Rightarrow> backup_root \<Rightarrow> string \<times> string \<Rightarrow> backup_root \<Rightarrow> bool" where
  "staged e aid current r x u \<longleftrightarrow> catalog_same r u \<and> fst x = candidate_file e \<and> snd x = be_sha256 e (snapshot_bytes aid r) \<and>
     staged_names r = [] \<and> set (staged_names u) = {candidate_file e} \<and> map_of (br_stage u) (candidate_file e) = Some (snapshot_bytes aid r) \<and>
     (\<exists>candidate cmp. restore_plan e aid current r = Inr (candidate, cmp) \<and> cp_stop_reasons cmp = [])"

lemma runs_copy_to_stage:
  assumes temp: "\<not> suffix ''.db'' temp" and u: "catalog_same r u" "br_stage u = br_stage r" "staged_names r = []"
    "restore_plan e aid current r = Inr (candidate, cmp)" "cp_stop_reasons cmp = []"
  shows "runs (staging aid r) (staged e aid current r) (\<lambda>_ u. staging aid r u \<and> set (staged_names u) = set (staged_names r))
    (copy_to_stage e temp candidate (snapshot_bytes aid r)) u"
    (is "runs ?I ?Q ?E _ u")
proof -
  have empty: "set (staged_names u) = {}" using u(2,3) by (simp add: staged_names_def)
  have final: "candidate_file e \<noteq> temp" "suffix ''.db'' (candidate_file e)" using temp by (auto simp: candidate_file_def suffix_def)
  have ok: "staging aid r v \<and> set (staged_names v) = set (staged_names r)" if "catalog_same r v" "set (staged_names v) = {}" for v
    using that u(3) by (simp add: staging_def)
  have clean: "runs ?I (\<lambda>_ u. staging aid r u \<and> set (staged_names u) = set (staged_names r)) (\<lambda>_ u. staging aid r u \<and> set (staged_names u) = set (staged_names r)) (step_s (stage_drop temp)) v"
    if "catalog_same r v" "set (staged_names v) = {}" for v
    using that ok [of "stage_drop temp v"] by (intro runs_step) simp_all
  have torn: "catalog_same r (stage_put temp x u)" "set (staged_names (stage_put temp x u)) = {}" for x
    using u(1) empty temp by simp_all
  have whole: "catalog_same r (stage_put temp y (stage_put temp x u))" "set (staged_names (stage_put temp y (stage_put temp x u))) = {}" for x y
    using torn temp by simp_all
  have installed: "staging aid r v" "staged e aid current r (candidate_file e, be_sha256 e (snapshot_bytes aid r)) v"
    if "v = stage_put (candidate_file e) (snapshot_bytes aid r) (stage_drop temp (stage_put temp y (stage_put temp x u)))" for v x y
    using that empty final u by (simp_all add: staging_def staged_def)
  let ?C = "\<lambda>_. runs ?I (\<lambda>_ u. staging aid r u \<and> set (staged_names u) = set (staged_names r)) (\<lambda>_ u. staging aid r u \<and> set (staged_names u) = set (staged_names r)) (step_s (stage_drop temp))"
  have checked: "runs ?I ?Q ?C (case inspect_bytes e (snapshot_bytes aid r) of
              Inl err \<Rightarrow> raise_s err
            | Inr actual \<Rightarrow>
                bind_s (guard_s (\<lambda>_. agrees candidate actual) ''Staged candidate differs from verified backup'') (\<lambda>_.
                bind_s (step_s (\<lambda>r. stage_put (candidate_file e) (snapshot_bytes aid r') (stage_drop temp r))) (\<lambda>_.
                ret_s (candidate_file e, be_sha256 e (snapshot_bytes aid r))))) (stage_put temp y (stage_put temp x u))" if "r' = r" for r' x y
  proof (cases "inspect_bytes e (snapshot_bytes aid r)")
    case (Inl err)
    show ?thesis unfolding Inl sum.case by (rule runs_raise, rule clean [OF whole])
  next
    case (Inr actual)
    show ?thesis unfolding Inr sum.case \<open>r' = r\<close>
      by (rule runs_bind, rule runs_guard, rule runs_bind, rule runs_step, rule installed(1) [OF refl], rule runs_ret, rule installed(2) [OF refl])
         (rule clean [OF whole])
  qed
  have I: "?I v" if "catalog_same r v" "set (staged_names v) = {}" for v using ok [OF that] by blast
  show ?thesis unfolding copy_to_stage_def Let_def candidate_file_def [symmetric]
    by (rule runs_on_raise, rule runs_bind, rule runs_step, rule I [OF torn], rule runs_bind, rule runs_guard, rule runs_bind,
        rule runs_step, rule I [OF whole], rule checked [OF refl])
       (rule clean [OF torn])
qed

lemma runs_stage:
  assumes temp: "\<not> suffix ''.db'' temp"
  shows "runs (staging aid r) (staged e aid current r) (\<lambda>_ u. staging aid r u \<and> set (staged_names u) = set (staged_names r)) (restore_stage e temp aid current) r"
    (is "runs ?I ?Q ?E _ r")
proof -
  have none: "staged_names u = []" if "\<not> list_ex (\<lambda>x. suffix ''.db'' (fst x)) (br_stage u)" for u
    using that by (auto simp: staged_names_def list_ex_iff filter_empty_conv)
  have same: "staging aid r u \<and> set (staged_names u) = set (staged_names r)" if "catalog_same r u" "br_stage u = br_stage r" for u
    using that by (simp add: staging_def staged_names_def)
  have copy: "runs ?I ?Q ?E (bind_s (read_s (snapshot_bytes aid)) (\<lambda>c. copy_to_stage e temp candidate c)) u"
    if "catalog_same r u" "br_stage u = br_stage r" "\<not> list_ex (\<lambda>x. suffix ''.db'' (fst x)) (br_stage u)"
      "restore_plan e aid current r = Inr (candidate, cmp)" "cp_stop_reasons cmp = []" for u candidate cmp
    using runs_copy_to_stage [OF temp that(1,2) _ that(4,5)] none [OF that(3)] that(1,2)
    by (intro runs_bind runs_read) (simp add: catalog_same_verdict staged_names_def)
  have after_dir: "runs ?I ?Q ?E
     (bind_s (guard_s (\<lambda>r. br_stage_dir r \<noteq> LinkDir \<and> \<not> list_ex (\<lambda>x. suffix ''.db'' (fst x)) (br_stage r)) ''A restore candidate is already staged'') (\<lambda>_.
      bind_s (guard_s (\<lambda>_. json_int (json_get candidate ''size_bytes'') + MIN_FREE_MARGIN \<le> be_free e) ''Insufficient free space to stage restore candidate'') (\<lambda>_.
      bind_s (read_s (snapshot_bytes aid)) (\<lambda>c. copy_to_stage e temp candidate c)))) u"
    if u: "catalog_same r u" "br_stage u = br_stage r" and "restore_plan e aid current r = Inr (candidate, cmp)" "cp_stop_reasons cmp = []" for u candidate cmp
    by ((rule runs_bind, rule runs_guard)+, rule copy [OF u _ that(3,4)]) (use same [OF u] in auto)
  have planned: "runs ?I ?Q ?E (bind_s (guard_s (\<lambda>_. cp_stop_reasons cmp = []) ''Refusing to stage'') (\<lambda>_.
         bind_s (\<lambda>r. if br_stage_dir r = NoDir then step_s (\<lambda>r. r\<lparr>br_stage_dir := RealDir\<rparr>) r else ret_s () r) (\<lambda>_.
         bind_s (guard_s (\<lambda>r. br_stage_dir r \<noteq> LinkDir \<and> \<not> list_ex (\<lambda>x. suffix ''.db'' (fst x)) (br_stage r))
           ''A restore candidate is already staged'') (\<lambda>_.
         bind_s (guard_s (\<lambda>_. json_int (json_get candidate ''size_bytes'') + MIN_FREE_MARGIN \<le> be_free e)
           ''Insufficient free space to stage restore candidate'') (\<lambda>_.
         bind_s (read_s (snapshot_bytes aid)) (\<lambda>c. copy_to_stage e temp candidate c)))))) r"
    if plan: "restore_plan e aid current r = Inr (candidate, cmp)" for candidate cmp
  proof (rule runs_bind, rule runs_guard, rule runs_seq [where R = "\<lambda>_ u. catalog_same r u \<and> br_stage u = br_stage r"])
    show "runs ?I (\<lambda>_ u. catalog_same r u \<and> br_stage u = br_stage r) ?E
        (\<lambda>r. if br_stage_dir r = NoDir then step_s (\<lambda>r. r\<lparr>br_stage_dir := RealDir\<rparr>) r else ret_s () r) r"
      by (intro runs_now runs_step runs_ret) (use same in simp_all)
  qed (use same [of r] in \<open>auto intro!: after_dir [OF _ _ plan]\<close>)
  show ?thesis unfolding restore_stage_def
    by (rule runs_bind, rule runs_guard, rule runs_bind, rule runs_read)
       (use same [of r] planned in \<open>auto intro!: runs_raise split: sum.split\<close>)
qed

end
