(* ===== verification/OC_Backup_Theorems.thy ===== *)
theory OC_Backup_Theorems
  imports OC_Backup_Verify
begin

text \<open>
  The theorems about backups: an artifact that is offered verifies, also after kills in the
  middle of any operation; a published backup holds the copy that was checked, and a failed one
  leaves its evidence; retention keeps the newest snapshots and the newest of each recent day;
  a staged candidate is the verified artifact; and a job counts as a success only when its work
  was done.
\<close>

section \<open>Reachable backup roots\<close>

inductive backups :: "backup_env \<Rightarrow> backup_root \<Rightarrow> bool" for e where
  none: "br_files r = [] \<Longrightarrow> backups e r"
| creation: "backups e r \<Longrightarrow> be_report e' = be_report e \<Longrightarrow> be_sha256 e' = be_sha256 e \<Longrightarrow> unused kind (backup_name e') r \<Longrightarrow>
    create_backup e' kind r = (x, r', t) \<Longrightarrow> u \<in> set (r' # t) \<Longrightarrow> backups e u"
| pruning: "backups e r \<Longrightarrow> retention_prune stuck dir n r = (y, r', t) \<Longrightarrow> u \<in> set (r' # t) \<Longrightarrow> backups e u"
| staging: "backups e r \<Longrightarrow> \<not> suffix ''.db'' temp \<Longrightarrow> restore_stage e' temp aid current r = (z, r', t) \<Longrightarrow> u \<in> set (r' # t) \<Longrightarrow> backups e u"

lemma runs_all:
  assumes "runs I Q E m r" "m r = (x, r', t)" "u \<in> set (r' # t)" "\<And>y u. Q y u \<Longrightarrow> I u" "\<And>err u. E err u \<Longrightarrow> I u"
  shows "I u"
  using assms by (auto simp: runs_def split: sum.splits)

lemma create_failed_unpublished: "create_failed e kind r u \<Longrightarrow> unpublished kind (backup_name e) r u"
  by (auto simp: create_failed_def evidence_def intro!: unpublishedI split: if_splits sum.splits)

lemma backups_all_verify: "backups e r \<Longrightarrow> all_verify e r"
proof (induction rule: backups.induct)
  case (none r)
  then show ?case by (auto simp: all_verify_def verifies_def load_manifest_def node_of_def split: option.splits)
next
  case (creation r e' kind x r' t u)
  have "unpublished kind (backup_name e') r u \<or> created e' kind r u"
    by (rule runs_all [OF runs_create [OF creation.hyps(4)] creation.hyps(5,6)])
       (auto simp: created_def create_failed_unpublished)
  then show ?case using unpublished_all_verify created_all_verify creation by blast
next
  case (pruning r stuck dir n y r' t u)
  have "shrunk r u" by (rule runs_all [OF runs_prune pruning.hyps(2,3)])
  then show ?case using shrunk_all_verify pruning.IH by blast
next
  case (staging r temp e' aid current z r' t u)
  have "catalog_same r u"
    by (rule runs_all [OF runs_mono [OF runs_stage [OF staging.hyps(2)], where I' = "catalog_same r"] staging.hyps(3,4)])
       (auto simp: staging_def staged_def)
  then show ?case using catalog_same_all_verify staging.IH by blast
qed

lemma kind_manifests_load: "data \<in> set (kind_manifests kind r) \<Longrightarrow> \<exists>aid. load_manifest aid r = Inr data"
  by (auto simp: kind_manifests_def List.map_filter_def split: if_splits option.splits sum.splits)

section \<open>Retention\<close>

lemma json_beside_db:
  assumes "suffix ''.db'' (snd k)"
  obtains x where "snd k = x @ ''.db''" "json_beside k = (fst k, x @ ''.json'')"
  using assms that by (auto simp: json_beside_def suffix_def)

lemma json_beside_inj:
  assumes "suffix ''.db'' (snd k)" "suffix ''.db'' (snd k')" "json_beside k = json_beside k'"
  shows "k = k'"
proof -
  obtain x y where "snd k = x @ ''.db''" "json_beside k = (fst k, x @ ''.json'')" "snd k' = y @ ''.db''" "json_beside k' = (fst k', y @ ''.json'')"
    using assms(1,2) by (elim json_beside_db)
  then show ?thesis using assms(3) by (simp add: prod_eq_iff)
qed

lemma json_beside_not_db: "\<not> suffix ''.db'' (snd (json_beside k))"
proof
  assume "suffix ''.db'' (snd (json_beside k))"
  then obtain z x where "x @ ''.json'' = z @ ''.db''" by (auto simp: json_beside_def suffix_def)
  then have "last (x @ ''.json'') = last (z @ ''.db'')" by simp
  then show False by simp
qed

lemma node_of_pruned:
  "node_of (foldl (\<lambda>r k. drop_file (json_beside k) (drop_file k r)) r ks) q = (if pruned ks q then None else node_of r q)"
proof -
  have "map_of (filter (\<lambda>x. \<not> pruned ks (fst x)) xs) q = (if pruned ks q then None else map_of xs q)" for xs :: "(file_key \<times> backup_node \<times> int) list"
    by (induction xs) auto
  then show ?thesis by (simp add: node_of_def files_foldl_drop)
qed

lemma published_after_prune:
  assumes "ks = filter (\<lambda>k. k \<notin> set keep) (retention_candidates dir r)"
  shows "set (published_keys dir (foldl (\<lambda>r k. drop_file (json_beside k) (drop_file k r)) r ks)) = set (published_keys dir r) \<inter> set keep"
    (is "set (published_keys dir ?r) = _")
proof -
  have cand: "set (retention_candidates dir r) = set (published_keys dir r)" by (simp add: retention_candidates_def)
  have db: "suffix ''.db'' (snd k)" if "k \<in> set (published_keys dir r)" for k using that by (auto simp: published_keys_def is_published_def)
  have keys: "fst ` set (br_files ?r) = {q \<in> fst ` set (br_files r). \<not> pruned ks q}" by (auto simp: files_foldl_drop)
  have stays: "\<not> pruned ks k \<and> \<not> pruned ks (json_beside k)" if "k \<in> set (published_keys dir r) \<inter> set keep" for k
  proof -
    have k: "k \<in> set (published_keys dir r)" "k \<in> set keep" using that by auto
    have "k \<noteq> k' \<and> k \<noteq> json_beside k' \<and> json_beside k \<noteq> k' \<and> json_beside k \<noteq> json_beside k'" if "k' \<in> set ks" for k'
    proof -
      have k': "k' \<in> set (published_keys dir r)" "k' \<notin> set keep" using that cand assms by auto
      then have "k \<noteq> k'" using k by blast
      then show ?thesis using db [OF k(1)] db [OF k'(1)] json_beside_not_db [of k] json_beside_not_db [of k'] json_beside_inj [of k k'] by metis
    qed
    then show ?thesis unfolding pruned_def by blast
  qed
  have goes: "pruned ks k" if "k \<in> set (published_keys dir r) - set keep" for k
  proof -
    have "k \<in> set ks" using that cand assms by simp
    then show ?thesis unfolding pruned_def by blast
  qed
  have shrink: "is_file_node (node_of ?r q) \<longleftrightarrow> \<not> pruned ks q \<and> is_file_node (node_of r q)" for q by (simp add: node_of_pruned)
  have "k \<in> set (published_keys dir ?r) \<longleftrightarrow> k \<in> set (published_keys dir r) \<and> \<not> pruned ks k \<and> \<not> pruned ks (json_beside k)" for k
    using keys shrink by (auto simp: published_keys_def is_published_def simp del: split_paired_Ex)
  then show ?thesis using stays goes by blast
qed

section \<open>Digests\<close>

lemma json_get_verified: "k \<noteq> ''verified'' \<Longrightarrow> json_get (filter (\<lambda>x. fst x \<noteq> ''verified'') kvs @ [(''verified'', v)]) k = json_get kvs k"
  by (induction kvs) (auto simp: json_get_def)

lemma verified_sha:
  assumes "verify_backup e aid r = Inr m"
  shows "json_get m ''sha256'' = JStr (be_sha256 e (snapshot_bytes aid r))"
proof -
  obtain expected kind name actual where parts: "split_id aid = Some (kind, name)" "inspect_backup e (db_key kind name) r = Inr actual"
    "agrees expected actual" "m = filter (\<lambda>x. fst x \<noteq> ''verified'') expected @ [(''verified'', JBool True)]"
    using assms by (auto simp: verify_backup_def split: sum.splits option.splits if_splits)
  then obtain c where c: "node_of r (db_key kind name) = Some (Snapshot c)" "inspect_bytes e c = Inr actual"
    by (auto simp: inspect_backup_def split: if_splits option.splits backup_node.splits)
  then have "(''sha256'', JStr (be_sha256 e c)) \<in> set actual"
    by (auto simp: inspect_bytes_def Let_def split: if_splits option.splits)
  then have "same_value (json_get expected ''sha256'') (JStr (be_sha256 e c))" using parts(3) by (auto simp: agrees_def list_all_iff)
  then have "json_get expected ''sha256'' = JStr (be_sha256 e c)" by (cases "json_get expected ''sha256''") simp_all
  then show ?thesis using parts(1,4) c(1) by (simp add: json_get_verified snapshot_bytes_def)
qed

section \<open>The jobs\<close>

lemma select_has_newest:
  assumes "published \<noteq> []"
  shows "snd (last published) \<in> set (select_for_push published)"
proof -
  have "last published \<in> set (take CLOUD_WINDOW (rev published))"
    using assms by (cases "rev published") (auto simp: CLOUD_WINDOW_def hd_rev [symmetric])
  then have "last published \<in> set (window (\<lambda>x. day_of (fst x)) CLOUD_WINDOW (rev published))" by (simp add: window_iff)
  then show ?thesis using assms by (auto simp: select_for_push_def Let_def)
qed

lemma select_subset: "set (select_for_push published) \<subseteq> snd ` set published"
  by (auto simp: select_for_push_def Let_def)

lemma remote_ok_start: "remote_ok s \<Longrightarrow> s \<noteq> [] \<and> hd s \<noteq> CHR '':''"
  by (cases s) (auto simp: remote_ok_def Let_def remote_name_char_def)

section \<open>A small backup root\<close>

definition sample_env :: backup_env where
  "sample_env =
     \<lparr>be_acquired = True, be_require_existing_root = False, be_root_ok = False, be_db_size = 100, be_free = 4000000,
      be_stamp = ''20260101T120000000000Z'', be_token = ''0123456789ab'', be_created_at = ''2026-01-01T12:00:00+00:00'', be_mtime = 1000,
      be_copy = Inr ''db'', be_torn = ''d'', be_quick_check = (\<lambda>_. ''ok''),
      be_report = (\<lambda>_. \<lparr>rp_integrity = ''ok'', rp_foreign_keys = ''ok'', rp_identity = Some (7, [''p1''], 1, 0)\<rparr>),
      be_sha256 = (\<lambda>c. c), be_write_fails = False\<rparr>"

definition empty_root :: backup_root where
  "empty_root = \<lparr>br_files = [], br_dir = (\<lambda>_. NoDir), br_stage = [], br_stage_dir = NoDir\<rparr>"

definition sample_root :: backup_root where
  "sample_root = fst (snd (create_backup sample_env AutoKind empty_root))"

definition sample_id :: string where
  "sample_id = ''auto:20260101T120000000000Z-0123456789ab''"

lemma sample_unused: "unused kind name empty_root"
  by (simp add: unused_def empty_root_def node_of_def)

lemma sample_backups: "backups sample_env sample_root"
proof -
  obtain x r t where run: "create_backup sample_env AutoKind empty_root = (x, r, t)" by (cases "create_backup sample_env AutoKind empty_root")
  have "backups sample_env empty_root" by (rule none) (simp add: empty_root_def)
  from creation [OF this refl refl sample_unused run, of r] show ?thesis by (simp add: sample_root_def run)
qed

text \<open>Three snapshots, two of them of one day.\<close>

definition sample_files :: backup_root where
  "sample_files = empty_root\<lparr>br_files :=
     [((AutoKind, ''a.db''), Snapshot ''a'', 1000), ((AutoKind, ''a.json''), Json JNull, 1000),
      ((AutoKind, ''b.db''), Snapshot ''b'', 90000000000), ((AutoKind, ''b.json''), Json JNull, 90000000000),
      ((AutoKind, ''c.db''), Snapshot ''c'', 90000000001), ((AutoKind, ''c.json''), Json JNull, 90000000001),
      ((AutoKind, ''d.db''), Snapshot ''d'', 90000000002)]\<rparr>"

section \<open>Theorems\<close>

text \<open>
  C24. Whatever backups were made, pruned and staged before, also when processes were killed in
  the middle: every artifact that \<open>list\<close> offers passes \<open>verify\<close>. A snapshot in the making is
  never offered, since its manifest appears in one step after the checks.
\<close>

theorem offered_backups_verify:
  assumes "backups e r" "list_backups repr limit r = Inr offered" "data \<in> set offered"
  shows "\<exists>aid. load_manifest aid r = Inr data \<and>
    verify_backup e aid r = Inr (filter (\<lambda>x. fst x \<noteq> ''verified'') data @ [(''verified'', JBool True)])"
proof -
  have "data \<in> set (kind_manifests AutoKind r @ kind_manifests ManualKind r)"
    using assms(2,3) by (auto simp: list_backups_def split: if_splits dest: in_set_takeD)
  then obtain aid where "load_manifest aid r = Inr data" using kind_manifests_load by fastforce
  moreover then have "verifies e r aid" using backups_all_verify [OF assms(1)] by (simp add: all_verify_def)
  ultimately show ?thesis by (auto simp: verifies_def)
qed

theorem offered_backups_verify_witness:
  "\<exists>data m. list_backups (\<lambda>_. []) 10 sample_root = Inr [data] \<and> load_manifest sample_id sample_root = Inr data \<and> verify_backup sample_env sample_id sample_root = Inr m"
proof -
  have listed: "case list_backups (\<lambda>_. []) 10 sample_root of Inr [data] \<Rightarrow> load_manifest sample_id sample_root = Inr data | _ \<Rightarrow> False" by code_simp
  then obtain data where data: "list_backups (\<lambda>_. []) 10 sample_root = Inr [data]" "load_manifest sample_id sample_root = Inr data"
    by (auto split: sum.splits list.splits)
  then obtain aid m where "load_manifest aid sample_root = Inr data" "verify_backup sample_env aid sample_root = Inr m"
    using offered_backups_verify [OF sample_backups data(1), of data] by auto
  moreover have "aid = sample_id"
    using data(2) \<open>load_manifest aid sample_root = Inr data\<close> by (auto simp: load_manifest_def split: option.splits if_splits backup_node.splits json.splits)
  ultimately show ?thesis using data by blast
qed

text \<open>
  C25. The outcome of \<open>create\<close>. It returns exactly when its conditions hold, SQLite's copy passes
  both checks and the manifest can be written; the artifact then holds that copy and verifies.
  When it raises, neither the database nor the manifest of the artifact exists, and a copy that
  failed a check is kept under its quarantine name. No file of any other artifact changes.
\<close>

theorem create_backup_outcome:
  assumes "unused kind (backup_name e) r" "create_backup e kind r = (x, r', t)"
  defines "aid \<equiv> artifact_id kind (backup_name e)" and "db \<equiv> db_key kind (backup_name e)"
  shows "elsewhere_same kind (backup_name e) r r' \<and>
    ((\<exists>md. x = Inr md) \<longleftrightarrow> can_create e kind r \<and> (\<exists>c found. good_copy e c found) \<and> \<not> be_write_fails e) \<and>
    (case x of
       Inr md \<Rightarrow> load_manifest aid r' = Inr md \<and> verifies e r' aid \<and> be_copy e = Inr (snapshot_bytes aid r')
     | Inl err \<Rightarrow> can_create e kind r \<longrightarrow> node_of r' db = None \<and> node_of r' (manifest_key kind (backup_name e)) = None \<and>
         (\<forall>c. be_copy e = Inr c \<longrightarrow>
            (be_quick_check e c \<noteq> ''ok'' \<longrightarrow> node_of r' (beside db ''.failed-quick-check'') = Some (Snapshot c)) \<and>
            (be_quick_check e c = ''ok'' \<and> (\<nexists>found. inspect_bytes e c = Inr found) \<longrightarrow> node_of r' (beside db ''.failed-verify'') = Some (Snapshot c))))"
proof (cases x)
  case (Inl err)
  have f: "create_failed e kind r r'" by (rule runsD(2) [OF runs_create [OF assms(1)] assms(2) Inl])
  then have m: "making kind (backup_name e) r (if can_create e kind r then evidence e else Map.empty) r'" by (simp add: create_failed_def)
  have "elsewhere_same kind (backup_name e) r r'" using m by (simp add: making_def)
  moreover have "can_create e kind r \<Longrightarrow> good_copy e c found \<Longrightarrow> be_write_fails e" for c found using f by (auto simp: create_failed_def)
  moreover have "node_of r' db = None \<and> node_of r' (manifest_key kind (backup_name e)) = None \<and>
         (\<forall>c. be_copy e = Inr c \<longrightarrow>
            (be_quick_check e c \<noteq> ''ok'' \<longrightarrow> node_of r' (beside db ''.failed-quick-check'') = Some (Snapshot c)) \<and>
            (be_quick_check e c = ''ok'' \<and> (\<nexists>found. inspect_bytes e c = Inr found) \<longrightarrow> node_of r' (beside db ''.failed-verify'') = Some (Snapshot c)))"
    if can: "can_create e kind r"
  proof -
    have name: "length (backup_name e) = 35" using can by (simp add: can_create_def artifact_name_def)
    have node: "node_of r' k = evidence e (tail_of k)" if "owner k = own kind (backup_name e)" for k
      using making_node [OF m that] can by simp
    show ?thesis unfolding db_def
      by (auto simp: node own_keys [OF name] owner_keys [OF name] evidence_def split: sum.splits)
  qed
  ultimately show ?thesis using Inl by auto
next
  case (Inr md)
  obtain c found where c: "good_copy e c found" "md = manifest_fields e kind found" "published_as kind (backup_name e) r c md r'"
    "\<not> be_write_fails e" "can_create e kind r"
    using runsD(3) [OF runs_create [OF assms(1)] assms(2) Inr] by blast
  then have "artifact_name (backup_name e)" "inspect_bytes e c = Inr found" by (simp_all add: can_create_def good_copy_def)
  note loaded = published_loads [OF c(3) [unfolded c(2)] this(2,1)]
  have "elsewhere_same kind (backup_name e) r r'" using c(3) by (simp add: published_as_def making_def)
  moreover have "be_copy e = Inr (snapshot_bytes aid r')" using loaded(3) c(1) by (simp add: aid_def good_copy_def)
  ultimately show ?thesis using Inr c loaded by (auto simp: aid_def)
qed

theorem create_backup_outcome_witness:
  "(\<exists>md r t. create_backup sample_env AutoKind empty_root = (Inr md, r, t) \<and> snapshot_bytes sample_id r = ''db'') \<and>
   (\<exists>err r t. create_backup (sample_env\<lparr>be_quick_check := (\<lambda>_. ''bad'')\<rparr>) AutoKind empty_root = (Inl err, r, t) \<and>
      node_of r (AutoKind, ''openchronicle-20260101T120000000000Z-0123456789ab.db.failed-quick-check'') = Some (Snapshot ''db''))"
proof -
  let ?bad = "sample_env\<lparr>be_quick_check := (\<lambda>_. ''bad'')\<rparr>"
  have "is_ok (create_backup sample_env AutoKind empty_root)" "\<not> is_ok (create_backup ?bad AutoKind empty_root)" by code_simp+
  then obtain md r t err r' t' where run: "create_backup sample_env AutoKind empty_root = (Inr md, r, t)" "create_backup ?bad AutoKind empty_root = (Inl err, r', t')"
    by (cases "create_backup sample_env AutoKind empty_root"; cases "create_backup ?bad AutoKind empty_root")
       (auto simp: is_ok_def split: sum.splits)
  have "artifact_id AutoKind (backup_name sample_env) = sample_id" "be_copy sample_env = Inr ''db''" "can_create ?bad AutoKind empty_root"
    "beside (db_key AutoKind (backup_name ?bad)) ''.failed-quick-check'' = (AutoKind, ''openchronicle-20260101T120000000000Z-0123456789ab.db.failed-quick-check'')"
    "be_copy ?bad = Inr ''db''" "be_quick_check ?bad ''db'' \<noteq> ''ok''" by code_simp+
  then show ?thesis
    using run create_backup_outcome [OF sample_unused run(1)] create_backup_outcome [OF sample_unused run(2)] by simp
qed

text \<open>
  C26. Retention. After a pruning whose deletions work, at most \<open>2 n\<close> published snapshots are left,
  all of them old ones, and no other file has gone. Each pruned snapshot is outlived
  by \<open>n\<close> snapshots that are at least as new, and either by one of its own day that is, or by snapshots of
  \<open>n\<close> later days.
\<close>

theorem retention_keeps_window:
  assumes "distinct (map fst (br_files r))" "\<forall>k. \<not> stuck k" "\<forall>k \<in> set (published_keys dir r). node_of r k \<noteq> Some (Link False)"
    "retention_prune stuck dir n r = (x, r', t)"
  defines "kept \<equiv> set (published_keys dir r')"
  shows "x = Inr () \<and> kept \<subseteq> set (published_keys dir r) \<and> card kept \<le> 2 * n \<and>
    (\<forall>q. q \<notin> set (published_keys dir r) \<union> json_beside ` set (published_keys dir r) \<longrightarrow> node_of r' q = node_of r q) \<and>
    (\<forall>k \<in> set (published_keys dir r) - kept.
       n \<le> card {k' \<in> kept. mtime_of r k \<le> mtime_of r k'} \<and>
       ((\<exists>k' \<in> kept. day_of (mtime_of r k') = day_of (mtime_of r k) \<and> mtime_of r k \<le> mtime_of r k') \<or>
        n \<le> card {d \<in> (\<lambda>k'. day_of (mtime_of r k')) ` kept. day_of (mtime_of r k) < d}))"
proof -
  let ?day = "\<lambda>k. day_of (mtime_of r k)" and ?xs = "retention_candidates dir r"
  let ?ks = "filter (\<lambda>k. k \<notin> set (keep_set n dir r)) ?xs"
  have cand: "set ?xs = set (published_keys dir r)" by (simp add: retention_candidates_def)
  have "\<not> list_ex (\<lambda>k. node_of r k = Some (Link False)) (published_keys dir r)" using assms(3) by (simp add: list_ex_iff)
  then have run: "prune_all stuck ?ks r = (x, r', t)" using assms(4) by (simp add: retention_prune_def)
  have fold: "x = Inr ()" "r' = foldl (\<lambda>r k. drop_file (json_beside k) (drop_file k r)) r ?ks"
    using prune_all_result [of ?ks stuck r] assms(2) run by (auto simp del: split_paired_All)
  have sub: "set (keep_set n dir r) \<subseteq> set ?xs" unfolding keep_set_def by (rule window_subset)
  then have kept: "kept = set (keep_set n dir r)"
    using published_after_prune [OF refl, of dir r "keep_set n dir r"] fold(2) cand unfolding kept_def by auto
  have dist: "distinct ?xs"
    using assms(1) distinct_sort_desc [of "\<lambda>k. k" "mtime_of r" "published_keys dir r"] by (simp add: retention_candidates_def published_keys_def)
  have sorted: "sorted_wrt (\<lambda>x y. mtime_of r y \<le> mtime_of r x) ?xs" unfolding retention_candidates_def by (rule sort_desc_sorted)
  have unch: "node_of r' q = node_of r q" if "q \<notin> set (published_keys dir r) \<union> json_beside ` set (published_keys dir r)" for q
  proof -
    have "\<not> pruned ?ks q" using that cand unfolding pruned_def by auto
    then show ?thesis by (simp add: fold(2) node_of_pruned)
  qed
  have "n \<le> card {k' \<in> kept. mtime_of r k \<le> mtime_of r k'} \<and>
       ((\<exists>k' \<in> kept. ?day k' = ?day k \<and> mtime_of r k \<le> mtime_of r k') \<or> n \<le> card {d \<in> ?day ` kept. ?day k < d})"
    if "k \<in> set (published_keys dir r) - kept" for k
    using outside_window [OF sorted, of k ?day n] that cand dist kept unfolding keep_set_def by blast
  then show ?thesis using fold(1) sub cand kept unch card_window [of ?day n ?xs] unfolding keep_set_def by blast
qed

theorem retention_keeps_window_witness:
  "\<exists>r t. retention_prune (\<lambda>_. False) AutoKind 1 sample_files = (Inr (), r, t) \<and>
     published_keys AutoKind r = [(AutoKind, ''c.db'')] \<and> node_of r (AutoKind, ''d.db'') = Some (Snapshot ''d'') \<and> node_of r (AutoKind, ''a.db'') = None"
proof -
  obtain x r t where run: "retention_prune (\<lambda>_. False) AutoKind 1 sample_files = (x, r, t)"
    by (cases "retention_prune (\<lambda>_. False) AutoKind 1 sample_files")
  have "published_keys AutoKind (fst (snd (retention_prune (\<lambda>_. False) AutoKind 1 sample_files))) = [(AutoKind, ''c.db'')]"
    "node_of (fst (snd (retention_prune (\<lambda>_. False) AutoKind 1 sample_files))) (AutoKind, ''a.db'') = None" by code_simp+
  moreover have "distinct (map fst (br_files sample_files))" "published_keys AutoKind sample_files = [(AutoKind, ''a.db''), (AutoKind, ''b.db''), (AutoKind, ''c.db'')]"
    "list_all (\<lambda>k. node_of sample_files k \<noteq> Some (Link False)) (published_keys AutoKind sample_files)"
    "json_beside (AutoKind, ''a.db'') = (AutoKind, ''a.json'')" "json_beside (AutoKind, ''b.db'') = (AutoKind, ''b.json'')"
    "json_beside (AutoKind, ''c.db'') = (AutoKind, ''c.json'')" "node_of sample_files (AutoKind, ''d.db'') = Some (Snapshot ''d'')" by code_simp+
  ultimately show ?thesis
    using run retention_keeps_window [OF _ _ _ run] by (auto simp: list_all_iff)
qed

text \<open>
  Staging a restore candidate. The catalog of backups never changes. When it returns, the
  artifact has passed verification and is not refused as newer or foreign, the stage directory
  was empty of candidates and now has exactly one, which is the artifact byte for byte, under a
  name that the offline helper accepts and with the digest of its manifest. When it raises, no
  candidate appears.
\<close>

lemma restore_stage_exact:
  assumes "\<not> suffix ''.db'' temp" "restore_stage e temp aid current r = (x, r', t)"
  shows "catalog_same r r' \<and>
    (case x of
       Inl err \<Rightarrow> set (staged_names r') = set (staged_names r)
     | Inr (f, sha) \<Rightarrow> staged_names r = [] \<and> set (staged_names r') = {f} \<and> map_of (br_stage r') f = Some (snapshot_bytes aid r) \<and>
         (\<exists>m. verify_backup e aid r = Inr m \<and> json_get m ''sha256'' = JStr sha \<and>
           cp_stop_reasons (compare_candidate m (artifact_project_ids e (snapshot_bytes aid r)) current) = []) \<and>
         (length (be_token e) = 24 \<and> list_all lower_hex (be_token e) \<longrightarrow> candidate_name f))"
proof (cases x)
  case (Inl err)
  then show ?thesis using runsD(2) [OF runs_stage [OF assms(1)] assms(2) Inl] by (simp add: staging_def)
next
  case (Inr y)
  obtain f sha where y: "y = (f, sha)" by (cases y)
  have st: "staged e aid current r (f, sha) r'" using runsD(3) [OF runs_stage [OF assms(1)] assms(2) Inr] y by simp
  then obtain m cmp where plan: "restore_plan e aid current r = Inr (m, cmp)" "cp_stop_reasons cmp = []" by (auto simp: staged_def)
  then have v: "verify_backup e aid r = Inr m" "cmp = compare_candidate m (artifact_project_ids e (snapshot_bytes aid r)) current"
    by (auto simp: restore_plan_def split: sum.splits)
  have "json_get m ''sha256'' = JStr (be_sha256 e (snapshot_bytes aid r))" by (rule verified_sha [OF v(1)])
  moreover have "candidate_name (candidate_file e)" if "length (be_token e) = 24" "list_all lower_hex (be_token e)"
    using that by (simp add: candidate_name_def candidate_file_def)
  ultimately show ?thesis using Inr y st v plan(2) by (simp add: staged_def)
qed

lemma restore_stage_exact_witness:
  "\<exists>f sha r t. restore_stage (sample_env\<lparr>be_token := ''0123456789abcdef01234567''\<rparr>) ''candidate-x.tmp'' sample_id
       \<lparr>id_schema_version = 7, id_project_ids = [''p1'', ''p2''], id_memory_count = 5\<rparr> sample_root = (Inr (f, sha), r, t) \<and>
     map_of (br_stage r) f = Some ''db'' \<and> candidate_name f"
proof -
  let ?e = "sample_env\<lparr>be_token := ''0123456789abcdef01234567''\<rparr>" and ?id = "\<lparr>id_schema_version = 7, id_project_ids = [''p1'', ''p2''], id_memory_count = 5\<rparr>"
  have "is_ok (restore_stage ?e ''candidate-x.tmp'' sample_id ?id sample_root)" by code_simp
  then obtain f sha r t where run: "restore_stage ?e ''candidate-x.tmp'' sample_id ?id sample_root = (Inr (f, sha), r, t)"
    by (cases "restore_stage ?e ''candidate-x.tmp'' sample_id ?id sample_root") (auto simp: is_ok_def split: sum.splits)
  have "\<not> suffix ''.db'' ''candidate-x.tmp''" "snapshot_bytes sample_id sample_root = ''db''"
    "length (be_token ?e) = 24 \<and> list_all lower_hex (be_token ?e)" by code_simp+
  then show ?thesis using run restore_stage_exact [OF _ run] by simp
qed

text \<open>
  The offsite copy. Nothing goes offsite unless the job succeeds, and it succeeds only with a
  remote in plain \<open>name:path\<close> form and with recipients to encrypt to. Then the newest published
  snapshot is at most 26 hours old and not from the future, it is among the files that went
  offsite, every snapshot that went was verified and went with its manifest, and every call of
  \<open>age\<close> and \<open>rclone\<close> had exit code 0.
\<close>

lemma cloud_backup_success:
  assumes "cloud_backup (read_cloud_backup_config remote_var recipients_var) ce e r = (x, pushed)"
  shows "(\<not> succeeded x \<longrightarrow> pushed = []) \<and>
    (succeeded x \<longrightarrow>
      (\<exists>remote recipients. read_cloud_backup_config remote_var recipients_var = \<lparr>cc_enabled = True, cc_remote = remote, cc_recipients = recipients, cc_problem = None\<rparr> \<and>
         remote_ok remote \<and> recipients \<noteq> []) \<and> ce_rclone ce = 0 \<and> (\<forall>k \<in> set pushed. ce_age ce k = 0) \<and>
      (\<exists>published selected. published = published_snapshots (ce_stamps ce) r \<and> published \<noteq> [] \<and>
         ce_now ce - CLOUD_SOURCE_MAX_AGE \<le> fst (last published) \<and> fst (last published) \<le> ce_now ce + CLOUD_CLOCK_SKEW \<and>
         snd (last published) \<in> set selected \<and> set selected \<subseteq> snd ` set published \<and> set pushed = set selected \<union> json_beside ` set selected \<and>
         (\<forall>k \<in> set selected. \<exists>m. verify_backup e (''auto:'' @ stem_of k) r = Inr m)))"
proof -
  let ?cfg = "read_cloud_backup_config remote_var recipients_var" and ?published = "published_snapshots (ce_stamps ce) r"
  have skipped: "\<not> succeeded (Returned (JObj [(''skipped'', JInt 1), (''reason'', JStr ''OC_CLOUD_REMOTE is unset'')]))"
    by (simp add: succeeded_def job_result_is_skipped_def json_get_def)
  have raised: "\<not> succeeded (Raised msg)" for msg by (simp add: succeeded_def)
  have push: "\<not> succeeded x \<and> pushed = [] \<or> ce_rclone ce = 0 \<and> (\<forall>k \<in> set pushed. ce_age ce k = 0) \<and> set pushed = set sel \<union> json_beside ` set sel \<and>
      (\<forall>k \<in> set sel. \<exists>m. verify_backup e (''auto:'' @ stem_of k) r = Inr m) \<and> succeeded x"
    if "push_selected ce e sel r = (x, pushed)" for sel
  proof -
    let ?sources = "concat (map (\<lambda>k. [k, json_beside k]) sel)"
    have src: "set ?sources = set sel \<union> json_beside ` set sel" by auto
    have ok: "succeeded (Returned (JObj [(''selected'', j)]))" for j by (simp add: succeeded_def job_result_is_skipped_def json_get_def)
    have good: "\<exists>m. y = Inr m" if "\<not> (case y of Inl _ \<Rightarrow> True | Inr _ \<Rightarrow> False)" for y :: "string + (string \<times> json) list"
      using that by (cases y) simp_all
    show ?thesis
    proof (cases "list_ex (\<lambda>k. case verify_backup e (''auto:'' @ stem_of k) r of Inl _ \<Rightarrow> True | Inr _ \<Rightarrow> False) sel \<or>
        list_ex (\<lambda>k. ce_age ce k \<noteq> 0) ?sources \<or> ce_rclone ce \<noteq> 0")
      case True
      then have "\<exists>msg. x = Raised msg \<and> pushed = []" using that unfolding push_selected_def Let_def by (auto split: if_splits)
      then show ?thesis using raised by blast
    next
      case False
      then have "x = Returned (JObj [(''selected'', JInt (int (length sel)))])" "pushed = ?sources"
        using that unfolding push_selected_def Let_def by auto
      then show ?thesis using False good src ok unfolding list_ex_iff by blast
    qed
  qed
  show ?thesis
  proof (cases "cc_enabled ?cfg \<and> cc_problem ?cfg = None \<and> ?published \<noteq> [] \<and> fst (last ?published) \<le> ce_now ce + CLOUD_CLOCK_SKEW \<and>
      ce_now ce - CLOUD_SOURCE_MAX_AGE \<le> fst (last ?published) \<and> push_selected ce e (select_for_push ?published) r = (x, pushed)")
    case True
    let ?sel = "select_for_push ?published"
    have cfg: "\<exists>remote recipients. ?cfg = \<lparr>cc_enabled = True, cc_remote = remote, cc_recipients = recipients, cc_problem = None\<rparr> \<and> remote_ok remote \<and> recipients \<noteq> []"
      using True by (auto simp: read_cloud_backup_config_def Let_def split: if_splits)
    have sel: "snd (last ?published) \<in> set ?sel" "set ?sel \<subseteq> snd ` set ?published" using True select_has_newest select_subset by blast+
    have run: "push_selected ce e ?sel r = (x, pushed)" using True by (elim conjE)
    show ?thesis
    proof (cases "succeeded x")
      case ok: True
      then have sent: "ce_rclone ce = 0" "\<forall>k \<in> set pushed. ce_age ce k = 0" "set pushed = set ?sel \<union> json_beside ` set ?sel"
          "\<forall>k \<in> set ?sel. \<exists>m. verify_backup e (''auto:'' @ stem_of k) r = Inr m"
        using push [OF run] by (elim disjE conjE; simp only: simp_thms)+
      have now: "?published \<noteq> []" "ce_now ce - CLOUD_SOURCE_MAX_AGE \<le> fst (last ?published)" "fst (last ?published) \<le> ce_now ce + CLOUD_CLOCK_SKEW"
        using True by blast+
      show ?thesis
        by (intro conjI impI exI [of _ ?published] exI [of _ ?sel]) (use ok in \<open>simp only: simp_thms\<close>, rule cfg sent sel now refl)+
    next
      case False
      then show ?thesis using push [OF run] by (elim disjE conjE) simp_all
    qed
  next
    case False
    then have "\<not> succeeded x \<and> pushed = []"
      using assms skipped raised by (auto simp: cloud_backup_def Let_def split: if_splits option.splits)
    then show ?thesis by blast
  qed
qed

lemma cloud_backup_success_witness:
  "\<exists>x pushed. cloud_backup (read_cloud_backup_config (Some ''drop:nas'') (Some ''age1abc''))
       \<lparr>ce_is_root = False, ce_rclone_config = True, ce_stamps = (\<lambda>_. Some 1000), ce_now = 2000, ce_timeout = False, ce_age = (\<lambda>_. 0), ce_rclone = 0\<rparr>
       sample_env sample_root = (x, pushed) \<and> succeeded x \<and> pushed \<noteq> []"
proof -
  let ?ce = "\<lparr>ce_is_root = False, ce_rclone_config = True, ce_stamps = (\<lambda>_. Some 1000), ce_now = 2000, ce_timeout = False, ce_age = (\<lambda>_. 0), ce_rclone = 0\<rparr>"
  obtain x pushed where run: "cloud_backup (read_cloud_backup_config (Some ''drop:nas'') (Some ''age1abc'')) ?ce sample_env sample_root = (x, pushed)"
    by (cases "cloud_backup (read_cloud_backup_config (Some ''drop:nas'') (Some ''age1abc'')) ?ce sample_env sample_root")
  have "succeeded (fst (cloud_backup (read_cloud_backup_config (Some ''drop:nas'') (Some ''age1abc'')) ?ce sample_env sample_root))" by code_simp
  then show ?thesis using run cloud_backup_success [OF run] by auto
qed

text \<open>
  No job counts as a success for work that was not done. A failed integrity check always ends
  as a failure and sets the degraded flag, also when the emergency backup fails, and a good one
  clears it; a backup or vacuum succeeds only when \<open>create\<close> returned; a backfill succeeds only
  when it ran, and not with failures alone; the placeholder for git never does.
\<close>

lemma job_success_is_honest:
  "(succeeded (fst (db_integrity_check e stuck result c)) \<longleftrightarrow> result = ''ok'') \<and>
   jc_degraded (snd (db_integrity_check e stuck result c)) = (result \<noteq> ''ok'') \<and>
   (succeeded (fst (job_db_backup e stuck c)) \<longrightarrow> (\<exists>md r t. create_backup e AutoKind (jc_root c) = (Inr md, r, t))) \<and>
   (succeeded (fst (db_vacuum e stuck vacuum c)) \<longrightarrow> succeeded (fst (job_db_backup e stuck c)) \<and> vacuum = Inr ()) \<and>
   (succeeded (fst (embedding_backfill w (Some sv))) \<longrightarrow> \<not> sv_backfill_lock sv \<and>
      (\<exists>res sv'. generate_missing w None False sv = (Inr res, sv') \<and> (br_failed res = 0 \<or> 0 < br_generated res))) \<and>
   \<not> succeeded git_onboard_resync"
proof -
  have ended: "succeeded (ended y) \<longleftrightarrow> (\<exists>z. y = Inr z)" for y :: "string + 'z"
    by (cases y) (simp_all add: ended_def succeeded_def job_result_is_skipped_def)
  have null: "succeeded (Returned JNull)" "\<not> succeeded (Raised msg)" for msg
    by (simp_all add: succeeded_def job_result_is_skipped_def)
  have skip: "\<not> succeeded (Returned (JObj (backfill_summary res @ [(''skipped'', JInt 1)])))" for res
    by (simp add: succeeded_def job_result_is_skipped_def json_get_def backfill_summary_def)
  have check: "succeeded (fst (db_integrity_check e stuck result c)) \<longleftrightarrow> result = ''ok''"
    "jc_degraded (snd (db_integrity_check e stuck result c)) = (result \<noteq> ''ok'')"
    by (simp_all add: db_integrity_check_def null split: prod.split)
  have backup: "\<exists>md r t. create_backup e AutoKind (jc_root c) = (Inr md, r, t)" if "succeeded (fst (job_db_backup e stuck c))"
    using that by (auto simp: job_db_backup_def ended db_backup_def bind_s_def split: prod.splits sum.splits)
  have vac: "succeeded (fst (job_db_backup e stuck c)) \<and> vacuum = Inr ()" if "succeeded (fst (db_vacuum e stuck vacuum c))"
    using that by (auto simp: job_db_backup_def db_vacuum_def ended null split: prod.splits sum.splits)
  have fill: "\<not> sv_backfill_lock sv \<and> (\<exists>res sv'. generate_missing w None False sv = (Inr res, sv') \<and> (br_failed res = 0 \<or> 0 < br_generated res))"
    if ok: "succeeded (fst (embedding_backfill w (Some sv)))"
  proof -
    obtain res sv' where run: "generate_missing w None False sv = (Inr res, sv')" "\<not> br_skipped res" "outcome_of res \<noteq> ''failed''"
      using ok skip by (auto simp: embedding_backfill_def null split: prod.splits sum.splits if_splits)
    then have "br_failed res = 0 \<or> 0 < br_generated res" by (auto simp: outcome_of_def split: if_splits)
    moreover have "\<not> sv_backfill_lock sv" using run(1,2) by (auto simp: generate_missing_def split: if_splits)
    ultimately show ?thesis using run(1) by blast
  qed
  have "\<not> succeeded git_onboard_resync" by (simp add: git_onboard_resync_def succeeded_def job_result_is_skipped_def json_get_def)
  then show ?thesis using check backup vac fill by blast
qed

lemma job_success_is_honest_witness:
  "(\<exists>md r t. create_backup sample_env AutoKind empty_root = (Inr md, r, t)) \<and>
   \<not> succeeded (fst (db_integrity_check sample_env (\<lambda>_. False) ''row 1 missing'' \<lparr>jc_root = empty_root, jc_degraded = False\<rparr>)) \<and>
   jc_degraded (snd (db_integrity_check sample_env (\<lambda>_. False) ''row 1 missing'' \<lparr>jc_root = empty_root, jc_degraded = False\<rparr>))"
proof -
  have "succeeded (fst (job_db_backup sample_env (\<lambda>_. False) \<lparr>jc_root = empty_root, jc_degraded = False\<rparr>))" by code_simp
  then show ?thesis
    using job_success_is_honest [of sample_env "\<lambda>_. False" "''row 1 missing''" "\<lparr>jc_root = empty_root, jc_degraded = False\<rparr>"] by simp
qed

end
