(* ===== verification/OC_Http.thy ===== *)
theory OC_Http
  imports OC_Config
begin

text \<open>
  The gates in front of the HTTP handlers (\<open>interfaces/api/middleware\<close>): the Host allowlist, the
  rate limit, CORS and the API key, in the order in which \<open>register_middleware\<close> stacks them, and
  the answers for exceptions (\<open>interfaces/api/app.py\<close>). Header names are lower case; the monotonic
  clock is a rational number of seconds; CORS is a parameter that may answer a request itself.
\<close>

record request =
  rq_path :: string
  rq_client :: "string option"
  rq_headers :: "(string \<times> string) list"

datatype verdict = Pass | Reject int "(string \<times> string) list"

section \<open>Allowed hosts\<close>

definition DEFAULT_ALLOWED_HOSTS :: "string list" where
  "DEFAULT_ALLOWED_HOSTS = [''127.0.0.1:*'', ''localhost:*'', ''[::1]:*'']"

definition ALWAYS_ALLOWED :: "string list" where
  "ALWAYS_ALLOWED = [''127.0.0.1'', ''127.0.0.1:*'', ''localhost'', ''localhost:*'', ''[::1]'', ''[::1]:*'', ''testserver'']"

text \<open>\<open>repr\<close>: \<open>str()\<close> of a JSON value that is no string.\<close>

definition json_str :: "(json \<Rightarrow> string) \<Rightarrow> json \<Rightarrow> string" where
  "json_str repr j = (case j of JStr s \<Rightarrow> s | _ \<Rightarrow> repr j)"

definition parse_allowed_hosts :: "(json \<Rightarrow> string) \<Rightarrow> string option \<Rightarrow> json \<Rightarrow> string list" where
  "parse_allowed_hosts repr env_value file_value =
     (let from_file = (case file_value of
            JList xs \<Rightarrow> (let parsed = filter (\<lambda>s. s \<noteq> []) (map (\<lambda>x. py_strip (json_str repr x)) xs)
                        in if parsed \<noteq> [] then parsed else DEFAULT_ALLOWED_HOSTS)
          | _ \<Rightarrow> DEFAULT_ALLOWED_HOSTS)
      in case env_value of
           None \<Rightarrow> from_file
         | Some v \<Rightarrow>
             if py_strip v = [] then from_file
             else (let parsed = filter (\<lambda>s. s \<noteq> []) (map py_strip (split_char CHR '','' v))
                   in if parsed \<noteq> [] then parsed else DEFAULT_ALLOWED_HOSTS))"

definition entry_matches :: "string \<Rightarrow> string \<Rightarrow> bool" where
  "entry_matches host entry =
     (host = entry \<or>
      (suffix '':*'' entry \<and>
       (let base = take (length entry - 2) entry in host = base \<or> prefix (base @ '':'') host)))"

definition host_allowed :: "string option \<Rightarrow> string list \<Rightarrow> bool" where
  "host_allowed host allowed =
     (case host of None \<Rightarrow> False | Some h \<Rightarrow> h \<noteq> [] \<and> list_ex (entry_matches h) allowed)"

definition is_mcp_path :: "string \<Rightarrow> bool" where
  "is_mcp_path p = (p = ''/mcp'' \<or> prefix ''/mcp/'' p)"

definition host_gate :: "string list \<Rightarrow> request \<Rightarrow> verdict" where
  "host_gate allowed_hosts rq =
     (if is_mcp_path (rq_path rq) then Pass
      else if \<not> host_allowed (map_of (rq_headers rq) ''host'') (ALWAYS_ALLOWED @ allowed_hosts) then Reject 421 []
      else Pass)"

section \<open>Rate limit\<close>

type_synonym limiter = "(string \<times> rat list) list"

definition WINDOW :: rat where
  "WINDOW = 60"

definition dict_get :: "('k \<times> 'v list) list \<Rightarrow> 'k \<Rightarrow> 'v list" where
  "dict_get d k = (case map_of d k of None \<Rightarrow> [] | Some v \<Rightarrow> v)"

definition dict_set :: "'k \<Rightarrow> 'v \<Rightarrow> ('k \<times> 'v) list \<Rightarrow> ('k \<times> 'v) list" where
  "dict_set k v d = (if k \<in> fst ` set d then map (\<lambda>x. if fst x = k then (k, v) else x) d else d @ [(k, v)])"

lemma distinct_dict_set: "distinct (map fst d) \<Longrightarrow> distinct (map fst (dict_set k v d))"
proof -
  have "map fst (map (\<lambda>x. if fst x = k then (k, v) else x) d) = map fst d" by (induction d) auto
  moreover have "distinct (map fst (d @ [(k, v)])) \<longleftrightarrow> distinct (map fst d) \<and> k \<notin> fst ` set d" by auto
  ultimately show "distinct (map fst d) \<Longrightarrow> distinct (map fst (dict_set k v d))"
    unfolding dict_set_def by (cases "k \<in> fst ` set d") (simp_all only: if_True if_False simp_thms)
qed

lemma dict_get_set: "dict_get (dict_set k v d) k' = (if k' = k then v else dict_get d k')"
proof -
  have upd: "map_of (map (\<lambda>x. if fst x = k then (k, v) else x) d) k' = (if k' = k \<and> map_of d k \<noteq> None then Some v else map_of d k')"
    by (induction d) auto
  show ?thesis
  proof (cases "k \<in> fst ` set d")
    case True
    then have "map_of d k \<noteq> None" by (simp add: map_of_eq_None_iff)
    then show ?thesis using True unfolding dict_get_def dict_set_def by (simp add: upd)
  next
    case False
    then have "map_of d k = None" by (simp add: map_of_eq_None_iff)
    then show ?thesis using False unfolding dict_get_def dict_set_def by (auto simp: map_add_def split: option.split)
  qed
qed

text \<open>The sweep drops clients without a live request, except the one that is served.\<close>

definition sweep :: "rat \<Rightarrow> string \<Rightarrow> limiter \<Rightarrow> limiter" where
  "sweep cutoff client d =
     filter (\<lambda>x. fst x = client \<or> snd x \<noteq> [])
       (map (\<lambda>x. if fst x = client then x else (fst x, filter (\<lambda>t. cutoff < t) (snd x))) d)"

definition client_of :: "request \<Rightarrow> string" where
  "client_of rq = (case rq_client rq of None \<Rightarrow> ''unknown'' | Some c \<Rightarrow> c)"

text \<open>The informational headers of a request that passes are left out.\<close>

definition rate_gate :: "int \<Rightarrow> rat \<Rightarrow> request \<Rightarrow> limiter \<Rightarrow> verdict \<times> limiter" where
  "rate_gate rpm now rq d =
     (if rpm \<le> 0 then (Pass, d)
      else
        let client = client_of rq;
            cutoff = now - WINDOW;
            timestamps = filter (\<lambda>t. cutoff < t) (dict_get d client)
        in if rpm \<le> int (length timestamps)
           then (Reject 429 [(''Retry-After'', nat_text (nat (max (\<lfloor>hd timestamps - cutoff\<rfloor> + 1) 1)))], d)
           else (Pass, sweep cutoff client (dict_set client (timestamps @ [now]) d)))"

section \<open>API key\<close>

definition DOCS_PATHS :: "string list" where
  "DOCS_PATHS = [''/docs'', ''/redoc'', ''/openapi.json'']"

definition AUTH_EXEMPT_PATHS :: "string list" where
  "AUTH_EXEMPT_PATHS = [''/health'', ''/api/v1/health'']"

definition header :: "request \<Rightarrow> string \<Rightarrow> string" where
  "header rq name = (case map_of (rq_headers rq) name of None \<Rightarrow> [] | Some v \<Rightarrow> v)"

definition extract_key :: "request \<Rightarrow> string option" where
  "extract_key rq =
     (let auth = header rq ''authorization''
      in if prefix ''bearer '' (py_lower auth) then Some (py_strip (drop 7 auth))
         else if header rq ''x-api-key'' = [] then None else Some (header rq ''x-api-key''))"

text \<open>UTF-8 of the code points that the model has; a header value is its own bytes (latin-1).\<close>

definition encode_utf8 :: "string \<Rightarrow> string" where
  "encode_utf8 s = concat (map (\<lambda>c. let n = of_char c :: nat in if n < 128 then [c] else [char_of (192 + n div 64), char_of (128 + n mod 64)]) s)"

definition key_matches :: "string \<Rightarrow> string \<Rightarrow> bool" where
  "key_matches key api_key = (key = encode_utf8 api_key)"

definition request_has_key :: "request \<Rightarrow> string \<Rightarrow> bool" where
  "request_has_key rq api_key = (case extract_key rq of None \<Rightarrow> False | Some key \<Rightarrow> key_matches key api_key)"

definition auth_gate :: "string \<Rightarrow> request \<Rightarrow> verdict" where
  "auth_gate api_key rq =
     (if rq_path rq \<in> set (DOCS_PATHS @ AUTH_EXEMPT_PATHS) then Pass
      else case extract_key rq of
        None \<Rightarrow> Reject 401 []
      | Some key \<Rightarrow> if key_matches key api_key then Pass else Reject 403 [])"

section \<open>The stack\<close>

text \<open>The configuration of the server, with the limit that the rate limiter reads from the environment.\<close>

record http_config =
  hc_host :: string
  hc_port :: int
  hc_api_key :: "string option"
  hc_allowed_hosts :: "string list"
  hc_rpm :: int

definition str_or_default :: "json \<Rightarrow> string \<Rightarrow> string" where
  "str_or_default value dflt = (case value of JStr s \<Rightarrow> if py_strip s \<noteq> [] then py_strip s else dflt | _ \<Rightarrow> dflt)"

definition env_text :: "(string \<Rightarrow> string option) \<Rightarrow> string \<Rightarrow> string" where
  "env_text env name = (case env name of None \<Rightarrow> [] | Some s \<Rightarrow> py_strip s)"

definition first_set :: "string \<Rightarrow> string \<Rightarrow> string" where
  "first_set a b = (if a \<noteq> [] then a else b)"

definition http_from_env :: "(json \<Rightarrow> string) \<Rightarrow> (string \<Rightarrow> string option) \<Rightarrow> (string \<times> json) list \<Rightarrow> http_config" where
  "http_from_env repr env fc =
     (let key = first_set (env_text env ''OC_API_KEY'') (str_or_default (json_get fc ''api_key'') []);
          hosts = (if env ''OC_API_ALLOWED_HOSTS'' \<in> {None, Some []} then env ''OC_MCP_ALLOWED_HOSTS'' else env ''OC_API_ALLOWED_HOSTS'')
      in \<lparr>hc_host = first_set (env_text env ''OC_API_HOST'') (str_or_default (json_get fc ''host'') ''127.0.0.1''),
          hc_port = resolve_port (env ''OC_API_PORT'') (json_get fc ''port'') 8000,
          hc_api_key = (if key = [] then None else Some key),
          hc_allowed_hosts = parse_allowed_hosts repr hosts (json_get fc ''allowed_hosts''),
          hc_rpm = parse_int_env (env ''OC_API_RATE_LIMIT_RPM'') 600\<rparr>)"

record mcp_config =
  mc_transport :: string
  mc_host :: string
  mc_port :: int
  mc_server_name :: string
  mc_allowed_hosts :: "string list"

definition mcp_from_env :: "(json \<Rightarrow> string) \<Rightarrow> (string \<Rightarrow> string option) \<Rightarrow> (string \<times> json) list \<Rightarrow> bool \<Rightarrow> exc + mcp_config" where
  "mcp_from_env repr env fc binds_port =
     (let transport = first_set (env_text env ''OC_MCP_TRANSPORT'') (str_or_default (json_get fc ''transport'') ''stdio'')
      in if transport \<notin> {''stdio'', ''sse'', ''streamable-http''} then Inl (ValueError ''Invalid MCP transport'')
         else Inr \<lparr>mc_transport = transport,
                   mc_host = first_set (env_text env ''OC_MCP_HOST'') (str_or_default (json_get fc ''host'') ''127.0.0.1''),
                   mc_port = (if binds_port \<and> transport \<noteq> ''stdio'' then resolve_port (env ''OC_MCP_PORT'') (json_get fc ''port'') 8080 else 8080),
                   mc_server_name = str_or_default (json_get fc ''server_name'') ''openchronicle'',
                   mc_allowed_hosts = parse_allowed_hosts repr (env ''OC_MCP_ALLOWED_HOSTS'') (json_get fc ''allowed_hosts'')\<rparr>)"

text \<open>\<open>cors\<close>: whether the CORS layer answers the request itself (a preflight).\<close>

definition gate :: "http_config \<Rightarrow> (request \<Rightarrow> verdict) \<Rightarrow> rat \<Rightarrow> request \<Rightarrow> limiter \<Rightarrow> verdict \<times> limiter" where
  "gate cfg cors now rq d =
     (case host_gate (hc_allowed_hosts cfg) rq of
        Reject c hs \<Rightarrow> (Reject c hs, d)
      | Pass \<Rightarrow>
          (case rate_gate (hc_rpm cfg) now rq d of
             (Reject c hs, d') \<Rightarrow> (Reject c hs, d')
           | (Pass, d') \<Rightarrow>
               (case cors rq of
                  Reject c hs \<Rightarrow> (Reject c hs, d')
                | Pass \<Rightarrow>
                    (case hc_api_key cfg of
                       None \<Rightarrow> (Pass, d')
                     | Some key \<Rightarrow> if key = [] then (Pass, d') else (auth_gate key rq, d')))))"

section \<open>Answers for exceptions\<close>

datatype api_error = Domain exc | FileNotFound | Unhandled

definition error_response :: "api_error \<Rightarrow> int \<times> error_code option" where
  "error_response e =
     (case e of
        Domain (NotFoundError c _) \<Rightarrow> (404, Some c)
      | Domain (ValidationError _) \<Rightarrow> (422, Some INVALID_ARGUMENT)
      | Domain (RowError _ _ _ _) \<Rightarrow> (422, Some INVALID_ARGUMENT)
      | Domain (ProviderError c) \<Rightarrow> (502, Some c)
      | Domain RevisionUnknownError \<Rightarrow> (502, exc_code RevisionUnknownError)
      | Domain RevisionChangedError \<Rightarrow> (502, exc_code RevisionChangedError)
      | FileNotFound \<Rightarrow> (400, Some FILE_NOT_FOUND)
      | _ \<Rightarrow> (500, Some INTERNAL_ERROR))"

end
