(* ===== verification/OC_Http_Theorems.thy ===== *)
theory OC_Http_Theorems
  imports OC_Http
begin

text \<open>
  The gates of the HTTP surface: the rate limiter is an exact sliding window, whatever its sweep
  forgets, and a client that waits as long as it is told is served; a request reaches a handler
  only through every gate.
\<close>

section \<open>The limiter's memory\<close>

definition live :: "rat \<Rightarrow> limiter \<Rightarrow> string \<Rightarrow> rat list" where
  "live now d c = filter (\<lambda>t. now - WINDOW < t) (dict_get d c)"

lemma map_of_map_key: "(\<And>x. fst (f x) = fst x) \<Longrightarrow> distinct (map fst d) \<Longrightarrow> map_of (map f d) k = map_option (\<lambda>v. snd (f (k, v))) (map_of d k)"
  by (induction d) (auto simp: prod_eq_iff)

lemma map_of_filter_distinct: "distinct (map fst d) \<Longrightarrow> map_of (filter P d) k = (case map_of d k of None \<Rightarrow> None | Some v \<Rightarrow> if P (k, v) then Some v else None)"
proof (induction d)
  case (Cons x d)
  have "map_of d (fst x) = None" using Cons.prems by (simp add: map_of_eq_None_iff)
  then show ?case using Cons by (cases x) (auto split: option.split)
qed simp

lemma sweep_distinct: "distinct (map fst d) \<Longrightarrow> distinct (map fst (sweep cutoff c d))"
  unfolding sweep_def by (rule distinct_map_filterI) (simp add: comp_def if_distrib cong: if_cong)

lemma dict_get_sweep:
  assumes "distinct (map fst d)"
  shows "dict_get (sweep cutoff c d) k = (if k = c then dict_get d k else filter (\<lambda>t. cutoff < t) (dict_get d k))"
proof -
  let ?f = "\<lambda>x. if fst x = c then x else (fst x, filter (\<lambda>t. cutoff < t) (snd x))"
  have "distinct (map fst (map ?f d))" using assms by (simp add: comp_def if_distrib cong: if_cong)
  moreover have "map_of (map ?f d) k = map_option (\<lambda>v. snd (?f (k, v))) (map_of d k)" by (rule map_of_map_key [OF _ assms]) simp
  ultimately show ?thesis unfolding sweep_def dict_get_def by (simp add: map_of_filter_distinct split: option.split)
qed

lemma rate_gate_cases:
  assumes "0 < rpm" "distinct (map fst d)"
  shows "rpm \<le> int (length (live now d (client_of rq))) \<Longrightarrow>
      rate_gate rpm now rq d = (Reject 429 [(''Retry-After'', nat_text (nat (max (\<lfloor>hd (live now d (client_of rq)) - (now - WINDOW)\<rfloor> + 1) 1)))], d)"
    "int (length (live now d (client_of rq))) < rpm \<Longrightarrow>
      \<exists>d'. rate_gate rpm now rq d = (Pass, d') \<and> distinct (map fst d') \<and>
        (\<forall>c. dict_get d' c = (if c = client_of rq then live now d c @ [now] else live now d c))"
proof -
  show "rpm \<le> int (length (live now d (client_of rq))) \<Longrightarrow>
      rate_gate rpm now rq d = (Reject 429 [(''Retry-After'', nat_text (nat (max (\<lfloor>hd (live now d (client_of rq)) - (now - WINDOW)\<rfloor> + 1) 1)))], d)"
    using assms(1) by (simp add: rate_gate_def Let_def live_def)
  assume "int (length (live now d (client_of rq))) < rpm"
  then have "rate_gate rpm now rq d = (Pass, sweep (now - WINDOW) (client_of rq) (dict_set (client_of rq) (live now d (client_of rq) @ [now]) d))"
    using assms(1) by (simp add: rate_gate_def Let_def live_def)
  then show "\<exists>d'. rate_gate rpm now rq d = (Pass, d') \<and> distinct (map fst d') \<and>
        (\<forall>c. dict_get d' c = (if c = client_of rq then live now d c @ [now] else live now d c))"
    using distinct_dict_set [OF assms(2)] by (auto simp: sweep_distinct dict_get_sweep dict_get_set live_def)
qed

section \<open>Runs\<close>

type_synonym decision = "rat \<times> string \<times> bool"

fun serve :: "int \<Rightarrow> (rat \<times> request) list \<Rightarrow> limiter \<Rightarrow> decision list \<times> limiter" where
  "serve rpm [] d = ([], d)"
| "serve rpm ((now, rq) # rqs) d =
     (case rate_gate rpm now rq d of (v, d') \<Rightarrow>
      case serve rpm rqs d' of (hist, d'') \<Rightarrow> ((now, client_of rq, v = Pass) # hist, d''))"

text \<open>The requests of a client that passed after \<open>lo\<close> and up to \<open>hi\<close>.\<close>

definition granted :: "decision list \<Rightarrow> string \<Rightarrow> rat \<Rightarrow> rat \<Rightarrow> rat list" where
  "granted hist c lo hi = map fst (filter (\<lambda>(t, c', ok). ok \<and> c' = c \<and> lo < t \<and> t \<le> hi) hist)"

definition remembers :: "decision list \<Rightarrow> rat \<Rightarrow> limiter \<Rightarrow> bool" where
  "remembers hist now d \<longleftrightarrow> distinct (map fst d) \<and> sorted (map fst hist) \<and> (\<forall>x \<in> set hist. fst x \<le> now) \<and>
     (\<forall>c. live now d c = granted hist c (now - WINDOW) now)"

lemma granted_append: "granted (xs @ ys) c lo hi = granted xs c lo hi @ granted ys c lo hi"
  by (simp add: granted_def)

lemma granted_single: "granted [(t, c', ok)] c lo hi = (if ok \<and> c' = c \<and> lo < t \<and> t \<le> hi then [t] else [])"
  by (simp add: granted_def)

lemma granted_live: "filter (\<lambda>t. lo < t) (granted hist c lo hi) = granted hist c lo hi"
  by (auto simp: granted_def filter_map comp_def split_def intro!: arg_cong [where f = "map fst"] filter_cong)

lemma remembers_later:
  assumes "remembers hist now d" "now \<le> now'"
  shows "remembers hist now' d"
proof -
  have "live now' d c = granted hist c (now' - WINDOW) now'" for c
  proof -
    have "live now' d c = filter (\<lambda>t. now' - WINDOW < t) (live now d c)"
      using assms(2) by (auto simp: live_def intro!: filter_cong)
    also have "\<dots> = filter (\<lambda>t. now' - WINDOW < t) (granted hist c (now - WINDOW) now)" using assms(1) by (simp add: remembers_def)
    also have "\<dots> = granted hist c (now' - WINDOW) now'"
      using assms by (auto simp: granted_def filter_map comp_def remembers_def intro!: arg_cong [where f = "map fst"] filter_cong)
    finally show ?thesis .
  qed
  then show ?thesis using assms by (auto simp: remembers_def intro: order_trans)
qed

lemma remembers_gate:
  assumes r: "remembers hist now d" and rpm: "0 < rpm" and gate: "rate_gate rpm now rq d = (v, d')"
  shows "v = Pass \<longleftrightarrow> length (granted hist (client_of rq) (now - WINDOW) now) < nat rpm" "remembers (hist @ [(now, client_of rq, v = Pass)]) now d'"
proof -
  have dist: "distinct (map fst d)" and l: "live now d c = granted hist c (now - WINDOW) now" for c using r by (simp_all add: remembers_def)
  show pass: "v = Pass \<longleftrightarrow> length (granted hist (client_of rq) (now - WINDOW) now) < nat rpm"
    using rate_gate_cases [OF rpm dist, of now rq] gate l by (cases "rpm \<le> int (length (live now d (client_of rq)))") auto
  have base: "sorted (map fst (hist @ [(now, client_of rq, v = Pass)]))" "\<forall>x \<in> set (hist @ [(now, client_of rq, v = Pass)]). fst x \<le> now"
    using r by (auto simp: remembers_def sorted_append)
  have pos: "now - WINDOW < now" by (simp add: WINDOW_def)
  show "remembers (hist @ [(now, client_of rq, v = Pass)]) now d'"
  proof (cases "v = Pass")
    case True
    then have "int (length (live now d (client_of rq))) < rpm" using pass rpm l by auto
    then have d': "distinct (map fst d')" "dict_get d' c = (if c = client_of rq then live now d c @ [now] else live now d c)" for c
      using rate_gate_cases(2) [OF rpm dist, of now rq] gate by auto
    have "live now d' c = granted (hist @ [(now, client_of rq, True)]) c (now - WINDOW) now" for c
      using pos by (simp add: live_def [of now d'] d'(2) l granted_append granted_single granted_live)
    then show ?thesis using base d'(1) True by (simp add: remembers_def)
  next
    case False
    then have "d' = d" using rate_gate_cases [OF rpm dist, of now rq] gate by (cases "rpm \<le> int (length (live now d (client_of rq)))") auto
    then show ?thesis using base False l dist by (simp add: remembers_def granted_append granted_single)
  qed
qed

definition decided :: "int \<Rightarrow> decision list \<Rightarrow> bool" where
  "decided rpm hist \<longleftrightarrow> (\<forall>i < length hist. case hist ! i of (t, c, ok) \<Rightarrow> ok \<longleftrightarrow> length (granted (take i hist) c (t - WINDOW) t) < nat rpm)"

lemma decided_snoc: "decided rpm (hist @ [(t, c, ok)]) \<longleftrightarrow> decided rpm hist \<and> (ok \<longleftrightarrow> length (granted hist c (t - WINDOW) t) < nat rpm)"
  unfolding decided_def by (auto simp: nth_append less_Suc_eq)

lemma serve_decides:
  assumes "remembers hist now d" "decided rpm hist" "0 < rpm" "sorted (now # map fst rqs)" "serve rpm rqs d = (new, d')"
  shows "decided rpm (hist @ new) \<and> remembers (hist @ new) (last (now # map fst rqs)) d' \<and> length new = length rqs"
  using assms
proof (induction rqs arbitrary: hist now d new)
  case (Cons q rqs)
  obtain t rq where q: "q = (t, rq)" by (cases q)
  obtain v d1 where gate: "rate_gate rpm t rq d = (v, d1)" by (cases "rate_gate rpm t rq d")
  obtain rest where rest: "serve rpm rqs d1 = (rest, d')" "new = (t, client_of rq, v = Pass) # rest"
    using Cons.prems(5) by (auto simp: q gate split: prod.splits)
  have now: "remembers hist t d" using remembers_later [OF Cons.prems(1)] Cons.prems(4) by (simp add: q)
  note step = remembers_gate [OF now Cons.prems(3) gate]
  have "decided rpm (hist @ [(t, client_of rq, v = Pass)])" using Cons.prems(2) step(1) by (simp add: decided_snoc)
  from Cons.IH [OF step(2) this Cons.prems(3) _ rest(1)] show ?case using Cons.prems(4) rest(2) by (auto simp: q)
qed simp

lemma decided_bound:
  assumes "decided rpm hist" "sorted (map fst hist)" "0 < rpm"
  shows "length (granted hist c (t - WINDOW) t) \<le> nat rpm"
  using assms
proof (induction hist arbitrary: c t rule: rev_induct)
  case (snoc x hist)
  obtain s c0 ok where x: "x = (s, c0, ok)" by (cases x) auto
  have pre: "decided rpm hist" "sorted (map fst hist)" "\<And>y. y \<in> set hist \<Longrightarrow> fst y \<le> s" "ok \<longleftrightarrow> length (granted hist c0 (s - WINDOW) s) < nat rpm"
    using snoc.prems by (auto simp: x decided_snoc sorted_append)
  show ?case
  proof (cases "ok \<and> c0 = c \<and> t - WINDOW < s \<and> s \<le> t")
    case True
    have "granted hist c (t - WINDOW) t = filter (\<lambda>u. t - WINDOW < u) (granted hist c0 (s - WINDOW) s)"
      using True pre(3) by (auto simp: granted_def filter_map comp_def intro!: arg_cong [where f = "map fst"] filter_cong) force+
    then have "length (granted hist c (t - WINDOW) t) \<le> length (granted hist c0 (s - WINDOW) s)" by simp
    then show ?thesis using True pre(4) by (auto simp: x granted_append granted_single)
  next
    case False
    then have "granted [x] c (t - WINDOW) t = []" by (auto simp: x granted_single)
    then show ?thesis using snoc.IH [OF pre(1,2) snoc.prems(3)] by (simp add: granted_append)
  qed
qed (simp add: granted_def)

lemma granted_sorted: "sorted (map fst hist) \<Longrightarrow> sorted (granted hist c lo hi)"
  unfolding granted_def by (rule sorted_filter)

text \<open>A client that waits as long as it is told is served.\<close>

lemma retry_after:
  assumes r: "remembers hist now d" "decided rpm hist" and rpm: "0 < rpm" and rej: "rate_gate rpm now rq d = (Reject code hs, d')"
  shows "code = 429 \<and> d' = d \<and> (\<exists>n. hs = [(''Retry-After'', nat_text n)] \<and> 1 \<le> n \<and> n \<le> 61 \<and> fst (rate_gate rpm (now + of_nat n) rq d) = Pass)"
proof -
  let ?l = "live now d (client_of rq)" and ?c = "now - WINDOW"
  have dist: "distinct (map fst d)" and l: "?l = granted hist (client_of rq) ?c now" using r(1) by (simp_all add: remembers_def)
  have full: "rpm \<le> int (length ?l)" using rate_gate_cases(2) [OF rpm dist, of now rq] rej by fastforce
  then have ne: "?l \<noteq> []" using rpm by auto
  have len: "length ?l \<le> nat rpm" unfolding l using r by (intro decided_bound rpm) (simp_all add: remembers_def)
  have hd: "?c < hd ?l" "hd ?l \<le> now" using hd_in_set [OF ne] by (auto simp: l granted_def)
  define m where "m = \<lfloor>hd ?l - ?c\<rfloor>"
  let ?n = "nat (max (m + 1) 1)"
  have fl: "0 \<le> m" "m \<le> 60" using hd by (simp_all add: m_def WINDOW_def le_floor_iff floor_le_iff)
  have n: "?n = nat (m + 1)" "1 \<le> ?n" "?n \<le> 61" using fl by auto
  have "(of_nat ?n :: rat) = of_int m + 1" using fl(1) by (simp add: n(1))
  moreover have "hd ?l - ?c < of_int m + 1" unfolding m_def by linarith
  ultimately have gone: "\<not> now + of_nat ?n - WINDOW < hd ?l" by linarith
  have "live (now + of_nat ?n) d (client_of rq) = filter (\<lambda>t. now + of_nat ?n - WINDOW < t) ?l"
    by (auto simp: live_def intro!: filter_cong)
  also have "\<dots> = filter (\<lambda>t. now + of_nat ?n - WINDOW < t) (tl ?l)" using gone ne by (cases ?l) simp_all
  finally have "length (live (now + of_nat ?n) d (client_of rq)) \<le> length (tl ?l)" by (metis length_filter_le)
  then have "int (length (live (now + of_nat ?n) d (client_of rq))) < rpm" using len ne rpm by (cases ?l) auto
  then have "fst (rate_gate rpm (now + of_nat ?n) rq d) = Pass" using rate_gate_cases(2) [OF rpm dist] by fastforce
  moreover have "rate_gate rpm now rq d = (Reject 429 [(''Retry-After'', nat_text ?n)], d)" unfolding m_def by (rule rate_gate_cases(1) [OF rpm dist full])
  ultimately show ?thesis using rej n(2,3) by auto
qed

section \<open>Hosts and keys\<close>

lemma entry_matches_iff:
  "entry_matches h entry \<longleftrightarrow> h = entry \<or> (\<exists>base. entry = base @ '':*'' \<and> (h = base \<or> (\<exists>port. h = base @ '':'' @ port)))"
  by (auto simp: entry_matches_def suffix_def prefix_def Let_def)

lemma auth_gate_Pass_iff:
  "auth_gate key rq = Pass \<longleftrightarrow> rq_path rq \<in> set (DOCS_PATHS @ AUTH_EXEMPT_PATHS) \<or> extract_key rq = Some (encode_utf8 key)"
  by (auto simp: auth_gate_def key_matches_def split: option.splits)

lemma http_from_env_ok: "hc_api_key (http_from_env repr env fc) \<noteq> Some []" "port_ok (hc_port (http_from_env repr env fc))"
  by (auto simp: http_from_env_def Let_def resolve_port_def port_ok_def split: option.split json.split)

section \<open>Theorems\<close>

text \<open>
  C27. The rate limit is an exact sliding window. Over any sequence of requests in the order of the
  clock, a request passes exactly when its client had fewer than \<open>rpm\<close> requests pass in the
  minute before it, so no minute ever has more than \<open>rpm\<close>, and the limiter's sweep forgets nothing
  that matters. A refused request changes nothing, is told to wait between 1 and 61 seconds, and
  passes after that time.
\<close>

theorem rate_limit_window:
  assumes "0 < rpm" "sorted (map fst rqs)" "serve rpm rqs [] = (hist, d)"
  shows "decided rpm hist \<and> (\<forall>c t. length (granted hist c (t - WINDOW) t) \<le> nat rpm) \<and>
    (\<forall>now rq code hs d'. (\<forall>x \<in> set rqs. fst x \<le> now) \<and> rate_gate rpm now rq d = (Reject code hs, d') \<longrightarrow>
       code = 429 \<and> d' = d \<and> (\<exists>n. hs = [(''Retry-After'', nat_text n)] \<and> 1 \<le> n \<and> n \<le> 61 \<and> fst (rate_gate rpm (now + of_nat n) rq d) = Pass))"
proof -
  define start where "start = (case rqs of [] \<Rightarrow> 0 | x # _ \<Rightarrow> fst x)"
  have "remembers [] start []" by (simp add: remembers_def live_def dict_get_def granted_def)
  moreover have "sorted (start # map fst rqs)" using assms(2) by (cases rqs) (auto simp: start_def)
  moreover have "decided rpm []" by (simp add: decided_def)
  ultimately have run: "decided rpm hist" "remembers hist (last (start # map fst rqs)) d"
    using serve_decides [of "[]" start "[]" rpm rqs hist d] assms(1,3) by auto
  have "code = 429 \<and> d' = d \<and> (\<exists>n. hs = [(''Retry-After'', nat_text n)] \<and> 1 \<le> n \<and> n \<le> 61 \<and> fst (rate_gate rpm (now + of_nat n) rq d) = Pass)"
    if now: "\<forall>x \<in> set rqs. fst x \<le> now" and rej: "rate_gate rpm now rq d = (Reject code hs, d')" for now rq code hs d'
  proof (cases rqs)
    case Nil
    then have "rate_gate rpm now rq [] = (Reject code hs, d')" using rej assms(3) by simp
    then show ?thesis using assms(1) by (simp add: rate_gate_def Let_def dict_get_def)
  next
    case (Cons q qs)
    then have "last (start # map fst rqs) \<le> now" using now by (simp add: last_map)
    then show ?thesis using retry_after [OF remembers_later [OF run(2)] run(1) assms(1) rej] by blast
  qed
  then show ?thesis using run decided_bound [OF run(1) _ assms(1)] by (auto simp: remembers_def)
qed

theorem rate_limit_window_witness:
  "\<exists>hist d. serve 2 [(1, \<lparr>rq_path = ''/'', rq_client = Some ''a'', rq_headers = []\<rparr>), (2, \<lparr>rq_path = ''/'', rq_client = Some ''a'', rq_headers = []\<rparr>)] [] = (hist, d) \<and>
     length (granted hist ''a'' 0 60) \<le> 2 \<and>
     (\<exists>n. fst (rate_gate 2 3 \<lparr>rq_path = ''/'', rq_client = Some ''a'', rq_headers = []\<rparr> d) = Reject 429 [(''Retry-After'', nat_text n)] \<and> n \<le> 61)"
proof -
  let ?q = "\<lparr>rq_path = ''/'', rq_client = Some ''a'', rq_headers = []\<rparr>"
  obtain hist d where run: "serve 2 [(1, ?q), (2, ?q)] [] = (hist, d)" by (cases "serve 2 [(1, ?q), (2, ?q)] []")
  have "fst (rate_gate 2 3 ?q (snd (serve 2 [(1, ?q), (2, ?q)] []))) \<noteq> Pass" by code_simp
  then obtain code hs d' where rej: "rate_gate 2 3 ?q d = (Reject code hs, d')" using run by (cases "rate_gate 2 3 ?q d"; cases "fst (rate_gate 2 3 ?q d)") auto
  note bound = rate_limit_window [OF _ _ run]
  have "length (granted hist ''a'' (60 - WINDOW) 60) \<le> nat 2" using bound by simp
  moreover have "code = 429 \<and> d' = d \<and> (\<exists>n. hs = [(''Retry-After'', nat_text n)] \<and> 1 \<le> n \<and> n \<le> 61 \<and> fst (rate_gate 2 (3 + of_nat n) ?q d) = Pass)"
    by (rule bound [THEN conjunct2, THEN conjunct2, rule_format]) (use rej in simp_all)
  ultimately have "length (granted hist ''a'' 0 60) \<le> 2" "\<exists>n. fst (rate_gate 2 3 ?q d) = Reject 429 [(''Retry-After'', nat_text n)] \<and> n \<le> 61"
    using rej by (simp add: WINDOW_def, auto simp: rej)
  then show ?thesis using run by blast
qed

text \<open>
  C28. With a configuration that was read from the environment, a request reaches the handlers
  exactly when it passes every gate: its Host header is a configured or loopback entry, or such an
  entry up to the port behind \<open>:*\<close> (paths of \<open>/mcp\<close> apart, which FastMCP guards), the rate limit
  lets it pass, CORS does not answer it, and with an API key set it carries exactly that key or asks
  for one of five public paths. A request with a foreign Host is answered 421 before it can use up
  the rate limit of its client.
\<close>

theorem http_gate_exact:
  fixes repr env fc cors now rq d
  defines "cfg \<equiv> http_from_env repr env fc"
  shows "(fst (gate cfg cors now rq d) = Pass \<longleftrightarrow>
      (is_mcp_path (rq_path rq) \<or>
       (\<exists>h. map_of (rq_headers rq) ''host'' = Some h \<and> h \<noteq> [] \<and>
          (\<exists>entry \<in> set (ALWAYS_ALLOWED @ hc_allowed_hosts cfg). h = entry \<or> (\<exists>base. entry = base @ '':*'' \<and> (h = base \<or> (\<exists>port. h = base @ '':'' @ port)))))) \<and>
      fst (rate_gate (hc_rpm cfg) now rq d) = Pass \<and> cors rq = Pass \<and>
      (\<forall>key. hc_api_key cfg = Some key \<longrightarrow>
         rq_path rq \<in> {''/docs'', ''/redoc'', ''/openapi.json'', ''/health'', ''/api/v1/health''} \<or> extract_key rq = Some (encode_utf8 key))) \<and>
    (host_gate (hc_allowed_hosts cfg) rq \<noteq> Pass \<longrightarrow> gate cfg cors now rq d = (Reject 421 [], d))"
proof -
  have host: "host_gate allowed rq = Pass \<longleftrightarrow> is_mcp_path (rq_path rq) \<or>
       (\<exists>h. map_of (rq_headers rq) ''host'' = Some h \<and> h \<noteq> [] \<and>
          (\<exists>entry \<in> set (ALWAYS_ALLOWED @ allowed). h = entry \<or> (\<exists>base. entry = base @ '':*'' \<and> (h = base \<or> (\<exists>port. h = base @ '':'' @ port)))))" for allowed
    unfolding host_gate_def host_allowed_def list_ex_iff entry_matches_iff by (auto split: option.splits)
  have rej: "host_gate allowed rq \<noteq> Pass \<Longrightarrow> host_gate allowed rq = Reject 421 []" for allowed by (auto simp: host_gate_def split: if_splits)
  have key: "hc_api_key cfg \<noteq> Some []" unfolding cfg_def by (rule http_from_env_ok)
  have paths: "set (DOCS_PATHS @ AUTH_EXEMPT_PATHS) = {''/docs'', ''/redoc'', ''/openapi.json'', ''/health'', ''/api/v1/health''}"
    by (simp add: DOCS_PATHS_def AUTH_EXEMPT_PATHS_def)
  have auth: "fst (case hc_api_key cfg of None \<Rightarrow> (Pass, d') | Some key \<Rightarrow> if key = [] then (Pass, d') else (auth_gate key rq, d')) = Pass \<longleftrightarrow>
      (\<forall>key. hc_api_key cfg = Some key \<longrightarrow> rq_path rq \<in> set (DOCS_PATHS @ AUTH_EXEMPT_PATHS) \<or> extract_key rq = Some (encode_utf8 key))" for d' :: limiter
    using key auth_gate_Pass_iff [of _ rq] by (auto split: option.split)
  have "fst (gate cfg cors now rq d) = Pass \<longleftrightarrow> host_gate (hc_allowed_hosts cfg) rq = Pass \<and> fst (rate_gate (hc_rpm cfg) now rq d) = Pass \<and> cors rq = Pass \<and>
      (\<forall>key. hc_api_key cfg = Some key \<longrightarrow> rq_path rq \<in> set (DOCS_PATHS @ AUTH_EXEMPT_PATHS) \<or> extract_key rq = Some (encode_utf8 key))"
    unfolding gate_def by (auto simp only: auth split: verdict.split prod.split) (simp_all add: auth)
  moreover have "host_gate (hc_allowed_hosts cfg) rq \<noteq> Pass \<longrightarrow> gate cfg cors now rq d = (Reject 421 [], d)"
  proof
    assume "host_gate (hc_allowed_hosts cfg) rq \<noteq> Pass"
    from rej [OF this] show "gate cfg cors now rq d = (Reject 421 [], d)" by (simp add: gate_def)
  qed
  ultimately show ?thesis unfolding host paths by blast
qed

theorem http_gate_exact_witness:
  "fst (gate (http_from_env (\<lambda>_. []) [''OC_API_KEY'' \<mapsto> ''k''] []) (\<lambda>_. Pass) 0
     \<lparr>rq_path = ''/api/v1/memory'', rq_client = Some ''a'', rq_headers = [(''host'', ''localhost:8000''), (''x-api-key'', ''k'')]\<rparr> []) = Pass \<and>
   gate (http_from_env (\<lambda>_. []) [''OC_API_KEY'' \<mapsto> ''k''] []) (\<lambda>_. Pass) 0
     \<lparr>rq_path = ''/api/v1/memory'', rq_client = Some ''a'', rq_headers = [(''host'', ''evil.example''), (''x-api-key'', ''k'')]\<rparr> [] = (Reject 421 [], [])"
proof -
  let ?cfg = "http_from_env (\<lambda>_. []) [''OC_API_KEY'' \<mapsto> ''k''] []"
  let ?q = "\<lambda>h. \<lparr>rq_path = ''/api/v1/memory'', rq_client = Some ''a'', rq_headers = [(''host'', h), (''x-api-key'', ''k'')]\<rparr>"
  note exact = http_gate_exact [of "\<lambda>_. []" "[''OC_API_KEY'' \<mapsto> ''k'']" "[]" "\<lambda>_. Pass" 0]
  have local: "fst (rate_gate (hc_rpm ?cfg) 0 (?q ''localhost:8000'') []) = Pass" "hc_api_key ?cfg = Some ''k''" "extract_key (?q ''localhost:8000'') = Some (encode_utf8 ''k'')"
    and foreign: "host_gate (hc_allowed_hosts ?cfg) (?q ''evil.example'') \<noteq> Pass" by code_simp+
  have listed: "''localhost:*'' \<in> set (ALWAYS_ALLOWED @ hc_allowed_hosts ?cfg)" by (simp add: ALWAYS_ALLOWED_def)
  have "\<exists>h. map_of (rq_headers (?q ''localhost:8000'')) ''host'' = Some h \<and> h \<noteq> [] \<and>
      (\<exists>entry \<in> set (ALWAYS_ALLOWED @ hc_allowed_hosts ?cfg). h = entry \<or> (\<exists>base. entry = base @ '':*'' \<and> (h = base \<or> (\<exists>port. h = base @ '':'' @ port))))"
    by (intro exI [of _ "''localhost:8000''"] conjI bexI [OF _ listed] disjI2 exI [of _ "''localhost''"] exI [of _ "''8000''"]) simp_all
  then have "fst (gate ?cfg (\<lambda>_. Pass) 0 (?q ''localhost:8000'') []) = Pass"
    by (intro exact [THEN conjunct1, THEN iffD2] conjI) (use local in simp_all)
  then show ?thesis using exact [THEN conjunct2, THEN mp, OF foreign] by (rule conjI)
qed

end
