(* ===== verification/OC_Adapters.thy ===== *)
theory OC_Adapters
  imports OC_Http OC_Git_Clusters
begin

text \<open>
  The embedding adapters (\<open>infrastructure/embedding\<close>): validation of what a provider sends
  (\<open>response_validation.py\<close>), unit vectors (\<open>vector_norm.py\<close>), the Ollama adapter with its
  revision probe, the OpenAI adapter and the hash-based stub, and the fingerprint of their
  settings (\<open>domain/embedding_fingerprint.py\<close>). What a request brings back is an argument. Vectors
  are exact real numbers; the conversion of an integer to a double may overflow, as in
  \<open>math.isfinite\<close>. Messages of errors and log lines are left out.
\<close>

section \<open>Responses\<close>

text \<open>Integers from this magnitude on do not round to a finite double.\<close>

definition DOUBLE_LIMIT :: int where
  "DOUBLE_LIMIT = 2 ^ 1024 - 2 ^ 970"

definition invalid_response :: exc where
  "invalid_response = ProviderError PROVIDER_ERROR"

fun all_finite :: "json list \<Rightarrow> exc + bool" where
  "all_finite [] = Inr True"
| "all_finite (x # xs) =
     (case x of
        JInt n \<Rightarrow> if DOUBLE_LIMIT \<le> \<bar>n\<bar> then Inl (OtherError ''OverflowError'') else all_finite xs
      | JFloat _ \<Rightarrow> all_finite xs
      | _ \<Rightarrow> Inr False)"

definition is_json_bool :: "json \<Rightarrow> bool" where
  "is_json_bool j = (case j of JBool _ \<Rightarrow> True | _ \<Rightarrow> False)"

fun check_vectors :: "json list \<Rightarrow> nat option \<Rightarrow> exc + nat option" where
  "check_vectors [] first_len = Inr first_len"
| "check_vectors (vec # vecs) first_len =
     (case vec of
        JList xs \<Rightarrow>
          if xs = [] then Inl invalid_response
          else if first_len \<noteq> None \<and> first_len \<noteq> Some (length xs) then Inl invalid_response
          else if list_ex is_json_bool xs then Inl invalid_response
          else (case all_finite xs of
                  Inl e \<Rightarrow> Inl e
                | Inr ok \<Rightarrow> if ok then check_vectors vecs (Some (length xs)) else Inl invalid_response)
      | _ \<Rightarrow> Inl invalid_response)"

definition validate_embeddings :: "json \<Rightarrow> nat \<Rightarrow> int option \<Rightarrow> exc + unit" where
  "validate_embeddings embeddings expected requested_dimensions =
     (case embeddings of
        JList vecs \<Rightarrow>
          if length vecs \<noteq> expected then Inl invalid_response
          else (case check_vectors vecs None of
                  Inl e \<Rightarrow> Inl e
                | Inr first_len \<Rightarrow>
                    if requested_dimensions \<noteq> None \<and> map_option int first_len \<noteq> requested_dimensions
                    then Inl invalid_response else Inr ())
      | _ \<Rightarrow> Inl invalid_response)"

definition number :: "json \<Rightarrow> real" where
  "number j = (case j of JInt n \<Rightarrow> of_int n | JFloat x \<Rightarrow> of_rat x | _ \<Rightarrow> 0)"

definition vectors_of :: "json \<Rightarrow> real list list" where
  "vectors_of j = (case j of JList vecs \<Rightarrow> map (\<lambda>v. case v of JList xs \<Rightarrow> map number xs | _ \<Rightarrow> []) vecs | _ \<Rightarrow> [])"

definition normalize_unit :: "real list \<Rightarrow> real list" where
  "normalize_unit vec =
     (let mag = sqrt (sum_list (map (\<lambda>x. x * x) vec)) in if mag = 0 then vec else map (\<lambda>x. x / mag) vec)"

section \<open>Fingerprints\<close>

text \<open>\<open>json.dumps\<close> with sorted keys, compact separators and ASCII output, on the values that options have.\<close>

definition hex_digit :: "nat \<Rightarrow> char" where
  "hex_digit n = char_of (if n < 10 then 48 + n else 87 + n)"

definition json_escape :: "char \<Rightarrow> string" where
  "json_escape c =
     (let n = of_char c :: nat
      in if n = 34 then [CHR 0x5C, CHR 0x22]
         else if n = 92 then [CHR 0x5C, CHR 0x5C]
         else if n = 10 then [CHR 0x5C, CHR ''n'']
         else if n = 13 then [CHR 0x5C, CHR ''r'']
         else if n = 9 then [CHR 0x5C, CHR ''t'']
         else if n = 12 then [CHR 0x5C, CHR ''f'']
         else if n = 8 then [CHR 0x5C, CHR ''b'']
         else if 32 \<le> n \<and> n < 127 then [c]
         else [CHR 0x5C, CHR ''u'', CHR ''0'', CHR ''0'', hex_digit (n div 16), hex_digit (n mod 16)])"

definition json_string :: "string \<Rightarrow> string" where
  "json_string s = [CHR 0x22] @ concat (map json_escape s) @ [CHR 0x22]"

datatype option_value = ONull | OBool bool | OInt int | OStr string

definition dump_value :: "option_value \<Rightarrow> string" where
  "dump_value v =
     (case v of ONull \<Rightarrow> ''null'' | OBool b \<Rightarrow> (if b then ''true'' else ''false'') | OInt n \<Rightarrow> int_text n | OStr s \<Rightarrow> json_string s)"

definition canonical_options :: "(string \<times> option_value) list \<Rightarrow> string" where
  "canonical_options options =
     ''{'' @ py_join '','' (map (\<lambda>(k, v). json_string k @ '':'' @ dump_value v) (sort_key fst options)) @ ''}''"

definition settings_fingerprint :: "(string \<Rightarrow> string) \<Rightarrow> (string \<times> option_value) list \<Rightarrow> string" where
  "settings_fingerprint sha256 options = sha256 (canonical_options options)"

section \<open>Ollama\<close>

text \<open>
  What \<open>httpx\<close> brings back: an exception, or a response with its status, its text and its JSON
  body (\<^const>\<open>None\<close> when the body is no JSON). \<open>raise_for_status\<close> accepts the statuses 200 to 299.
\<close>

datatype http_reply = ConnectError | TimeoutException | RequestError | Response int string "json option"

record ollama =
  oa_model :: string
  oa_requested_dimensions :: "int option"
  oa_host :: string
  oa_verify_tls :: bool
  oa_revision :: revision_snapshot
  oa_probe_failures :: nat
  oa_last_probe_failure :: "rat option"
  oa_last_probe_warning :: "rat option"

definition PROBE_COOLDOWN_SECONDS :: rat where
  "PROBE_COOLDOWN_SECONDS = 30"

definition KNOWN_FAILURES_BEFORE_WARNING :: nat where
  "KNOWN_FAILURES_BEFORE_WARNING = 3"

definition KNOWN_REMINDER_SECONDS :: rat where
  "KNOWN_REMINDER_SECONDS = 3600"

definition UNKNOWN_REMINDER_SECONDS :: rat where
  "UNKNOWN_REMINDER_SECONDS = 900"

definition ERROR_BODY_LIMIT :: nat where
  "ERROR_BODY_LIMIT = 300"

definition rstrip_slash :: "string \<Rightarrow> string" where
  "rstrip_slash s = rev (dropWhile (\<lambda>c. c = CHR ''/'') (rev s))"

definition normalize_host :: "string \<Rightarrow> string" where
  "normalize_host raw =
     (let raw = rstrip_slash (py_strip raw) in if py_in ''://'' raw then raw else ''http://'' @ raw)"

definition first_text :: "string option list \<Rightarrow> string \<Rightarrow> string" where
  "first_text vals dflt = (case filter (\<lambda>v. v \<notin> {None, Some []}) vals of Some s # _ \<Rightarrow> s | _ \<Rightarrow> dflt)"

definition new_ollama :: "(string \<Rightarrow> string option) \<Rightarrow> string \<Rightarrow> int option \<Rightarrow> string option \<Rightarrow> ollama" where
  "new_ollama env model dims host =
     \<lparr>oa_model = model, oa_requested_dimensions = dims,
      oa_host = normalize_host (first_text [host, env ''OLLAMA_HOST'', env ''OLLAMA_BASE_URL''] ''http://localhost:11434''),
      oa_verify_tls = (py_lower (env_text env ''OLLAMA_VERIFY_TLS'') \<notin> set FALSE_WORDS),
      oa_revision = UNKNOWN_REVISION, oa_probe_failures = 0, oa_last_probe_failure = None, oa_last_probe_warning = None\<rparr>"

definition upstream_error :: "string \<Rightarrow> json option \<Rightarrow> string" where
  "upstream_error text payload =
     (let message = (case payload of Some (JObj kvs) \<Rightarrow> json_get kvs ''error'' | _ \<Rightarrow> JNull);
          fallback = (if text = [] then ''(no error body)'' else text)
      in take ERROR_BODY_LIMIT (case message of JStr m \<Rightarrow> (if m = [] then fallback else m) | _ \<Rightarrow> fallback))"

definition is_context_length_rejection :: "int \<Rightarrow> string \<Rightarrow> bool" where
  "is_context_length_rejection status_code message = (status_code = 400 \<and> py_in ''context length'' (py_lower message))"

definition embed_body :: "ollama \<Rightarrow> string list \<Rightarrow> (string \<times> json) list" where
  "embed_body a texts =
     [(''model'', JStr (oa_model a)), (''input'', JList (map JStr texts)), (''truncate'', JBool False)] @
     (case oa_requested_dimensions a of None \<Rightarrow> [] | Some n \<Rightarrow> [(''dimensions'', JInt n)])"

text \<open>\<open>data.get\<close> raises on a body that is no object, which the last handler turns into a provider error.\<close>

definition ollama_embed_batch ::
  "(string \<Rightarrow> (string \<times> json) list \<Rightarrow> http_reply) \<Rightarrow> ollama \<Rightarrow> string list \<Rightarrow> (exc + real list list) \<times> ollama" where
  "ollama_embed_batch post a texts =
     (if texts = [] then (Inr [], a)
      else case post (rstrip_slash (oa_host a) @ ''/api/embed'') (embed_body a texts) of
        ConnectError \<Rightarrow> (Inl (ProviderError CONNECTION_ERROR), a)
      | TimeoutException \<Rightarrow> (Inl (ProviderError TIMEOUT), a)
      | RequestError \<Rightarrow> (Inl (ProviderError PROVIDER_ERROR), a)
      | Response status text payload \<Rightarrow>
          if status < 200 \<or> 300 \<le> status then
            (Inl (ProviderError (if is_context_length_rejection status (upstream_error text payload)
                                 then CONTENT_TOO_LONG else PROVIDER_ERROR)), a)
          else (case payload of
              Some (JObj kvs) \<Rightarrow>
                (case validate_embeddings (json_get kvs ''embeddings'') (length texts) (oa_requested_dimensions a) of
                   Inl e \<Rightarrow> (Inl (if is_provider_error e then e else ProviderError PROVIDER_ERROR), a)
                 | Inr _ \<Rightarrow> (Inr (map normalize_unit (vectors_of (json_get kvs ''embeddings''))), a\<lparr>oa_last_probe_failure := None\<rparr>))
            | _ \<Rightarrow> (Inl (ProviderError PROVIDER_ERROR), a)))"

subsection \<open>The revision probe\<close>

definition removeprefix :: "string \<Rightarrow> string \<Rightarrow> string" where
  "removeprefix p s = (if prefix p s then drop (length p) s else s)"

definition canonical_model_name :: "string \<Rightarrow> string" where
  "canonical_model_name name =
     (let name = removeprefix ''library/'' (removeprefix ''registry.ollama.ai/'' (py_casefold (py_strip name)))
      in if CHR '':'' \<in> set (last (split_char (CHR ''/'') name)) then name else name @ '':latest'')"

definition entry_names :: "(string \<times> json) list \<Rightarrow> string list" where
  "entry_names kvs =
     concat (map (\<lambda>j. case j of JStr s \<Rightarrow> (if s = [] then [] else [s]) | _ \<Rightarrow> []) [json_get kvs ''name'', json_get kvs ''model''])"

definition nonempty_str :: "json \<Rightarrow> string option" where
  "nonempty_str j = (case j of JStr s \<Rightarrow> (if s = [] then None else Some s) | _ \<Rightarrow> None)"

fun scan_models :: "string \<Rightarrow> json list \<Rightarrow> string list \<Rightarrow> bool \<times> string option \<times> string list" where
  "scan_models wanted [] names = (False, None, names)"
| "scan_models wanted (e # es) names =
     (case e of
        JObj kvs \<Rightarrow>
          (let names = names @ take 1 (entry_names kvs)
           in if list_ex (\<lambda>n. canonical_model_name n = wanted) (entry_names kvs)
              then (True, nonempty_str (json_get kvs ''digest''), names)
              else scan_models wanted es names)
      | _ \<Rightarrow> scan_models wanted es names)"

definition find_model :: "json \<Rightarrow> string \<Rightarrow> (bool \<times> string option \<times> string list) option" where
  "find_model payload model =
     (case payload of
        JObj kvs \<Rightarrow> (case json_get kvs ''models'' of
                       JList models \<Rightarrow> Some (scan_models (canonical_model_name model) models [])
                     | _ \<Rightarrow> None)
      | _ \<Rightarrow> None)"

definition in_cooldown :: "rat \<Rightarrow> ollama \<Rightarrow> bool" where
  "in_cooldown now a =
     (case oa_last_probe_failure a of None \<Rightarrow> False | Some failed_at \<Rightarrow> now - failed_at < PROBE_COOLDOWN_SECONDS)"

definition probe_succeeded :: "string option \<Rightarrow> ollama \<Rightarrow> ollama" where
  "probe_succeeded digest a =
     a\<lparr>oa_revision := \<lparr>rs_known = True, rs_value = digest\<rparr>, oa_probe_failures := 0,
       oa_last_probe_failure := None, oa_last_probe_warning := None\<rparr>"

definition warning_due :: "rat \<Rightarrow> ollama \<Rightarrow> bool" where
  "warning_due now a =
     (let since = map_option (\<lambda>t. now - t) (oa_last_probe_warning a)
      in if rs_known (oa_revision a)
         then KNOWN_FAILURES_BEFORE_WARNING \<le> oa_probe_failures a \<and> (case since of None \<Rightarrow> True | Some t \<Rightarrow> KNOWN_REMINDER_SECONDS \<le> t)
         else (case since of None \<Rightarrow> True | Some t \<Rightarrow> UNKNOWN_REMINDER_SECONDS \<le> t))"

definition probe_failed :: "rat \<Rightarrow> ollama \<Rightarrow> ollama" where
  "probe_failed now a =
     (let a = a\<lparr>oa_probe_failures := oa_probe_failures a + 1, oa_last_probe_failure := Some now\<rparr>
      in if warning_due now a then a\<lparr>oa_last_probe_warning := Some now\<rparr> else a)"

text \<open>\<open>reply\<close>: what the request to \<open>/api/tags\<close> brings back; \<open>now\<close>: the clock when it is recorded.\<close>

definition record_probe :: "http_reply \<Rightarrow> rat \<Rightarrow> ollama \<Rightarrow> ollama" where
  "record_probe reply now a =
     (case reply of
        Response status _ (Some payload) \<Rightarrow>
          if status < 200 \<or> 300 \<le> status then probe_failed now a
          else (case find_model payload (oa_model a) of
                  None \<Rightarrow> probe_failed now a
                | Some (listed, digest, _) \<Rightarrow> if listed then probe_succeeded digest a else probe_failed now a)
      | _ \<Rightarrow> probe_failed now a)"

definition probe_wanted :: "bool \<Rightarrow> rat \<Rightarrow> ollama \<Rightarrow> bool" where
  "probe_wanted force now a = (force \<or> \<not> (rs_known (oa_revision a) \<or> in_cooldown now a))"

text \<open>
  \<open>acquired\<close>: whether the probe lock was free within its timeout; \<open>now\<close> and \<open>later\<close>: the clock at
  the test of the cooldown and at the end of the probe.
\<close>

definition refresh_revision ::
  "(string \<Rightarrow> http_reply) \<Rightarrow> bool \<Rightarrow> bool \<Rightarrow> rat \<Rightarrow> rat \<Rightarrow> ollama \<Rightarrow> revision_snapshot \<times> ollama" where
  "refresh_revision get acquired force now later a =
     (if acquired \<and> probe_wanted force now a
      then (let a = record_probe (get (rstrip_slash (oa_host a) @ ''/api/tags'')) later a in (oa_revision a, a))
      else (oa_revision a, a))"

definition ollama_model_revision :: "ollama \<Rightarrow> exc + string option" where
  "ollama_model_revision a =
     (if rs_known (oa_revision a) then Inr (rs_value (oa_revision a)) else Inl RevisionUnknownError)"

definition ollama_dimensions :: "ollama \<Rightarrow> int" where
  "ollama_dimensions a = (case oa_requested_dimensions a of None \<Rightarrow> 768 | Some n \<Rightarrow> n)"

definition dimensions_option :: "int option \<Rightarrow> option_value" where
  "dimensions_option d = (case d of None \<Rightarrow> ONull | Some n \<Rightarrow> OInt n)"

definition ollama_fingerprint :: "(string \<Rightarrow> string) \<Rightarrow> ollama \<Rightarrow> string" where
  "ollama_fingerprint sha256 a =
     settings_fingerprint sha256 [(''dimensions'', dimensions_option (oa_requested_dimensions a)), (''truncate'', OBool False)]"

section \<open>OpenAI\<close>

record openai =
  op_model :: string
  op_dimensions :: int
  op_api_key :: "string option"
  op_base_url :: string

definition DEFAULT_OPENAI_BASE_URL :: string where
  "DEFAULT_OPENAI_BASE_URL = ''https://api.openai.com/v1''"

text \<open>
  \<open>sdk\<close>: the constructor of the client, which gets the key and the base URL and may raise (without a
  key, say), and \<^const>\<open>None\<close> when the package cannot be imported.
\<close>

definition new_openai ::
  "(string option \<Rightarrow> string \<Rightarrow> exc option) option \<Rightarrow> (string \<Rightarrow> string option) \<Rightarrow> string \<Rightarrow> int \<Rightarrow> string option \<Rightarrow> string option \<Rightarrow> exc + openai" where
  "new_openai sdk env model dims api_key base_url =
     (let key = first_text [api_key, env ''OPENAI_API_KEY''] [];
          key = (if key = [] then None else Some key);
          url = first_text [base_url, env ''OPENAI_BASE_URL''] DEFAULT_OPENAI_BASE_URL
      in case sdk of
           None \<Rightarrow> Inl (ProviderError MISSING_PACKAGE)
         | Some client \<Rightarrow>
             (case client key url of
                Some e \<Rightarrow> Inl e
              | None \<Rightarrow> Inr \<lparr>op_model = model, op_dimensions = dims, op_api_key = key, op_base_url = url\<rparr>))"

definition OVERLENGTH_MESSAGE_MARKERS :: "string list" where
  "OVERLENGTH_MESSAGE_MARKERS = [''context length'', ''maximum input length'']"

text \<open>An exception of the SDK call: its attributes where it has them, and its text.\<close>

record sdk_error =
  se_code :: "string option"
  se_status_code :: "int option"
  se_message :: "string option"
  se_text :: string

definition classify_error :: "sdk_error \<Rightarrow> error_code" where
  "classify_error e =
     (if se_code e = Some ''context_length_exceeded'' then CONTENT_TOO_LONG
      else case se_status_code e of
        None \<Rightarrow> PROVIDER_ERROR
      | Some status \<Rightarrow>
          if 400 \<le> status \<and> status < 500 \<and>
             list_ex (\<lambda>marker. py_in marker (py_lower (first_text [se_message e] (se_text e)))) OVERLENGTH_MESSAGE_MARKERS
          then CONTENT_TOO_LONG else PROVIDER_ERROR)"

text \<open>\<open>create\<close>: the SDK call with the texts, the model and the dimensions; its answer is the list of embeddings.\<close>

definition openai_embed_batch ::
  "(string list \<Rightarrow> string \<Rightarrow> int \<Rightarrow> sdk_error + json list) \<Rightarrow> openai \<Rightarrow> string list \<Rightarrow> exc + real list list" where
  "openai_embed_batch create a texts =
     (case create texts (op_model a) (op_dimensions a) of
        Inl e \<Rightarrow> Inl (ProviderError (classify_error e))
      | Inr embeddings \<Rightarrow>
          (case validate_embeddings (JList embeddings) (length texts) None of
             Inl e \<Rightarrow> Inl (if is_provider_error e then e else ProviderError PROVIDER_ERROR)
           | Inr _ \<Rightarrow> Inr (map normalize_unit (vectors_of (JList embeddings)))))"

definition openai_fingerprint :: "(string \<Rightarrow> string) \<Rightarrow> openai \<Rightarrow> string" where
  "openai_fingerprint sha256 a =
     settings_fingerprint sha256 [(''dimensions'', OInt (op_dimensions a)), (''base_url'', OStr (op_base_url a))]"

section \<open>Stub\<close>

text \<open>\<open>struct.pack\<close> and \<open>struct.unpack\<close> with \<open>>I\<close>: four bytes, the highest first.\<close>

definition pack_be :: "nat \<Rightarrow> string" where
  "pack_be n = map (\<lambda>k. char_of (n div 256 ^ k mod 256)) [3, 2, 1, 0]"

definition unpack_be :: "string \<Rightarrow> nat" where
  "unpack_be bs = foldl (\<lambda>n b. 256 * n + of_char b) 0 bs"

fun quads :: "string \<Rightarrow> string list" where
  "quads (a # b # c # d # bs) = [a, b, c, d] # quads bs"
| "quads _ = []"

definition unit_value :: "string \<Rightarrow> real" where
  "unit_value q = of_nat (unpack_be q) / 4294967295 * 2 - 1"

text \<open>
  The loop over hash blocks. \<^const>\<open>None\<close> is a loop that does not end (a hash without four bytes);
  \<open>struct.pack\<close> refuses a counter of more than 32 bits. A SHA-256 digest is a whole number of quads.
\<close>

partial_function (option) stub_fill :: "(string \<Rightarrow> string) \<Rightarrow> string \<Rightarrow> int \<Rightarrow> nat \<Rightarrow> real list \<Rightarrow> (exc + real list) option" where
  "stub_fill sha256 digest dims blk raw =
     (if dims \<le> int (length raw) then Some (Inr raw)
      else if 4294967296 \<le> blk then Some (Inl (OtherError ''struct.error''))
      else stub_fill sha256 digest dims (blk + 1)
             (raw @ take (nat dims - length raw) (map unit_value (quads (sha256 (digest @ pack_be blk))))))"

definition stub_embed :: "(string \<Rightarrow> string) \<Rightarrow> int \<Rightarrow> string \<Rightarrow> (exc + real list) option" where
  "stub_embed sha256 dims text =
     map_option (map_sum id normalize_unit) (stub_fill sha256 (sha256 (encode_utf8 text)) dims 0 [])"

definition stub_fingerprint :: "(string \<Rightarrow> string) \<Rightarrow> int \<Rightarrow> string" where
  "stub_fingerprint sha256 dims = settings_fingerprint sha256 [(''dimensions'', OInt dims)]"

end
