(* ===== verification/OC_Adapter_Props.thy ===== *)
theory OC_Adapter_Props
  imports OC_Adapters OC_Portability_Props
begin

text \<open>
  What the adapters guarantee: which responses pass the validation, what normalization does to a
  vector, that the stub's loop ends, and that the canonical form of options tells them apart.
\<close>

section \<open>Validation\<close>

definition finite_number :: "json \<Rightarrow> bool" where
  "finite_number j = (case j of JInt n \<Rightarrow> \<bar>n\<bar> < DOUBLE_LIMIT | JFloat _ \<Rightarrow> True | _ \<Rightarrow> False)"

lemma all_finite_iff: "all_finite xs = Inr True \<longleftrightarrow> (\<forall>x \<in> set xs. finite_number x)"
  by (induction xs) (auto simp: finite_number_def split: json.splits)

lemma not_bool: "finite_number x \<Longrightarrow> \<not> is_json_bool x"
  by (auto simp: finite_number_def is_json_bool_def split: json.splits)

definition vector_of_length :: "nat \<Rightarrow> json \<Rightarrow> bool" where
  "vector_of_length n v = (\<exists>xs. v = JList xs \<and> length xs = n \<and> 0 < n \<and> (\<forall>x \<in> set xs. finite_number x))"

lemma check_vectors_Inr:
  "check_vectors vecs first = Inr l \<longleftrightarrow>
     (if vecs = [] then l = first else \<exists>n. l = Some n \<and> first \<in> {None, Some n} \<and> (\<forall>v \<in> set vecs. vector_of_length n v))"
proof (induction vecs arbitrary: first)
  case (Cons v vecs)
  have step: "check_vectors (v # vecs) first = Inr l \<longleftrightarrow>
      (\<exists>n. vector_of_length n v \<and> first \<in> {None, Some n} \<and> check_vectors vecs (Some n) = Inr l)"
    by (cases v) (auto simp: vector_of_length_def list_ex_iff not_bool split: sum.split dest!: all_finite_iff [THEN iffD1] simp flip: all_finite_iff)
  show ?case unfolding step Cons.IH by auto
qed auto

lemma check_vectors_Inl: "check_vectors vecs first = Inl e \<Longrightarrow> e = invalid_response \<or> e = OtherError ''OverflowError''"
proof (induction vecs first rule: check_vectors.induct)
  case (2 v vecs first)
  have "all_finite xs = Inl e \<Longrightarrow> e = OtherError ''OverflowError''" for xs by (induction xs) (auto split: json.splits if_splits)
  then show ?case using 2 by (auto split: json.splits if_splits sum.splits)
qed simp

lemma validate_embeddings_iff:
  "validate_embeddings j expected dims = Inr () \<longleftrightarrow>
     (\<exists>vecs. j = JList vecs \<and> length vecs = expected \<and>
        (if vecs = [] then dims = None else \<exists>n. (\<forall>v \<in> set vecs. vector_of_length n v) \<and> dims \<in> {None, Some (int n)}))"
proof -
  have "validate_embeddings j expected dims = Inr () \<longleftrightarrow>
      (\<exists>vecs l. j = JList vecs \<and> length vecs = expected \<and> check_vectors vecs None = Inr l \<and> (dims = None \<or> map_option int l = dims))"
    by (cases j) (auto simp: validate_embeddings_def split: sum.splits if_splits)
  then show ?thesis unfolding check_vectors_Inr by (cases dims) (auto split: if_splits)
qed

lemma validate_embeddings_Inl: "validate_embeddings j expected dims = Inl e \<Longrightarrow> e = invalid_response \<or> e = OtherError ''OverflowError''"
  by (auto simp: validate_embeddings_def dest: check_vectors_Inl split: json.splits sum.splits if_splits)

lemma vectors_of_lengths:
  assumes "validate_embeddings j expected dims = Inr ()"
  shows "length (vectors_of j) = expected \<and> (\<exists>n > 0. \<forall>v \<in> set (vectors_of j). length v = n \<and> (\<forall>d. dims = Some d \<longrightarrow> int n = d))"
proof -
  obtain vecs where j: "j = JList vecs" "length vecs = expected"
      "if vecs = [] then dims = None else \<exists>n. (\<forall>v \<in> set vecs. vector_of_length n v) \<and> dims \<in> {None, Some (int n)}"
    using assms unfolding validate_embeddings_iff by blast
  show ?thesis
  proof (cases vecs)
    case Nil
    then show ?thesis using j by (auto simp: vectors_of_def)
  next
    case (Cons v vs)
    then obtain n where "\<forall>v \<in> set vecs. vector_of_length n v" "dims \<in> {None, Some (int n)}" using j(3) by (auto split: if_splits)
    moreover from this Cons have "0 < n" by (auto simp: vector_of_length_def)
    ultimately show ?thesis using j(1,2) by (auto simp: vectors_of_def vector_of_length_def intro!: exI [of _ n])
  qed
qed

section \<open>Unit vectors\<close>

definition dot :: "real list \<Rightarrow> real list \<Rightarrow> real" where
  "dot u v = sum_list (map2 (*) u v)"

definition unit_or_zero :: "real list \<Rightarrow> bool" where
  "unit_or_zero v = (dot v v = 1 \<or> set v \<subseteq> {0})"

lemma dot_scale: "dot (map (\<lambda>x. x / a) u) (map (\<lambda>x. x / b) v) = dot u v / (a * b)"
  by (induction u v rule: list_induct2') (simp_all add: dot_def add_divide_distrib)

lemma dot_self: "dot v v = sum_list (map (\<lambda>x. x * x) v)"
  by (induction v) (simp_all add: dot_def)

lemma dot_self_nonneg: "0 \<le> dot v v"
  unfolding dot_self by (rule sum_list_nonneg) auto

lemma dot_self_0: "dot v v = 0 \<longleftrightarrow> set v \<subseteq> {0}"
proof (induction v)
  case (Cons x v)
  then show ?case using dot_self_nonneg [of v] by (auto simp: dot_def add_nonneg_eq_0_iff)
qed (simp add: dot_def)

lemma normalize_unit_eq: "normalize_unit v = (if set v \<subseteq> {0} then v else map (\<lambda>x. x / sqrt (dot v v)) v)"
  by (simp add: normalize_unit_def Let_def flip: dot_self dot_self_0)

lemma length_normalize_unit [simp]: "length (normalize_unit v) = length v"
  by (simp add: normalize_unit_eq)

lemma unit_normalize: "unit_or_zero (normalize_unit v)"
  using dot_self_nonneg [of v] by (auto simp: unit_or_zero_def normalize_unit_eq dot_scale dot_self_0)

text \<open>The dot product of normalized vectors is the cosine, as the search assumes.\<close>

lemma dot_normalize:
  assumes "\<not> set u \<subseteq> {0}" "\<not> set v \<subseteq> {0}"
  shows "dot (normalize_unit u) (normalize_unit v) = dot u v / (sqrt (dot u u) * sqrt (dot v v))"
  using assms by (simp add: normalize_unit_eq dot_scale)

section \<open>The stub\<close>

lemma length_quads: "length (quads bs) = length bs div 4"
  by (induction bs rule: quads.induct) auto

lemma stub_fill_done: "dims \<le> int (length raw) \<Longrightarrow> stub_fill sha256 digest dims blk raw = Some (Inr raw)"
  by (subst stub_fill.simps) simp

lemma stub_fill_returns:
  assumes sha: "\<And>x. length (sha256 x) = 32"
    and "dims \<le> 8 * (4294967296 :: int)" "blk \<le> 4294967296" "length raw = min (8 * blk) (nat dims)"
  shows "\<exists>v. stub_fill sha256 digest dims blk raw = Some (Inr v) \<and> length v = nat dims"
  using assms(2-)
proof (induction "4294967296 - blk" arbitrary: blk raw)
  case 0
  then show ?case by (auto simp: stub_fill_done)
next
  case (Suc k)
  show ?case
  proof (cases "dims \<le> int (length raw)")
    case True
    then show ?thesis using Suc.prems by (auto simp: stub_fill_done)
  next
    case False
    let ?raw = "raw @ take (nat dims - length raw) (map unit_value (quads (sha256 (digest @ pack_be blk))))"
    have "length ?raw = min (8 * (blk + 1)) (nat dims)" using False Suc.prems by (simp add: length_quads sha)
    moreover have "k = 4294967296 - (blk + 1)" "blk + 1 \<le> 4294967296" using Suc.hyps(2) by simp_all
    ultimately obtain v where "stub_fill sha256 digest dims (blk + 1) ?raw = Some (Inr v)" "length v = nat dims"
      using Suc.hyps(1) [of "blk + 1" ?raw] Suc.prems(1) by blast
    then show ?thesis using False Suc.hyps(2) by (subst stub_fill.simps) simp
  qed
qed

lemma stub_embed_returns:
  assumes "\<And>x. length (sha256 x) = 32" "dims \<le> 8 * (4294967296 :: int)"
  shows "\<exists>v. stub_embed sha256 dims text = Some (Inr v) \<and> length v = nat dims \<and> unit_or_zero v"
proof -
  obtain v where "stub_fill sha256 (sha256 (encode_utf8 text)) dims 0 [] = Some (Inr v)" "length v = nat dims"
    using stub_fill_returns [of sha256 dims 0 "[]"] assms by auto
  then show ?thesis by (simp add: stub_embed_def unit_normalize)
qed

section \<open>Canonical options\<close>

text \<open>A reader of one escaped character: the escapes of different characters are told apart.\<close>

definition unhex :: "char \<Rightarrow> nat" where
  "unhex c = (let n = of_char c in if n < 58 then n - 48 else n - 87)"

lemma unhex_hex: "n < 16 \<Longrightarrow> unhex (hex_digit n) = n"
  by (auto simp: unhex_def hex_digit_def Let_def)

definition read_escaped :: "string \<Rightarrow> char \<times> string" where
  "read_escaped s =
     (if hd s \<noteq> CHR 0x5C then (hd s, tl s)
      else if s ! 1 = CHR ''n'' then (char_of (10 :: nat), drop 2 s)
      else if s ! 1 = CHR ''r'' then (char_of (13 :: nat), drop 2 s)
      else if s ! 1 = CHR ''t'' then (char_of (9 :: nat), drop 2 s)
      else if s ! 1 = CHR ''f'' then (char_of (12 :: nat), drop 2 s)
      else if s ! 1 = CHR ''b'' then (char_of (8 :: nat), drop 2 s)
      else if s ! 1 = CHR ''u'' then (char_of (16 * unhex (s ! 4) + unhex (s ! 5)), drop 6 s)
      else (s ! 1, drop 2 s))"

lemma quote_chars: "char_of (34 :: nat) = CHR 0x22" "char_of (92 :: nat) = CHR 0x5C"
  by code_simp+

lemma read_json_escape: "read_escaped (json_escape c @ r) = (c, r)"
proof -
  define n where "n = (of_char c :: nat)"
  have c: "c = char_of n" "n < 256" "n div 16 < 16" using less_mult_imp_div_less [of n 16 16] by (simp_all add: n_def)
  consider "n \<in> {34, 92, 10, 13, 9, 12, 8}" | "n \<notin> {34, 92, 10, 13, 9, 12, 8}" "32 \<le> n \<and> n < 127"
    | "n \<notin> {34, 92, 10, 13, 9, 12, 8}" "\<not> (32 \<le> n \<and> n < 127)" by blast
  then show ?thesis
  proof cases
    case 1
    then show ?thesis by (elim insertE emptyE) (simp_all add: c(1) json_escape_def read_escaped_def quote_chars)
  next
    case 2
    then have "json_escape c = [c]" by (simp add: json_escape_def n_def)
    moreover have "c \<noteq> CHR 0x5C" using 2(1) by (auto simp: n_def simp flip: quote_chars)
    ultimately show ?thesis by (simp add: read_escaped_def)
  next
    case 3
    then have "json_escape c = [CHR 0x5C, CHR ''u'', CHR ''0'', CHR ''0'', hex_digit (n div 16), hex_digit (n mod 16)]"
      by (auto simp: json_escape_def Let_def n_def)
    then show ?thesis using c(3) by (simp add: read_escaped_def unhex_hex c(1))
  qed
qed

lemma json_escape_quote: "json_escape c @ r \<noteq> CHR 0x22 # s" "CHR 0x22 # s \<noteq> json_escape c @ r"
  by (auto simp: json_escape_def Let_def)

lemma escaped_inj:
  "concat (map json_escape u) @ CHR 0x22 # r = concat (map json_escape v) @ CHR 0x22 # s \<Longrightarrow> u = v \<and> r = s"
proof (induction u arbitrary: v)
  case Nil
  then show ?case by (cases v) (auto simp: json_escape_quote)
next
  case (Cons c u)
  show ?case
  proof (cases v)
    case Nil
    then show ?thesis using Cons.prems by (simp add: json_escape_quote)
  next
    case (Cons d v')
    then have eq: "json_escape c @ concat (map json_escape u) @ CHR 0x22 # r = json_escape d @ concat (map json_escape v') @ CHR 0x22 # s"
      using Cons.prems by simp
    from arg_cong [OF eq, of read_escaped] have "c = d" by (simp add: read_json_escape)
    with eq Cons.IH Cons show ?thesis by simp
  qed
qed

lemma json_string_inj: "json_string u @ r = json_string v @ s \<Longrightarrow> u = v \<and> r = s"
  by (auto simp: json_string_def dest: escaped_inj)

lemma set_nat_text: "set (nat_text n) \<subseteq> Collect is_digit"
proof (induction n rule: nat_text.induct)
  case (1 n)
  have "is_digit (char_of (48 + n mod 10))" by (simp add: is_digit_def Let_def)
  moreover have "n < 10 \<Longrightarrow> is_digit (char_of (48 + n))" by (simp add: is_digit_def Let_def)
  ultimately show ?case using 1 by (auto simp: nat_text.simps [of n])
qed

lemma nat_text_inj: "nat_text m = nat_text n \<longleftrightarrow> m = n"
  by (metis undigits_nat_text)

lemma nat_text_nonempty: "nat_text n \<noteq> []"
  by (simp add: nat_text.simps [of n])

definition number_char :: "char \<Rightarrow> bool" where
  "number_char c = (is_digit c \<or> c = CHR ''-'')"

lemma set_int_text: "c \<in> set (int_text n) \<Longrightarrow> number_char c"
  using set_nat_text by (auto simp: int_text_def number_char_def split: if_splits)

lemma no_minus: "CHR ''-'' \<notin> set (nat_text n)"
proof
  assume "CHR ''-'' \<in> set (nat_text n)"
  then have "is_digit (CHR ''-'')" using set_nat_text by blast
  then show False by (simp add: is_digit_def)
qed

lemma int_text_inj: "int_text m = int_text n \<Longrightarrow> m = n"
proof -
  have neg: "CHR ''-'' # nat_text a \<noteq> nat_text b" for a b using no_minus [of b] by (metis list.set_intros(1))
  assume "int_text m = int_text n"
  then show "m = n" by (auto simp: int_text_def nat_text_inj neg neg [symmetric] split: if_splits)
qed

text \<open>What may follow a value in the canonical form.\<close>

definition delimited :: "string \<Rightarrow> bool" where
  "delimited r = (r \<noteq> [] \<and> hd r \<in> {CHR '','', CHR ''}''})"

lemma take_int_text: "delimited r \<Longrightarrow> takeWhile number_char (int_text n @ r) = int_text n"
  by (cases r) (auto simp: takeWhile_append delimited_def number_char_def is_digit_def dest: set_int_text)

lemma int_text_Cons: "int_text n @ x = c # y \<Longrightarrow> number_char c" "c # y = int_text n @ x \<Longrightarrow> number_char c"
proof -
  have "int_text n \<noteq> []" by (simp add: int_text_def nat_text_nonempty)
  then show "int_text n @ x = c # y \<Longrightarrow> number_char c" "c # y = int_text n @ x \<Longrightarrow> number_char c"
    using set_int_text [of _ n] by (cases "int_text n"; auto)+
qed

lemma dump_value_inj:
  assumes "dump_value v @ r = dump_value w @ s" "delimited r" "delimited s"
  shows "v = w \<and> r = s"
proof -
  have ints: "m = n \<and> r = s" if "int_text m @ r = int_text n @ s" for m n
  proof -
    have "m = n" using arg_cong [OF that, of "takeWhile number_char"] by (intro int_text_inj) (simp add: take_int_text assms(2,3))
    then show ?thesis using that by simp
  qed
  have strings: "json_string u @ r = CHR 0x22 # concat (map json_escape u) @ CHR 0x22 # r" for u r by (simp add: json_string_def)
  show ?thesis
  proof (cases "\<exists>u u'. v = OStr u \<and> w = OStr u'")
    case True
    then obtain u u' where vw: "v = OStr u" "w = OStr u'" by blast
    then have "json_string u @ r = json_string u' @ s" using assms(1) by (simp add: dump_value_def)
    from json_string_inj [OF this] show ?thesis by (simp add: vw)
  next
    case False
    then show ?thesis using assms(1) ints
      by (cases v; cases w) (auto simp: dump_value_def strings number_char_def is_digit_def split: if_splits dest: int_text_Cons)
  qed
qed

definition member_text :: "string \<times> option_value \<Rightarrow> string" where
  "member_text x = json_string (fst x) @ '':'' @ dump_value (snd x)"

definition rest_text :: "(string \<times> option_value) list \<Rightarrow> string" where
  "rest_text xs = concat (map (\<lambda>x. '','' @ member_text x) xs) @ ''}''"

lemma rest_text_delimited: "delimited (rest_text xs)"
  by (cases xs) (simp_all add: rest_text_def delimited_def)

lemma member_text_inj:
  assumes "member_text x @ rest_text xs = member_text y @ rest_text ys"
  shows "x = y \<and> rest_text xs = rest_text ys"
proof -
  have "json_string (fst x) @ '':'' @ dump_value (snd x) @ rest_text xs = json_string (fst y) @ '':'' @ dump_value (snd y) @ rest_text ys"
    using assms by (simp add: member_text_def)
  from json_string_inj [OF this] have "fst x = fst y" and eq: "dump_value (snd x) @ rest_text xs = dump_value (snd y) @ rest_text ys" by simp_all
  with dump_value_inj [OF eq rest_text_delimited rest_text_delimited] show ?thesis by (simp add: prod_eq_iff)
qed

lemma rest_text_inj: "rest_text xs = rest_text ys \<Longrightarrow> xs = ys"
proof (induction xs arbitrary: ys)
  case Nil
  then show ?case by (cases ys) (simp_all add: rest_text_def)
next
  case (Cons x xs)
  then obtain y ys' where ys: "ys = y # ys'" by (cases ys) (simp_all add: rest_text_def)
  then have "member_text x @ rest_text xs = member_text y @ rest_text ys'" using Cons.prems by (simp add: rest_text_def)
  from member_text_inj [OF this] Cons.IH show ?case by (simp add: ys)
qed

lemma py_join_Cons: "py_join sep (x # xs) = x @ concat (map (\<lambda>y. sep @ y) xs)"
  by (induction xs arbitrary: x) simp_all

lemma canonical_options_text:
  "canonical_options xs = ''{'' @ (case sort_key fst xs of [] \<Rightarrow> ''}'' | y # ys \<Rightarrow> member_text y @ rest_text ys)"
  by (auto simp: canonical_options_def py_join_Cons member_text_def rest_text_def case_prod_unfold comp_def split: list.split)

lemma canonical_options_inj: "canonical_options xs = canonical_options ys \<Longrightarrow> sort_key fst xs = sort_key fst ys"
proof -
  have start: "member_text x @ r \<noteq> ''}''" for x r by (simp add: member_text_def json_string_def)
  assume "canonical_options xs = canonical_options ys"
  then show ?thesis unfolding canonical_options_text
    by (auto simp: start start [symmetric] split: list.splits dest: member_text_inj [THEN conjunct1] member_text_inj [THEN conjunct2, THEN rest_text_inj])
qed

lemma canonical_options_iff:
  assumes "distinct (map fst xs)" "distinct (map fst ys)"
  shows "canonical_options xs = canonical_options ys \<longleftrightarrow> map_of xs = map_of ys"
proof
  assume "canonical_options xs = canonical_options ys"
  then have "mset xs = mset ys" by (metis canonical_options_inj mset_sort)
  then have "set xs = set ys" by (rule mset_eq_setD)
  then show "map_of xs = map_of ys" using assms map_of_inject_set by metis
next
  assume "map_of xs = map_of ys"
  then have "set xs = set ys" using assms by (simp add: map_of_inject_set)
  then have "mset xs = mset ys" using assms by (simp add: set_eq_iff_mset_eq_distinct distinct_map)
  moreover have "inj_on fst (set xs)" using assms(1) by (simp add: distinct_map)
  ultimately have "sort_key fst xs = sort_key fst ys" by (intro sort_key_inj_key_eq) simp_all
  then show "canonical_options xs = canonical_options ys" by (simp add: canonical_options_def)
qed

end
