(* ===== verification/OC_Adapter_Theorems.thy ===== *)
theory OC_Adapter_Theorems
  imports OC_Adapter_Props
begin

text \<open>
  The properties of the embedding adapters. Calls of the Ollama adapter from several threads are a
  run: embeddings at any time, and one probe in flight at most, because the lock is held from the
  decision to probe until its result is recorded.
\<close>

section \<open>Probes\<close>

text \<open>The digest under which a response to \<open>/api/tags\<close> lists a model.\<close>

definition names_model :: "string \<Rightarrow> json \<Rightarrow> bool" where
  "names_model model e =
     (case e of JObj kvs \<Rightarrow> list_ex (\<lambda>n. canonical_model_name n = canonical_model_name model) (entry_names kvs) | _ \<Rightarrow> False)"

definition digest_of :: "json \<Rightarrow> string option" where
  "digest_of e = (case e of JObj kvs \<Rightarrow> nonempty_str (json_get kvs ''digest'') | _ \<Rightarrow> None)"

definition listed_as :: "string \<Rightarrow> http_reply \<Rightarrow> string option option" where
  "listed_as model reply =
     (case reply of
        Response status _ (Some (JObj kvs)) \<Rightarrow>
          (case json_get kvs ''models'' of
             JList es \<Rightarrow> if 200 \<le> status \<and> status < 300 then map_option digest_of (find (names_model model) es) else None
           | _ \<Rightarrow> None)
      | _ \<Rightarrow> None)"

lemma scan_models_find:
  "scan_models (canonical_model_name model) es names = (listed, digest, names') \<Longrightarrow>
     (listed \<longleftrightarrow> find (names_model model) es \<noteq> None) \<and> (\<forall>e. find (names_model model) es = Some e \<longrightarrow> digest = digest_of e)"
proof (induction es arbitrary: names)
  case (Cons e es)
  then show ?case by (cases e) (auto simp: names_model_def digest_of_def Let_def split: if_splits)
qed simp

lemma record_probe_listing:
  "record_probe reply now a = (case listed_as (oa_model a) reply of None \<Rightarrow> probe_failed now a | Some digest \<Rightarrow> probe_succeeded digest a)"
proof (cases "\<exists>status body kvs es. reply = Response status body (Some (JObj kvs)) \<and> json_get kvs ''models'' = JList es")
  case True
  then obtain status body kvs es where r: "reply = Response status body (Some (JObj kvs))" "json_get kvs ''models'' = JList es" by blast
  obtain listed digest names where scan: "scan_models (canonical_model_name (oa_model a)) es [] = (listed, digest, names)" by (metis prod_cases3)
  from scan_models_find [OF scan] show ?thesis
    by (cases "find (names_model (oa_model a)) es") (auto simp: record_probe_def find_model_def listed_as_def r scan)
next
  case False
  then show ?thesis by (auto simp: record_probe_def find_model_def listed_as_def split: http_reply.splits option.splits json.splits)
qed

inductive ollama_run :: "ollama \<Rightarrow> (http_reply \<times> rat) list \<Rightarrow> bool \<Rightarrow> ollama \<Rightarrow> bool" for a\<^sub>0 where
  start: "ollama_run a\<^sub>0 [] False a\<^sub>0"
| embeds: "ollama_run a\<^sub>0 ps f a \<Longrightarrow> ollama_run a\<^sub>0 ps f (snd (ollama_embed_batch post a texts))"
| begins: "ollama_run a\<^sub>0 ps False a \<Longrightarrow> probe_wanted force now a \<Longrightarrow> ollama_run a\<^sub>0 ps True a"
| ends: "ollama_run a\<^sub>0 ps True a \<Longrightarrow> ollama_run a\<^sub>0 (ps @ [(reply, now)]) False (record_probe reply now a)"

text \<open>A call of \<open>refresh_revision\<close> that is not interleaved is such a run.\<close>

lemma refresh_is_run:
  assumes "ollama_run a\<^sub>0 ps False a"
  shows "\<exists>ps'. ollama_run a\<^sub>0 ps' False (snd (refresh_revision get acquired force now later a))"
proof (cases "acquired \<and> probe_wanted force now a")
  case True
  then have "ollama_run a\<^sub>0 ps True a" using assms begins by blast
  from ends [OF this, of "get (rstrip_slash (oa_host a) @ ''/api/tags'')" later] show ?thesis using True by (auto simp: refresh_revision_def Let_def)
next
  case False
  then show ?thesis using assms by (auto simp: refresh_revision_def)
qed

lemma embed_batch_frame:
  "snd (ollama_embed_batch post a texts) \<in> {a, a\<lparr>oa_last_probe_failure := None\<rparr>}"
  unfolding ollama_embed_batch_def by (auto split: http_reply.split option.split json.split sum.split)

definition verified :: "string \<Rightarrow> (http_reply \<times> rat) list \<Rightarrow> revision_snapshot" where
  "verified model ps =
     (case filter (\<lambda>d. d \<noteq> None) (map (listed_as model \<circ> fst) ps) of
        [] \<Rightarrow> UNKNOWN_REVISION
      | ds \<Rightarrow> \<lparr>rs_known = True, rs_value = the (last ds)\<rparr>)"

definition failed_in_a_row :: "string \<Rightarrow> (http_reply \<times> rat) list \<Rightarrow> nat" where
  "failed_in_a_row model ps = length (takeWhile (\<lambda>p. listed_as model (fst p) = None) (rev ps))"

definition probe_state :: "string \<Rightarrow> (http_reply \<times> rat) list \<Rightarrow> ollama \<Rightarrow> bool" where
  "probe_state model ps a =
     (oa_model a = model \<and> oa_revision a = verified model ps \<and> oa_probe_failures a = failed_in_a_row model ps \<and>
      (\<forall>t. oa_last_probe_failure a = Some t \<longrightarrow> (\<exists>ps' reply. ps = ps' @ [(reply, t)] \<and> listed_as model reply = None)))"

lemma verified_snoc:
  "verified model (ps @ [(reply, now)]) = (case listed_as model reply of None \<Rightarrow> verified model ps | Some d \<Rightarrow> \<lparr>rs_known = True, rs_value = d\<rparr>)"
  by (cases "filter (\<lambda>d. d \<noteq> None) (map (listed_as model \<circ> fst) ps)") (auto simp: verified_def split: option.split)

lemma probe_failed_sel:
  "oa_model (probe_failed now a) = oa_model a" "oa_revision (probe_failed now a) = oa_revision a"
  "oa_probe_failures (probe_failed now a) = Suc (oa_probe_failures a)" "oa_last_probe_failure (probe_failed now a) = Some now"
  by (simp_all add: probe_failed_def Let_def)

lemma probe_state_run: "ollama_run a\<^sub>0 ps f a \<Longrightarrow> probe_state model [] a\<^sub>0 \<Longrightarrow> probe_state model ps a"
proof (induction rule: ollama_run.induct)
  case (embeds ps f a post texts)
  then show ?case using embed_batch_frame [of post a texts] by (auto simp: probe_state_def)
next
  case (ends ps a reply now)
  then show ?case
    by (auto simp: probe_state_def record_probe_listing verified_snoc failed_in_a_row_def probe_failed_sel probe_succeeded_def split: option.split)
qed auto

lemma verified_known: "rs_known (verified model ps) \<longleftrightarrow> (\<exists>p \<in> set ps. listed_as model (fst p) \<noteq> None)"
  by (induction ps rule: rev_induct) (auto simp: verified_snoc verified_def [of _ "[]"] UNKNOWN_REVISION_def split: option.split)

section \<open>Theorems\<close>





text \<open>
  C31. The revision of an Ollama model is always one that a probe has seen. After any interleaving
  of embeddings and probes, it is the digest of the last probe whose response listed the model, and
  unknown when there was none; failed probes never change it, and are counted since the last
  success. A cooldown is running only when the very last probe failed, and an unforced call probes
  only while the revision is unknown.
\<close>

theorem ollama_revision_verified:
  assumes "ollama_run (new_ollama env model dims host) ps f a"
  shows "oa_revision a = verified model ps \<and> oa_probe_failures a = failed_in_a_row model ps \<and>
    (\<forall>t. oa_last_probe_failure a = Some t \<longrightarrow> (\<exists>ps' reply. ps = ps' @ [(reply, t)] \<and> listed_as model reply = None)) \<and>
    (ollama_model_revision a = Inl RevisionUnknownError \<longleftrightarrow> (\<forall>p \<in> set ps. listed_as model (fst p) = None)) \<and>
    (\<forall>now. probe_wanted False now a \<longrightarrow> (\<forall>p \<in> set ps. listed_as model (fst p) = None) \<and>
       (\<forall>t. oa_last_probe_failure a = Some t \<longrightarrow> t + 30 \<le> now))"
proof -
  have "probe_state model [] (new_ollama env model dims host)"
    by (simp add: probe_state_def new_ollama_def verified_def failed_in_a_row_def)
  from probe_state_run [OF assms this] have st: "probe_state model ps a" .
  then have "rs_known (oa_revision a) \<longleftrightarrow> (\<exists>p \<in> set ps. listed_as model (fst p) \<noteq> None)" by (simp add: probe_state_def verified_known)
  then show ?thesis using st
    by (auto simp: probe_state_def ollama_model_revision_def probe_wanted_def in_cooldown_def PROBE_COOLDOWN_SECONDS_def split: option.splits)
qed

theorem ollama_revision_verified_witness:
  "\<exists>a. ollama_model_revision a = Inr (Some ''sha'') \<and> oa_probe_failures a = 1 \<and>
     ollama_run (new_ollama Map.empty ''Nomic'' None None)
       [(Response 200 [] (Some (JObj [(''models'', JList [JObj [(''name'', JStr ''nomic:latest''), (''digest'', JStr ''sha'')]])])), 1), (TimeoutException, 2)] False a"
proof -
  let ?ok = "Response 200 [] (Some (JObj [(''models'', JList [JObj [(''name'', JStr ''nomic:latest''), (''digest'', JStr ''sha'')]])]))"
  let ?a = "new_ollama Map.empty ''Nomic'' None None"
  have wanted: "probe_wanted True t x" for t x by (simp add: probe_wanted_def)
  have run: "ollama_run ?a [(?ok, 1), (TimeoutException, 2)] False (record_probe TimeoutException 2 (record_probe ?ok 1 ?a))"
    using ollama_run.ends [OF ollama_run.begins [OF ollama_run.ends [OF ollama_run.begins [OF ollama_run.start wanted]] wanted], where reply = TimeoutException] by simp
  have "verified ''Nomic'' [(?ok, 1), (TimeoutException, 2)] = \<lparr>rs_known = True, rs_value = Some ''sha''\<rparr>" "failed_in_a_row ''Nomic'' [(?ok, 1), (TimeoutException, 2)] = 1"
    by code_simp+
  moreover note ollama_revision_verified [OF run]
  ultimately have "ollama_model_revision (record_probe TimeoutException 2 (record_probe ?ok 1 ?a)) = Inr (Some ''sha'')"
      "oa_probe_failures (record_probe TimeoutException 2 (record_probe ?ok 1 ?a)) = 1" by (simp_all add: ollama_model_revision_def)
  then show ?thesis using run by blast
qed

text \<open>
  The fingerprint of settings is canonical: the serialized options of two dictionaries are the
  same text exactly when they are the same dictionary, whatever the order of their keys. So equal
  settings never make vectors stale, and different settings have different fingerprints unless
  SHA-256 itself collides. The vectors of two adapters of one kind therefore share a space only
  with equal dimensions, and with equal endpoints for OpenAI.
\<close>

lemma settings_fingerprint_canonical:
  assumes "distinct (map fst xs)" "distinct (map fst ys)"
  shows "(canonical_options xs = canonical_options ys \<longleftrightarrow> map_of xs = map_of ys) \<and>
    (map_of xs = map_of ys \<longrightarrow> settings_fingerprint sha256 xs = settings_fingerprint sha256 ys) \<and>
    (ollama_fingerprint sha256 a = ollama_fingerprint sha256 a' \<longrightarrow> oa_requested_dimensions a = oa_requested_dimensions a' \<or> (\<exists>s t. s \<noteq> t \<and> sha256 s = sha256 t)) \<and>
    (openai_fingerprint sha256 b = openai_fingerprint sha256 b' \<longrightarrow>
       (op_dimensions b, op_base_url b) = (op_dimensions b', op_base_url b') \<or> (\<exists>s t. s \<noteq> t \<and> sha256 s = sha256 t)) \<and>
    (stub_fingerprint sha256 m = stub_fingerprint sha256 n \<longrightarrow> m = n \<or> (\<exists>s t. s \<noteq> t \<and> sha256 s = sha256 t))"
proof -
  let ?collision = "\<exists>s t. s \<noteq> t \<and> sha256 s = sha256 t"
  have same: "map_of us k = map_of vs k \<or> ?collision"
    if "settings_fingerprint sha256 us = settings_fingerprint sha256 vs" "distinct (map fst us)" "distinct (map fst vs)" for us vs k
    using that canonical_options_iff [OF that(2,3)] unfolding settings_fingerprint_def by metis
  have "oa_requested_dimensions a = oa_requested_dimensions a' \<or> ?collision" if "ollama_fingerprint sha256 a = ollama_fingerprint sha256 a'"
    using same [OF that [unfolded ollama_fingerprint_def], of "''dimensions''"] by (simp add: dimensions_option_def split: option.splits)
  moreover have "(op_dimensions b, op_base_url b) = (op_dimensions b', op_base_url b') \<or> ?collision" if "openai_fingerprint sha256 b = openai_fingerprint sha256 b'"
    using same [OF that [unfolded openai_fingerprint_def], of "''dimensions''"] same [OF that [unfolded openai_fingerprint_def], of "''base_url''"] by auto
  moreover have "m = n \<or> ?collision" if "stub_fingerprint sha256 m = stub_fingerprint sha256 n"
    using same [OF that [unfolded stub_fingerprint_def], of "''dimensions''"] by simp
  moreover have "map_of xs = map_of ys \<longrightarrow> settings_fingerprint sha256 xs = settings_fingerprint sha256 ys"
    using canonical_options_iff [OF assms] by (auto simp: settings_fingerprint_def)
  ultimately show ?thesis using canonical_options_iff [OF assms] by blast
qed

lemma settings_fingerprint_canonical_witness:
  "canonical_options [(''dimensions'', OInt 768), (''base_url'', OStr ''u'')] = canonical_options [(''base_url'', OStr ''u''), (''dimensions'', OInt 768)]"
proof -
  have "map_of [(''dimensions'', OInt 768), (''base_url'', OStr ''u'')] = map_of [(''base_url'', OStr ''u''), (''dimensions'', OInt 768)]"
    by (auto simp: fun_eq_iff)
  moreover have "distinct (map fst [(''dimensions'', OInt 768), (''base_url'', OStr ''u'')])" "distinct (map fst [(''base_url'', OStr ''u''), (''dimensions'', OInt 768)])"
    by simp_all
  ultimately show ?thesis by (intro settings_fingerprint_canonical [THEN conjunct1, THEN iffD2])
qed

end
