(* ===== verification/OC_Migrator.thy ===== *)
theory OC_Migrator
  imports OC_Portability_Props
begin

text \<open>
  The schema migrator (\<open>infrastructure/persistence/migrator.py\<close>): discovery of migration files, the
  split of a script into statements, the version table, and the application of pending migrations,
  each in a savepoint. What SQLite does with a statement is a parameter; a savepoint that is
  rolled back restores the database it was opened on. The migrator knows two parts of a
  database: the rows of \<open>schema_version\<close> (\<^const>\<open>None\<close> while there is no such table) and the rest.
\<close>

section \<open>Scripts\<close>

definition is_line_break :: "char \<Rightarrow> bool" where
  "is_line_break c = (let n = of_char c :: nat in (10 \<le> n \<and> n \<le> 13) \<or> (28 \<le> n \<and> n \<le> 30) \<or> n = 133)"

text \<open>\<open>str.splitlines\<close>: a carriage return and a line feed make one break, and a last break ends no extra line.\<close>

fun py_splitlines :: "string \<Rightarrow> string \<Rightarrow> string list" where
  "py_splitlines line [] = (if line = [] then [] else [line])"
| "py_splitlines line (c # cs) =
     (if c = CHR 0x0D \<and> cs \<noteq> [] \<and> hd cs = CHR 0x0A then line # py_splitlines [] (tl cs)
      else if is_line_break c then line # py_splitlines [] cs
      else py_splitlines (line @ [c]) cs)"

fun cut_comment :: "string \<Rightarrow> string" where
  "cut_comment [] = []"
| "cut_comment (c # cs) = (if prefix ''--'' (c # cs) then [] else c # cut_comment cs)"

definition split_sql :: "string \<Rightarrow> string list" where
  "split_sql script =
     (let body = py_join [CHR 0x0A] (map cut_comment (py_splitlines [] script))
      in filter (\<lambda>s. s \<noteq> []) (map py_strip (split_char (CHR '';'') body)))"

section \<open>Migration files\<close>

record dir_entry =
  de_name :: string
  de_is_file :: bool
  de_content :: "string option"

definition slug_char :: "char \<Rightarrow> bool" where
  "slug_char c =
     (let n = of_char c :: nat in (48 \<le> n \<and> n \<le> 57) \<or> (65 \<le> n \<and> n \<le> 90) \<or> (97 \<le> n \<and> n \<le> 122) \<or> n = 95)"

text \<open>The regular expression of migration names; its \<open>$\<close> also matches before a last line feed.\<close>

definition migration_number :: "string \<Rightarrow> int option" where
  "migration_number name =
     (let digits = takeWhile is_digit name;
          rest = dropWhile is_digit name;
          rest = (if rest \<noteq> [] \<and> last rest = CHR 0x0A then butlast rest else rest);
          slug = drop 1 (take (length rest - 4) rest)
      in if 3 \<le> length digits \<and> prefix ''_'' rest \<and> suffix ''.sql'' rest \<and> slug \<noteq> [] \<and> list_all slug_char slug
         then py_int digits else None)"

definition TIMESTAMP_MIGRATION :: string where
  "TIMESTAMP_MIGRATION = ''005_normalize_timestamps.sql''"

text \<open>\<^const>\<open>None\<close>: there is no such directory.\<close>

definition discover_migrations :: "dir_entry list option \<Rightarrow> (int \<times> dir_entry) list" where
  "discover_migrations directory =
     (case directory of
        None \<Rightarrow> []
      | Some entries \<Rightarrow>
          sort_key fst
            (concat (map (\<lambda>e. if de_is_file e then (case migration_number (de_name e) of None \<Rightarrow> [] | Some v \<Rightarrow> [(v, e)]) else [])
                       (sort_key de_name entries))))"

section \<open>The database\<close>

record 'd mig_db =
  md_versions :: "(int \<times> string) list option"
  md_data :: 'd

text \<open>
  \<open>me_exec\<close>: the effect of one statement, with or without the function \<open>oc_normalize_utc\<close>; the
  columns that the check of legacy timestamps reads; the clock; and the ISO-8601 texts.
\<close>

record 'd mig_env =
  me_exec :: "bool \<Rightarrow> string \<Rightarrow> 'd mig_db \<Rightarrow> exc + 'd mig_db"
  me_project_times :: "'d \<Rightarrow> (string \<times> string option) list"
  me_memory_created :: "'d \<Rightarrow> (string \<times> string option) list"
  me_memory_updated :: "'d \<Rightarrow> (string \<times> string option) list"
  me_now :: string
  me_iso :: iso8601

definition utc_timestamp :: "iso8601 \<Rightarrow> string option \<Rightarrow> exc + string option" where
  "utc_timestamp dt value =
     (case value of
        None \<Rightarrow> Inr None
      | Some s \<Rightarrow>
          (case iso_parse dt s of
             None \<Rightarrow> Inl (ValueError ''Invalid isoformat string'')
           | Some t \<Rightarrow> map_sum id (\<lambda>u. Some (iso_format dt u)) (require_utc t ''timestamp'')))"

definition bad_timestamp :: "iso8601 \<Rightarrow> bool \<Rightarrow> string option \<Rightarrow> bool" where
  "bad_timestamp dt optional value =
     (case value of None \<Rightarrow> \<not> optional | Some _ \<Rightarrow> isl (utc_timestamp dt value))"

definition check_legacy_timestamps :: "'d mig_env \<Rightarrow> 'd mig_db \<Rightarrow> exc + unit" where
  "check_legacy_timestamps env db =
     (let invalid = filter (bad_timestamp (me_iso env) False \<circ> snd) (me_project_times env (md_data db))
                  @ filter (bad_timestamp (me_iso env) False \<circ> snd) (me_memory_created env (md_data db))
                  @ filter (bad_timestamp (me_iso env) True \<circ> snd) (me_memory_updated env (md_data db))
      in if invalid \<noteq> [] then Inl (ValueError ''naive, malformed or out-of-range timestamp(s)'') else Inr ())"

definition read_current_version :: "'d mig_db \<Rightarrow> int" where
  "read_current_version db =
     (case md_versions db of None \<Rightarrow> 0 | Some rows \<Rightarrow> if rows = [] then 0 else Max (set (map fst rows)))"

definition insert_version :: "int \<Rightarrow> string \<Rightarrow> 'd mig_db \<Rightarrow> exc + 'd mig_db" where
  "insert_version version applied_at db =
     (case md_versions db of
        None \<Rightarrow> Inl (OperationalError ''no such table: schema_version'')
      | Some rows \<Rightarrow>
          if version \<in> fst ` set rows then Inl (IntegrityError ''UNIQUE constraint failed'')
          else Inr (db\<lparr>md_versions := Some (rows @ [(version, applied_at)])\<rparr>))"

fun run_statements :: "'d mig_env \<Rightarrow> bool \<Rightarrow> string list \<Rightarrow> 'd mig_db \<Rightarrow> exc + 'd mig_db" where
  "run_statements env udf [] db = Inr db"
| "run_statements env udf (stmt # stmts) db = and_then (me_exec env udf stmt db) (run_statements env udf stmts)"

text \<open>The block inside the savepoint of one migration.\<close>

definition migration_body :: "'d mig_env \<Rightarrow> int \<Rightarrow> string \<Rightarrow> string \<Rightarrow> 'd mig_db \<Rightarrow> exc + 'd mig_db" where
  "migration_body env version name sql db =
     (let has_timestamp_udf = (name = TIMESTAMP_MIGRATION)
      in and_then (if has_timestamp_udf then check_legacy_timestamps env db else Inr ()) (\<lambda>_.
         and_then (run_statements env has_timestamp_udf (split_sql sql) db)
           (insert_version version (me_now env))))"

definition apply_migration :: "'d mig_env \<Rightarrow> int \<Rightarrow> dir_entry \<Rightarrow> 'd mig_db \<Rightarrow> (exc + unit) \<times> 'd mig_db" where
  "apply_migration env version path db =
     (case de_content path of
        None \<Rightarrow> (Inl (OtherError ''UnicodeDecodeError''), db)
      | Some sql \<Rightarrow>
          (case migration_body env version (de_name path) sql db of
             Inl e \<Rightarrow> (Inl (ConfigError (''Migration '' @ de_name path @ '' failed'')), db)
           | Inr db' \<Rightarrow> (Inr (), db')))"

fun apply_loop :: "'d mig_env \<Rightarrow> (int \<times> dir_entry) list \<Rightarrow> int list \<Rightarrow> 'd mig_db \<Rightarrow> (exc + int list) \<times> 'd mig_db" where
  "apply_loop env [] applied db = (Inr applied, db)"
| "apply_loop env ((version, path) # pending) applied db =
     (case apply_migration env version path db of
        (Inl e, db') \<Rightarrow> (Inl e, db')
      | (Inr _, db') \<Rightarrow> apply_loop env pending (applied @ [version]) db')"

definition apply_pending :: "'d mig_env \<Rightarrow> dir_entry list option \<Rightarrow> 'd mig_db \<Rightarrow> (exc + int list) \<times> 'd mig_db" where
  "apply_pending env directory db =
     (let current = read_current_version db;
          pending = filter (\<lambda>x. current < fst x) (discover_migrations directory)
      in apply_loop env pending [] db)"

end
