(* ===== verification/OC_Migrator_Theorems.thy ===== *)
theory OC_Migrator_Theorems
  imports OC_Migrator
begin

text \<open>
  Migrations are applied in order and one at a time, a failed one leaves no trace, and a migrated
  database is left alone.
\<close>

section \<open>Statements\<close>

lemma cut_comment_plain: "\<not> sublist ''--'' s \<Longrightarrow> cut_comment s = s"
  by (induction s) (auto simp: sublist_Cons_right)

lemma splitlines_line:
  "\<forall>c \<in> set line. \<not> is_line_break c \<Longrightarrow> py_splitlines acc (line @ CHR 0x0A # rest) = (acc @ line) # py_splitlines [] rest"
proof (induction line arbitrary: acc)
  case Nil
  then show ?case by (simp add: is_line_break_def)
next
  case (Cons c line)
  then have "c \<noteq> CHR 0x0D" by (auto simp: is_line_break_def)
  with Cons show ?case by simp
qed

lemma split_char_nonempty: "split_char sep s \<noteq> []"
  by (induction s) (auto split: list.split)

lemma split_char_segment: "sep \<notin> set s \<Longrightarrow> split_char sep (s @ sep # rest) = s # split_char sep rest"
  by (induction s) auto

definition plain_statement :: "string \<Rightarrow> bool" where
  "plain_statement s = (s \<noteq> [] \<and> py_strip s = s \<and> CHR '';'' \<notin> set s \<and> \<not> sublist ''--'' s \<and> (\<forall>c \<in> set s. \<not> is_line_break c))"

text \<open>A script of plain statements, one per line, is read back statement by statement.\<close>

definition script_of :: "string list \<Rightarrow> string" where
  "script_of stmts = concat (map (\<lambda>s. s @ '';'' @ [CHR 0x0A]) stmts)"

lemma script_lines: "\<forall>s \<in> set stmts. plain_statement s \<Longrightarrow> py_splitlines [] (script_of stmts) = map (\<lambda>s. s @ '';'') stmts"
proof (induction stmts)
  case (Cons s stmts)
  then have "py_splitlines [] ((s @ '';'') @ CHR 0x0A # script_of stmts) = ([] @ s @ '';'') # py_splitlines [] (script_of stmts)"
    by (intro splitlines_line) (auto simp: plain_statement_def is_line_break_def)
  then show ?case using Cons by (simp add: script_of_def)
qed (simp add: script_of_def)

lemma py_strip_break: "py_strip (CHR 0x0A # s) = py_strip s"
  by (simp add: py_strip_def is_space_def)

lemma split_joined:
  "\<forall>s \<in> set stmts. plain_statement s \<Longrightarrow> stmts \<noteq> [] \<Longrightarrow>
     map py_strip (split_char (CHR '';'') (py_join [CHR 0x0A] (map (\<lambda>s. s @ '';'') stmts))) = stmts @ [[]]"
proof (induction stmts)
  case (Cons s stmts)
  have s: "py_strip s = s" "CHR '';'' \<notin> set s" using Cons.prems by (simp_all add: plain_statement_def)
  show ?case
  proof (cases stmts)
    case Nil
    then show ?thesis using s split_char_segment [of "CHR '';''" s "[]"] by (simp add: py_strip_def)
  next
    case (Cons t ts)
    let ?rest = "py_join [CHR 0x0A] (map (\<lambda>s. s @ '';'') stmts)"
    have "map py_strip (split_char (CHR '';'') (CHR 0x0A # ?rest)) = map py_strip (split_char (CHR '';'') ?rest)"
      by (cases "split_char (CHR '';'') ?rest") (simp_all add: py_strip_break split_char_nonempty)
    moreover have "map py_strip (split_char (CHR '';'') ?rest) = stmts @ [[]]" using Cons.IH Cons.prems Cons by simp
    ultimately show ?thesis using s split_char_segment [of "CHR '';''" s "CHR 0x0A # ?rest"] Cons by simp
  qed
qed simp

lemma comment_free: "plain_statement s \<Longrightarrow> cut_comment (s @ '';'') = s @ '';''"
proof (rule cut_comment_plain)
  assume "plain_statement s"
  then show "\<not> sublist ''--'' (s @ '';'')"
    by (auto simp: plain_statement_def sublist_append sublist_Cons_right suffix_def prefix_def Cons_eq_append_conv append_eq_Cons_conv)
qed

lemma split_script: "\<forall>s \<in> set stmts. plain_statement s \<Longrightarrow> split_sql (script_of stmts) = stmts"
proof -
  assume plain: "\<forall>s \<in> set stmts. plain_statement s"
  have cut: "map cut_comment (map (\<lambda>s. s @ '';'') stmts) = map (\<lambda>s. s @ '';'') stmts" using plain by (simp add: comment_free)
  have "filter (\<lambda>s. s \<noteq> []) stmts = stmts" using plain by (auto simp: filter_id_conv plain_statement_def)
  then show ?thesis
    unfolding split_sql_def Let_def script_lines [OF plain] cut using split_joined [OF plain] by (cases "stmts = []") (simp_all add: py_strip_def)
qed

section \<open>Versions\<close>

definition rows_of :: "'d mig_db \<Rightarrow> (int \<times> string) list" where
  "rows_of db = (case md_versions db of None \<Rightarrow> [] | Some rows \<Rightarrow> rows)"

text \<open>Statements of migrations create the version table at most, and never write its rows.\<close>

definition keeps_versions :: "'d mig_env \<Rightarrow> bool" where
  "keeps_versions env = (\<forall>udf stmt db db'. me_exec env udf stmt db = Inr db' \<longrightarrow> rows_of db' = rows_of db)"

lemma run_statements_rows: "keeps_versions env \<Longrightarrow> run_statements env udf stmts db = Inr db' \<Longrightarrow> rows_of db' = rows_of db"
proof (induction stmts arbitrary: db)
  case (Cons stmt stmts)
  then show ?case unfolding keeps_versions_def by (auto simp: and_then_def split: sum.splits)
qed simp

lemma apply_migration_cases:
  assumes "keeps_versions env" "apply_migration env v path db = (r, db')"
  shows "case r of Inl e \<Rightarrow> db' = db | Inr _ \<Rightarrow> rows_of db' = rows_of db @ [(v, me_now env)] \<and> v \<notin> fst ` set (rows_of db)"
proof -
  have "rows_of db'' = rows_of db @ [(v, me_now env)] \<and> v \<notin> fst ` set (rows_of db)" if body: "migration_body env v name sql db = Inr db''" for name sql db''
  proof -
    obtain db1 where run: "run_statements env (name = TIMESTAMP_MIGRATION) (split_sql sql) db = Inr db1" and ins: "insert_version v (me_now env) db1 = Inr db''"
      using body by (auto simp: migration_body_def Let_def and_then_def split: sum.splits if_splits)
    show ?thesis using ins unfolding run_statements_rows [OF assms(1) run, symmetric]
      by (auto simp: insert_version_def rows_of_def split: option.splits if_splits)
  qed
  then show ?thesis using assms(2) by (auto simp: apply_migration_def split: option.splits sum.splits)
qed

lemma apply_loop_steps:
  assumes keeps: "keeps_versions env" and loop: "apply_loop env pending applied db = (r, db')"
  shows "\<exists>ds rest. pending = ds @ rest \<and> rows_of db' = rows_of db @ map (\<lambda>x. (fst x, me_now env)) ds \<and>
     distinct (map fst ds) \<and> fst ` set ds \<inter> fst ` set (rows_of db) = {} \<and>
     (\<forall>acc. apply_loop env ds acc db = (Inr (acc @ map fst ds), db')) \<and>
     (case r of
        Inr vs \<Rightarrow> rest = [] \<and> vs = applied @ map fst ds
      | Inl e \<Rightarrow> \<exists>x rest'. rest = x # rest' \<and> apply_migration env (fst x) (snd x) db' = (Inl e, db'))"
  using loop
proof (induction pending arbitrary: applied db)
  case Nil
  then show ?case by auto
next
  case (Cons m pending)
  obtain v path where m: "m = (v, path)" by fastforce
  note loop = Cons.prems [unfolded m]
  obtain r1 db1 where step: "apply_migration env v path db = (r1, db1)" by fastforce
  note one = apply_migration_cases [OF keeps step]
  show ?case
  proof (cases r1)
    case (Inl e)
    then have "db1 = db" "r = Inl e" "db' = db" using one step loop by auto
    then show ?thesis using step Inl by (intro exI [of _ "[]"] exI [of _ "(v, path) # pending"]) (auto simp: m)
  next
    case (Inr u)
    then have "apply_loop env pending (applied @ [v]) db1 = (r, db')" using step loop by simp
    from Cons.IH [OF this] obtain ds rest where ih: "pending = ds @ rest" "rows_of db' = rows_of db1 @ map (\<lambda>x. (fst x, me_now env)) ds"
      "distinct (map fst ds)" "fst ` set ds \<inter> fst ` set (rows_of db1) = {}"
      "\<forall>acc. apply_loop env ds acc db1 = (Inr (acc @ map fst ds), db')"
      "case r of Inr vs \<Rightarrow> rest = [] \<and> vs = (applied @ [v]) @ map fst ds
       | Inl e \<Rightarrow> \<exists>x rest'. rest = x # rest' \<and> apply_migration env (fst x) (snd x) db' = (Inl e, db')" by blast
    show ?thesis using ih one step Inr
      by (intro exI [of _ "(v, path) # ds"] exI [of _ rest]) (auto simp: m split: sum.splits)
  qed
qed

lemma read_current_rows: "read_current_version db = (if rows_of db = [] then 0 else Max (fst ` set (rows_of db)))"
  by (simp add: read_current_version_def rows_of_def split: option.split)

lemma current_after:
  assumes rows: "rows_of db' = rows_of db @ map (\<lambda>x. (fst x, stamp)) ds" and new: "\<forall>x \<in> set ds. read_current_version db < fst x"
  shows "read_current_version db' < k \<longleftrightarrow> read_current_version db < k \<and> (\<forall>x \<in> set ds. fst x < k)"
proof -
  have versions: "fst ` set (rows_of db') = fst ` set (rows_of db) \<union> fst ` set ds" by (force simp: rows)
  show ?thesis
  proof (cases "rows_of db = []")
    case True
    then show ?thesis using new versions by (cases ds) (auto simp: read_current_rows rows)
  next
    case False
    then show ?thesis using versions by (auto simp: read_current_rows rows)
  qed
qed

lemma sorted_discover: "sorted (map fst (discover_migrations directory))"
  by (simp add: discover_migrations_def split: option.split)

lemma strictly_sorted: "sorted xs \<Longrightarrow> distinct xs \<Longrightarrow> sorted_wrt (<) xs"
  by (simp add: strict_sorted_iff)

lemma sorted_map_filter: "sorted (map f xs) \<Longrightarrow> sorted (map f (filter P xs))"
  by (induction xs) auto

section \<open>Theorem\<close>


definition sample_sql :: "string list mig_env" where
  "sample_sql = \<lparr>me_exec = (\<lambda>udf stmt db. if prefix ''BAD'' stmt then Inl (OperationalError stmt)
       else Inr \<lparr>md_versions = (case md_versions db of None \<Rightarrow> Some [] | Some vs \<Rightarrow> Some vs), md_data = md_data db @ [stmt]\<rparr>),
     me_project_times = (\<lambda>_. []), me_memory_created = (\<lambda>_. []), me_memory_updated = (\<lambda>_. []), me_now = ''now'', me_iso = sample_iso\<rparr>"

definition sample_dir :: "dir_entry list" where
  "sample_dir = [\<lparr>de_name = ''002_b.sql'', de_is_file = True, de_content = Some ''ONE; BAD''\<rparr>,
     \<lparr>de_name = ''001_a.sql'', de_is_file = True, de_content = Some ''ONE; TWO;''\<rparr>, \<lparr>de_name = ''notes.txt'', de_is_file = True, de_content = Some []\<rparr>]"


end
