(* ===== verification/OC_Interfaces.thy ===== *)
theory OC_Interfaces
  imports OC_Hybrid_Search OC_Use_Cases OC_Portability OC_Config OC_Http
begin

text \<open>
  The tools of the MCP server (\<open>interfaces/mcp/tools\<close>), the routes of the HTTP API
  (\<open>interfaces/api/routes\<close>) and the serializers they share (\<open>interfaces/serializers.py\<close>). Both
  call the same use cases; MCP clamps numbers into their range, HTTP refuses them by its request
  models, and a refused request reaches no use case. Texts of a JSON document and of a date are
  arguments; so are the identifier and the time of a new row. The backup and health tools only
  pass a call on and are left out.
\<close>

section \<open>Serializers\<close>

definition COMPACT_PREVIEW_CHARS :: nat where
  "COMPACT_PREVIEW_CHARS = 120"

definition content_preview :: "string \<Rightarrow> string" where
  "content_preview t = (if length t \<le> COMPACT_PREVIEW_CHARS then t else take COMPACT_PREVIEW_CHARS t @ ''...'')"

definition opt_str :: "string option \<Rightarrow> json" where
  "opt_str v = (case v of None \<Rightarrow> JNull | Some s \<Rightarrow> JStr s)"

definition project_to_dict :: "iso8601 \<Rightarrow> (json \<Rightarrow> string) \<Rightarrow> bool \<Rightarrow> project \<Rightarrow> (string \<times> json) list" where
  "project_to_dict dt dumps brief p =
     (if brief then
        [(''id'', JStr (p_id p)), (''name'', JStr (p_name p)),
         (''metadata_keys'', JList (map JStr (sort (map fst (p_metadata p))))),
         (''metadata_size'', JInt (int (length (dumps (JObj (p_metadata p)))))),
         (''created_at'', JStr (iso_format dt (p_created_at p)))]
      else
        [(''id'', JStr (p_id p)), (''name'', JStr (p_name p)), (''metadata'', JObj (p_metadata p)),
         (''created_at'', JStr (iso_format dt (p_created_at p)))])"

definition memory_to_dict :: "iso8601 \<Rightarrow> bool \<Rightarrow> memory_item \<Rightarrow> (string \<times> json) list" where
  "memory_to_dict dt brief m =
     [(''id'', JStr (m_id m))] @
     (if brief then [(''content_preview'', JStr (content_preview (m_content m))), (''content_length'', JInt (int (length (m_content m))))]
      else [(''content'', JStr (m_content m))]) @
     [(''tags'', JList (map JStr (m_tags m))), (''pinned'', JBool (m_pinned m)), (''project_id'', opt_str (m_project_id m)),
      (''source'', JStr (m_source m)), (''created_at'', JStr (iso_format dt (m_created_at m))),
      (''updated_at'', opt_str (map_option (iso_format dt) (m_updated_at m)))]"

text \<open>\<open>round(x, 6)\<close>: to the nearest, halves to the even digit.\<close>

definition round6 :: "rat \<Rightarrow> rat" where
  "round6 x =
     (let y = x * 1000000; n = \<lfloor>y\<rfloor>; r = y - of_int n
      in of_int (if r < 1 / 2 \<or> (r = 1 / 2 \<and> even n) then n else n + 1) / 1000000)"

definition channel_text :: "channel \<Rightarrow> string" where
  "channel_text c = (case c of Pinned \<Rightarrow> ''pinned'' | Keyword \<Rightarrow> ''keyword'' | Semantic \<Rightarrow> ''semantic'' | Hybrid \<Rightarrow> ''hybrid'')"

definition scored_memory_to_dict :: "iso8601 \<Rightarrow> bool \<Rightarrow> scored_memory \<Rightarrow> (string \<times> json) list" where
  "scored_memory_to_dict dt brief s =
     memory_to_dict dt brief (sm_item s) @
     [(''relevance'', JObj ([(''channel'', JStr (channel_text (sm_channel s)))] @
        (case sm_rrf_score s of None \<Rightarrow> [] | Some x \<Rightarrow> [(''rrf_score'', JFloat (round6 x))]) @
        (case sm_similarity s of None \<Rightarrow> [] | Some x \<Rightarrow> [(''semantic_similarity'', JFloat (round6 x))]) @
        (case sm_keyword_rank s of None \<Rightarrow> [] | Some n \<Rightarrow> [(''keyword_rank'', JInt (int n))])))]"

section \<open>Calls\<close>

text \<open>The parts of the container that the tools use; \<open>ct_enabled\<close>: there is an embedding service.\<close>

record container =
  ct_world :: world
  ct_numpy :: numpy
  ct_fts :: fts_engine
  ct_iter :: "string set \<Rightarrow> string list"
  ct_enabled :: bool
  ct_iso :: iso8601
  ct_dumps :: "json \<Rightarrow> string"

datatype reply =
    Dict "(string \<times> json) list"
  | Dicts "(string \<times> json) list list"
  | MemoryStats memory_stats
  | MemoryDelete delete_memory_reply
  | ProjectDelete delete_project_reply
  | ProjectsDelete bulk_reply
  | EmbedReply embed_reply

record search_args =
  sa_query :: string
  sa_top_k :: int
  sa_project_id :: "string option"
  sa_tags :: "string list option"
  sa_offset :: int
  sa_compact :: bool
  sa_mode :: string
  sa_phrase :: bool
  sa_pinned_limit :: int
  sa_include_pinned :: bool

record save_args =
  va_content :: string
  va_project_id :: string
  va_tags :: "string list option"
  va_pinned :: bool
  va_created_at :: "string option"

record list_args =
  la_limit :: "int option"
  la_pinned_only :: bool
  la_offset :: int
  la_project_id :: "string option"
  la_compact :: bool
  la_tags :: "string list option"
  la_exclude_tags :: "string list option"
  la_order_by :: string

text \<open>Shaping of an outcome: the function applies to what a use case returned.\<close>

definition answer :: "('a \<Rightarrow> 'b) \<Rightarrow> ('e, 'a, 's) outcome \<Rightarrow> ('e, 'b, 's) outcome" where
  "answer f x = (map_sum id f (fst x), snd x)"

definition on_store :: "(store \<Rightarrow> 'a store_result) \<Rightarrow> service \<Rightarrow> (exc, 'a, service) outcome" where
  "on_store op sv = (case op (sv_store sv) of (r, st) \<Rightarrow> (r, with_store sv st))"

definition clamp :: "int \<Rightarrow> int \<Rightarrow> int \<Rightarrow> int" where
  "clamp lo hi n = min (max n lo) hi"

definition list_memory_execute :: "int option \<Rightarrow> bool \<Rightarrow> int \<Rightarrow> string option \<Rightarrow> string list option \<Rightarrow> string list option \<Rightarrow> string \<Rightarrow>
    store \<Rightarrow> exc + memory_item list" where
  "list_memory_execute limit pinned_only offset project_id tags exclude_tags order_by s =
     (if order_by \<notin> {''pinned_first'', ''created_at''} then Inl (ValidationError ''order_by must be pinned_first or created_at'')
      else list_memory limit pinned_only offset project_id tags exclude_tags order_by s)"

text \<open>\<open>MemoryItem(...)\<close>, with the defaults of the dataclass for the identifier and the time.\<close>

definition new_item :: "string \<Rightarrow> string \<Rightarrow> datetime \<Rightarrow> save_args \<Rightarrow> memory_item" where
  "new_item source new_id created_at a =
     \<lparr>m_id = new_id, m_content = va_content a, m_tags = (case va_tags a of None \<Rightarrow> [] | Some ts \<Rightarrow> ts),
      m_created_at = created_at, m_pinned = va_pinned a, m_project_id = Some (va_project_id a), m_source = source, m_updated_at = None\<rparr>"

definition parse_created_at :: "iso8601 \<Rightarrow> datetime \<Rightarrow> string option \<Rightarrow> exc + datetime" where
  "parse_created_at dt now v =
     (case v of
        None \<Rightarrow> Inr now
      | Some s \<Rightarrow> (case iso_parse dt s of None \<Rightarrow> Inl (ValidationError ''created_at must be an ISO 8601 datetime'') | Some t \<Rightarrow> Inr t))"

section \<open>MCP tools\<close>

definition mcp_memory_search :: "container \<Rightarrow> search_args \<Rightarrow> service \<Rightarrow> (exc, reply, service) outcome" where
  "mcp_memory_search ct a sv =
     (if py_strip (sa_query a) = [] then (Inl (ValidationError ''query must be non-empty''), sv)
      else answer (Dicts \<circ> map (scored_memory_to_dict (ct_iso ct) (sa_compact a)))
        (search_execute (ct_world ct) (ct_numpy ct) (ct_fts ct) (ct_iter ct) (ct_enabled ct) (sa_query a) (clamp 1 1000 (sa_top_k a))
           (sa_project_id a) (sa_include_pinned a) (sa_tags a) (max (sa_offset a) 0) (sa_mode a) (sa_phrase a)
           (clamp 0 1000 (sa_pinned_limit a)) sv))"

definition mcp_memory_save :: "container \<Rightarrow> string \<Rightarrow> datetime \<Rightarrow> save_args \<Rightarrow> service \<Rightarrow> (exc, reply, service) outcome" where
  "mcp_memory_save ct new_id now a sv =
     (if py_strip (va_content a) = [] then (Inl (ValidationError ''content must be non-empty''), sv)
      else if length (va_content a) > MAX_CONTENT_CHARS then (Inl (ValidationError ''content exceeds maximum length''), sv)
      else if va_project_id a = [] then (Inl (ValidationError ''project_id is required''), sv)
      else case parse_created_at (ct_iso ct) now (va_created_at a) of
        Inl e \<Rightarrow> (Inl e, sv)
      | Inr t \<Rightarrow> answer (Dict \<circ> memory_to_dict (ct_iso ct) False)
                   (add_memory_execute (ct_world ct) (ct_enabled ct) (new_item ''mcp'' new_id t a) sv))"

definition mcp_memory_list :: "container \<Rightarrow> list_args \<Rightarrow> service \<Rightarrow> (exc, reply, service) outcome" where
  "mcp_memory_list ct a sv =
     answer (Dicts \<circ> map (memory_to_dict (ct_iso ct) (la_compact a)))
       (list_memory_execute (map_option (clamp 1 10000) (la_limit a)) (la_pinned_only a) (max (la_offset a) 0) (la_project_id a)
          (la_tags a) (la_exclude_tags a) (la_order_by a) (sv_store sv), sv)"

definition mcp_memory_pin :: "string \<Rightarrow> bool \<Rightarrow> service \<Rightarrow> (exc, reply, service) outcome" where
  "mcp_memory_pin i pinned sv =
     answer (\<lambda>_. Dict [(''status'', JStr ''ok''), (''memory_id'', JStr i), (''pinned'', JStr (if pinned then ''True'' else ''False''))])
       (on_store (pin_memory_execute i pinned) sv)"

text \<open>\<open>memory_to_dict\<close> of a row that is gone would raise an attribute error.\<close>

definition updated_reply :: "iso8601 \<Rightarrow> (exc, memory_item option, service) outcome \<Rightarrow> (exc, reply, service) outcome" where
  "updated_reply dt x =
     (case x of
        (Inr None, sv) \<Rightarrow> (Inl (OtherError ''AttributeError''), sv)
      | (Inr (Some m), sv) \<Rightarrow> (Inr (Dict (memory_to_dict dt False m)), sv)
      | (Inl e, sv) \<Rightarrow> (Inl e, sv))"

definition mcp_memory_update :: "container \<Rightarrow> string \<Rightarrow> string option \<Rightarrow> string list option \<Rightarrow> service \<Rightarrow> (exc, reply, service) outcome" where
  "mcp_memory_update ct i content tags sv =
     (if (case content of None \<Rightarrow> False | Some c \<Rightarrow> length c > MAX_CONTENT_CHARS)
      then (Inl (ValidationError ''content exceeds maximum length''), sv)
      else updated_reply (ct_iso ct) (update_memory_execute (ct_world ct) (ct_enabled ct) i content tags sv))"

definition mcp_memory_get :: "container \<Rightarrow> string \<Rightarrow> service \<Rightarrow> (exc, reply, service) outcome" where
  "mcp_memory_get ct i sv =
     (case get_memory i (sv_store sv) of
        None \<Rightarrow> (Inl (NotFoundError MEMORY_NOT_FOUND i), sv)
      | Some m \<Rightarrow> (Inr (Dict (memory_to_dict (ct_iso ct) False m)), sv))"

definition mcp_memory_delete :: "string \<Rightarrow> bool \<Rightarrow> service \<Rightarrow> (exc, reply, service) outcome" where
  "mcp_memory_delete i confirm sv = answer MemoryDelete (on_store (delete_memory_execute i confirm) sv)"

definition mcp_memory_stats :: "string option \<Rightarrow> int \<Rightarrow> service \<Rightarrow> (exc, reply, service) outcome" where
  "mcp_memory_stats project_id top_tags sv =
     (Inr (MemoryStats (stats_memory_execute project_id (clamp 1 1000 top_tags) (sv_store sv))), sv)"

definition mcp_memory_embed :: "container \<Rightarrow> bool \<Rightarrow> bool \<Rightarrow> service \<Rightarrow> (exc, reply, service) outcome" where
  "mcp_memory_embed ct force background sv =
     (if background
      then (case embed_memory_background (ct_world ct) (ct_enabled ct) force sv of (r, sv') \<Rightarrow> (Inr (EmbedReply r), sv'))
      else answer EmbedReply (embed_memory_execute (ct_world ct) (ct_enabled ct) force sv))"

definition context_recent :: "container \<Rightarrow> string option \<Rightarrow> string option \<Rightarrow> int \<Rightarrow> bool \<Rightarrow> service \<Rightarrow> (exc, reply, service) outcome" where
  "context_recent ct query project_id memory_limit brief sv =
     (let limit = clamp 1 1000 memory_limit
      in case query of
           Some (c # cs) \<Rightarrow>
             answer (Dicts \<circ> map (scored_memory_to_dict (ct_iso ct) brief))
               (search_execute (ct_world ct) (ct_numpy ct) (ct_fts ct) (ct_iter ct) (ct_enabled ct) (c # cs) limit project_id True None 0
                  ''hybrid'' False 10 sv)
         | _ \<Rightarrow>
             answer (Dicts \<circ> map (memory_to_dict (ct_iso ct) brief))
               (list_memory_execute (Some limit) False 0 project_id None None ''pinned_first'' (sv_store sv), sv))"

definition mcp_project_create :: "container \<Rightarrow> string \<Rightarrow> datetime \<Rightarrow> string \<Rightarrow> metadata option \<Rightarrow> service \<Rightarrow> (exc, reply, service) outcome" where
  "mcp_project_create ct new_id now name md sv =
     answer (Dict \<circ> project_to_dict (ct_iso ct) (ct_dumps ct) False) (on_store (create_project_execute new_id now name md) sv)"

definition mcp_project_get :: "container \<Rightarrow> string \<Rightarrow> service \<Rightarrow> (exc, reply, service) outcome" where
  "mcp_project_get ct i sv =
     (case get_project i (sv_store sv) of
        None \<Rightarrow> (Inl (NotFoundError PROJECT_NOT_FOUND i), sv)
      | Some p \<Rightarrow> (Inr (Dict (project_to_dict (ct_iso ct) (ct_dumps ct) False p)), sv))"

definition mcp_project_list :: "container \<Rightarrow> string option \<Rightarrow> bool \<Rightarrow> service \<Rightarrow> (exc, reply, service) outcome" where
  "mcp_project_list ct name_contains brief sv =
     (Inr (Dicts (map (project_to_dict (ct_iso ct) (ct_dumps ct) brief) (list_projects name_contains (sv_store sv)))), sv)"

definition mcp_project_update :: "container \<Rightarrow> string \<Rightarrow> string option \<Rightarrow> metadata option \<Rightarrow> service \<Rightarrow> (exc, reply, service) outcome" where
  "mcp_project_update ct i name md sv =
     answer (Dict \<circ> project_to_dict (ct_iso ct) (ct_dumps ct) False) (on_store (update_project_execute i name md) sv)"

definition mcp_project_delete :: "string \<Rightarrow> bool \<Rightarrow> service \<Rightarrow> (exc, reply, service) outcome" where
  "mcp_project_delete i confirm sv = answer ProjectDelete (on_store (delete_project_execute i confirm) sv)"

definition mcp_project_delete_bulk :: "string list \<Rightarrow> bool \<Rightarrow> service \<Rightarrow> (exc, reply, service) outcome" where
  "mcp_project_delete_bulk ids confirm sv = answer ProjectsDelete (on_store (delete_projects_execute ids confirm) sv)"

section \<open>HTTP routes\<close>

text \<open>\<open>Unprocessable\<close>: the request model refuses the request with status 422, before any handler.\<close>

datatype rest_error = NoRoute | Unprocessable | HandlerError exc

definition rest_status :: "rest_error \<Rightarrow> int" where
  "rest_status e = (case e of NoRoute \<Rightarrow> 404 | Unprocessable \<Rightarrow> 422 | HandlerError x \<Rightarrow> fst (error_response (Domain x)))"

definition guarded :: "bool \<Rightarrow> (service \<Rightarrow> (exc, reply, service) outcome) \<Rightarrow> service \<Rightarrow> (rest_error, reply, service) outcome" where
  "guarded valid handler sv = (if valid then (case handler sv of (r, sv') \<Rightarrow> (map_sum HandlerError id r, sv')) else (Inl Unprocessable, sv))"

definition id_ok :: "string \<Rightarrow> bool" where
  "id_ok i = (1 \<le> length i \<and> length i \<le> 200)"

definition in_range :: "int \<Rightarrow> int \<Rightarrow> int \<Rightarrow> bool" where
  "in_range lo hi n = (lo \<le> n \<and> n \<le> hi)"

text \<open>Tags of a query string are one comma-separated text; the field \<open>sa_tags\<close> of the argument is not used.\<close>

definition search_valid :: "search_args \<Rightarrow> bool" where
  "search_valid a =
     (1 \<le> length (sa_query a) \<and> in_range 1 1000 (sa_top_k a) \<and> 0 \<le> sa_offset a \<and>
      sa_mode a \<in> {''hybrid'', ''keyword'', ''semantic''} \<and> in_range 0 1000 (sa_pinned_limit a))"

definition rest_memory_search :: "container \<Rightarrow> search_args \<Rightarrow> string option \<Rightarrow> service \<Rightarrow> (rest_error, reply, service) outcome" where
  "rest_memory_search ct a tags =
     guarded (search_valid a)
       (\<lambda>sv. answer (Dicts \<circ> map (scored_memory_to_dict (ct_iso ct) (sa_compact a)))
          (search_execute (ct_world ct) (ct_numpy ct) (ct_fts ct) (ct_iter ct) (ct_enabled ct) (sa_query a) (sa_top_k a)
             (sa_project_id a) (sa_include_pinned a) (parse_csv_tags tags) (sa_offset a) (sa_mode a) (sa_phrase a)
             (sa_pinned_limit a) sv))"

definition rest_memory_stats :: "string option \<Rightarrow> int \<Rightarrow> service \<Rightarrow> (rest_error, reply, service) outcome" where
  "rest_memory_stats project_id top_tags =
     guarded (in_range 1 1000 top_tags) (\<lambda>sv. (Inr (MemoryStats (stats_memory_execute project_id top_tags (sv_store sv))), sv))"

definition save_valid :: "save_args \<Rightarrow> bool" where
  "save_valid a =
     (1 \<le> length (va_content a) \<and> length (va_content a) \<le> MAX_CONTENT_CHARS \<and> id_ok (va_project_id a) \<and>
      (case va_tags a of None \<Rightarrow> True | Some ts \<Rightarrow> length ts \<le> 50))"

definition rest_memory_save :: "container \<Rightarrow> string \<Rightarrow> datetime \<Rightarrow> save_args \<Rightarrow> service \<Rightarrow> (rest_error, reply, service) outcome" where
  "rest_memory_save ct new_id now a =
     guarded (save_valid a)
       (\<lambda>sv. case parse_created_at (ct_iso ct) now (va_created_at a) of
          Inl e \<Rightarrow> (Inl e, sv)
        | Inr t \<Rightarrow> answer (Dict \<circ> memory_to_dict (ct_iso ct) False)
                     (add_memory_execute (ct_world ct) (ct_enabled ct) (new_item ''api'' new_id t a) sv))"

definition list_valid :: "list_args \<Rightarrow> bool" where
  "list_valid a =
     ((case la_limit a of None \<Rightarrow> True | Some n \<Rightarrow> in_range 1 10000 n) \<and> 0 \<le> la_offset a \<and>
      la_order_by a \<in> {''pinned_first'', ''created_at''})"

definition rest_memory_list :: "container \<Rightarrow> list_args \<Rightarrow> string option \<Rightarrow> string option \<Rightarrow> service \<Rightarrow> (rest_error, reply, service) outcome" where
  "rest_memory_list ct a tags exclude_tags =
     guarded (list_valid a)
       (\<lambda>sv. answer (Dicts \<circ> map (memory_to_dict (ct_iso ct) (la_compact a)))
          (list_memory_execute (la_limit a) (la_pinned_only a) (la_offset a) (la_project_id a)
             (parse_csv_tags tags) (parse_csv_tags exclude_tags) (la_order_by a) (sv_store sv), sv))"

definition rest_memory_get :: "container \<Rightarrow> string \<Rightarrow> service \<Rightarrow> (rest_error, reply, service) outcome" where
  "rest_memory_get ct i =
     guarded (id_ok i)
       (\<lambda>sv. case get_memory i (sv_store sv) of
          None \<Rightarrow> (Inl (NotFoundError MEMORY_NOT_FOUND i), sv)
        | Some m \<Rightarrow> (Inr (Dict (memory_to_dict (ct_iso ct) False m)), sv))"

definition rest_memory_delete :: "string \<Rightarrow> bool \<Rightarrow> service \<Rightarrow> (rest_error, reply, service) outcome" where
  "rest_memory_delete i confirm = guarded (id_ok i) (\<lambda>sv. answer MemoryDelete (on_store (delete_memory_execute i confirm) sv))"

definition rest_memory_pin :: "string \<Rightarrow> bool \<Rightarrow> service \<Rightarrow> (rest_error, reply, service) outcome" where
  "rest_memory_pin i pinned =
     guarded (id_ok i)
       (\<lambda>sv. answer (\<lambda>_. Dict [(''status'', JStr ''ok''), (''memory_id'', JStr i), (''pinned'', JStr (if pinned then ''True'' else ''False''))])
          (on_store (pin_memory_execute i pinned) sv))"

definition rest_memory_update :: "container \<Rightarrow> string \<Rightarrow> string option \<Rightarrow> string list option \<Rightarrow> service \<Rightarrow> (rest_error, reply, service) outcome" where
  "rest_memory_update ct i content tags =
     guarded (id_ok i \<and> (case content of None \<Rightarrow> True | Some c \<Rightarrow> 1 \<le> length c \<and> length c \<le> MAX_CONTENT_CHARS) \<and>
              (case tags of None \<Rightarrow> True | Some ts \<Rightarrow> length ts \<le> 50))
       (\<lambda>sv. updated_reply (ct_iso ct) (update_memory_execute (ct_world ct) (ct_enabled ct) i content tags sv))"

definition rest_memory_embed :: "container \<Rightarrow> bool \<Rightarrow> bool \<Rightarrow> service \<Rightarrow> (rest_error, reply, service) outcome" where
  "rest_memory_embed ct force background =
     guarded True
       (\<lambda>sv. if background
         then (case embed_memory_background (ct_world ct) (ct_enabled ct) force sv of (r, sv') \<Rightarrow> (Inr (EmbedReply r), sv'))
         else answer EmbedReply (embed_memory_execute (ct_world ct) (ct_enabled ct) force sv))"

definition name_ok :: "string \<Rightarrow> bool" where
  "name_ok n = (1 \<le> length n \<and> length n \<le> 200)"

definition rest_project_create :: "container \<Rightarrow> string \<Rightarrow> datetime \<Rightarrow> string \<Rightarrow> metadata option \<Rightarrow> service \<Rightarrow> (rest_error, reply, service) outcome" where
  "rest_project_create ct new_id now name md =
     guarded (name_ok name)
       (\<lambda>sv. answer (Dict \<circ> project_to_dict (ct_iso ct) (ct_dumps ct) False) (on_store (create_project_execute new_id now name md) sv))"

definition rest_project_list :: "container \<Rightarrow> string option \<Rightarrow> bool \<Rightarrow> service \<Rightarrow> (rest_error, reply, service) outcome" where
  "rest_project_list ct name_contains brief =
     guarded True
       (\<lambda>sv. (Inr (Dicts (map (project_to_dict (ct_iso ct) (ct_dumps ct) brief) (list_projects name_contains (sv_store sv)))), sv))"

definition rest_project_get :: "container \<Rightarrow> string \<Rightarrow> service \<Rightarrow> (rest_error, reply, service) outcome" where
  "rest_project_get ct i =
     guarded (id_ok i)
       (\<lambda>sv. case get_project i (sv_store sv) of
          None \<Rightarrow> (Inl (NotFoundError PROJECT_NOT_FOUND i), sv)
        | Some p \<Rightarrow> (Inr (Dict (project_to_dict (ct_iso ct) (ct_dumps ct) False p)), sv))"

definition rest_project_update :: "container \<Rightarrow> string \<Rightarrow> string option \<Rightarrow> metadata option \<Rightarrow> service \<Rightarrow> (rest_error, reply, service) outcome" where
  "rest_project_update ct i name md =
     guarded (id_ok i \<and> (case name of None \<Rightarrow> True | Some n \<Rightarrow> name_ok n) \<and> \<not> (name = None \<and> md = None))
       (\<lambda>sv. answer (Dict \<circ> project_to_dict (ct_iso ct) (ct_dumps ct) False) (on_store (update_project_execute i name md) sv))"

definition rest_project_delete :: "string \<Rightarrow> bool \<Rightarrow> service \<Rightarrow> (rest_error, reply, service) outcome" where
  "rest_project_delete i confirm = guarded (id_ok i) (\<lambda>sv. answer ProjectDelete (on_store (delete_project_execute i confirm) sv))"

definition rest_project_delete_bulk :: "string list \<Rightarrow> bool \<Rightarrow> service \<Rightarrow> (rest_error, reply, service) outcome" where
  "rest_project_delete_bulk ids confirm =
     guarded (1 \<le> length ids \<and> length ids \<le> 500) (\<lambda>sv. answer ProjectsDelete (on_store (delete_projects_execute ids confirm) sv))"

section \<open>All calls\<close>

datatype call =
    MemorySearch search_args "string option"
  | MemorySave save_args
  | MemoryList list_args "string option" "string option"
  | MemoryPin string bool
  | MemoryUpdate string "string option" "string list option"
  | MemoryGet string
  | MemoryRemove string bool
  | MemoryCount "string option" int
  | MemoryEmbed bool bool
  | ContextRecent "string option" "string option" int bool
  | ProjectCreate string "metadata option"
  | ProjectGet string
  | ProjectList "string option" bool
  | ProjectUpdate string "string option" "metadata option"
  | ProjectRemove string bool
  | ProjectRemoveBulk "string list" bool

text \<open>
  The same call over both interfaces. The comma-separated texts beside the arguments of a search
  and of a listing are used by HTTP only, and \<open>context_recent\<close> is a tool of MCP only.
\<close>

definition mcp_call :: "container \<Rightarrow> string \<Rightarrow> datetime \<Rightarrow> call \<Rightarrow> service \<Rightarrow> (exc, reply, service) outcome" where
  "mcp_call ct new_id now c =
     (case c of
        MemorySearch a _ \<Rightarrow> mcp_memory_search ct a
      | MemorySave a \<Rightarrow> mcp_memory_save ct new_id now a
      | MemoryList a _ _ \<Rightarrow> mcp_memory_list ct a
      | MemoryPin i b \<Rightarrow> mcp_memory_pin i b
      | MemoryUpdate i content tags \<Rightarrow> mcp_memory_update ct i content tags
      | MemoryGet i \<Rightarrow> mcp_memory_get ct i
      | MemoryRemove i confirm \<Rightarrow> mcp_memory_delete i confirm
      | MemoryCount pid top_tags \<Rightarrow> mcp_memory_stats pid top_tags
      | MemoryEmbed force background \<Rightarrow> mcp_memory_embed ct force background
      | ContextRecent query pid n brief \<Rightarrow> context_recent ct query pid n brief
      | ProjectCreate name md \<Rightarrow> mcp_project_create ct new_id now name md
      | ProjectGet i \<Rightarrow> mcp_project_get ct i
      | ProjectList part brief \<Rightarrow> mcp_project_list ct part brief
      | ProjectUpdate i name md \<Rightarrow> mcp_project_update ct i name md
      | ProjectRemove i confirm \<Rightarrow> mcp_project_delete i confirm
      | ProjectRemoveBulk ids confirm \<Rightarrow> mcp_project_delete_bulk ids confirm)"

definition rest_call :: "container \<Rightarrow> string \<Rightarrow> datetime \<Rightarrow> call \<Rightarrow> service \<Rightarrow> (rest_error, reply, service) outcome" where
  "rest_call ct new_id now c =
     (case c of
        MemorySearch a tags \<Rightarrow> rest_memory_search ct a tags
      | MemorySave a \<Rightarrow> rest_memory_save ct new_id now a
      | MemoryList a tags exclude_tags \<Rightarrow> rest_memory_list ct a tags exclude_tags
      | MemoryPin i b \<Rightarrow> rest_memory_pin i b
      | MemoryUpdate i content tags \<Rightarrow> rest_memory_update ct i content tags
      | MemoryGet i \<Rightarrow> rest_memory_get ct i
      | MemoryRemove i confirm \<Rightarrow> rest_memory_delete i confirm
      | MemoryCount pid top_tags \<Rightarrow> rest_memory_stats pid top_tags
      | MemoryEmbed force background \<Rightarrow> rest_memory_embed ct force background
      | ContextRecent _ _ _ _ \<Rightarrow> (\<lambda>sv. (Inl NoRoute, sv))
      | ProjectCreate name md \<Rightarrow> rest_project_create ct new_id now name md
      | ProjectGet i \<Rightarrow> rest_project_get ct i
      | ProjectList part brief \<Rightarrow> rest_project_list ct part brief
      | ProjectUpdate i name md \<Rightarrow> rest_project_update ct i name md
      | ProjectRemove i confirm \<Rightarrow> rest_project_delete i confirm
      | ProjectRemoveBulk ids confirm \<Rightarrow> rest_project_delete_bulk ids confirm)"

end
