(* ===== verification/OC_Interface_Props.thy ===== *)
theory OC_Interface_Props
  imports OC_Interfaces OC_Embedding_Theorems OC_Use_Case_Theorems
begin

text \<open>
  What a call over an interface can do to the store. The locales say what a layer above the store
  relies on: a predicate of stores that survives the steps of other threads, and, for calls that
  embed, the publication of a vector. Every search keeps the first kind of predicate and every
  embedding call the second. They are interpreted on the stores that such steps reach.
\<close>

section \<open>Predicates that calls keep\<close>

locale others_keep =
  fixes w :: world and P :: "store \<Rightarrow> bool"
  assumes tick: "P s \<Longrightarrow> P (w_others w k s)"
begin

lemma provider_tick: "P (sv_store sv) \<Longrightarrow> P (sv_store (provider_tick w sv))"
  by (simp add: provider_tick_def tick)

lemma known_snapshot: "P (sv_store sv) \<Longrightarrow> known_snapshot w sv = (snap, sv') \<Longrightarrow> P (sv_store sv')"
  by (auto simp: known_snapshot_def Let_def provider_tick split: if_splits)

lemma query_step:
  assumes "stable_query w q opening snap n sv = (r, sv')"
  shows "sv' = provider_tick w sv \<or> (\<exists>m snap'. n = Suc m \<and> stable_query w q opening snap' m (provider_tick w sv) = (r, sv'))"
  using assms by (subst (asm) stable_query.simps) (auto simp: embed_single_def Let_def split: sum.splits if_splits nat.splits)

lemma query_keeps: "P (sv_store sv) \<Longrightarrow> stable_query w q opening snap n sv = (r, sv') \<Longrightarrow> P (sv_store sv')"
proof (induction n arbitrary: snap sv)
  case 0
  then show ?case using query_step [OF 0(2)] provider_tick by auto
next
  case (Suc n)
  then show ?case using query_step [OF Suc.prems(2)] provider_tick [OF Suc.prems(1)] by auto
qed

lemma semantic_search: "P (sv_store sv) \<Longrightarrow> semantic_search w np q pid tags ex limit sv = (r, sv') \<Longrightarrow> P (sv_store sv')"
  by (auto simp: semantic_search_def Let_def dest: query_keeps split: prod.splits sum.splits)

lemma search_execute:
  "P (sv_store sv) \<Longrightarrow> P (sv_store (snd (search_execute w np eng iter enabled q k pid ip tags off mode phrase pl sv)))"
  by (auto simp: search_execute_def search_semantic_def search_hybrid_def search_failed_def search_recovered_def record_failure_def
      record_success_def Let_def dest: semantic_search split: prod.splits sum.splits)

end

locale publishes_keep = others_keep +
  assumes save: "P s \<Longrightarrow> P (snd (save_embedding (w_hash w) now i v sp h st s))"
begin

lemma publish: "P (sv_store sv) \<Longrightarrow> P (sv_store (snd (publish w i v c rv st sv)))"
  by (simp add: publish_store save)

lemma generate_for_memory:
  assumes "P (sv_store sv)"
  shows "P (sv_store (snd (generate_for_memory w i c force sv)))"
proof -
  obtain snap sv0 where snap: "known_snapshot w sv = (snap, sv0)" by fastforce
  have "P (sv_store sv0)" using known_snapshot [OF assms snap] .
  then show ?thesis
    using generate_for_memory_cases [OF snap, of i c force "fst (generate_for_memory w i c force sv)" "snd (generate_for_memory w i c force sv)"]
    by (auto simp: tick publish provider_tick)
qed

lemma settle_item: "P (sv_store (fst acc)) \<Longrightarrow> P (sv_store (fst (settle_item w rv item r acc)))"
  using publish [of "fst acc"]
  by (auto simp: settle_item_def write_tombstone_def record_success_def record_failure_def split: prod.splits sum.splits) (metis snd_conv)+

lemma with_vectors: "P (sv_store (fst acc)) \<Longrightarrow> P (sv_store (fst (backfill_with_vectors w rv items vs acc)))"
proof (induction items arbitrary: vs acc)
  case (Cons item items)
  then show ?case using settle_item by (cases vs) auto
qed simp

lemma per_item: "P (sv_store (fst acc)) \<Longrightarrow> P (sv_store (fst (backfill_per_item w rv items acc)))"
proof (induction items arbitrary: acc)
  case (Cons item items)
  have "P (sv_store (fst (settle_item w rv item r (provider_tick w (fst acc), snd acc))))" for r
    using settle_item [of "(provider_tick w (fst acc), snd acc)"] provider_tick [OF Cons.prems] by simp
  then show ?case using Cons.IH by (simp add: embed_single_def)
qed simp

lemma chunk: "P (sv_store (fst acc)) \<Longrightarrow> P (sv_store (fst (backfill_chunk w rv items acc)))"
  by (auto simp: backfill_chunk_def embed_batch_def provider_tick intro!: with_vectors per_item split: sum.split)

lemma loop: "P (sv_store (fst acc)) \<Longrightarrow> P (sv_store (fst (backfill_loop w rv cs acc)))"
proof (induction "length cs" arbitrary: cs acc rule: less_induct)
  case less
  show ?case
  proof (cases "cs = []")
    case False
    then have "length (drop BACKFILL_CHUNK_SIZE cs) < length cs" by (simp add: BACKFILL_CHUNK_SIZE_def)
    from less.hyps [OF this chunk [OF less.prems]] show ?thesis by (subst backfill_loop.simps) (simp add: False)
  qed (use less.prems in \<open>simp add: backfill_loop.simps\<close>)
qed

lemma generate_missing: "P (sv_store sv) \<Longrightarrow> P (sv_store (snd (generate_missing w pid force sv)))"
proof -
  assume P: "P (sv_store sv)"
  have "P (sv_store (snd (backfill w snap pid force ((provider_tick w sv)\<lparr>sv_backfill_lock := True\<rparr>))))" for snap
    using loop [of "((provider_tick w sv)\<lparr>sv_backfill_lock := True\<rparr>, zero_tally)"] provider_tick [OF P]
    by (auto simp: backfill_def Let_def split: prod.splits) (metis fst_conv)
  then show ?thesis using P provider_tick [OF P] by (auto simp: generate_missing_def Let_def split: prod.splits) (metis snd_conv)+
qed

lemma embed_memory_execute: "P (sv_store sv) \<Longrightarrow> P (sv_store (snd (embed_memory_execute w enabled force sv)))"
  using generate_missing [of sv None force] by (auto simp: embed_memory_execute_def split: prod.splits sum.splits)

lemma try_embed: "P (sv_store sv) \<Longrightarrow> P (sv_store (try_embed w enabled i c force sv))"
  by (simp add: try_embed_def generate_for_memory)

end

section \<open>The stores that calls reach\<close>

inductive ticked_by :: "world \<Rightarrow> store \<Rightarrow> store \<Rightarrow> bool" for w s\<^sub>0 where
  here: "ticked_by w s\<^sub>0 s\<^sub>0"
| other: "ticked_by w s\<^sub>0 s \<Longrightarrow> ticked_by w s\<^sub>0 (w_others w k s)"

inductive served_by :: "world \<Rightarrow> store \<Rightarrow> store \<Rightarrow> bool" for w s\<^sub>0 where
  here: "served_by w s\<^sub>0 s\<^sub>0"
| other: "served_by w s\<^sub>0 s \<Longrightarrow> served_by w s\<^sub>0 (w_others w k s)"
| saved: "served_by w s\<^sub>0 s \<Longrightarrow> served_by w s\<^sub>0 (snd (save_embedding (w_hash w) now i v sp h st s))"

interpretation reading: others_keep w "ticked_by w s\<^sub>0" for w s\<^sub>0
  by unfold_locales (rule ticked_by.other)

interpretation embedding: publishes_keep w "served_by w s\<^sub>0" for w s\<^sub>0
  by unfold_locales (auto intro: served_by.other served_by.saved)

lemma ticked_quiet: "ticked_by w s s' \<Longrightarrow> quiet w \<Longrightarrow> s' = s"
  by (induction rule: ticked_by.induct) (auto simp: quiet_def)

text \<open>Other threads keep the store well-formed, and the clock is in UTC.\<close>

definition others_ok :: "world \<Rightarrow> bool" where
  "others_ok w = ((\<forall>k s. wf_store s \<longrightarrow> wf_store (w_others w k s)) \<and> (\<forall>k. is_utc (w_now w k)))"

lemma served_wf: "served_by w s s' \<Longrightarrow> others_ok w \<Longrightarrow> wf_store s \<Longrightarrow> wf_store s'"
  by (induction rule: served_by.induct) (auto simp: others_ok_def intro: wf_save_embedding [OF _ surjective_pairing])

lemma ticked_served: "ticked_by w s s' \<Longrightarrow> served_by w s s'"
  by (induction rule: ticked_by.induct) (auto intro: served_by.intros)

section \<open>Calls keep the store well-formed\<close>

lemma wf_on_store: "preserves_wf op \<Longrightarrow> wf_store (sv_store sv) \<Longrightarrow> wf_store (sv_store (snd (on_store op sv)))"
  by (auto simp: on_store_def with_store_def dest: preserves_wfD split: prod.split)

lemma answer_snd [simp]: "snd (answer f x) = snd x"
  by (simp add: answer_def)

lemma preserves_wf_pin: "preserves_wf (pin_memory_execute i b)"
  by (rule preserves_wfI) (auto simp: pin_memory_execute_def dest: preserves_wfD [OF preserves_wf_set_pinned] split: option.splits)

lemma preserves_wf_delete_memory_execute: "preserves_wf (delete_memory_execute i confirm)"
  by (rule preserves_wfI)
    (auto simp: delete_memory_execute_def dest: preserves_wfD [OF preserves_wf_delete_memory] split: option.splits if_splits prod.splits sum.splits)

lemma preserves_wf_create_project: "preserves_wf (create_project_execute i now n md)"
  by (rule preserves_wfI)
    (auto simp: create_project_execute_def Let_def dest: preserves_wfD [OF preserves_wf_add_project] split: prod.splits sum.splits)

lemma preserves_wf_update_project_execute: "preserves_wf (update_project_execute i n md)"
  by (rule preserves_wfI) (auto simp: update_project_execute_def dest: preserves_wfD [OF preserves_wf_update_project] split: if_splits)

lemma preserves_wf_delete_project_execute: "preserves_wf (delete_project_execute i confirm)"
  by (rule preserves_wfI)
    (auto simp: delete_project_execute_def dest: preserves_wfD [OF preserves_wf_delete_project] split: option.splits if_splits prod.splits sum.splits)

lemma preserves_wf_delete_each: "preserves_wf (delete_each ids)"
proof (induction ids)
  case (Cons i ids)
  show ?case
    by (rule preserves_wfI)
      (auto dest: preserves_wfD [OF preserves_wf_delete_project] preserves_wfD [OF Cons.IH] split: prod.splits sum.splits)
qed (rule preserves_wfI, simp)

lemma preserves_wf_delete_projects: "preserves_wf (delete_projects_execute ids confirm)"
  by (rule preserves_wfI)
    (auto simp: delete_projects_execute_def Let_def dest: preserves_wfD [OF preserves_wf_transaction [OF balanced_delete_each preserves_wf_delete_each]]
      split: if_splits prod.splits sum.splits)

lemmas store_calls_keep_wf = preserves_wf_pin preserves_wf_delete_memory_execute preserves_wf_create_project
  preserves_wf_update_project_execute preserves_wf_delete_project_execute preserves_wf_delete_projects

lemma wf_try_embed: "others_ok w \<Longrightarrow> wf_store (sv_store sv) \<Longrightarrow> wf_store (sv_store (try_embed w enabled i c force sv))"
  using embedding.try_embed [OF served_by.here] served_wf by blast

lemma wf_add_memory_execute:
  assumes "others_ok w" "wf_store (sv_store sv)"
  shows "wf_store (sv_store (snd (add_memory_execute w enabled item sv)))"
  using assms by (auto simp: add_memory_execute_def with_store_def intro!: wf_try_embed
      dest: preserves_wfD [OF preserves_wf_add_memory] split: prod.splits sum.splits)

lemma wf_update_memory_execute:
  assumes "others_ok w" "wf_store (sv_store sv)"
  shows "wf_store (sv_store (snd (update_memory_execute w enabled i c ts sv)))"
proof -
  have "is_utc (w_now w (sv_clock sv))" using assms(1) by (simp add: others_ok_def)
  then show ?thesis
    using assms by (auto simp: update_memory_execute_def with_store_def intro!: wf_try_embed wf_delete_embedding
        dest: preserves_wfD [OF preserves_wf_update_memory] split: prod.splits sum.splits option.splits)
qed

lemma wf_search_execute:
  "others_ok w \<Longrightarrow> wf_store (sv_store sv) \<Longrightarrow> wf_store (sv_store (snd (search_execute w np eng iter enabled q k pid ip tags off mode phrase pl sv)))"
  using ticked_served [OF reading.search_execute [OF ticked_by.here]] served_wf by blast

lemma wf_embed_execute:
  "others_ok w \<Longrightarrow> wf_store (sv_store sv) \<Longrightarrow> wf_store (sv_store (snd (embed_memory_execute w enabled force sv)))"
  using embedding.embed_memory_execute [OF served_by.here] served_wf by blast

lemma embed_background_store: "sv_store (snd (embed_memory_background w enabled force sv)) = sv_store sv"
  by (simp add: embed_memory_background_def start_background_backfill_def)

lemma updated_reply_snd [simp]: "snd (updated_reply dt x) = snd x"
  by (simp add: updated_reply_def split: prod.split sum.split option.split)

lemmas mcp_defs = mcp_memory_search_def mcp_memory_save_def mcp_memory_list_def mcp_memory_pin_def mcp_memory_update_def mcp_memory_get_def
  mcp_memory_delete_def mcp_memory_stats_def mcp_memory_embed_def context_recent_def mcp_project_create_def mcp_project_get_def
  mcp_project_list_def mcp_project_update_def mcp_project_delete_def mcp_project_delete_bulk_def

lemma guarded_cases:
  "snd (guarded valid handler sv) = sv \<or> snd (guarded valid handler sv) = snd (handler sv)"
  by (simp add: guarded_def split: prod.split)

end
