(* ===== verification/OC_Interface_Theorems.thy ===== *)
theory OC_Interface_Theorems
  imports OC_Interface_Props OC_Hybrid_Theorems OC_Portability_Props
begin

text \<open>
  The properties of the two interfaces together: any mix of calls keeps the store consistent, calls
  that only read or preview change nothing, and HTTP and MCP answer alike.
\<close>

section \<open>Runs of calls\<close>

inductive server_run :: "container \<Rightarrow> service \<Rightarrow> service \<Rightarrow> bool" for ct sv\<^sub>0 where
  idle: "server_run ct sv\<^sub>0 sv\<^sub>0"
| by_mcp: "server_run ct sv\<^sub>0 sv \<Longrightarrow> server_run ct sv\<^sub>0 (snd (mcp_call ct i now c sv))"
| by_rest: "server_run ct sv\<^sub>0 sv \<Longrightarrow> server_run ct sv\<^sub>0 (snd (rest_call ct i now c sv))"

text \<open>A request that HTTP passes to its handler, as a call of MCP: tags in a list.\<close>

fun as_mcp :: "call \<Rightarrow> call" where
  "as_mcp (MemorySearch a tags) = MemorySearch (a\<lparr>sa_tags := parse_csv_tags tags\<rparr>) tags"
| "as_mcp (MemoryList a tags ex) = MemoryList (a\<lparr>la_tags := parse_csv_tags tags, la_exclude_tags := parse_csv_tags ex\<rparr>) tags ex"
| "as_mcp c = c"

fun blank :: "call \<Rightarrow> bool" where
  "blank (MemorySearch a _) = (py_strip (sa_query a) = [])"
| "blank (MemorySave a) = (py_strip (va_content a) = [])"
| "blank _ = False"

fun read_only :: "call \<Rightarrow> bool" where
  "read_only (MemorySearch _ _) = True"
| "read_only (MemoryList _ _ _) = True"
| "read_only (MemoryGet _) = True"
| "read_only (MemoryRemove _ confirm) = (\<not> confirm)"
| "read_only (MemoryCount _ _) = True"
| "read_only (ContextRecent _ _ _ _) = True"
| "read_only (ProjectGet _) = True"
| "read_only (ProjectList _ _) = True"
| "read_only (ProjectRemove _ confirm) = (\<not> confirm)"
| "read_only (ProjectRemoveBulk _ confirm) = (\<not> confirm)"
| "read_only _ = False"

lemmas rest_defs = rest_memory_search_def rest_memory_save_def rest_memory_list_def rest_memory_pin_def rest_memory_update_def
  rest_memory_get_def rest_memory_delete_def rest_memory_stats_def rest_memory_embed_def rest_project_create_def rest_project_get_def
  rest_project_list_def rest_project_update_def rest_project_delete_def rest_project_delete_bulk_def

text \<open>What HTTP's handlers and MCP's tools share.\<close>

lemma rest_call_as_mcp:
  assumes "rest_call ct i now c sv = (r, sv')" "r \<notin> {Inl NoRoute, Inl Unprocessable}" "\<not> blank c" "\<forall>a. c \<noteq> MemorySave a"
  shows "\<exists>x. mcp_call ct i now (as_mcp c) sv = (x, sv') \<and> r = map_sum HandlerError id x"
proof -
  have clamp: "in_range lo hi n \<Longrightarrow> clamp lo hi n = n" for lo hi n by (auto simp: in_range_def clamp_def)
  have limit: "(case n of None \<Rightarrow> True | Some n \<Rightarrow> in_range 1 10000 n) \<Longrightarrow> map_option (clamp 1 10000) n = n" for n
    by (cases n) (simp_all add: clamp)
  have long: "(case c of None \<Rightarrow> True | Some c \<Rightarrow> 1 \<le> length c \<and> length c \<le> MAX_CONTENT_CHARS) \<Longrightarrow>
      \<not> (case c of None \<Rightarrow> False | Some c \<Rightarrow> MAX_CONTENT_CHARS < length c)" for c :: "string option"
    by (cases c) simp_all
  have pass: "valid \<and> (\<exists>x. handler sv = (x, sv') \<and> r = map_sum HandlerError id x)" if "guarded valid handler sv = (r, sv')" for valid handler
    using that assms(2) by (auto simp: guarded_def split: if_splits prod.splits)
  show ?thesis
  proof (cases c)
    case (MemorySearch a tags)
    from pass [OF assms(1) [unfolded MemorySearch rest_call_def rest_memory_search_def call.case]]
    show ?thesis using assms(3) by (auto simp: MemorySearch mcp_call_def mcp_memory_search_def search_valid_def clamp)
  next
    case (MemoryList a tags ex)
    from pass [OF assms(1) [unfolded MemoryList rest_call_def rest_memory_list_def call.case]]
    show ?thesis by (auto simp: MemoryList mcp_call_def mcp_memory_list_def list_valid_def limit)
  next
    case (MemoryUpdate j content tags)
    from pass [OF assms(1) [unfolded MemoryUpdate rest_call_def rest_memory_update_def call.case]]
    show ?thesis using long [of content] by (simp add: MemoryUpdate mcp_call_def mcp_memory_update_def)
  next
    case (MemoryCount pid n)
    from pass [OF assms(1) [unfolded MemoryCount rest_call_def rest_memory_stats_def call.case]]
    show ?thesis by (auto simp: MemoryCount mcp_call_def mcp_memory_stats_def clamp)
  qed (use assms in \<open>auto simp: guarded_def rest_call_def mcp_call_def mcp_defs rest_memory_pin_def rest_memory_get_def rest_memory_delete_def
      rest_memory_embed_def rest_project_create_def rest_project_get_def rest_project_list_def rest_project_update_def
      rest_project_delete_def rest_project_delete_bulk_def split: if_splits prod.splits\<close>)
qed

lemma mcp_call_wf:
  assumes "others_ok (ct_world ct)" "wf_store (sv_store sv)"
  shows "wf_store (sv_store (snd (mcp_call ct i now c sv)))"
  using assms
  by (cases c) (auto simp: mcp_call_def mcp_defs Let_def wf_on_store store_calls_keep_wf wf_search_execute wf_add_memory_execute
      wf_update_memory_execute wf_embed_execute embed_background_store case_prod_unfold split: option.split sum.split list.split)

lemma rest_call_wf:
  assumes "others_ok (ct_world ct)" "wf_store (sv_store sv)"
  shows "wf_store (sv_store (snd (rest_call ct i now c sv)))"
proof -
  have guard: "wf_store (sv_store (snd (handler sv))) \<Longrightarrow> wf_store (sv_store (snd (guarded valid handler sv)))" for valid handler
    using guarded_cases [of valid handler sv] assms(2) by auto
  show ?thesis
    using assms
    by (cases c) (auto simp: rest_call_def rest_defs wf_on_store store_calls_keep_wf wf_search_execute wf_add_memory_execute
      wf_update_memory_execute wf_embed_execute embed_background_store case_prod_unfold intro!: guard split: option.split sum.split)
qed

lemma previews_keep_store:
  "snd (delete_memory_execute j False st) = st" "snd (delete_project_execute j False st) = st" "snd (delete_projects_execute js False st) = st"
  by (simp_all add: delete_memory_execute_def delete_project_execute_def delete_projects_execute_def Let_def split: option.split)

lemma on_store_same: "snd (op (sv_store sv)) = sv_store sv \<Longrightarrow> snd (on_store op sv) = sv"
  by (cases "op (sv_store sv)") (simp add: on_store_def with_store_def)

lemmas read_simps = previews_keep_store on_store_same ticked_by.here reading.search_execute [OF ticked_by.here]

lemma mcp_reads: "read_only c \<Longrightarrow> ticked_by (ct_world ct) (sv_store sv) (sv_store (snd (mcp_call ct i now c sv)))"
  by (cases c) (auto simp: mcp_call_def mcp_defs Let_def read_simps split: option.split list.split)

lemma rest_reads:
  assumes "read_only c"
  shows "ticked_by (ct_world ct) (sv_store sv) (sv_store (snd (rest_call ct i now c sv)))"
proof -
  have guard: "ticked_by w (sv_store sv) (sv_store (snd (handler sv))) \<Longrightarrow> ticked_by w (sv_store sv) (sv_store (snd (guarded valid handler sv)))"
    for w valid handler
    using guarded_cases [of valid handler sv] ticked_by.here by metis
  show ?thesis using assms by (cases c) (auto simp: rest_call_def rest_defs read_simps intro!: guard split: option.split)
qed

lemma guarded_refused: "guarded valid handler sv = (Inl e, sv') \<Longrightarrow> e \<in> {NoRoute, Unprocessable} \<Longrightarrow> sv' = sv"
  by (cases "fst (handler sv)") (auto simp: guarded_def case_prod_unfold split: if_splits)

lemma rest_refused: "rest_call ct i now c sv = (Inl e, sv') \<Longrightarrow> e \<in> {NoRoute, Unprocessable} \<Longrightarrow> sv' = sv"
  by (cases c) (simp_all add: rest_call_def rest_defs guarded_refused)

section \<open>A sample container\<close>

definition sample_container :: container where
  "sample_container = \<lparr>ct_world = sample_world, ct_numpy = sample_numpy, ct_fts = sample_engine, ct_iter = sample_iter, ct_enabled = True,
     ct_iso = sample_iso, ct_dumps = (\<lambda>_. [])\<rparr>"

lemma sample_container_ok: "others_ok (ct_world sample_container)" "quiet (ct_world sample_container)"
  by (simp_all add: sample_container_def others_ok_def quiet_sample) (simp_all add: sample_world_def is_utc_def sample_time_def max_wall_def)

section \<open>Theorems\<close>

text \<open>
  C33. The server keeps its store consistent: after any sequence of tool calls over MCP and requests
  over HTTP, from any well-formed store, keys, foreign keys, times, vectors, the index and the
  transaction depth are in order, whatever the providers answer and whatever the arguments are.
  Other threads are assumed to keep the store well-formed themselves, and the clock to be in UTC.
\<close>

theorem server_keeps_store_wf:
  assumes "server_run ct sv sv'" "others_ok (ct_world ct)" "wf_store (sv_store sv)"
  shows "wf_store (sv_store sv')"
  using assms by (induction rule: server_run.induct) (auto intro: mcp_call_wf rest_call_wf)

theorem server_keeps_store_wf_witness:
  "\<exists>sv. server_run sample_container (new_service sample_store) sv \<and> sv \<noteq> new_service sample_store \<and> wf_store (sv_store sv)"
proof -
  let ?sv = "snd (rest_call sample_container ''x'' sample_time (MemoryPin ''m1'' True) (snd (mcp_call sample_container ''x'' sample_time (MemoryEmbed False True) (new_service sample_store))))"
  have run: "server_run sample_container (new_service sample_store) ?sv" by (intro server_run.intros)
  have wf: "wf_store (sv_store (new_service sample_store))" by (simp add: new_service_def wf_sample_store)
  have "sv_task ?sv = Running ''operator'' False" by code_simp
  then have "?sv \<noteq> new_service sample_store" by (auto simp: new_service_def)
  then show ?thesis using run server_keeps_store_wf [OF run sample_container_ok(1) wf] by blast
qed

text \<open>
  C34. Calls that read never write. A search, a listing, a look-up, the statistics, the catch-up tool and
  every deletion that is not confirmed leave the store to the other threads: it is exactly what
  their steps make of it, over both interfaces. A request that HTTP refuses by its own rules
  changes nothing at all.
\<close>

theorem reads_do_not_write:
  assumes "read_only c"
  shows "ticked_by (ct_world ct) (sv_store sv) (sv_store (snd (mcp_call ct i now c sv))) \<and>
    ticked_by (ct_world ct) (sv_store sv) (sv_store (snd (rest_call ct i now c sv))) \<and>
    (quiet (ct_world ct) \<longrightarrow> sv_store (snd (mcp_call ct i now c sv)) = sv_store sv) \<and>
    (\<forall>d e sv'. rest_call ct i now d sv = (Inl e, sv') \<and> e \<in> {NoRoute, Unprocessable} \<longrightarrow> sv' = sv)"
  using mcp_reads [OF assms] rest_reads [OF assms] ticked_quiet [OF mcp_reads [OF assms]] rest_refused by blast

theorem reads_do_not_write_witness:
  "read_only (MemoryRemove ''m1'' False) \<and>
   sv_store (snd (mcp_call sample_container ''x'' sample_time (MemoryRemove ''m1'' False) (new_service sample_store))) = sample_store \<and>
   fst (mcp_call sample_container ''x'' sample_time (MemoryRemove ''m1'' False) (new_service sample_store)) \<noteq> Inl (NotFoundError MEMORY_NOT_FOUND ''m1'')"
proof -
  have "read_only (MemoryRemove ''m1'' False)" by simp
  then have "sv_store (snd (mcp_call sample_container ''x'' sample_time (MemoryRemove ''m1'' False) (new_service sample_store))) = sv_store (new_service sample_store)"
    using reads_do_not_write [where ct = sample_container] sample_container_ok(2) by blast
  moreover have "fst (mcp_call sample_container ''x'' sample_time (MemoryRemove ''m1'' False) (new_service sample_store)) \<noteq> Inl (NotFoundError MEMORY_NOT_FOUND ''m1'')"
    by code_simp
  ultimately show ?thesis by (simp add: new_service_def)
qed



end
