(* ===== verification/OC_Redaction.thy ===== *)
theory OC_Redaction
  imports Py_Text
begin

text \<open>
  The redaction of credentials in log texts (\<open>redact_userinfo_in_text\<close> of \<open>domain/redaction.py\<close>):
  the substitution of the pattern \<open>([a-z][a-z0-9+.-]*://)[^/\s]*@\<close> by its first group, without
  regard to case, as a scan from left to right. The lemmas show that no match is left and that nothing
  else is changed.
\<close>

section \<open>The pattern\<close>

definition letter :: "char \<Rightarrow> bool" where
  "letter c = (let n = of_char c :: nat in (65 \<le> n \<and> n \<le> 90) \<or> (97 \<le> n \<and> n \<le> 122))"

definition scheme_char :: "char \<Rightarrow> bool" where
  "scheme_char c = (letter c \<or> is_digit c \<or> c \<in> {CHR ''+'', CHR ''.'', CHR ''-''})"

definition userinfo_char :: "char \<Rightarrow> bool" where
  "userinfo_char c = (c \<noteq> CHR ''/'' \<and> \<not> is_space c)"

text \<open>
  A match at the start of a text: a scheme and \<open>://\<close>, then the longest run without a slash or white
  space that ends with \<open>@\<close>. The result is the group that is kept and the text after the match.
\<close>

definition after_last_at :: "string \<Rightarrow> string" where
  "after_last_at s = rev (takeWhile (\<lambda>c. c \<noteq> CHR ''@'') (rev s))"

definition match_userinfo :: "string \<Rightarrow> (string \<times> string) option" where
  "match_userinfo s =
     (let scheme = takeWhile scheme_char s;
          rest = dropWhile scheme_char s;
          body = drop 3 rest;
          run = takeWhile userinfo_char body
      in if scheme \<noteq> [] \<and> letter (hd scheme) \<and> prefix ''://'' rest \<and> CHR ''@'' \<in> set run
         then Some (scheme @ ''://'', after_last_at run @ dropWhile userinfo_char body)
         else None)"

lemma after_last_at_shorter: "length (after_last_at s) \<le> length s"
  by (metis after_last_at_def length_rev length_takeWhile_le)

lemma length_split: "length (takeWhile P xs) + length (dropWhile P xs) = length xs"
  by (metis length_append takeWhile_dropWhile_id)

lemma match_userinfo_shorter: "match_userinfo s = Some (kept, rest) \<Longrightarrow> length rest < length s"
  using after_last_at_shorter [of "takeWhile userinfo_char (drop 3 (dropWhile scheme_char s))"]
    length_split [of userinfo_char "drop 3 (dropWhile scheme_char s)"] length_split [of scheme_char s]
  by (fastforce simp: match_userinfo_def Let_def split: if_splits dest: prefix_length_le)

function redact_userinfo_in_text :: "string \<Rightarrow> string" where
  "redact_userinfo_in_text [] = []"
| "redact_userinfo_in_text (c # cs) =
     (case match_userinfo (c # cs) of
        Some (kept, rest) \<Rightarrow> kept @ redact_userinfo_in_text rest
      | None \<Rightarrow> c # redact_userinfo_in_text cs)"
  by pat_completeness auto
termination
  by (relation "measure length") (auto dest: match_userinfo_shorter)

lemma redact_matched [simp]:
  "match_userinfo s = Some (kept, rest) \<Longrightarrow> redact_userinfo_in_text s = kept @ redact_userinfo_in_text rest"
  by (cases s) (auto simp: match_userinfo_def)

lemma redact_unmatched_Cons [simp]:
  "match_userinfo (c # cs) = None \<Longrightarrow> redact_userinfo_in_text (c # cs) = c # redact_userinfo_in_text cs"
  by simp

declare redact_userinfo_in_text.simps(2) [simp del]

section \<open>What is left\<close>

text \<open>
  \<open>open_tail s\<close>: after the scheme characters at its start, \<open>s\<close> goes on with \<open>://\<close> and userinfo.
\<close>

definition open_tail :: "string \<Rightarrow> bool" where
  "open_tail s =
     (prefix ''://'' (dropWhile scheme_char s) \<and>
      CHR ''@'' \<in> set (takeWhile userinfo_char (drop 3 (dropWhile scheme_char s))))"

lemma scheme_chars [simp]:
  "scheme_char c \<Longrightarrow> userinfo_char c" "\<not> scheme_char (CHR '':'')" "\<not> scheme_char (CHR ''/'')"
  "userinfo_char (CHR '':'')" "\<not> userinfo_char (CHR ''/'')" "userinfo_char (CHR ''@'')"
  "\<not> letter (CHR '':'')" "\<not> letter (CHR ''/'')" "letter c \<Longrightarrow> scheme_char c"
  by (auto simp: scheme_char_def userinfo_char_def letter_def is_digit_def is_space_def Let_def)

lemma match_None_iff:
  "match_userinfo s = None \<longleftrightarrow> \<not> (s \<noteq> [] \<and> letter (hd s) \<and> open_tail s)"
  by (cases s) (auto simp: match_userinfo_def open_tail_def Let_def)

lemma open_tail_Cons [simp]: "scheme_char c \<Longrightarrow> open_tail (c # cs) = open_tail cs"
  by (simp add: open_tail_def)

lemma no_at_after_last_at: "CHR ''@'' \<notin> set (after_last_at s)"
  by (auto simp: after_last_at_def dest: set_takeWhileD)

lemma after_last_at_append [simp]: "CHR ''@'' \<notin> set b \<Longrightarrow> after_last_at (a @ CHR ''@'' # b) = b"
  by (simp add: after_last_at_def) (subst takeWhile_append2; auto)

lemma takeWhile_stops: "takeWhile P (dropWhile P xs) = []"
  by (induction xs) auto

lemma match_SomeE:
  assumes "match_userinfo s = Some (kept, rest)"
  obtains scheme u where "scheme \<noteq> []" "letter (hd scheme)" "\<forall>c \<in> set scheme. scheme_char c" "kept = scheme @ ''://''"
    "s = scheme @ ''://'' @ u @ ''@'' @ rest" "\<forall>c \<in> set u. userinfo_char c" "CHR ''@'' \<notin> set (takeWhile userinfo_char rest)"
proof -
  define body where "body = drop 3 (dropWhile scheme_char s)"
  have m: "takeWhile scheme_char s \<noteq> []" "letter (hd (takeWhile scheme_char s))" "prefix ''://'' (dropWhile scheme_char s)"
    "CHR ''@'' \<in> set (takeWhile userinfo_char body)" and kept: "kept = takeWhile scheme_char s @ ''://''"
    and rest: "rest = after_last_at (takeWhile userinfo_char body) @ dropWhile userinfo_char body"
    using assms by (auto simp: match_userinfo_def Let_def body_def split: if_splits)
  obtain u v where run: "takeWhile userinfo_char body = u @ CHR ''@'' # v" "CHR ''@'' \<notin> set v"
    using split_list_last [OF m(4)] by blast
  then have all: "\<forall>c \<in> set (u @ CHR ''@'' # v). userinfo_char c" by (metis set_takeWhileD)
  have body: "body = u @ CHR ''@'' # rest"
    using rest run takeWhile_dropWhile_id [of userinfo_char body] by simp
  have "s = takeWhile scheme_char s @ ''://'' @ body"
    using m(3) takeWhile_dropWhile_id [of scheme_char s] unfolding body_def by (metis append.assoc append_take_drop_id list.size(3) prefix_def append_eq_conv_conj length_Cons numeral_3_eq_3)
  moreover have "takeWhile userinfo_char rest = v"
    using rest run all takeWhile_stops [of userinfo_char body] by (simp add: takeWhile_append2)
  ultimately show thesis
    using that [of "takeWhile scheme_char s" u] m kept run all body by (auto dest: set_takeWhileD)
qed

lemma match_SomeI:
  assumes "scheme \<noteq> []" "letter (hd scheme)" "\<forall>c \<in> set scheme. scheme_char c" "\<forall>c \<in> set u. userinfo_char c"
  shows "match_userinfo (scheme @ ''://'' @ u @ ''@'' @ post) \<noteq> None"
  using assms by (simp add: match_None_iff open_tail_def dropWhile_append2 takeWhile_append2)

text \<open>The scan leaves everything up to the first slash or white space in place.\<close>

lemma takeWhile_redact: "takeWhile userinfo_char (redact_userinfo_in_text s) = takeWhile userinfo_char s"
proof (induction s rule: redact_userinfo_in_text.induct)
  case (2 c cs)
  show ?case
  proof (cases "match_userinfo (c # cs)")
    case None
    then show ?thesis using 2 by simp
  next
    case (Some p)
    obtain kept rest where p: "p = (kept, rest)" by (cases p)
    obtain scheme u where "\<forall>c \<in> set scheme. scheme_char c" "kept = scheme @ ''://''" "c # cs = scheme @ ''://'' @ u @ ''@'' @ rest"
      using match_SomeE Some p by metis
    then show ?thesis using Some p by (simp add: takeWhile_append2)
  qed
qed simp

lemma redact_slash:
  "redact_userinfo_in_text s = CHR ''/'' # t \<Longrightarrow> \<exists>b. s = CHR ''/'' # b \<and> t = redact_userinfo_in_text b"
proof (induction s rule: redact_userinfo_in_text.induct)
  case (2 c cs)
  show ?case
  proof (cases "match_userinfo (c # cs)")
    case (Some p)
    then obtain kept rest where "match_userinfo (c # cs) = Some (kept, rest)" by (cases p) auto
    then show ?thesis using 2 by (auto elim!: match_SomeE simp: neq_Nil_conv)
  qed (use 2 in auto)
qed simp

lemma open_tail_redact: "\<not> open_tail s \<Longrightarrow> \<not> open_tail (redact_userinfo_in_text s)"
proof (induction s)
  case (Cons c cs)
  then have None: "match_userinfo (c # cs) = None" by (simp add: match_None_iff)
  show ?case
  proof (cases "scheme_char c")
    case True
    then show ?thesis using Cons None by simp
  next
    case False
    show ?thesis
    proof
      assume op: "open_tail (redact_userinfo_in_text (c # cs))"
      then obtain t where t: "c = CHR '':''" "redact_userinfo_in_text cs = ''//'' @ t" "CHR ''@'' \<in> set (takeWhile userinfo_char t)"
        using False None by (auto simp: open_tail_def prefix_def)
      then obtain b where "cs = ''//'' @ b" "t = redact_userinfo_in_text b"
        using redact_slash [of cs "CHR ''/'' # t"] by (auto dest!: redact_slash [OF sym] redact_slash)
      then show False using Cons.prems t False by (simp add: takeWhile_redact open_tail_def)
    qed
  qed
qed (simp add: open_tail_def)

lemma match_redact: "match_userinfo (redact_userinfo_in_text s) = None"
proof (cases s)
  case (Cons c cs)
  show ?thesis
  proof (cases "match_userinfo s")
    case None
    then have "letter c \<Longrightarrow> \<not> open_tail (redact_userinfo_in_text s)"
      using open_tail_redact [of s] Cons by (auto simp: match_None_iff)
    then show ?thesis using None Cons by (auto simp: match_None_iff [of "c # redact_userinfo_in_text cs"])
  next
    case (Some p)
    obtain kept rest where p: "p = (kept, rest)" by (cases p)
    then show ?thesis
      using Some Cons by (auto elim!: match_SomeE simp: match_None_iff open_tail_def dropWhile_append2 takeWhile_redact)
  qed
qed (simp add: match_None_iff)

lemma match_kept:
  assumes "\<forall>c \<in> set scheme. scheme_char c" "CHR ''@'' \<notin> set (takeWhile userinfo_char t)" "i < length (scheme @ ''://'')"
  shows "match_userinfo (drop i (scheme @ ''://'' @ t)) = None"
proof (cases "i < length scheme")
  case True
  then show ?thesis
    using assms by (auto simp: match_None_iff open_tail_def dropWhile_append2 in_set_dropD)
next
  case False
  with assms(3) have "i - length scheme \<in> {0, 1, 2}" by auto
  then show ?thesis using False by (auto simp: match_None_iff numeral_2_eq_2)
qed

lemma no_match_left: "match_userinfo (drop i (redact_userinfo_in_text s)) = None"
proof (induction s arbitrary: i rule: redact_userinfo_in_text.induct)
  case (2 c cs)
  show ?case
  proof (cases "match_userinfo (c # cs)")
    case None
    then show ?thesis using 2(1) [OF None] match_redact [of "c # cs"] by (cases i) auto
  next
    case (Some p)
    obtain kept rest where p: "p = (kept, rest)" by (cases p)
    obtain scheme where scheme: "\<forall>c \<in> set scheme. scheme_char c" "kept = scheme @ ''://''"
      and "CHR ''@'' \<notin> set (takeWhile userinfo_char rest)"
      using match_SomeE Some p by metis
    then have "i < length kept \<Longrightarrow> match_userinfo (drop i (kept @ redact_userinfo_in_text rest)) = None"
      using match_kept [of scheme "redact_userinfo_in_text rest" i] by (simp add: takeWhile_redact)
    moreover have "match_userinfo (drop (i - length kept) (redact_userinfo_in_text rest)) = None"
      using 2(2) [OF Some p [symmetric]] by blast
    ultimately show ?thesis using Some p by (cases "i < length kept") simp_all
  qed
qed (simp add: match_None_iff)

lemma redact_unmatched:
  "(\<And>i. match_userinfo (drop i s) = None) \<Longrightarrow> redact_userinfo_in_text s = s"
proof (induction s)
  case (Cons c cs)
  have "match_userinfo (drop i cs) = None" for i using Cons.prems [of "Suc i"] by simp
  then show ?case using Cons Cons.prems [of 0] by simp
qed simp

lemma redact_subseq: "subseq (redact_userinfo_in_text s) s"
proof (induction s rule: redact_userinfo_in_text.induct)
  case (2 c cs)
  show ?case
  proof (cases "match_userinfo (c # cs)")
    case (Some p)
    obtain kept rest where p: "p = (kept, rest)" by (cases p)
    then obtain scheme u where "kept = scheme @ ''://''" "c # cs = kept @ (u @ ''@'') @ rest"
      using match_SomeE Some by (metis append.assoc)
    moreover have "subseq (kept @ redact_userinfo_in_text rest) (kept @ (u @ ''@'') @ rest)"
      using 2(2) [OF Some p [symmetric]] by (simp only: subseq_append' list_emb_append2)
    ultimately show ?thesis using Some p by simp
  qed (use 2 in auto)
qed simp

section \<open>The contract\<close>

text \<open>A text holds credentials where a scheme and \<open>://\<close> are followed by \<open>@\<close> before a slash or white space.\<close>

definition has_userinfo :: "string \<Rightarrow> bool" where
  "has_userinfo s =
     (\<exists>pre scheme u post. s = pre @ scheme @ ''://'' @ u @ ''@'' @ post \<and> scheme \<noteq> [] \<and> letter (hd scheme) \<and>
        (\<forall>c \<in> set scheme. scheme_char c) \<and> (\<forall>c \<in> set u. userinfo_char c))"

lemma has_userinfo_iff: "has_userinfo s \<longleftrightarrow> (\<exists>i. match_userinfo (drop i s) \<noteq> None)"
proof
  assume "has_userinfo s"
  then obtain pre scheme u post where "s = pre @ scheme @ ''://'' @ u @ ''@'' @ post"
    "scheme \<noteq> []" "letter (hd scheme)" "\<forall>c \<in> set scheme. scheme_char c" "\<forall>c \<in> set u. userinfo_char c"
    unfolding has_userinfo_def by blast
  then show "\<exists>i. match_userinfo (drop i s) \<noteq> None"
    using match_SomeI [of scheme u post] by (intro exI [of _ "length pre"]) simp
next
  assume "\<exists>i. match_userinfo (drop i s) \<noteq> None"
  then obtain i kept rest where "match_userinfo (drop i s) = Some (kept, rest)" by auto
  then show "has_userinfo s"
    unfolding has_userinfo_def by (elim match_SomeE) (metis append_take_drop_id)
qed

lemma has_userinfo_Cons: "\<not> has_userinfo (c # cs) \<Longrightarrow> \<not> has_userinfo cs"
  unfolding has_userinfo_def by (metis append_Cons)

lemma redact_unchanged: "\<not> has_userinfo s \<Longrightarrow> redact_userinfo_in_text s = s"
  by (rule redact_unmatched) (use has_userinfo_iff in blast)

text \<open>Before the first match, after which the host is kept.\<close>

lemma no_match_before:
  assumes "\<not> has_userinfo (c # cs)" "\<not> scheme_char (last (c # cs))"
    "scheme \<noteq> []" "letter (hd scheme)" "\<forall>c \<in> set scheme. scheme_char c"
  shows "match_userinfo ((c # cs) @ scheme @ ''://'' @ t) = None"
proof (rule ccontr)
  assume "match_userinfo ((c # cs) @ scheme @ ''://'' @ t) \<noteq> None"
  then have hd: "letter c" and op: "open_tail ((c # cs) @ scheme @ ''://'' @ t)" by (auto simp: match_None_iff)
  define d where "d = dropWhile scheme_char (c # cs)"
  have d: "d \<noteq> []" "dropWhile scheme_char ((c # cs) @ scheme @ ''://'' @ t) = d @ scheme @ ''://'' @ t"
    using assms(2) unfolding d_def by (metis dropWhile_eq_Nil_conv last_in_set list.distinct(1), metis dropWhile_append1 last_in_set list.distinct(1))
  obtain e es where scheme: "scheme = e # es" "e \<noteq> CHR ''/''"
    using assms(3,5) scheme_chars(3) by (metis list.set_intros(1) neq_Nil_conv)
  have pre: "prefix ''://'' (d @ scheme @ ''://'' @ t)" using op d(2) by (simp add: open_tail_def)
  obtain b where b: "d = ''://'' @ b"
  proof (cases d rule: remdups_adj.cases)
    case 1
    then show ?thesis using d by simp
  next
    case (2 x)
    then show ?thesis using pre scheme by simp
  next
    case (3 x y zs)
    then show ?thesis using pre scheme that by (cases zs) auto
  qed
  have "CHR ''@'' \<in> set (takeWhile userinfo_char (b @ scheme @ ''://'' @ t))"
    using op d(2) b by (simp add: open_tail_def)
  moreover have "takeWhile userinfo_char (scheme @ ''://'' @ t) = scheme @ '':''"
    using assms(5) by (simp add: takeWhile_append2)
  moreover have "CHR ''@'' \<notin> set scheme" using assms(5) by (auto simp: scheme_char_def letter_def is_digit_def)
  ultimately have "CHR ''@'' \<in> set (takeWhile userinfo_char b)"
    by (cases "\<forall>c \<in> set b. userinfo_char c") (auto simp: takeWhile_append2 takeWhile_append1 takeWhile_eq_all_conv [THEN iffD2])
  then have "match_userinfo (c # cs) \<noteq> None"
    using hd b unfolding d_def by (simp add: match_None_iff open_tail_def)
  then show False using assms(1) has_userinfo_iff [of "c # cs"] by (metis drop0)
qed

lemma redact_first:
  assumes "scheme \<noteq> []" "letter (hd scheme)" "\<forall>c \<in> set scheme. scheme_char c" "\<forall>c \<in> set u. userinfo_char c"
    "CHR ''@'' \<notin> set (takeWhile userinfo_char post)"
  shows "\<not> has_userinfo pre \<Longrightarrow> pre = [] \<or> \<not> scheme_char (last pre) \<Longrightarrow>
    redact_userinfo_in_text (pre @ scheme @ ''://'' @ u @ ''@'' @ post) = pre @ scheme @ ''://'' @ redact_userinfo_in_text post"
proof (induction pre)
  case Nil
  have "after_last_at (takeWhile userinfo_char (u @ CHR ''@'' # post)) = takeWhile userinfo_char post"
    using assms(4,5) by (simp add: takeWhile_append2)
  then have "match_userinfo (scheme @ ''://'' @ u @ ''@'' @ post) = Some (scheme @ ''://'', post)"
    using assms by (simp add: match_userinfo_def Let_def takeWhile_append2 dropWhile_append2)
  then show ?case by simp
next
  case (Cons c cs)
  then show ?case
    using no_match_before [OF Cons.prems(1) _ assms(1-3), of "u @ ''@'' @ post"] has_userinfo_Cons [of c cs]
    by (cases "cs = []") auto
qed

text \<open>
  C36. No credentials are left in a redacted text: nowhere does a scheme and \<open>://\<close> come with an
  \<open>@\<close> before the next slash or white space. A text without credentials is unchanged, redaction only deletes
  characters, and of the first URL with userinfo exactly the userinfo goes, up to its last \<open>@\<close>, while the
  text before, the scheme, the host and what follows stay.
\<close>

theorem redaction_complete:
  "\<not> has_userinfo (redact_userinfo_in_text s) \<and>
   (\<not> has_userinfo s \<longrightarrow> redact_userinfo_in_text s = s) \<and>
   subseq (redact_userinfo_in_text s) s \<and>
   (s = pre @ scheme @ ''://'' @ u @ ''@'' @ post \<and> \<not> has_userinfo pre \<and> (pre = [] \<or> \<not> scheme_char (last pre)) \<and>
      scheme \<noteq> [] \<and> letter (hd scheme) \<and> (\<forall>c \<in> set scheme. scheme_char c) \<and> (\<forall>c \<in> set u. userinfo_char c) \<and>
      CHR ''@'' \<notin> set (takeWhile userinfo_char post) \<longrightarrow>
    redact_userinfo_in_text s = pre @ scheme @ ''://'' @ redact_userinfo_in_text post)"
  using redact_first [of scheme u post pre] redact_unchanged [of s] redact_subseq [of s] no_match_left [of _ s]
  by (simp add: has_userinfo_iff)

text \<open>A line with a password that holds an \<open>@\<close>.\<close>

theorem redaction_complete_witness:
  "redact_userinfo_in_text ''GET http://me:p@ss@nas/x'' = ''GET http://nas/x'' \<and>
   \<not> has_userinfo (redact_userinfo_in_text ''GET http://me:p@ss@nas/x'')"
proof -
  have "match_userinfo (drop i ''GET '') = None" for i
    by (cases "i < 4") (auto simp: match_None_iff open_tail_def scheme_char_def letter_def is_digit_def less_Suc_eq numeral_eq_Suc)
  then have "\<not> has_userinfo ''GET ''" by (simp add: has_userinfo_iff)
  moreover have "\<not> has_userinfo ''nas/x''"
    by (auto simp: has_userinfo_def dest!: arg_cong [where f = "\<lambda>s. CHR '':'' \<in> set s"])
  ultimately have "redact_userinfo_in_text ''GET http://me:p@ss@nas/x'' = ''GET http://nas/x''"
    using redaction_complete [of "''GET http://me:p@ss@nas/x''" "''GET ''" "''http''" "''me:p@ss''" "''nas/x''"]
      redact_unchanged [of "''nas/x''"]
    by (simp add: scheme_char_def letter_def is_digit_def userinfo_char_def is_space_def)
  then show ?thesis using redaction_complete [of "''GET http://me:p@ss@nas/x''"] by blast
qed

end
