(* ===== verification/OC_Settings.thy ===== *)
theory OC_Settings
  imports OC_Adapters OC_Redaction
begin

text \<open>
  Settings: the remaining readers of configuration values (\<open>application/config/env_helpers.py\<close>), the
  settings of the embedding provider (\<open>settings.py\<close>), the paths of the data (\<open>paths.py\<close>), the adapter
  that the container builds from them and the notice on content that leaves the host
  (\<open>infrastructure/wiring/container.py\<close>), and the redaction of a single URL
  (\<open>redact_url_userinfo\<close> of \<open>domain/redaction.py\<close>). What is written to the log is left out.
\<close>

section \<open>Floats\<close>

datatype py_float = Finite rat | PosInf | NegInf | NaN

text \<open>
  A magnitude up to \<open>DOUBLE_TINY\<close> rounds to zero, and one from \<^const>\<open>DOUBLE_LIMIT\<close> on to infinity;
  between them a float is its exact value here.
\<close>

definition DOUBLE_TINY :: rat where
  "DOUBLE_TINY = 1 / 2 ^ 1075"

definition to_double :: "rat \<Rightarrow> py_float" where
  "to_double x =
     (if of_int DOUBLE_LIMIT \<le> x then PosInf
      else if x \<le> - of_int DOUBLE_LIMIT then NegInf
      else if \<bar>x\<bar> \<le> DOUBLE_TINY then Finite 0 else Finite x)"

text \<open>\<open>float(text)\<close>: a sign, then a name of infinity or NaN, or digits with a point and an exponent.\<close>

definition digits_or_none :: "string \<Rightarrow> int option" where
  "digits_or_none s = (if s = [] then Some 0 else read_digits False 0 s)"

definition read_mantissa :: "string \<Rightarrow> rat option" where
  "read_mantissa s =
     (case split_char (CHR ''.'') s of
        [a] \<Rightarrow> map_option of_int (read_digits False 0 a)
      | [a, b] \<Rightarrow>
          if a = [] \<and> b = [] then None
          else (case (digits_or_none a, digits_or_none b) of
                  (Some m, Some n) \<Rightarrow> Some (of_int m + of_int n / 10 ^ length (filter is_digit b))
                | _ \<Rightarrow> None)
      | _ \<Rightarrow> None)"

definition scale10 :: "rat \<Rightarrow> int \<Rightarrow> rat" where
  "scale10 x e = (if 0 \<le> e then x * 10 ^ nat e else x / 10 ^ nat (- e))"

definition read_unsigned :: "string \<Rightarrow> py_float option" where
  "read_unsigned s =
     (if s \<in> {''inf'', ''infinity''} then Some PosInf
      else if s = ''nan'' then Some NaN
      else case split_char (CHR ''e'') s of
        [m] \<Rightarrow> map_option to_double (read_mantissa m)
      | [m, e] \<Rightarrow>
          (case (read_mantissa m, read_signed e) of
             (Some x, Some n) \<Rightarrow> Some (to_double (scale10 x n))
           | _ \<Rightarrow> None)
      | _ \<Rightarrow> None)"

fun negate :: "py_float \<Rightarrow> py_float" where
  "negate (Finite x) = Finite (- x)"
| "negate PosInf = NegInf"
| "negate NegInf = PosInf"
| "negate NaN = NaN"

definition py_float_of :: "string \<Rightarrow> py_float option" where
  "py_float_of s =
     (case py_lower (py_strip s) of
        [] \<Rightarrow> None
      | c # cs \<Rightarrow>
          if c = CHR ''-'' then map_option negate (read_unsigned cs)
          else if c = CHR ''+'' then read_unsigned cs
          else read_unsigned (c # cs))"

text \<open>\<open>float(n)\<close> of an integer raises beyond the doubles.\<close>

definition parse_float :: "json \<Rightarrow> py_float \<Rightarrow> exc + py_float" where
  "parse_float value dflt =
     (case value of
        JInt n \<Rightarrow> if DOUBLE_LIMIT \<le> \<bar>n\<bar> then Inl (OtherError ''OverflowError'') else Inr (Finite (of_int n))
      | JFloat x \<Rightarrow> Inr (Finite x)
      | JInf neg \<Rightarrow> Inr (if neg then NegInf else PosInf)
      | JNaN \<Rightarrow> Inr NaN
      | JStr s \<Rightarrow> Inr (case py_float_of (py_strip s) of None \<Rightarrow> dflt | Some x \<Rightarrow> x)
      | _ \<Rightarrow> Inr dflt)"

text \<open>\<open>repr\<close>: \<open>str(value)\<close> of a JSON value that is not a string.\<close>

definition parse_str :: "(json \<Rightarrow> string) \<Rightarrow> json \<Rightarrow> string \<Rightarrow> string" where
  "parse_str repr value dflt =
     (case value of JNull \<Rightarrow> dflt | JStr s \<Rightarrow> if s = [] then dflt else s | j \<Rightarrow> repr j)"

section \<open>Embedding settings\<close>

definition VALID_EMBEDDING_PROVIDERS :: "string list" where
  "VALID_EMBEDDING_PROVIDERS = [''none'', ''stub'', ''openai'', ''ollama'']"

record embedding_settings =
  es_provider :: string
  es_model :: string
  es_dimensions :: "int option"
  es_api_key :: string
  es_timeout :: py_float

text \<open>\<open>x <= 0\<close>: a comparison with NaN is false.\<close>

definition not_positive :: "py_float \<Rightarrow> bool" where
  "not_positive x = (case x of Finite r \<Rightarrow> r \<le> 0 | NegInf \<Rightarrow> True | _ \<Rightarrow> False)"

definition new_settings :: "string \<Rightarrow> string \<Rightarrow> int option \<Rightarrow> string \<Rightarrow> py_float \<Rightarrow> exc + embedding_settings" where
  "new_settings provider model dims api_key timeout =
     (if provider \<notin> set VALID_EMBEDDING_PROVIDERS then Inl (ValueError ''embedding provider must be one of the known ones'')
      else if (case dims of None \<Rightarrow> False | Some n \<Rightarrow> n < 1) then Inl (ValueError ''embedding dimensions must be >= 1'')
      else if not_positive timeout then Inl (ValueError ''embedding timeout must be > 0'')
      else Inr \<lparr>es_provider = provider, es_model = model, es_dimensions = dims, es_api_key = api_key, es_timeout = timeout\<rparr>)"

definition load_embedding_settings :: "(json \<Rightarrow> string) \<Rightarrow> (string \<Rightarrow> string option) \<Rightarrow> (string \<times> json) list \<Rightarrow> exc + embedding_settings" where
  "load_embedding_settings repr env fc =
     (let dims_raw = env_override (env ''OC_EMBEDDING_DIMENSIONS'') (json_get fc ''dimensions'');
          dims = (if dims_raw \<noteq> JNull then parse_int dims_raw 0 else 0);
          dims = (if dims < 0 then 0 else dims)
      in case parse_float (env_override (env ''OC_EMBEDDING_TIMEOUT'') (json_get fc ''timeout'')) (Finite 30) of
           Inl e \<Rightarrow> Inl e
         | Inr timeout \<Rightarrow>
             (let timeout = (if not_positive timeout then Finite 30 else timeout);
                  provider = py_lower (parse_str repr (env_override (env ''OC_EMBEDDING_PROVIDER'') (json_get fc ''provider'')) ''none'');
                  provider = (if provider \<notin> set VALID_EMBEDDING_PROVIDERS then ''none'' else provider)
              in new_settings provider
                   (parse_str repr (env_override (env ''OC_EMBEDDING_MODEL'') (json_get fc ''model'')) [])
                   (if dims \<noteq> 0 then Some dims else None)
                   (parse_str repr (env_override (env ''OC_EMBEDDING_API_KEY'') (json_get fc ''api_key'')) [])
                   timeout))"

section \<open>The adapter\<close>

datatype adapter = StubAdapter int | OpenAIAdapter openai | OllamaAdapter ollama

text \<open>\<open>sdk\<close>: the constructor of the OpenAI client, as in \<^const>\<open>new_openai\<close>.\<close>

definition create_embedding_adapter ::
  "(string option \<Rightarrow> string \<Rightarrow> exc option) option \<Rightarrow> (string \<Rightarrow> string option) \<Rightarrow> embedding_settings \<Rightarrow> exc + adapter" where
  "create_embedding_adapter sdk env s =
     (let dims = (case es_dimensions s of None \<Rightarrow> 0 | Some n \<Rightarrow> n)
      in if es_provider s = ''stub'' then Inr (StubAdapter (if dims \<noteq> 0 then dims else 384))
         else if es_provider s = ''openai'' then
           map_sum id OpenAIAdapter
             (new_openai sdk env (first_set (es_model s) ''text-embedding-3-small'') (if dims \<noteq> 0 then dims else 1536)
                (if es_api_key s = [] then None else Some (es_api_key s)) None)
         else if es_provider s = ''ollama'' then
           Inr (OllamaAdapter (new_ollama env (first_set (es_model s) ''nomic-embed-text'') (if dims \<noteq> 0 then Some dims else None) None))
         else Inl (ConfigError ''Unknown embedding provider''))"

subsection \<open>Where content goes\<close>

text \<open>
  \<open>hostname\<close>: the host that \<open>urlsplit\<close> finds in a URL, or the error it raises; \<open>ip_address\<close>: whether
  an IP address is private or of the loopback, and \<^const>\<open>None\<close> for a text that is no IP address.
\<close>

definition strip_brackets :: "string \<Rightarrow> string" where
  "strip_brackets s = (let bracket = (\<lambda>c. c \<in> {CHR ''['', CHR '']''}) in rev (dropWhile bracket (rev (dropWhile bracket s))))"

definition looks_private_host :: "(string \<Rightarrow> exc + string option) \<Rightarrow> (string \<Rightarrow> bool option) \<Rightarrow> string \<Rightarrow> exc + bool" where
  "looks_private_host hostname ip_address url =
     map_sum id
       (\<lambda>h. let host = py_lower (strip_brackets (case h of None \<Rightarrow> [] | Some s \<Rightarrow> s))
            in if host = [] then False
               else if host \<in> {''localhost'', ''host.docker.internal''} then True
               else case ip_address host of
                      Some b \<Rightarrow> b
                    | None \<Rightarrow> if CHR ''.'' \<notin> set host then True
                              else last (split_char (CHR ''.'') host) \<in> {''local'', ''internal'', ''lan'', ''home'', ''localhost''})
       (hostname url)"

definition embedding_endpoint :: "(string \<Rightarrow> string option) \<Rightarrow> string \<Rightarrow> string" where
  "embedding_endpoint env provider =
     (if provider = ''openai'' then first_text [env ''OPENAI_BASE_URL''] ''https://api.openai.com/v1''
      else if provider = ''ollama'' then first_text [env ''OLLAMA_HOST'', env ''OLLAMA_BASE_URL''] ''http://localhost:11434''
      else [])"

definition embedding_endpoint_is_remote ::
  "(string \<Rightarrow> exc + string option) \<Rightarrow> (string \<Rightarrow> bool option) \<Rightarrow> (string \<Rightarrow> string option) \<Rightarrow> string \<Rightarrow> exc + bool" where
  "embedding_endpoint_is_remote hostname ip_address env provider =
     (let endpoint = embedding_endpoint env provider
      in if endpoint = [] then Inr False else map_sum id Not (looks_private_host hostname ip_address endpoint))"

text \<open>
  Any exception, also one of the test whether a notice is due, leaves the deployment with keyword
  search only. The second component is whether the notice is given.
\<close>

definition build_embedding_port ::
  "(string option \<Rightarrow> string \<Rightarrow> exc option) option \<Rightarrow> (string \<Rightarrow> exc + string option) \<Rightarrow> (string \<Rightarrow> bool option) \<Rightarrow>
   (string \<Rightarrow> string option) \<Rightarrow> embedding_settings \<Rightarrow> adapter option \<times> bool" where
  "build_embedding_port sdk hostname ip_address env s =
     (if es_provider s = ''none'' then (None, False)
      else case create_embedding_adapter sdk env s of
        Inl _ \<Rightarrow> (None, False)
      | Inr port \<Rightarrow>
          (case embedding_endpoint_is_remote hostname ip_address env (es_provider s) of
             Inl _ \<Rightarrow> (None, False)
           | Inr remote \<Rightarrow> (Some port, remote)))"

section \<open>Paths\<close>

datatype file_path = Path string | Under string string

record runtime_paths =
  rp_db_path :: file_path
  rp_config_dir :: file_path
  rp_output_dir :: file_path

definition path_env :: "(string \<Rightarrow> string option) \<Rightarrow> string \<Rightarrow> string option" where
  "path_env env name = (case env name of None \<Rightarrow> None | Some raw \<Rightarrow> if py_strip raw = [] then None else Some raw)"

definition resolve_path :: "(string \<Rightarrow> string option) \<Rightarrow> string option \<Rightarrow> string \<Rightarrow> string option \<Rightarrow> string \<Rightarrow> string \<Rightarrow> file_path" where
  "resolve_path env explicit env_var data_dir suffix_name fallback =
     (case explicit of
        Some p \<Rightarrow> Path p
      | None \<Rightarrow>
          (case path_env env env_var of
             Some p \<Rightarrow> Path p
           | None \<Rightarrow> (case data_dir of Some d \<Rightarrow> Under d suffix_name | None \<Rightarrow> Path fallback)))"

definition resolve_paths :: "(string \<Rightarrow> string option) \<Rightarrow> string option \<Rightarrow> string option \<Rightarrow> string option \<Rightarrow> runtime_paths" where
  "resolve_paths env db_path config_dir output_dir =
     (let data_dir = path_env env ''OC_DATA_DIR''
      in \<lparr>rp_db_path = resolve_path env db_path ''OC_DB_PATH'' data_dir ''openchronicle.db'' ''data/openchronicle.db'',
          rp_config_dir = resolve_path env config_dir ''OC_CONFIG_DIR'' data_dir ''config'' ''config'',
          rp_output_dir = resolve_path env output_dir ''OC_OUTPUT_DIR'' data_dir ''output'' ''output''\<rparr>)"

section \<open>Redaction of a URL\<close>

text \<open>\<open>urlsplit\<close> gives \<^const>\<open>None\<close> where it raises; \<open>urlsplit\<close> and \<open>urlunsplit\<close> are parameters.\<close>

record url_parts =
  up_scheme :: string
  up_netloc :: string
  up_path :: string
  up_query :: string
  up_fragment :: string

definition redact_url_userinfo :: "(string \<Rightarrow> url_parts option) \<Rightarrow> (url_parts \<Rightarrow> string) \<Rightarrow> string \<Rightarrow> string" where
  "redact_url_userinfo urlsplit urlunsplit url =
     (let added = (\<not> py_in ''://'' url)
      in case urlsplit (if added then ''http://'' @ url else url) of
           None \<Rightarrow> redact_userinfo_in_text url
         | Some parts \<Rightarrow>
             if CHR ''@'' \<notin> set (up_netloc parts) then url
             else (let rebuilt = urlunsplit (parts\<lparr>up_netloc := after_last_at (up_netloc parts)\<rparr>)
                   in if added then removeprefix ''http://'' rebuilt else rebuilt))"

lemma redact_url_userinfo_kept:
  assumes "\<And>p. urlsplit (urlunsplit p) = Some p" "urlsplit url = Some parts" "py_in ''://'' url"
  shows "\<exists>p. urlsplit (redact_url_userinfo urlsplit urlunsplit url) = Some p \<and> CHR ''@'' \<notin> set (up_netloc p) \<and>
    p = parts\<lparr>up_netloc := up_netloc p\<rparr> \<and> suffix (up_netloc p) (up_netloc parts)"
  using assms no_at_after_last_at [of "up_netloc parts"]
  by (auto simp: redact_url_userinfo_def after_last_at_def suffix_to_prefix takeWhile_is_prefix)

end
