(* ===== verification/OC_Settings_Theorems.thy ===== *)
theory OC_Settings_Theorems
  imports OC_Settings OC_Backup_Jobs
begin

text \<open>
  What reading the configuration guarantees: settings that fail soft, a search service that is
  always one of the configured kind or off, and variables that count as unset when they are empty.
\<close>

section \<open>Settings\<close>

lemma parse_int_Null [simp]: "parse_int JNull d = d"
  by (simp add: parse_int_def)

lemma parse_float_Inl:
  "parse_float v d = Inl e \<longleftrightarrow> e = OtherError ''OverflowError'' \<and> (\<exists>n. v = JInt n \<and> DOUBLE_LIMIT \<le> \<bar>n\<bar>)"
  by (auto simp: parse_float_def split: json.splits)

lemma none_valid [simp]: "''none'' \<in> set VALID_EMBEDDING_PROVIDERS"
  by (simp add: VALID_EMBEDDING_PROVIDERS_def)

lemma default_timeout [simp]: "\<not> not_positive (Finite 30)"
  by (simp add: not_positive_def)

lemma new_settings_soft:
  "new_settings (if p \<notin> set VALID_EMBEDDING_PROVIDERS then ''none'' else p) m (if 1 \<le> n then Some n else None) k
     (if not_positive t then Finite 30 else t) =
   Inr \<lparr>es_provider = (if p \<in> set VALID_EMBEDDING_PROVIDERS then p else ''none''), es_model = m,
        es_dimensions = (if 1 \<le> n then Some n else None), es_api_key = k, es_timeout = (if not_positive t then Finite 30 else t)\<rparr>"
  by (auto simp: not_positive_def new_settings_def)

text \<open>The settings for a timeout that was read; the checks of the dataclass never fail after those of the loader.\<close>

definition settings_of :: "(json \<Rightarrow> string) \<Rightarrow> (string \<Rightarrow> string option) \<Rightarrow> (string \<times> json) list \<Rightarrow> py_float \<Rightarrow> embedding_settings" where
  "settings_of repr env fc t =
     (let p = py_lower (parse_str repr (env_override (env ''OC_EMBEDDING_PROVIDER'') (json_get fc ''provider'')) ''none'');
          n = parse_int (env_override (env ''OC_EMBEDDING_DIMENSIONS'') (json_get fc ''dimensions'')) 0
      in \<lparr>es_provider = (if p \<in> set VALID_EMBEDDING_PROVIDERS then p else ''none''),
          es_model = parse_str repr (env_override (env ''OC_EMBEDDING_MODEL'') (json_get fc ''model'')) [],
          es_dimensions = (if 1 \<le> n then Some n else None),
          es_api_key = parse_str repr (env_override (env ''OC_EMBEDDING_API_KEY'') (json_get fc ''api_key'')) [],
          es_timeout = (if not_positive t then Finite 30 else t)\<rparr>)"

lemma load_embedding_settings_exact:
  "load_embedding_settings repr env fc =
   map_sum id (settings_of repr env fc) (parse_float (env_override (env ''OC_EMBEDDING_TIMEOUT'') (json_get fc ''timeout'')) (Finite 30))"
proof -
  define d where "d = env_override (env ''OC_EMBEDDING_DIMENSIONS'') (json_get fc ''dimensions'')"
  have dims: "(let n = (if d \<noteq> JNull then parse_int d 0 else 0); n = (if n < 0 then 0 else n) in if n \<noteq> 0 then Some n else None) =
      (if 1 \<le> parse_int d 0 then Some (parse_int d 0) else None)"
    by (auto simp: Let_def)
  show ?thesis
    unfolding load_embedding_settings_def settings_of_def d_def [symmetric]
    by (cases "parse_float (env_override (env ''OC_EMBEDDING_TIMEOUT'') (json_get fc ''timeout'')) (Finite 30)")
      (simp_all add: Let_def dims [unfolded Let_def] new_settings_soft split del: if_split cong: if_cong)
qed

lemma lower_char_space: "is_space c \<Longrightarrow> lower_char c = c"
  by (auto simp: is_space_def lower_char_def Let_def)

lemma known_provider_set:
  "py_lower p \<in> set VALID_EMBEDDING_PROVIDERS \<Longrightarrow> py_strip p \<noteq> [] \<and> p \<noteq> []"
proof -
  assume p: "py_lower p \<in> set VALID_EMBEDDING_PROVIDERS"
  have "py_lower p = p" if "\<forall>c \<in> set p. is_space c"
    using that by (simp add: py_lower_def lower_char_space map_idI)
  then show ?thesis
    using p unfolding py_strip_empty_iff by (auto simp: VALID_EMBEDDING_PROVIDERS_def is_space_def py_lower_def)
qed

lemma settings_of_valid: "es_provider (settings_of repr env fc t) \<in> set VALID_EMBEDDING_PROVIDERS"
  by (simp add: settings_of_def Let_def)

lemma settings_of_provider:
  "py_lower p \<in> set VALID_EMBEDDING_PROVIDERS \<Longrightarrow> env ''OC_EMBEDDING_PROVIDER'' = Some p \<Longrightarrow>
   es_provider (settings_of repr env fc t) = py_lower p"
  using known_provider_set [of p] by (simp add: settings_of_def Let_def env_override_def parse_str_def)

section \<open>The port\<close>

lemma create_embedding_adapter_provider:
  "create_embedding_adapter sdk env s = Inr a \<Longrightarrow> es_provider s \<in> {''stub'', ''openai'', ''ollama''}"
  by (auto simp: create_embedding_adapter_def Let_def split: if_splits)

lemma endpoint_nonempty: "p \<in> {''openai'', ''ollama''} \<Longrightarrow> embedding_endpoint env p \<noteq> []"
  by (auto simp: embedding_endpoint_def first_text_def)

lemma endpoint_stub: "embedding_endpoint env ''stub'' = []"
  by (simp add: embedding_endpoint_def)

lemma looks_private_host_Inl: "(\<exists>e. looks_private_host hostname ip url = Inl e) \<longleftrightarrow> (\<exists>e. hostname url = Inl e)"
  by (cases "hostname url") (auto simp: looks_private_host_def)

lemma endpoint_is_remote_Inr:
  assumes "embedding_endpoint_is_remote hostname ip env p = Inr r" "p \<in> {''stub'', ''openai'', ''ollama''}"
  shows "r \<longleftrightarrow> p \<noteq> ''stub'' \<and> looks_private_host hostname ip (embedding_endpoint env p) = Inr False"
proof (cases "p = ''stub''")
  case False
  then show ?thesis
    using assms endpoint_nonempty [of p env] unfolding embedding_endpoint_is_remote_def
    by (cases "looks_private_host hostname ip (embedding_endpoint env p)") auto
qed (use assms in \<open>simp add: embedding_endpoint_is_remote_def endpoint_stub\<close>)

lemma endpoint_is_remote_Inl:
  assumes "p \<in> {''stub'', ''openai'', ''ollama''}"
  shows "(\<exists>e. embedding_endpoint_is_remote hostname ip env p = Inl e) \<longleftrightarrow>
    p \<noteq> ''stub'' \<and> (\<exists>e. hostname (embedding_endpoint env p) = Inl e)"
proof (cases "p = ''stub''")
  case False
  then show ?thesis
    using assms endpoint_nonempty [of p env] looks_private_host_Inl [of hostname ip "embedding_endpoint env p"]
    unfolding embedding_endpoint_is_remote_def
    by (cases "looks_private_host hostname ip (embedding_endpoint env p)") auto
qed (simp add: embedding_endpoint_is_remote_def endpoint_stub)

lemma build_embedding_port_Some:
  "fst (build_embedding_port sdk hostname ip env s) = Some a \<Longrightarrow>
   create_embedding_adapter sdk env s = Inr a \<and>
   embedding_endpoint_is_remote hostname ip env (es_provider s) = Inr (snd (build_embedding_port sdk hostname ip env s))"
  by (auto simp: build_embedding_port_def split: sum.splits if_splits)

lemma create_embedding_adapter_kind:
  assumes "create_embedding_adapter sdk env s = Inr a" "es_dimensions s = None \<or> (\<exists>n. es_dimensions s = Some n \<and> 1 \<le> n)"
  shows "(case a of StubAdapter n \<Rightarrow> es_provider s = ''stub'' \<and> 1 \<le> n
    | OpenAIAdapter b \<Rightarrow> es_provider s = ''openai'' \<and> 1 \<le> op_dimensions b \<and> op_model b \<noteq> []
    | OllamaAdapter b \<Rightarrow> es_provider s = ''ollama'' \<and> 1 \<le> ollama_dimensions b \<and> oa_model b \<noteq> [])"
  using assms
  by (auto simp: create_embedding_adapter_def new_openai_def new_ollama_def ollama_dimensions_def first_set_def Let_def
      split: if_splits option.splits sum.splits)

lemma create_embedding_adapter_Inl:
  "es_provider s \<in> {''stub'', ''ollama''} \<Longrightarrow> \<exists>a. create_embedding_adapter sdk env s = Inr a"
  by (auto simp: create_embedding_adapter_def Let_def)

lemma build_embedding_port_None:
  assumes "es_provider s \<in> {''none'', ''stub'', ''openai'', ''ollama''}"
  shows "fst (build_embedding_port sdk hostname ip env s) = None \<longleftrightarrow> es_provider s = ''none'' \<or>
    (es_provider s = ''openai'' \<and> (\<exists>e. create_embedding_adapter sdk env s = Inl e)) \<or>
    (es_provider s \<in> {''openai'', ''ollama''} \<and> (\<exists>e. hostname (embedding_endpoint env (es_provider s)) = Inl e))"
proof (cases "es_provider s = ''none''")
  case False
  then have p: "es_provider s \<in> {''stub'', ''openai'', ''ollama''}" using assms by blast
  have "fst (build_embedding_port sdk hostname ip env s) = None \<longleftrightarrow>
      (\<exists>e. create_embedding_adapter sdk env s = Inl e) \<or> (\<exists>e. embedding_endpoint_is_remote hostname ip env (es_provider s) = Inl e)"
    using False by (auto simp: build_embedding_port_def split: sum.split)
  then show ?thesis
    using p False create_embedding_adapter_Inl [of s sdk env] endpoint_is_remote_Inl [OF p, of hostname ip env] by auto
qed (simp add: build_embedding_port_def)

section \<open>Unset variables\<close>

definition unset_empty :: "(string \<Rightarrow> string option) \<Rightarrow> string \<Rightarrow> string option" where
  "unset_empty env = (\<lambda>name. if env name = Some [] then None else env name)"

definition unset_blank :: "(string \<Rightarrow> string option) \<Rightarrow> string \<Rightarrow> string option" where
  "unset_blank env = (\<lambda>name. case env name of Some s \<Rightarrow> if py_strip s = [] then None else Some s | None \<Rightarrow> None)"

lemma py_strip_Nil [simp]: "py_strip [] = []"
  by (simp add: py_strip_def)

lemma unset_empty_readers [simp]:
  "env_override (unset_empty env x) v = env_override (env x) v"
  "env_text (unset_empty env) x = env_text env x"
  "path_env (unset_empty env) x = path_env env x"
  "resolve_port (unset_empty env x) v n = resolve_port (env x) v n"
  "parse_int_env (unset_empty env x) n = parse_int_env (env x) n"
  "parse_bool_env (unset_empty env x) b = parse_bool_env (env x) b"
  "parse_allowed_hosts repr (unset_empty env x) v = parse_allowed_hosts repr (env x) v"
  "unset_empty env x \<in> {None, Some []} \<longleftrightarrow> env x \<in> {None, Some []}"
  by (auto simp: unset_empty_def env_override_def env_text_def path_env_def resolve_port_def parse_int_env_def
      parse_bool_env_def parse_allowed_hosts_def Let_def split: option.split)

lemma unset_hosts:
  "parse_allowed_hosts repr (if env x \<in> {None, Some []} then unset_empty env y else unset_empty env x) v =
   parse_allowed_hosts repr (if env x \<in> {None, Some []} then env y else env x) v"
  by (simp only: unset_empty_readers if_distrib [where f = "\<lambda>h. parse_allowed_hosts repr h v"])

lemma first_text_unset [simp]:
  "first_text [unset_empty env x] d = first_text [env x] d"
  "first_text [v, unset_empty env x] d = first_text [v, env x] d"
  "first_text [unset_empty env x, v] d = first_text [env x, v] d"
  "first_text [v, unset_empty env x, w] d = first_text [v, env x, w] d"
  "first_text [v, w, unset_empty env x] d = first_text [v, w, env x] d"
  by (auto simp: first_text_def unset_empty_def)

lemma unset_blank_readers [simp]:
  "env_override (unset_blank env x) v = env_override (env x) v"
  "env_text (unset_blank env) x = env_text env x"
  "path_env (unset_blank env) x = path_env env x"
  "resolve_port (unset_blank env x) v n = resolve_port (env x) v n"
  "parse_bool_env (unset_blank env x) b = parse_bool_env (env x) b"
  by (auto simp: unset_blank_def env_override_def env_text_def path_env_def resolve_port_def
      parse_bool_env_def Let_def split: option.split)

lemma read_cloud_cong:
  assumes "py_strip (case x of None \<Rightarrow> [] | Some s \<Rightarrow> s) = py_strip (case x' of None \<Rightarrow> [] | Some s \<Rightarrow> s)"
    and "(case y of None \<Rightarrow> [] | Some s \<Rightarrow> s) = (case y' of None \<Rightarrow> [] | Some s \<Rightarrow> s)"
  shows "read_cloud_backup_config x y = read_cloud_backup_config x' y'"
  unfolding read_cloud_backup_config_def by (simp only: assms)




end
