(* ===== verification/OC_Exposition.thy ===== *)
theory OC_Exposition
  imports OC_Adapters OC_Redaction
begin

text \<open>
  The text that a metrics scrape returns (\<open>infrastructure/observability/cached_exporter.py\<close>): the
  prefix of every sample line is formatted once and kept in a cache with limits. \<open>UseStandard\<close> of
  the code is \<open>Inl None\<close> here, an exception \<open>Inl (Some e)\<close>. The standard exporter and the text of a float
  come from the Prometheus client and are parameters.
\<close>

section \<open>Families and samples\<close>

text \<open>\<open>sm_plain\<close> and \<open>mt_plain\<close>: names and labels are plain strings, not of a subclass or another type.\<close>

record 'v sample =
  sm_name :: string
  sm_labels :: "(string \<times> string) list"
  sm_plain :: bool
  sm_value :: 'v
  sm_timestamp :: "rat option"

record 'v metric =
  mt_name :: string
  mt_plain :: bool
  mt_type :: string
  mt_documentation :: string
  mt_samples :: "'v sample list"

section \<open>Prefixes\<close>

definition NEWLINE :: char where
  "NEWLINE = CHR 0x0A"

definition BACKSLASH :: char where
  "BACKSLASH = CHR 0x5C"

definition QUOTE :: char where
  "QUOTE = CHR 0x22"

definition label_char :: "char \<Rightarrow> bool" where
  "label_char c = (letter c \<or> is_digit c \<or> c = CHR ''_'')"

definition metric_char :: "char \<Rightarrow> bool" where
  "metric_char c = (label_char c \<or> c = CHR '':'')"

definition is_metric_name :: "string \<Rightarrow> bool" where
  "is_metric_name s = (s \<noteq> [] \<and> \<not> is_digit (hd s) \<and> list_all metric_char s)"

definition is_label_name :: "string \<Rightarrow> bool" where
  "is_label_name s = (s \<noteq> [] \<and> \<not> is_digit (hd s) \<and> list_all label_char s)"

definition escape_value :: "string \<Rightarrow> string" where
  "escape_value v = py_replace QUOTE [BACKSLASH, QUOTE] (py_replace NEWLINE [BACKSLASH, CHR ''n''] (py_replace BACKSLASH [BACKSLASH, BACKSLASH] v))"

definition label_text :: "string \<times> string \<Rightarrow> string" where
  "label_text lv = fst lv @ [CHR ''='', QUOTE] @ escape_value (snd lv) @ [QUOTE]"

type_synonym prefix_key = "string \<times> (string \<times> string) list"

definition make_prefix :: "prefix_key \<Rightarrow> string option" where
  "make_prefix key =
     (if is_metric_name (fst key) \<and> list_all (\<lambda>lv. is_label_name (fst lv)) (snd key)
      then Some (fst key @ (if snd key \<noteq> [] then ''{'' @ py_join '','' (map label_text (snd key)) @ ''}'' else []) @ '' '')
      else None)"

text \<open>A dict of prefixes in the order in which they came.\<close>

record exporter =
  ex_max_entries :: int
  ex_max_payload_bytes :: int
  ex_prefixes :: "(prefix_key \<times> string) list"
  ex_payload_bytes :: int

definition new_exporter :: "int \<Rightarrow> int \<Rightarrow> exc + exporter" where
  "new_exporter max_entries max_payload_bytes =
     (if max_entries < 0 \<or> max_payload_bytes < 0 then Inl (ValueError ''cache limits must be nonnegative'')
      else Inr \<lparr>ex_max_entries = max_entries, ex_max_payload_bytes = max_payload_bytes, ex_prefixes = [], ex_payload_bytes = 0\<rparr>)"

definition entry_size :: "prefix_key \<Rightarrow> string \<Rightarrow> int" where
  "entry_size key pre = int (sum_list (map (\<lambda>s. length (encode_utf8 s)) (fst key # pre # concat (map (\<lambda>(l, v). [l, v]) (snd key)))))"

definition remember :: "prefix_key \<Rightarrow> string \<Rightarrow> exporter \<Rightarrow> exporter" where
  "remember key pre ex =
     (if int (length (ex_prefixes ex)) < ex_max_entries ex \<and>
         ex_payload_bytes ex + entry_size key pre \<le> ex_max_payload_bytes ex
      then ex\<lparr>ex_prefixes := ex_prefixes ex @ [(key, pre)], ex_payload_bytes := ex_payload_bytes ex + entry_size key pre\<rparr>
      else ex)"

definition sample_key :: "'v sample \<Rightarrow> prefix_key" where
  "sample_key s = (sm_name s, sort (sm_labels s))"

definition sample_prefix :: "'v sample \<Rightarrow> exporter \<Rightarrow> string option \<times> exporter" where
  "sample_prefix s ex =
     (if \<not> sm_plain s then (None, ex)
      else case map_of (ex_prefixes ex) (sample_key s) of
        Some pre \<Rightarrow> (Some pre, ex)
      | None \<Rightarrow>
          (case make_prefix (sample_key s) of
             None \<Rightarrow> (None, ex)
           | Some pre \<Rightarrow> (Some pre, remember (sample_key s) pre ex)))"

section \<open>Families\<close>

definition exposition_header :: "string \<Rightarrow> string \<Rightarrow> string \<Rightarrow> string" where
  "exposition_header name kind documentation =
     ''# HELP '' @ name @ '' '' @ py_replace NEWLINE [BACKSLASH, CHR ''n''] (py_replace BACKSLASH [BACKSLASH, BACKSLASH] documentation) @
     [NEWLINE] @ ''# TYPE '' @ name @ '' '' @ kind @ [NEWLINE]"

definition timestamp_text :: "rat option \<Rightarrow> string" where
  "timestamp_text t =
     (case t of None \<Rightarrow> [] | Some x \<Rightarrow> '' '' @ int_text (if 0 \<le> x then \<lfloor>x * 1000\<rfloor> else \<lceil>x * 1000\<rceil>))"

fun sample_lines ::
  "('v \<Rightarrow> exc + string) \<Rightarrow> string list \<Rightarrow> 'v sample list \<Rightarrow> string list \<Rightarrow> (string \<times> string list) list \<Rightarrow> exporter \<Rightarrow>
   (exc option + string list \<times> (string \<times> string list) list) \<times> exporter" where
  "sample_lines go_text extra_names [] out extra ex = (Inr (out, extra), ex)"
| "sample_lines go_text extra_names (s # ss) out extra ex =
     (case sample_prefix s ex of
        (None, ex) \<Rightarrow> (Inl None, ex)
      | (Some pre, ex) \<Rightarrow>
          (case go_text (sm_value s) of
             Inl e \<Rightarrow> (Inl (Some e), ex)
           | Inr value \<Rightarrow>
               (let line = pre @ value @ timestamp_text (sm_timestamp s) @ [NEWLINE]
                in if sm_name s \<in> set extra_names
                   then sample_lines go_text extra_names ss out (dict_set (sm_name s) (dict_get extra (sm_name s) @ [line]) extra) ex
                   else sample_lines go_text extra_names ss (out @ [line]) extra ex)))"

definition extra_names :: "'v metric \<Rightarrow> string list" where
  "extra_names m = map (\<lambda>x. mt_name m @ x) [''_created'', ''_gsum'', ''_gcount'']"

definition family_name :: "'v metric \<Rightarrow> string" where
  "family_name m = (if mt_type m = ''counter'' then mt_name m @ ''_total'' else mt_name m)"

definition family_ok :: "'v metric \<Rightarrow> bool" where
  "family_ok m = (mt_type m \<in> {''counter'', ''gauge'', ''histogram''} \<and> mt_plain m \<and> is_metric_name (mt_name m))"

definition family_text :: "('v \<Rightarrow> exc + string) \<Rightarrow> 'v metric \<Rightarrow> exporter \<Rightarrow> (exc option + string) \<times> exporter" where
  "family_text go_text m ex =
     (if \<not> family_ok m then (Inl None, ex)
      else case sample_lines go_text (extra_names m) (mt_samples m) [exposition_header (family_name m) (mt_type m) (mt_documentation m)] [] ex of
        (Inl x, ex) \<Rightarrow> (Inl x, ex)
      | (Inr (out, extra), ex) \<Rightarrow>
          (Inr (concat (out @ concat (map (\<lambda>(name, ls). exposition_header name ''gauge'' (mt_documentation m) # ls) (sort_key fst extra)))), ex))"

text \<open>\<open>standard\<close>: \<open>generate_latest\<close> of one family that was already collected.\<close>

fun export_families ::
  "('v metric \<Rightarrow> exc + string) \<Rightarrow> ('v \<Rightarrow> exc + string) \<Rightarrow> 'v metric list \<Rightarrow> exporter \<Rightarrow> (exc + string) \<times> exporter" where
  "export_families standard go_text [] ex = (Inr [], ex)"
| "export_families standard go_text (m # ms) ex =
     (let (r, ex) = family_text go_text m ex;
          r = (case r of Inl None \<Rightarrow> standard m | Inl (Some e) \<Rightarrow> Inl e | Inr t \<Rightarrow> Inr t)
      in case r of
           Inl e \<Rightarrow> (Inl e, ex)
         | Inr t \<Rightarrow>
             (case export_families standard go_text ms ex of
                (Inl e, ex) \<Rightarrow> (Inl e, ex)
              | (Inr ts, ex) \<Rightarrow> (Inr (t @ ts), ex)))"

text \<open>\<open>generate_latest\<close>: the standard exporter for another escaping, over all families.\<close>

definition exposition ::
  "(string \<Rightarrow> 'v metric list \<Rightarrow> exc + string) \<Rightarrow> ('v \<Rightarrow> exc + string) \<Rightarrow> string \<Rightarrow> 'v metric list \<Rightarrow> exporter \<Rightarrow> (exc + string) \<times> exporter" where
  "exposition generate_latest go_text escaping ms ex =
     (if escaping \<noteq> ''underscores'' then (generate_latest escaping ms, ex)
      else (case export_families (\<lambda>m. generate_latest ''underscores'' [m]) go_text ms ex of
              (r, ex) \<Rightarrow> (map_sum id encode_utf8 r, ex)))"

end
