(* ===== verification/OC_Metrics.thy ===== *)
theory OC_Metrics
  imports OC_Exposition
begin

text \<open>
  The metrics recorder (\<open>infrastructure/observability/prometheus_recorder.py\<close>) and the middleware that
  measures HTTP exchanges (\<open>interfaces/api/middleware/metrics.py\<close>). A family of the Prometheus client is a
  set of children, one per tuple of label values; every call into the client may raise, which the
  parameter \<open>fault\<close> decides for each call. Log lines are left out.
\<close>

section \<open>Labels\<close>

definition UNKNOWN_LABEL :: string where
  "UNKNOWN_LABEL = ''__unknown__''"

definition HTTP_METHODS :: "string list" where
  "HTTP_METHODS = [''GET'', ''POST'', ''PUT'', ''DELETE'', ''PATCH'', ''OPTIONS'', ''HEAD'']"

definition MCP_TOOLS :: "string list" where
  "MCP_TOOLS =
     [''health'', ''project_create'', ''project_get'', ''project_list'', ''project_update'', ''project_delete'', ''project_delete_bulk'',
      ''onboard_git'', ''memory_search'', ''memory_save'', ''memory_list'', ''memory_pin'', ''memory_update'', ''memory_get'',
      ''memory_delete'', ''memory_stats'', ''memory_embed'', ''context_recent'', ''db_backup_create'', ''db_backup_list'',
      ''db_backup_verify'', ''db_restore_plan'', ''db_restore_stage'']"

definition PROVIDERS :: "string list" where
  "PROVIDERS = [''none'', ''stub'', ''openai'', ''ollama'']"

definition EMBEDDING_OPERATIONS :: "string list" where
  "EMBEDDING_OPERATIONS = [''single'', ''batch'']"

definition EMBEDDING_OUTCOMES :: "string list" where
  "EMBEDDING_OUTCOMES = [''success'', ''transient_failure'', ''permanent_rejection'', ''other_error'']"

definition MCP_OUTCOMES :: "string list" where
  "MCP_OUTCOMES = [''ok'', ''started'', ''partial'', ''rejected'', ''error'', ''cancelled'']"

definition SEARCH_STAGES :: "string list" where
  "SEARCH_STAGES = [''keyword_lookup'', ''vector_loading'', ''candidate_prep_scoring'', ''fusion_materialization'']"

definition FALLBACK_REASONS :: "string list" where
  "FALLBACK_REASONS = [''provider_failure'', ''over_length_query'', ''revision_churn'']"

definition JOB_NAMES :: "string list" where
  "JOB_NAMES =
     [''db_vacuum'', ''db_integrity_check'', ''embedding_backfill'', ''db_backup'', ''git_onboard_resync'', ''cloud_backup'',
      ''operator_backfill'', ''reconcile_backfill'']"

definition JOB_OUTCOMES :: "string list" where
  "JOB_OUTCOMES = [''success'', ''partial'', ''failure'', ''cancel'', ''overlap'']"

definition BACKFILL_OUTCOMES :: "string list" where
  "BACKFILL_OUTCOMES = [''generated'', ''failed'', ''tombstoned'']"

definition SURFACES :: "string list" where
  "SURFACES = [''rest'', ''mcp'']"

definition LOCK_KINDS :: "string list" where
  "LOCK_KINDS = [''read'', ''write'', ''maintenance'']"

definition bounded :: "string \<Rightarrow> string list \<Rightarrow> string" where
  "bounded value allowed = (if value \<in> set allowed then value else UNKNOWN_LABEL)"

definition duration :: "rat \<Rightarrow> rat" where
  "duration value = max 0 value"

definition UNMEASURED_PATHS :: "string list" where
  "UNMEASURED_PATHS =
     [''/health'', ''/api/v1/health'', ''/docs'', ''/docs/'', ''/docs/oauth2-redirect'', ''/redoc'', ''/redoc/'', ''/openapi.json'',
      ''/metrics'', ''/metrics/'']"

definition FIXED_ROUTES :: "string list" where
  "FIXED_ROUTES =
     [''/api/v1/memory'', ''/api/v1/memory/search'', ''/api/v1/memory/stats'', ''/api/v1/memory/embed'', ''/api/v1/project'']"

definition normalize_http_route :: "string \<Rightarrow> string option" where
  "normalize_http_route path =
     (if path \<in> set UNMEASURED_PATHS then None
      else if path \<in> set FIXED_ROUTES then Some path
      else if prefix ''/api/v1/memory/'' path then Some ''/api/v1/memory/{memory_id}''
      else if prefix ''/api/v1/project/'' path then Some ''/api/v1/project/{project_id}''
      else if path \<in> {''/mcp'', ''/mcp/''} then Some ''/mcp''
      else Some UNKNOWN_LABEL)"

definition status_class :: "int \<Rightarrow> string" where
  "status_class status_code = (if 100 \<le> status_code \<and> status_code \<le> 599 then int_text (status_code div 100) @ ''xx'' else ''other'')"

section \<open>The registry\<close>

text \<open>A child of a family by its labels, and what it holds: a number, or the values that a histogram saw.\<close>

type_synonym child = "string \<times> string list"

datatype reading = Number rat | Observed "rat list"

text \<open>\<open>Labels\<close>: children asked for by \<open>labels()\<close>; \<open>Cached\<close>: the same through the recorder's own cache.\<close>

datatype client_call = Labels child | Cached "child list" | Inc child | Dec child | Observe child rat | SetTo child rat

record recorder =
  rc_registry :: "(child \<times> reading) list"
  rc_cached :: "child list"
  rc_healthy :: bool
  rc_warning_emitted :: bool

definition HISTOGRAMS :: "string list" where
  "HISTOGRAMS =
     [''oc_http_request_duration_seconds'', ''oc_mcp_execution_duration_seconds'', ''oc_store_lock_wait_seconds'',
      ''oc_store_lock_hold_seconds'', ''oc_embedding_operation_duration_seconds'', ''oc_search_stage_duration_seconds'',
      ''oc_job_duration_seconds'']"

definition HEALTHY_GAUGE :: child where
  "HEALTHY_GAUGE = (''oc_metrics_recorder_healthy'', [])"

definition new_child :: "child \<Rightarrow> recorder \<Rightarrow> recorder" where
  "new_child ch r =
     (if ch \<in> fst ` set (rc_registry r) then r
      else r\<lparr>rc_registry := rc_registry r @ [(ch, if fst ch \<in> set HISTOGRAMS then Observed [] else Number 0)]\<rparr>)"

definition change_child :: "child \<Rightarrow> (reading \<Rightarrow> reading) \<Rightarrow> recorder \<Rightarrow> recorder" where
  "change_child ch f r = r\<lparr>rc_registry := map (\<lambda>x. if fst x = ch then (ch, f (snd x)) else x) (rc_registry r)\<rparr>"

definition add_number :: "rat \<Rightarrow> reading \<Rightarrow> reading" where
  "add_number d v = (case v of Number x \<Rightarrow> Number (x + d) | Observed xs \<Rightarrow> Observed xs)"

definition add_value :: "rat \<Rightarrow> reading \<Rightarrow> reading" where
  "add_value d v = (case v of Number x \<Rightarrow> Number x | Observed xs \<Rightarrow> Observed (xs @ [d]))"

fun effect :: "client_call \<Rightarrow> recorder \<Rightarrow> recorder" where
  "effect (Labels ch) r = new_child ch r"
| "effect (Cached chs) r = (if set chs \<subseteq> set (rc_cached r) then r else (fold new_child chs r)\<lparr>rc_cached := rc_cached r @ chs\<rparr>)"
| "effect (Inc ch) r = change_child ch (add_number 1) r"
| "effect (Dec ch) r = change_child ch (add_number (- 1)) r"
| "effect (Observe ch d) r = change_child ch (add_value d) r"
| "effect (SetTo ch x) r = change_child ch (\<lambda>_. Number x) r"

text \<open>
  A lookup that hits the cache does not call the client. Of several children that are looked up
  together, those before the one that raises exist afterwards, but none is cached.
\<close>

fun run_call :: "(client_call \<Rightarrow> bool) \<Rightarrow> client_call \<Rightarrow> recorder \<Rightarrow> bool \<times> recorder" where
  "run_call fault (Cached chs) r =
     (if set chs \<subseteq> set (rc_cached r) then (True, r)
      else if list_ex (\<lambda>ch. fault (Labels ch)) chs then (False, fold new_child (takeWhile (\<lambda>ch. \<not> fault (Labels ch)) chs) r)
      else (True, effect (Cached chs) r))"
| "run_call fault c r = (if fault c then (False, r) else (True, effect c r))"

fun run_calls :: "(client_call \<Rightarrow> bool) \<Rightarrow> client_call list \<Rightarrow> recorder \<Rightarrow> bool \<times> recorder" where
  "run_calls fault [] r = (True, r)"
| "run_calls fault (c # cs) r = (case run_call fault c r of (True, r) \<Rightarrow> run_calls fault cs r | (False, r) \<Rightarrow> (False, r))"

section \<open>Health\<close>

definition mark_error :: "(client_call \<Rightarrow> bool) \<Rightarrow> string \<Rightarrow> recorder \<Rightarrow> recorder" where
  "mark_error fault operation r =
     (let r = r\<lparr>rc_healthy := False\<rparr>;
          r = snd (run_calls fault [SetTo HEALTHY_GAUGE 0] r);
          errors = (''oc_metrics_recorder_errors_total'', [operation]);
          r = snd (run_calls fault [Labels errors, Inc errors] r)
      in r\<lparr>rc_warning_emitted := True\<rparr>)"

definition mark_success :: "(client_call \<Rightarrow> bool) \<Rightarrow> recorder \<Rightarrow> bool \<times> recorder" where
  "mark_success fault r =
     (if rc_healthy r then (True, r)
      else case run_call fault (SetTo HEALTHY_GAUGE 1) r of
        (False, r) \<Rightarrow> (False, r)
      | (True, r) \<Rightarrow> (True, r\<lparr>rc_healthy := True\<rparr>))"

definition safe :: "(client_call \<Rightarrow> bool) \<Rightarrow> string \<Rightarrow> client_call list \<Rightarrow> recorder \<Rightarrow> recorder" where
  "safe fault operation callback r =
     (case run_calls fault callback r of
        (False, r) \<Rightarrow> mark_error fault operation r
      | (True, r) \<Rightarrow> (case mark_success fault r of (True, r) \<Rightarrow> r | (False, r) \<Rightarrow> mark_error fault operation r))"

section \<open>Observations\<close>

definition new_recorder :: "string \<Rightarrow> string \<Rightarrow> recorder" where
  "new_recorder package_version build_revision =
     \<lparr>rc_registry = [(HEALTHY_GAUGE, Number 1), ((''oc_build_info'', [package_version, build_revision]), Number 1)],
      rc_cached = [], rc_healthy = True, rc_warning_emitted = False\<rparr>"

definition inflight_child :: "string \<Rightarrow> child" where
  "inflight_child surface = (''oc_requests_inflight'', [bounded surface SURFACES])"

definition inflight_inc :: "(client_call \<Rightarrow> bool) \<Rightarrow> string \<Rightarrow> recorder \<Rightarrow> recorder" where
  "inflight_inc fault surface = safe fault ''inflight_inc'' [Cached [inflight_child surface], Inc (inflight_child surface)]"

definition inflight_dec :: "(client_call \<Rightarrow> bool) \<Rightarrow> string \<Rightarrow> recorder \<Rightarrow> recorder" where
  "inflight_dec fault surface = safe fault ''inflight_dec'' [Cached [inflight_child surface], Dec (inflight_child surface)]"

definition observe_http :: "(client_call \<Rightarrow> bool) \<Rightarrow> string \<Rightarrow> string \<Rightarrow> int \<Rightarrow> rat \<Rightarrow> recorder \<Rightarrow> recorder" where
  "observe_http fault path method status_code duration_seconds r =
     (case normalize_http_route path of
        None \<Rightarrow> r
      | Some route \<Rightarrow>
          (let m = bounded method HTTP_METHODS;
               requests = (''oc_http_requests_total'', [route, m, status_class status_code]);
               histogram = (''oc_http_request_duration_seconds'', [route, m])
           in safe fault ''http''
                [Cached [requests], Inc requests, Cached [histogram], Observe histogram (duration duration_seconds)] r))"

definition observe_mcp :: "(client_call \<Rightarrow> bool) \<Rightarrow> string \<Rightarrow> string \<Rightarrow> rat \<Rightarrow> recorder \<Rightarrow> recorder" where
  "observe_mcp fault tool outcome duration_seconds =
     (let t = bounded tool MCP_TOOLS;
          executions = (''oc_mcp_executions_total'', [t, bounded outcome MCP_OUTCOMES]);
          histogram = (''oc_mcp_execution_duration_seconds'', [t])
      in safe fault ''mcp'' [Labels executions, Inc executions, Labels histogram, Observe histogram (duration duration_seconds)])"

definition observe_store_lock :: "(client_call \<Rightarrow> bool) \<Rightarrow> string \<Rightarrow> rat \<Rightarrow> rat \<Rightarrow> recorder \<Rightarrow> recorder" where
  "observe_store_lock fault kind wait_seconds hold_seconds =
     (let k = bounded kind LOCK_KINDS;
          waiting = (''oc_store_lock_wait_seconds'', [k]);
          holding = (''oc_store_lock_hold_seconds'', [k])
      in safe fault ''store_lock''
           [Cached [waiting, holding], Observe waiting (duration wait_seconds), Observe holding (duration hold_seconds)])"

definition observe_embedding :: "(client_call \<Rightarrow> bool) \<Rightarrow> string \<Rightarrow> string \<Rightarrow> string \<Rightarrow> rat \<Rightarrow> recorder \<Rightarrow> recorder" where
  "observe_embedding fault provider operation outcome duration_seconds =
     (let p = bounded provider PROVIDERS;
          oper = bounded operation EMBEDDING_OPERATIONS;
          operations = (''oc_embedding_operations_total'', [p, oper, bounded outcome EMBEDDING_OUTCOMES]);
          histogram = (''oc_embedding_operation_duration_seconds'', [p, oper])
      in safe fault ''embedding''
           [Cached [operations], Inc operations, Cached [histogram], Observe histogram (duration duration_seconds)])"

definition observe_search_stage :: "(client_call \<Rightarrow> bool) \<Rightarrow> string \<Rightarrow> rat \<Rightarrow> recorder \<Rightarrow> recorder" where
  "observe_search_stage fault stage duration_seconds =
     (let histogram = (''oc_search_stage_duration_seconds'', [bounded stage SEARCH_STAGES])
      in safe fault ''search_stage'' [Cached [histogram], Observe histogram (duration duration_seconds)])"

definition observe_search_fallback :: "(client_call \<Rightarrow> bool) \<Rightarrow> string \<Rightarrow> recorder \<Rightarrow> recorder" where
  "observe_search_fallback fault reason =
     (let fallbacks = (''oc_search_fallbacks_total'', [bounded reason FALLBACK_REASONS])
      in safe fault ''search_fallback'' [Labels fallbacks, Inc fallbacks])"

definition observe_job :: "(client_call \<Rightarrow> bool) \<Rightarrow> string \<Rightarrow> string \<Rightarrow> rat option \<Rightarrow> recorder \<Rightarrow> recorder" where
  "observe_job fault name outcome duration_seconds =
     (let n = bounded name JOB_NAMES;
          runs = (''oc_job_runs_total'', [n, bounded outcome JOB_OUTCOMES]);
          histogram = (''oc_job_duration_seconds'', [n])
      in safe fault ''job''
           ([Labels runs, Inc runs] @ (case duration_seconds of None \<Rightarrow> [] | Some d \<Rightarrow> [Labels histogram, Observe histogram (duration d)])))"

definition set_job_last_success :: "(client_call \<Rightarrow> bool) \<Rightarrow> string \<Rightarrow> rat \<Rightarrow> recorder \<Rightarrow> recorder" where
  "set_job_last_success fault name timestamp_seconds =
     (let gauge = (''oc_job_last_success_timestamp_seconds'', [bounded name JOB_NAMES])
      in safe fault ''job_last_success'' [Labels gauge, SetTo gauge (max 0 timestamp_seconds)])"

definition observe_backfill_item :: "(client_call \<Rightarrow> bool) \<Rightarrow> string \<Rightarrow> recorder \<Rightarrow> recorder" where
  "observe_backfill_item fault outcome =
     (let items = (''oc_backfill_items_total'', [bounded outcome BACKFILL_OUTCOMES])
      in safe fault ''backfill_item'' [Labels items, Inc items])"

section \<open>Calls of the program\<close>

datatype observation =
    InflightInc string
  | InflightDec string
  | ObserveHttp string string int rat
  | ObserveMcp string string rat
  | ObserveStoreLock string rat rat
  | ObserveEmbedding string string string rat
  | ObserveSearchStage string rat
  | ObserveSearchFallback string
  | ObserveJob string string "rat option"
  | SetJobLastSuccess string rat
  | ObserveBackfillItem string

fun perform :: "(client_call \<Rightarrow> bool) \<Rightarrow> observation \<Rightarrow> recorder \<Rightarrow> recorder" where
  "perform fault (InflightInc surface) = inflight_inc fault surface"
| "perform fault (InflightDec surface) = inflight_dec fault surface"
| "perform fault (ObserveHttp path method status d) = observe_http fault path method status d"
| "perform fault (ObserveMcp tool outcome d) = observe_mcp fault tool outcome d"
| "perform fault (ObserveStoreLock kind w h) = observe_store_lock fault kind w h"
| "perform fault (ObserveEmbedding provider operation outcome d) = observe_embedding fault provider operation outcome d"
| "perform fault (ObserveSearchStage stage d) = observe_search_stage fault stage d"
| "perform fault (ObserveSearchFallback reason) = observe_search_fallback fault reason"
| "perform fault (ObserveJob name outcome d) = observe_job fault name outcome d"
| "perform fault (SetJobLastSuccess name t) = set_job_last_success fault name t"
| "perform fault (ObserveBackfillItem outcome) = observe_backfill_item fault outcome"

text \<open>
  The middleware around an HTTP exchange: the calls at its start, and those at its end, whatever ends
  it. \<open>statuses\<close>: the status of every \<open>http.response.start\<close> message, \<^const>\<open>None\<close> where it is no integer.
\<close>

definition exchange_begins :: "string \<Rightarrow> observation list" where
  "exchange_begins scope_type = (if scope_type \<noteq> ''http'' then [] else [InflightInc ''rest''])"

definition sent_status :: "int option list \<Rightarrow> int" where
  "sent_status statuses = fold (\<lambda>s status_code. case s of None \<Rightarrow> status_code | Some n \<Rightarrow> n) statuses 500"

definition exchange_ends :: "string \<Rightarrow> string \<Rightarrow> string \<Rightarrow> int option list \<Rightarrow> rat \<Rightarrow> observation list" where
  "exchange_ends scope_type path method statuses elapsed =
     (if scope_type \<noteq> ''http'' then [] else [InflightDec ''rest'', ObserveHttp path method (sent_status statuses) elapsed])"

section \<open>Scrapes\<close>

text \<open>
  \<open>render\<close> takes the slot without waiting and hands it to a worker, which releases it at its end; a
  request that is cancelled leaves its worker alone. \<open>Finish\<close> carries the families that the worker
  collected and what it returned.
\<close>

record scrape_state =
  sc_slot :: bool
  sc_workers :: nat
  sc_exporter :: exporter

datatype 'v scrape_event =
    Admitted
  | Busy
  | NotStarted
  | ScrapeCancelled
  | ScrapeFinished "'v metric list" "exc + string"

definition render_owned ::
  "(string \<Rightarrow> 'v metric list \<Rightarrow> exc + string) \<Rightarrow> ('v \<Rightarrow> exc + string) \<Rightarrow> 'v metric list \<Rightarrow> exporter \<Rightarrow> (exc + string) \<times> exporter" where
  "render_owned generate_latest go_text ms ex =
     (case exposition generate_latest go_text ''underscores'' ms ex of
        (Inl e, ex) \<Rightarrow> (Inl (OtherError ''MetricsScrapeError''), ex)
      | (Inr body, ex) \<Rightarrow> (Inr body, ex))"

inductive scrape_step ::
  "(string \<Rightarrow> 'v metric list \<Rightarrow> exc + string) \<Rightarrow> ('v \<Rightarrow> exc + string) \<Rightarrow> scrape_state \<Rightarrow> 'v scrape_event \<Rightarrow> scrape_state \<Rightarrow> bool"
  for generate_latest go_text where
  admit: "\<not> sc_slot s \<Longrightarrow> scrape_step generate_latest go_text s Admitted (s\<lparr>sc_slot := True, sc_workers := sc_workers s + 1\<rparr>)"
| busy: "sc_slot s \<Longrightarrow> scrape_step generate_latest go_text s Busy s"
| not_started: "\<not> sc_slot s \<Longrightarrow> scrape_step generate_latest go_text s NotStarted s"
| cancel: "scrape_step generate_latest go_text s ScrapeCancelled s"
| finish: "0 < sc_workers s \<Longrightarrow> render_owned generate_latest go_text ms (sc_exporter s) = (result, ex) \<Longrightarrow>
    scrape_step generate_latest go_text s (ScrapeFinished ms result) (s\<lparr>sc_slot := False, sc_workers := sc_workers s - 1, sc_exporter := ex\<rparr>)"

inductive scrape_run ::
  "(string \<Rightarrow> 'v metric list \<Rightarrow> exc + string) \<Rightarrow> ('v \<Rightarrow> exc + string) \<Rightarrow> scrape_state \<Rightarrow> 'v scrape_event list \<Rightarrow> scrape_state \<Rightarrow> bool"
  for generate_latest go_text where
  none: "scrape_run generate_latest go_text s [] s"
| more: "scrape_run generate_latest go_text s es t \<Longrightarrow> scrape_step generate_latest go_text t e u \<Longrightarrow>
    scrape_run generate_latest go_text s (es @ [e]) u"

inductive_cases scrape_finishE: "scrape_step generate_latest go_text s (ScrapeFinished ms result) t"

text \<open>The recorder keeps at most 4096 prefixes in 1 MiB of text.\<close>

definition first_exporter :: exporter where
  "first_exporter = \<lparr>ex_max_entries = 4096, ex_max_payload_bytes = 1048576, ex_prefixes = [], ex_payload_bytes = 0\<rparr>"

definition first_scrape_state :: scrape_state where
  "first_scrape_state = \<lparr>sc_slot = False, sc_workers = 0, sc_exporter = first_exporter\<rparr>"

end
