(* ===== verification/OC_Exposition_Props.thy ===== *)
theory OC_Exposition_Props
  imports OC_Exposition
begin

text \<open>
  The exposition without a cache as a reference, the invariant of the cache, and the form of a line: the
  cache changes nothing in the text, and the prefix of a sample determines its name and labels.
\<close>

section \<open>The reference\<close>

definition plain_prefix :: "'v sample \<Rightarrow> string option" where
  "plain_prefix s = (if sm_plain s then make_prefix (sm_name s, sort (sm_labels s)) else None)"

fun plain_lines :: "('v \<Rightarrow> exc + string) \<Rightarrow> 'v sample list \<Rightarrow> exc option + (string \<times> string) list" where
  "plain_lines go_text [] = Inr []"
| "plain_lines go_text (s # ss) =
     (case plain_prefix s of
        None \<Rightarrow> Inl None
      | Some p \<Rightarrow>
          (case go_text (sm_value s) of
             Inl e \<Rightarrow> Inl (Some e)
           | Inr v \<Rightarrow> map_sum id (\<lambda>ls. (sm_name s, p @ v @ timestamp_text (sm_timestamp s) @ [NEWLINE]) # ls) (plain_lines go_text ss)))"

definition lines_of :: "string \<Rightarrow> (string \<times> string) list \<Rightarrow> string list" where
  "lines_of name ls = map snd (filter (\<lambda>l. fst l = name) ls)"

definition plain_family :: "('v \<Rightarrow> exc + string) \<Rightarrow> 'v metric \<Rightarrow> exc option + string" where
  "plain_family go_text m =
     (if \<not> family_ok m then Inl None
      else map_sum id
        (\<lambda>ls. exposition_header (family_name m) (mt_type m) (mt_documentation m) @
           concat (map snd (filter (\<lambda>l. fst l \<notin> set (extra_names m)) ls)) @
           concat (map (\<lambda>name. exposition_header name ''gauge'' (mt_documentation m) @ concat (lines_of name ls))
             (sort (remdups (filter (\<lambda>name. name \<in> set (extra_names m)) (map fst ls))))))
        (plain_lines go_text (mt_samples m)))"

fun plain_families :: "('v metric \<Rightarrow> exc + string) \<Rightarrow> ('v \<Rightarrow> exc + string) \<Rightarrow> 'v metric list \<Rightarrow> exc + string" where
  "plain_families standard go_text [] = Inr []"
| "plain_families standard go_text (m # ms) =
     (case (case plain_family go_text m of Inl None \<Rightarrow> standard m | Inl (Some e) \<Rightarrow> Inl e | Inr t \<Rightarrow> Inr t) of
        Inl e \<Rightarrow> Inl e
      | Inr t \<Rightarrow> map_sum id (\<lambda>ts. t @ ts) (plain_families standard go_text ms))"

section \<open>The cache\<close>

definition cache_ok :: "int \<Rightarrow> int \<Rightarrow> exporter \<Rightarrow> bool" where
  "cache_ok n b ex =
     (ex_max_entries ex = n \<and> ex_max_payload_bytes ex = b \<and> distinct (map fst (ex_prefixes ex)) \<and> (\<forall>(k, p) \<in> set (ex_prefixes ex). make_prefix k = Some p) \<and>
      int (length (ex_prefixes ex)) \<le> ex_max_entries ex \<and> ex_payload_bytes ex \<le> ex_max_payload_bytes ex \<and>
      ex_payload_bytes ex = sum_list (map (\<lambda>(k, p). entry_size k p) (ex_prefixes ex)))"

lemma remember_ok: "cache_ok n b ex \<Longrightarrow> map_of (ex_prefixes ex) k = None \<Longrightarrow> make_prefix k = Some p \<Longrightarrow> cache_ok n b (remember k p ex)"
  by (auto simp: cache_ok_def remember_def map_of_eq_None_iff)

lemma sample_prefix_exact:
  assumes "cache_ok n b ex"
  shows "fst (sample_prefix s ex) = plain_prefix s \<and> cache_ok n b (snd (sample_prefix s ex))"
proof (cases "map_of (ex_prefixes ex) (sample_key s)")
  case None
  then show ?thesis
    using assms remember_ok [OF assms None] by (auto simp: sample_prefix_def plain_prefix_def sample_key_def split: option.split)
next
  case (Some p)
  then have "make_prefix (sample_key s) = Some p" using assms by (auto simp: cache_ok_def dest!: map_of_SomeD)
  then show ?thesis using assms Some by (simp add: sample_prefix_def plain_prefix_def sample_key_def)
qed

lemma dict_set_keys: "fst ` set (dict_set k v d) = insert k (fst ` set d)"
proof -
  have "map fst (map (\<lambda>x. if fst x = k then (k, v) else x) d) = map fst d" by (induction d) auto
  then have "fst ` set (map (\<lambda>x. if fst x = k then (k, v) else x) d) = fst ` set d" by (metis set_map)
  then show ?thesis unfolding dict_set_def by (cases "k \<in> fst ` set d") (simp_all only: if_True if_False set_append image_Un, auto)
qed

lemma lines_of_simps [simp]:
  "lines_of n [] = []" "lines_of n (l # ls) = (if fst l = n then snd l # lines_of n ls else lines_of n ls)"
  by (simp_all add: lines_of_def)

lemma sample_lines_exact:
  "cache_ok n b ex \<Longrightarrow> distinct (map fst extra) \<Longrightarrow>
   cache_ok n b (snd (sample_lines go_text en ss out extra ex)) \<and>
   (case plain_lines go_text ss of
      Inl x \<Rightarrow> fst (sample_lines go_text en ss out extra ex) = Inl x
    | Inr ls \<Rightarrow> (\<exists>extra'. fst (sample_lines go_text en ss out extra ex) = Inr (out @ map snd (filter (\<lambda>l. fst l \<notin> set en) ls), extra') \<and>
        distinct (map fst extra') \<and> fst ` set extra' = fst ` set extra \<union> (set en \<inter> fst ` set ls) \<and>
        (\<forall>x. dict_get extra' x = dict_get extra x @ (if x \<in> set en then lines_of x ls else []))))"
proof (induction ss arbitrary: out extra ex)
  case (Cons s ss)
  obtain p ex' where p: "sample_prefix s ex = (p, ex')" by (cases "sample_prefix s ex")
  then have plain: "plain_prefix s = p" and ok: "cache_ok n b ex'" using sample_prefix_exact [OF Cons.prems(1), of s] by auto
  show ?case
  proof (cases "\<exists>q v. p = Some q \<and> go_text (sm_value s) = Inr v")
    case False
    then show ?thesis using p plain ok by (cases p; cases "go_text (sm_value s)") auto
  next
    case True
    then obtain q v where q: "p = Some q" "go_text (sm_value s) = Inr v" by blast
    define line where "line = q @ v @ timestamp_text (sm_timestamp s) @ [NEWLINE]"
    define out' where "out' = (if sm_name s \<in> set en then out else out @ [line])"
    define extra'' where "extra'' = (if sm_name s \<in> set en then dict_set (sm_name s) (dict_get extra (sm_name s) @ [line]) extra else extra)"
    have step: "sample_lines go_text en (s # ss) out extra ex = sample_lines go_text en ss out' extra'' ex'"
      "plain_lines go_text (s # ss) = map_sum id (\<lambda>ls. (sm_name s, line) # ls) (plain_lines go_text ss)"
      using p q plain by (simp_all add: out'_def extra''_def line_def Let_def)
    have keys: "distinct (map fst extra'')" "fst ` set extra'' = fst ` set extra \<union> (set en \<inter> {sm_name s})"
      "\<And>n. dict_get extra'' n = dict_get extra n @ (if n \<in> set en \<and> n = sm_name s then [line] else [])"
      using Cons.prems(2) by (auto simp: extra''_def distinct_dict_set dict_set_keys dict_get_set)
    note IH = Cons.IH [OF ok keys(1), of out']
    show ?thesis
    proof (cases "plain_lines go_text ss")
      case (Inl x)
      then show ?thesis using IH unfolding step by simp
    next
      case (Inr ls)
      then obtain extra' where "fst (sample_lines go_text en ss out' extra'' ex') = Inr (out' @ map snd (filter (\<lambda>l. fst l \<notin> set en) ls), extra')"
        "distinct (map fst extra')" "fst ` set extra' = fst ` set extra'' \<union> (set en \<inter> fst ` set ls)"
        "\<And>n. dict_get extra' n = dict_get extra'' n @ (if n \<in> set en then lines_of n ls else [])"
        "cache_ok n b (snd (sample_lines go_text en ss out' extra'' ex'))"
        using IH by auto
      then show ?thesis unfolding step Inr
        by (intro conjI) (auto simp: keys out'_def intro!: exI [of _ extra'])
    qed
  qed
qed simp

lemma sort_dict:
  assumes "distinct (map fst d)"
  shows "sort_key fst d = map (\<lambda>k. (k, dict_get d k)) (sort (map fst d))"
proof -
  have "sort (map fst d) = map fst (sort_key fst d)" by (rule properties_for_sort) simp_all
  moreover have "map (\<lambda>x. (fst x, dict_get d (fst x))) (sort_key fst d) = sort_key fst d"
    using assms by (intro map_idI) (auto simp: dict_get_def)
  ultimately show ?thesis by (simp add: comp_def)
qed

lemma family_text_exact:
  assumes "cache_ok n b ex"
  shows "fst (family_text go_text m ex) = plain_family go_text m \<and> cache_ok n b (snd (family_text go_text m ex))"
proof (cases "family_ok m")
  case True
  define hd where "hd = exposition_header (family_name m) (mt_type m) (mt_documentation m)"
  note exact = sample_lines_exact [OF assms, of "[]" go_text "extra_names m" "mt_samples m" "[hd]"]
  show ?thesis
  proof (cases "plain_lines go_text (mt_samples m)")
    case (Inl x)
    then show ?thesis
      using exact True by (cases "sample_lines go_text (extra_names m) (mt_samples m) [hd] [] ex")
        (simp add: family_text_def plain_family_def hd_def [symmetric])
  next
    case (Inr ls)
    then obtain extra' ex' where run: "sample_lines go_text (extra_names m) (mt_samples m) [hd] [] ex =
        (Inr (hd # map snd (filter (\<lambda>l. fst l \<notin> set (extra_names m)) ls), extra'), ex')"
      and d: "distinct (map fst extra')" "fst ` set extra' = set (extra_names m) \<inter> fst ` set ls"
      and get: "\<And>n. dict_get extra' n = (if n \<in> set (extra_names m) then lines_of n ls else [])" and ok: "cache_ok n b ex'"
      using exact by (cases "sample_lines go_text (extra_names m) (mt_samples m) [hd] [] ex") (auto simp: dict_get_def)
    have keys: "sort (map fst extra') = sort (remdups (filter (\<lambda>name. name \<in> set (extra_names m)) (map fst ls)))"
      by (rule sorted_distinct_set_unique) (use d in auto)
    have "concat (concat (map (\<lambda>(name, ls). exposition_header name ''gauge'' (mt_documentation m) # ls) (map (\<lambda>k. (k, dict_get extra' k)) ks))) =
        concat (map (\<lambda>name. exposition_header name ''gauge'' (mt_documentation m) @ concat (lines_of name ls)) ks)"
      if "set ks \<subseteq> set (extra_names m)" for ks
      using that by (induction ks) (auto simp: get)
    from this [of "sort (map fst extra')"]
    have "concat (concat (map (\<lambda>(name, ls). exposition_header name ''gauge'' (mt_documentation m) # ls) (sort_key fst extra'))) =
        concat (map (\<lambda>name. exposition_header name ''gauge'' (mt_documentation m) @ concat (lines_of name ls)) (sort (map fst extra')))"
      unfolding sort_dict [OF d(1)] using d(2) by simp
    then show ?thesis
      using run True ok by (simp add: family_text_def plain_family_def hd_def [symmetric] Inr keys)
  qed
qed (use assms in \<open>simp add: family_text_def plain_family_def\<close>)

lemma export_families_exact:
  "cache_ok n b ex \<Longrightarrow> fst (export_families standard go_text ms ex) = plain_families standard go_text ms \<and>
   cache_ok n b (snd (export_families standard go_text ms ex))"
proof (induction ms arbitrary: ex)
  case (Cons m ms)
  obtain r ex' where f: "family_text go_text m ex = (r, ex')" by (cases "family_text go_text m ex")
  then have r: "plain_family go_text m = r" "cache_ok n b ex'" using family_text_exact [OF Cons.prems, of go_text m] by auto
  obtain q ex'' where e: "export_families standard go_text ms ex' = (q, ex'')" by (cases "export_families standard go_text ms ex'")
  then have "plain_families standard go_text ms = q" "cache_ok n b ex''" using Cons.IH [OF r(2)] by auto
  then show ?case
    using f r e by (cases q) (auto simp: Let_def split: sum.split option.split)
qed simp

section \<open>The form of a prefix\<close>

definition escape_char :: "char \<Rightarrow> string" where
  "escape_char c =
     (if c = BACKSLASH then [BACKSLASH, BACKSLASH] else if c = NEWLINE then [BACKSLASH, CHR ''n'']
      else if c = QUOTE then [BACKSLASH, QUOTE] else [c])"

lemma escape_value_simps [simp]: "escape_value [] = []" "escape_value (c # cs) = escape_char c @ escape_value cs"
  by (simp_all add: escape_value_def escape_char_def py_replace_def BACKSLASH_def NEWLINE_def QUOTE_def)

lemma escape_value_inj:
  "escape_value v @ QUOTE # r = escape_value w @ QUOTE # r' \<Longrightarrow> v = w \<and> r = r'"
proof (induction v arbitrary: w)
  case Nil
  then show ?case by (cases w) (auto simp: escape_char_def BACKSLASH_def NEWLINE_def QUOTE_def split: if_splits)
next
  case (Cons c v)
  then obtain d w' where w: "w = d # w'" by (cases w) (auto simp: escape_char_def BACKSLASH_def NEWLINE_def QUOTE_def split: if_splits)
  have "c = d \<and> escape_value v @ QUOTE # r = escape_value w' @ QUOTE # r'"
    using Cons.prems unfolding w by (auto simp: escape_char_def BACKSLASH_def NEWLINE_def QUOTE_def split: if_splits)
  then show ?case using Cons.IH w by blast
qed

lemma escape_value_one_line: "NEWLINE \<notin> set (escape_value v)"
  by (induction v) (auto simp: escape_char_def BACKSLASH_def NEWLINE_def QUOTE_def)

lemma char_classes [simp]:
  "\<not> label_char (CHR ''='')" "\<not> metric_char (CHR ''{'')" "\<not> metric_char (CHR '' '')" "\<not> metric_char NEWLINE" "\<not> label_char NEWLINE"
  by (simp_all add: label_char_def metric_char_def letter_def is_digit_def NEWLINE_def)

lemma newline_neq [simp]: "NEWLINE \<noteq> QUOTE" "NEWLINE \<noteq> CHR ''=''" "NEWLINE \<noteq> CHR '',''" "NEWLINE \<noteq> CHR ''{''" "NEWLINE \<noteq> CHR ''}''" "NEWLINE \<noteq> CHR '' ''"
  by (simp_all add: NEWLINE_def QUOTE_def)

lemma span_inj:
  assumes "\<forall>x \<in> set a. P x" "\<forall>x \<in> set a'. P x" "\<not> P b" "\<not> P b'" "a @ b # r = a' @ b' # r'"
  shows "a = a' \<and> b = b' \<and> r = r'"
proof -
  have "takeWhile P (a @ b # r) = a" "takeWhile P (a' @ b' # r') = a'" using assms(1-4) by (simp_all add: takeWhile_append2)
  then have "a = a'" using assms(5) by metis
  then show ?thesis using assms(5) by simp
qed

lemma label_text_inj:
  assumes "is_label_name (fst a)" "is_label_name (fst b)" "label_text a @ r = label_text b @ r'"
  shows "a = b \<and> r = r'"
proof -
  have eq: "fst a @ CHR ''='' # QUOTE # escape_value (snd a) @ QUOTE # r = fst b @ CHR ''='' # QUOTE # escape_value (snd b) @ QUOTE # r'"
    using assms(3) by (simp add: label_text_def)
  have "fst a = fst b \<and> QUOTE # escape_value (snd a) @ QUOTE # r = QUOTE # escape_value (snd b) @ QUOTE # r'"
    using span_inj [OF _ _ _ _ eq, of label_char] assms(1,2) by (auto simp: is_label_name_def list_all_iff)
  then show ?thesis using escape_value_inj [of "snd a" r "snd b" r'] by (auto simp: prod_eq_iff)
qed

lemma joined_Cons: "xs \<noteq> [] \<Longrightarrow> py_join sep (x # xs) = x @ sep @ py_join sep xs"
  by (cases xs) auto

lemma labels_inj:
  "list_all (\<lambda>l. is_label_name (fst l)) ls \<Longrightarrow> list_all (\<lambda>l. is_label_name (fst l)) ls' \<Longrightarrow> ls \<noteq> [] \<Longrightarrow> ls' \<noteq> [] \<Longrightarrow>
   py_join '','' (map label_text ls) @ ''}'' @ r = py_join '','' (map label_text ls') @ ''}'' @ r' \<Longrightarrow> ls = ls' \<and> r = r'"
proof (induction ls arbitrary: ls')
  case (Cons l ls)
  obtain k ks where ls': "ls' = k # ks" using Cons.prems(4) by (cases ls') auto
  define rest where "rest = (\<lambda>xs r. (if xs = [] then ''}'' @ r else '','' @ py_join '','' (map label_text xs) @ ''}'' @ r))"
  have join: "py_join '','' (map label_text (x # xs)) @ ''}'' @ r = label_text x @ rest xs r" for x xs r
    by (simp add: rest_def joined_Cons del: py_join.simps(3))
  have "l = k \<and> rest ls r = rest ks r'"
    using label_text_inj [of l k "rest ls r" "rest ks r'"] Cons.prems unfolding ls' join by simp
  then show ?case
    using Cons.IH [of ks] Cons.prems ls' by (auto simp: rest_def split: if_splits)
qed simp

lemma make_prefix_inj:
  assumes "make_prefix k = Some p" "make_prefix k' = Some p'" "p @ r = p' @ r'"
  shows "k = k' \<and> r = r'"
proof -
  define tail where "tail = (\<lambda>ls r. if ls \<noteq> [] then ''{'' @ py_join '','' (map label_text ls) @ ''}'' @ '' '' @ r else '' '' @ r)"
  have k: "is_metric_name (fst k)" "list_all (\<lambda>l. is_label_name (fst l)) (snd k)" "p @ r = fst k @ tail (snd k) r"
    using assms(1) by (auto simp: make_prefix_def tail_def split: if_splits)
  have k': "is_metric_name (fst k')" "list_all (\<lambda>l. is_label_name (fst l)) (snd k')" "p' @ r' = fst k' @ tail (snd k') r'"
    using assms(2) by (auto simp: make_prefix_def tail_def split: if_splits)
  have cons: "\<exists>b t. tail ls r = b # t \<and> \<not> metric_char b" for ls r by (simp add: tail_def)
  obtain b t b' t' where tails: "tail (snd k) r = b # t" "tail (snd k') r' = b' # t'" "\<not> metric_char b" "\<not> metric_char b'"
    using cons by metis
  have eq: "fst k @ b # t = fst k' @ b' # t'" using assms(3) k(3) k'(3) tails by simp
  have "\<forall>c \<in> set (fst k). metric_char c" "\<forall>c \<in> set (fst k'). metric_char c"
    using k(1) k'(1) by (auto simp: is_metric_name_def list_all_iff)
  from span_inj [OF this tails(3,4) eq] have name: "fst k = fst k'" and tail: "tail (snd k) r = tail (snd k') r'" using tails by auto
  have "snd k = [] \<longleftrightarrow> snd k' = []" using tail unfolding tail_def by (auto split: if_splits)
  then have "snd k = snd k' \<and> r = r'"
    using labels_inj [OF k(2) k'(2), of "'' '' @ r" "'' '' @ r'"] tail unfolding tail_def by (cases "snd k = []") auto
  then show ?thesis using name by (simp add: prod_eq_iff)
qed

lemma make_prefix_one_line: "make_prefix k = Some p \<Longrightarrow> NEWLINE \<notin> set p"
proof -
  assume "make_prefix k = Some p"
  then have name: "is_metric_name (fst k)" "list_all (\<lambda>l. is_label_name (fst l)) (snd k)"
    and p: "p = fst k @ (if snd k \<noteq> [] then ''{'' @ py_join '','' (map label_text (snd k)) @ ''}'' else []) @ '' ''"
    by (auto simp: make_prefix_def split: if_splits)
  have "NEWLINE \<notin> set (label_text l)" if "is_label_name (fst l)" for l
    using that escape_value_one_line by (auto simp: label_text_def is_label_name_def list_all_iff)
  then have "NEWLINE \<notin> set (py_join '','' (map label_text ls))" if "list_all (\<lambda>l. is_label_name (fst l)) ls" for ls
    using that by (induction ls rule: induct_list012) auto
  then show ?thesis using name p by (auto simp: is_metric_name_def list_all_iff)
qed

end
