(* ===== verification/OC_Metrics_Props.thy ===== *)
theory OC_Metrics_Props
  imports OC_Metrics OC_Exposition_Props
begin

text \<open>
  The children that the recorder can create: every observation asks only for children with allowed labels, and
  the number of allowed children is computed.
\<close>

section \<open>Children\<close>

definition children :: "recorder \<Rightarrow> child list" where
  "children r = map fst (rc_registry r)"

fun call_children :: "client_call \<Rightarrow> child list" where
  "call_children (Labels ch) = [ch]"
| "call_children (Cached chs) = chs"
| "call_children _ = []"

definition errors_child :: "string \<Rightarrow> child" where
  "errors_child operation = (''oc_metrics_recorder_errors_total'', [operation])"

text \<open>\<open>grows A r r'\<close>: \<open>r'\<close> has the children of \<open>r\<close> and possibly some of \<open>A\<close>, each once, and caches only what exists.\<close>

definition grows :: "child set \<Rightarrow> recorder \<Rightarrow> recorder \<Rightarrow> bool" where
  "grows A r r' =
     (set (children r) \<subseteq> set (children r') \<and> set (children r') \<subseteq> set (children r) \<union> A \<and>
      (distinct (children r) \<longrightarrow> distinct (children r')) \<and>
      (set (rc_cached r) \<subseteq> set (children r) \<longrightarrow> set (rc_cached r') \<subseteq> set (children r')))"

lemma grows_refl: "grows A r r"
  by (auto simp: grows_def)

lemma grows_trans: "grows A r s \<Longrightarrow> grows A s t \<Longrightarrow> grows A r t"
  by (auto simp: grows_def)

lemma grows_mono: "grows A r s \<Longrightarrow> A \<subseteq> B \<Longrightarrow> grows B r s"
  by (auto simp: grows_def)

lemma grows_children: "grows A r s \<Longrightarrow> set (children r) \<subseteq> set (children s)"
  by (simp add: grows_def)

lemma children_change [simp]: "children (change_child ch f r) = children r"
  by (auto simp: children_def change_child_def)

lemma rc_cached_change [simp]: "rc_cached (change_child ch f r) = rc_cached r" "rc_cached (new_child ch r) = rc_cached r"
  by (simp_all add: change_child_def new_child_def)

lemma children_update [simp]:
  "children (r\<lparr>rc_healthy := b\<rparr>) = children r" "children (r\<lparr>rc_warning_emitted := b\<rparr>) = children r" "children (r\<lparr>rc_cached := c\<rparr>) = children r"
  by (simp_all add: children_def)

lemma new_child_children: "children (new_child ch r) = (if ch \<in> set (children r) then children r else children r @ [ch])"
  by (simp add: children_def new_child_def)

lemma grows_new_child: "ch \<in> A \<Longrightarrow> grows A r (new_child ch r)"
  by (auto simp: grows_def new_child_children)

lemma grows_fold_new: "set chs \<subseteq> A \<Longrightarrow> grows A r (fold new_child chs r) \<and> set chs \<subseteq> set (children (fold new_child chs r)) \<and> rc_cached (fold new_child chs r) = rc_cached r"
proof (induction chs arbitrary: r)
  case (Cons ch chs)
  have step: "grows A r (new_child ch r)" using Cons.prems by (simp add: grows_new_child)
  have "ch \<in> set (children (new_child ch r))" by (simp add: new_child_children)
  moreover have IH: "grows A (new_child ch r) (fold new_child chs (new_child ch r))"
    "set chs \<subseteq> set (children (fold new_child chs (new_child ch r)))" "rc_cached (fold new_child chs (new_child ch r)) = rc_cached r"
    using Cons.IH [of "new_child ch r"] Cons.prems by auto
  ultimately show ?case using grows_trans [OF step IH(1)] grows_children [OF IH(1)] by auto
qed (simp add: grows_refl)

lemma grows_run_call: "set (call_children c) \<subseteq> A \<Longrightarrow> grows A r (snd (run_call fault c r))"
proof (cases c)
  case (Cached chs)
  assume "set (call_children c) \<subseteq> A"
  then have A: "set chs \<subseteq> A" "set (takeWhile (\<lambda>ch. \<not> fault (Labels ch)) chs) \<subseteq> A" using Cached by (auto dest: set_takeWhileD)
  show ?thesis
    using grows_fold_new [OF A(1), of r] grows_fold_new [OF A(2), of r] Cached by (auto simp: grows_refl) (auto simp: grows_def)
qed (auto simp: grows_refl grows_new_child, (auto simp: grows_def)+)

lemma grows_run_calls: "(\<And>c. c \<in> set cs \<Longrightarrow> set (call_children c) \<subseteq> A) \<Longrightarrow> grows A r (snd (run_calls fault cs r))"
proof (induction cs arbitrary: r)
  case (Cons c cs)
  have "grows A r (snd (run_call fault c r))" using Cons.prems by (intro grows_run_call) simp
  then show ?case using Cons grows_trans by (cases "run_call fault c r"; cases "fst (run_call fault c r)") fastforce+
qed (simp add: grows_refl)

lemma grows_mark_error: "errors_child operation \<in> A \<Longrightarrow> grows A r (mark_error fault operation r)"
proof -
  assume A: "errors_child operation \<in> A"
  let ?e = "errors_child operation"
  define r0 where "r0 = r\<lparr>rc_healthy := False\<rparr>"
  define r1 where "r1 = snd (run_calls fault [SetTo HEALTHY_GAUGE 0] r0)"
  define r2 where "r2 = snd (run_calls fault [Labels ?e, Inc ?e] r1)"
  have "grows A r r0" by (auto simp: grows_def r0_def)
  moreover have "grows A r0 r1" unfolding r1_def by (rule grows_run_calls) auto
  moreover have "grows A r1 r2" unfolding r2_def by (rule grows_run_calls) (use A in auto)
  moreover have "mark_error fault operation r = r2\<lparr>rc_warning_emitted := True\<rparr>"
    by (simp only: mark_error_def Let_def r0_def r1_def r2_def errors_child_def)
  ultimately show ?thesis by (auto simp: grows_def)
qed

lemma grows_mark_success: "grows A r (snd (mark_success fault r))"
  by (auto simp: mark_success_def grows_def)

lemma grows_safe:
  assumes "\<And>c. c \<in> set callback \<Longrightarrow> set (call_children c) \<subseteq> A" "errors_child operation \<in> A"
  shows "grows A r (safe fault operation callback r)"
proof -
  obtain b r1 where r1: "run_calls fault callback r = (b, r1)" by (cases "run_calls fault callback r")
  obtain b' r2 where r2: "mark_success fault r1 = (b', r2)" by (cases "mark_success fault r1")
  have "grows A r r1" using grows_run_calls [OF assms(1), of callback r fault] r1 by simp
  moreover have "grows A r1 r2" using grows_mark_success [of A r1 fault] r2 by simp
  moreover have "grows A x (mark_error fault operation x)" for x by (rule grows_mark_error [OF assms(2)])
  ultimately show ?thesis unfolding safe_def r1 using r2 by (cases b; cases b') (auto intro: grows_trans)
qed

section \<open>The number of time series\<close>

definition OPERATIONS :: "string list" where
  "OPERATIONS =
     [''inflight_inc'', ''inflight_dec'', ''http'', ''mcp'', ''store_lock'', ''embedding'', ''search_stage'', ''search_fallback'', ''job'',
      ''job_last_success'', ''backfill_item'', ''scrape'']"

definition ROUTES :: "string list" where
  "ROUTES = UNKNOWN_LABEL # ''/api/v1/memory/{memory_id}'' # ''/api/v1/project/{project_id}'' # ''/mcp'' # FIXED_ROUTES"

definition STATUS_CLASSES :: "string list" where
  "STATUS_CLASSES = [''1xx'', ''2xx'', ''3xx'', ''4xx'', ''5xx'', ''other'']"

definition with_unknown :: "string list \<Rightarrow> string list" where
  "with_unknown xs = UNKNOWN_LABEL # xs"

text \<open>The families with the values that each of their labels can take, for a build of a version and revision.\<close>

definition families :: "string \<Rightarrow> string \<Rightarrow> (string \<times> string list list) list" where
  "families version revision =
     [(''oc_http_requests_total'', [ROUTES, with_unknown HTTP_METHODS, STATUS_CLASSES]),
      (''oc_http_request_duration_seconds'', [ROUTES, with_unknown HTTP_METHODS]),
      (''oc_mcp_executions_total'', [with_unknown MCP_TOOLS, with_unknown MCP_OUTCOMES]),
      (''oc_mcp_execution_duration_seconds'', [with_unknown MCP_TOOLS]),
      (''oc_requests_inflight'', [with_unknown SURFACES]),
      (''oc_store_lock_wait_seconds'', [with_unknown LOCK_KINDS]),
      (''oc_store_lock_hold_seconds'', [with_unknown LOCK_KINDS]),
      (''oc_embedding_operations_total'', [with_unknown PROVIDERS, with_unknown EMBEDDING_OPERATIONS, with_unknown EMBEDDING_OUTCOMES]),
      (''oc_embedding_operation_duration_seconds'', [with_unknown PROVIDERS, with_unknown EMBEDDING_OPERATIONS]),
      (''oc_search_stage_duration_seconds'', [with_unknown SEARCH_STAGES]),
      (''oc_search_fallbacks_total'', [with_unknown FALLBACK_REASONS]),
      (''oc_job_runs_total'', [with_unknown JOB_NAMES, with_unknown JOB_OUTCOMES]),
      (''oc_job_duration_seconds'', [with_unknown JOB_NAMES]),
      (''oc_job_last_success_timestamp_seconds'', [with_unknown JOB_NAMES]),
      (''oc_backfill_items_total'', [with_unknown BACKFILL_OUTCOMES]),
      (''oc_metrics_recorder_healthy'', []),
      (''oc_metrics_recorder_errors_total'', [OPERATIONS]),
      (''oc_build_info'', [[version], [revision]])]"

definition allowed :: "string \<Rightarrow> string \<Rightarrow> child set" where
  "allowed version revision = {(f, ls). \<exists>vss. (f, vss) \<in> set (families version revision) \<and> list_all2 (\<lambda>l vs. l \<in> set vs) ls vss}"

lemma bounded_in [simp]: "bounded v vs \<in> set (with_unknown vs)"
  by (simp add: bounded_def with_unknown_def)

lemma route_in: "normalize_http_route path = Some route \<Longrightarrow> route \<in> set ROUTES"
  by (auto simp: normalize_http_route_def ROUTES_def split: if_splits)

lemma status_class_in: "status_class n \<in> set STATUS_CLASSES"
proof (cases "100 \<le> n \<and> n \<le> 599")
  case True
  then have "n div 100 \<in> {1, 2, 3, 4, 5}" by (simp add: insert_iff) linarith
  moreover have "int_text 1 = ''1''" "int_text 2 = ''2''" "int_text 3 = ''3''" "int_text 4 = ''4''" "int_text 5 = ''5''"
    by (simp_all add: int_text_def nat_text.simps char_of_def bit_simps)
  ultimately show ?thesis using True by (auto simp: status_class_def STATUS_CLASSES_def)
qed (auto simp: status_class_def STATUS_CLASSES_def)

lemma allowed_labels [simp]:
  "(''oc_http_requests_total'', [x, y, z]) \<in> allowed v b \<longleftrightarrow> x \<in> set ROUTES \<and> y \<in> set (with_unknown HTTP_METHODS) \<and> z \<in> set STATUS_CLASSES"
  "(''oc_http_request_duration_seconds'', [x, y]) \<in> allowed v b \<longleftrightarrow> x \<in> set ROUTES \<and> y \<in> set (with_unknown HTTP_METHODS)"
  "(''oc_mcp_executions_total'', [x, y]) \<in> allowed v b \<longleftrightarrow> x \<in> set (with_unknown MCP_TOOLS) \<and> y \<in> set (with_unknown MCP_OUTCOMES)"
  "(''oc_mcp_execution_duration_seconds'', [x]) \<in> allowed v b \<longleftrightarrow> x \<in> set (with_unknown MCP_TOOLS)"
  "(''oc_requests_inflight'', [x]) \<in> allowed v b \<longleftrightarrow> x \<in> set (with_unknown SURFACES)"
  "(''oc_store_lock_wait_seconds'', [x]) \<in> allowed v b \<longleftrightarrow> x \<in> set (with_unknown LOCK_KINDS)"
  "(''oc_store_lock_hold_seconds'', [x]) \<in> allowed v b \<longleftrightarrow> x \<in> set (with_unknown LOCK_KINDS)"
  "(''oc_embedding_operations_total'', [x, y, z]) \<in> allowed v b \<longleftrightarrow>
     x \<in> set (with_unknown PROVIDERS) \<and> y \<in> set (with_unknown EMBEDDING_OPERATIONS) \<and> z \<in> set (with_unknown EMBEDDING_OUTCOMES)"
  "(''oc_embedding_operation_duration_seconds'', [x, y]) \<in> allowed v b \<longleftrightarrow> x \<in> set (with_unknown PROVIDERS) \<and> y \<in> set (with_unknown EMBEDDING_OPERATIONS)"
  "(''oc_search_stage_duration_seconds'', [x]) \<in> allowed v b \<longleftrightarrow> x \<in> set (with_unknown SEARCH_STAGES)"
  "(''oc_search_fallbacks_total'', [x]) \<in> allowed v b \<longleftrightarrow> x \<in> set (with_unknown FALLBACK_REASONS)"
  "(''oc_job_runs_total'', [x, y]) \<in> allowed v b \<longleftrightarrow> x \<in> set (with_unknown JOB_NAMES) \<and> y \<in> set (with_unknown JOB_OUTCOMES)"
  "(''oc_job_duration_seconds'', [x]) \<in> allowed v b \<longleftrightarrow> x \<in> set (with_unknown JOB_NAMES)"
  "(''oc_job_last_success_timestamp_seconds'', [x]) \<in> allowed v b \<longleftrightarrow> x \<in> set (with_unknown JOB_NAMES)"
  "(''oc_backfill_items_total'', [x]) \<in> allowed v b \<longleftrightarrow> x \<in> set (with_unknown BACKFILL_OUTCOMES)"
  "(''oc_metrics_recorder_errors_total'', [x]) \<in> allowed v b \<longleftrightarrow> x \<in> set OPERATIONS"
  "(''oc_metrics_recorder_healthy'', []) \<in> allowed v b" "(''oc_build_info'', [v, b]) \<in> allowed v b"
  by (simp_all add: allowed_def families_def)

lemma grows_safe_allowed:
  assumes "\<And>c. c \<in> set callback \<Longrightarrow> set (call_children c) \<subseteq> allowed v b" "operation \<in> set OPERATIONS"
  shows "grows (allowed v b) r (safe fault operation callback r)"
  using assms by (intro grows_safe) (auto simp: errors_child_def)

text \<open>Every observation only asks for children with allowed labels, whatever its arguments are.\<close>

lemma operations_in [simp]:
  "''inflight_inc'' \<in> set OPERATIONS" "''inflight_dec'' \<in> set OPERATIONS" "''http'' \<in> set OPERATIONS" "''mcp'' \<in> set OPERATIONS"
  "''store_lock'' \<in> set OPERATIONS" "''embedding'' \<in> set OPERATIONS" "''search_stage'' \<in> set OPERATIONS" "''search_fallback'' \<in> set OPERATIONS"
  "''job'' \<in> set OPERATIONS" "''job_last_success'' \<in> set OPERATIONS" "''backfill_item'' \<in> set OPERATIONS"
  by (simp_all add: OPERATIONS_def)

lemmas observation_defs = inflight_inc_def inflight_dec_def inflight_child_def observe_http_def observe_mcp_def observe_store_lock_def
  observe_embedding_def observe_search_stage_def observe_search_fallback_def observe_job_def set_job_last_success_def observe_backfill_item_def

lemma grows_perform: "grows (allowed v b) r (perform fault obs r)"
proof (cases obs)
  case (ObserveHttp path verb status d)
  then show ?thesis
    by (cases "normalize_http_route path")
      (auto simp: observe_http_def Let_def grows_refl status_class_in route_in intro!: grows_safe_allowed)
qed (auto simp: observation_defs Let_def intro!: grows_safe_allowed split: option.splits)

definition perform_all :: "((client_call \<Rightarrow> bool) \<times> observation) list \<Rightarrow> recorder \<Rightarrow> recorder" where
  "perform_all calls = fold (\<lambda>(fault, obs). perform fault obs) calls"

lemma grows_perform_all: "grows (allowed v b) r (perform_all calls r)"
proof (induction calls arbitrary: r)
  case (Cons call calls)
  obtain fault obs where call: "call = (fault, obs)" by (cases call)
  have "perform_all (call # calls) r = perform_all calls (perform fault obs r)" by (simp add: perform_all_def call)
  then show ?case using grows_trans [OF grows_perform [of v b r fault obs] Cons.IH] by simp
qed (simp add: perform_all_def grows_refl)

lemma new_recorder_children: "children (new_recorder v b) = [HEALTHY_GAUGE, (''oc_build_info'', [v, b])]" "rc_cached (new_recorder v b) = []"
  by (simp_all add: new_recorder_def children_def)

lemma recorder_children:
  "distinct (children (perform_all calls (new_recorder v b)))"
  "set (children (perform_all calls (new_recorder v b))) \<subseteq> allowed v b"
  "set (rc_cached (perform_all calls (new_recorder v b))) \<subseteq> set (children (perform_all calls (new_recorder v b)))"
  using grows_perform_all [of v b "new_recorder v b" calls]
  by (auto simp: grows_def new_recorder_children HEALTHY_GAUGE_def)

definition series :: "string \<Rightarrow> recorder \<Rightarrow> nat" where
  "series f r = length (filter (\<lambda>ch. fst ch = f) (children r))"

definition allowed_list :: "string \<Rightarrow> string \<Rightarrow> child list" where
  "allowed_list v b = concat (map (\<lambda>(f, vss). map (Pair f) (product_lists vss)) (families v b))"

lemma set_allowed_list: "set (allowed_list v b) = allowed v b"
  by (auto simp: allowed_list_def allowed_def product_lists_set)

lemma label_set_sizes [simp]:
  "length ROUTES = 9" "length STATUS_CLASSES = 6" "length OPERATIONS = 12" "length (with_unknown HTTP_METHODS) = 8"
  "length (with_unknown MCP_TOOLS) = 24" "length (with_unknown MCP_OUTCOMES) = 7" "length (with_unknown SURFACES) = 3"
  "length (with_unknown LOCK_KINDS) = 4" "length (with_unknown PROVIDERS) = 5" "length (with_unknown EMBEDDING_OPERATIONS) = 3"
  "length (with_unknown EMBEDDING_OUTCOMES) = 5" "length (with_unknown SEARCH_STAGES) = 5" "length (with_unknown FALLBACK_REASONS) = 4"
  "length (with_unknown JOB_NAMES) = 9" "length (with_unknown JOB_OUTCOMES) = 6" "length (with_unknown BACKFILL_OUTCOMES) = 4"
  by (simp_all add: ROUTES_def FIXED_ROUTES_def STATUS_CLASSES_def OPERATIONS_def with_unknown_def HTTP_METHODS_def MCP_TOOLS_def MCP_OUTCOMES_def
      SURFACES_def LOCK_KINDS_def PROVIDERS_def EMBEDDING_OPERATIONS_def EMBEDDING_OUTCOMES_def SEARCH_STAGES_def FALLBACK_REASONS_def
      JOB_NAMES_def JOB_OUTCOMES_def BACKFILL_OUTCOMES_def)

lemma series_le:
  assumes "distinct (children r)" "set (children r) \<subseteq> allowed v b"
  shows "series f r \<le> length (filter (\<lambda>ch. fst ch = f) (allowed_list v b))"
proof -
  have "series f r = card (set (filter (\<lambda>ch. fst ch = f) (children r)))"
    unfolding series_def by (rule distinct_card [symmetric]) (simp add: assms(1))
  also have "\<dots> \<le> card (set (filter (\<lambda>ch. fst ch = f) (allowed_list v b)))"
    using assms(2) set_allowed_list by (intro card_mono finite_set) auto
  also have "\<dots> \<le> length (filter (\<lambda>ch. fst ch = f) (allowed_list v b))" by (rule card_length)
  finally show ?thesis .
qed

lemma filter_allowed_list:
  "length (filter (\<lambda>ch. fst ch = f) (allowed_list v b)) =
   sum_list (map (\<lambda>(g, vss). if g = f then foldr (*) (map length vss) 1 else 0) (families v b))"
proof -
  have "length (filter (\<lambda>ch. fst ch = f) (concat (map (\<lambda>(f, vss). map (Pair f) (product_lists vss)) fs))) =
      sum_list (map (\<lambda>(g, vss). if g = f then foldr (*) (map length vss) 1 else 0) fs)" for fs :: "(string \<times> string list list) list"
    by (induction fs) (auto simp: filter_map comp_def length_product_lists)
  then show ?thesis by (simp add: allowed_list_def)
qed

end
