(* ===== verification/OC_Metrics_Counts.thy ===== *)
theory OC_Metrics_Counts
  imports OC_Metrics_Props
begin

text \<open>What the counters of the recorder hold while no call into the Prometheus client fails.\<close>

section \<open>Counts\<close>

definition reading_of :: "recorder \<Rightarrow> child \<Rightarrow> rat" where
  "reading_of r ch = (case map_of (rc_registry r) ch of Some (Number x) \<Rightarrow> x | _ \<Rightarrow> 0)"

definition COUNTERS :: "string list" where
  "COUNTERS =
     [''oc_http_requests_total'', ''oc_mcp_executions_total'', ''oc_requests_inflight'', ''oc_embedding_operations_total'',
      ''oc_search_fallbacks_total'', ''oc_job_runs_total'', ''oc_backfill_items_total'']"

text \<open>What an observation adds to a counter or to the gauge of running requests.\<close>

fun counted :: "child \<Rightarrow> observation \<Rightarrow> rat" where
  "counted ch (InflightInc surface) = (if ch = inflight_child surface then 1 else 0)"
| "counted ch (InflightDec surface) = (if ch = inflight_child surface then - 1 else 0)"
| "counted ch (ObserveHttp path method status d) =
     (case normalize_http_route path of
        None \<Rightarrow> 0
      | Some route \<Rightarrow> if ch = (''oc_http_requests_total'', [route, bounded method HTTP_METHODS, status_class status]) then 1 else 0)"
| "counted ch (ObserveMcp tool outcome d) =
     (if ch = (''oc_mcp_executions_total'', [bounded tool MCP_TOOLS, bounded outcome MCP_OUTCOMES]) then 1 else 0)"
| "counted ch (ObserveEmbedding provider operation outcome d) =
     (if ch = (''oc_embedding_operations_total'',
        [bounded provider PROVIDERS, bounded operation EMBEDDING_OPERATIONS, bounded outcome EMBEDDING_OUTCOMES]) then 1 else 0)"
| "counted ch (ObserveSearchFallback reason) = (if ch = (''oc_search_fallbacks_total'', [bounded reason FALLBACK_REASONS]) then 1 else 0)"
| "counted ch (ObserveJob name outcome d) =
     (if ch = (''oc_job_runs_total'', [bounded name JOB_NAMES, bounded outcome JOB_OUTCOMES]) then 1 else 0)"
| "counted ch (ObserveBackfillItem outcome) = (if ch = (''oc_backfill_items_total'', [bounded outcome BACKFILL_OUTCOMES]) then 1 else 0)"
| "counted ch _ = 0"

definition typed :: "recorder \<Rightarrow> bool" where
  "typed r =
     ((\<forall>(ch, x) \<in> set (rc_registry r). fst ch \<in> set HISTOGRAMS \<longleftrightarrow> (\<exists>xs. x = Observed xs)) \<and>
      set (rc_cached r) \<subseteq> set (children r) \<and> rc_healthy r \<and> \<not> rc_warning_emitted r)"

lemma map_of_change:
  "map_of (map (\<lambda>x. if fst x = ch then (ch, f (snd x)) else x) d) k = (if k = ch then map_option f (map_of d k) else map_of d k)"
  by (induction d) auto

lemma reading_of_change:
  "reading_of (change_child ch f r) k =
   (if k = ch then (case map_of (rc_registry r) ch of Some x \<Rightarrow> (case f x of Number y \<Rightarrow> y | _ \<Rightarrow> 0) | None \<Rightarrow> 0) else reading_of r k)"
  by (simp add: reading_of_def change_child_def map_of_change split: option.split)

lemma reading_of_new_child [simp]: "reading_of (new_child ch r) k = reading_of r k"
proof (cases "ch \<in> fst ` set (rc_registry r)")
  case False
  then have "map_of (rc_registry r) ch = None" by (simp add: map_of_eq_None_iff)
  then show ?thesis by (simp add: reading_of_def new_child_def map_add_def split: option.split)
qed (simp add: new_child_def)

lemma reading_of_fold_new [simp]: "reading_of (fold new_child chs r) k = reading_of r k"
  by (induction chs arbitrary: r) auto

lemma reading_of_update [simp]: "reading_of (r\<lparr>rc_cached := c\<rparr>) k = reading_of r k"
  by (simp add: reading_of_def)

lemma typed_new_child: "typed r \<Longrightarrow> typed (new_child ch r)"
  by (auto simp: typed_def new_child_def children_def split: if_splits)

lemma typed_change:
  assumes "typed r" "\<And>x. (ch, x) \<in> set (rc_registry r) \<Longrightarrow> (\<exists>xs. f x = Observed xs) \<longleftrightarrow> (\<exists>xs. x = Observed xs)"
  shows "typed (change_child ch f r)"
proof -
  have "fst k \<in> set HISTOGRAMS \<longleftrightarrow> (\<exists>xs. x = Observed xs)" if kx: "(k, x) \<in> set (rc_registry (change_child ch f r))" for k x
  proof -
    obtain y where y: "(k, y) \<in> set (rc_registry r)" "x = (if k = ch then f y else y)"
      using kx by (auto simp: change_child_def split: if_splits)
    then have "fst k \<in> set HISTOGRAMS \<longleftrightarrow> (\<exists>xs. y = Observed xs)" using assms(1) by (auto simp: typed_def)
    then show ?thesis using y assms(2) by (cases "k = ch") auto
  qed
  moreover have "rc_healthy (change_child ch f r) = rc_healthy r" "rc_warning_emitted (change_child ch f r) = rc_warning_emitted r"
    by (simp_all add: change_child_def)
  ultimately show ?thesis using assms(1) by (auto simp: typed_def)
qed

lemma typed_effect: "typed r \<Longrightarrow> (\<forall>ch x. c = SetTo ch x \<longrightarrow> fst ch \<notin> set HISTOGRAMS) \<Longrightarrow> typed (effect c r)"
proof (cases c)
  case (Cached chs)
  assume r: "typed r"
  have "typed (fold new_child chs r)" for chs using r by (induction chs arbitrary: r) (auto simp: typed_new_child)
  then show ?thesis
    using r grows_fold_new [of chs UNIV r] Cached by (auto simp: typed_def children_def grows_def)
next
  case (SetTo ch x)
  assume r: "typed r" "\<forall>ch x. c = SetTo ch x \<longrightarrow> fst ch \<notin> set HISTOGRAMS"
  have "typed (change_child ch (\<lambda>_. Number x) r)" by (rule typed_change) (use r SetTo in \<open>auto simp: typed_def\<close>)
  then show ?thesis using SetTo by simp
qed (auto intro!: typed_new_child typed_change simp: add_number_def add_value_def split: reading.splits)

definition delta :: "child \<Rightarrow> client_call \<Rightarrow> rat" where
  "delta ch c = (case c of Inc x \<Rightarrow> if x = ch then 1 else 0 | Dec x \<Rightarrow> if x = ch then - 1 else 0 | _ \<Rightarrow> 0)"

lemma typed_reading:
  "typed r \<Longrightarrow> ch \<in> set (children r) \<Longrightarrow> fst ch \<notin> set HISTOGRAMS \<Longrightarrow> \<exists>y. map_of (rc_registry r) ch = Some (Number y)"
proof -
  assume r: "typed r" "ch \<in> set (children r)" "fst ch \<notin> set HISTOGRAMS"
  then obtain x where x: "map_of (rc_registry r) ch = Some x" by (auto simp: children_def dest: weak_map_of_SomeI)
  then have "(ch, x) \<in> set (rc_registry r)" by (rule map_of_SomeD)
  then show ?thesis using r x by (cases x) (auto simp: typed_def)
qed

text \<open>A list of calls that asks for a child before it changes it.\<close>

fun labelled :: "child set \<Rightarrow> client_call list \<Rightarrow> bool" where
  "labelled A [] = True"
| "labelled A (c # cs) =
     ((case c of Inc ch \<Rightarrow> ch \<in> A | Dec ch \<Rightarrow> ch \<in> A | SetTo ch x \<Rightarrow> fst ch \<notin> set (HISTOGRAMS @ COUNTERS) | _ \<Rightarrow> True) \<and>
      labelled (A \<union> set (call_children c)) cs)"

lemma reading_of_effect:
  assumes "typed r" "fst ch \<in> set COUNTERS" "case c of Inc x \<Rightarrow> x \<in> set (children r) | Dec x \<Rightarrow> x \<in> set (children r) | SetTo x y \<Rightarrow> fst x \<notin> set COUNTERS | _ \<Rightarrow> True"
  shows "reading_of (effect c r) ch = reading_of r ch + delta ch c"
proof -
  have "fst ch \<notin> set HISTOGRAMS" using assms(2) by (auto simp: COUNTERS_def HISTOGRAMS_def)
  then have num: "ch \<in> set (children r) \<Longrightarrow> \<exists>y. map_of (rc_registry r) ch = Some (Number y)" using assms(1) typed_reading by blast
  have keep: "reading_of (change_child x f r) ch = reading_of r ch" if "x = ch \<Longrightarrow> f = add_value d" for x f d
    using that unfolding reading_of_change by (cases "x = ch") (auto simp: reading_of_def add_value_def split: option.split reading.split)
  have plus: "reading_of (change_child x (add_number d) r) ch = reading_of r ch + (if x = ch then d else 0)" if "x \<in> set (children r)" for x d
    using that num unfolding reading_of_change by (cases "x = ch") (auto simp: reading_of_def add_number_def)
  show ?thesis
  proof (cases c)
    case (SetTo x y)
    then have "x \<noteq> ch" using assms(2,3) by auto
    then show ?thesis using SetTo keep [of x "\<lambda>_. Number y"] by (simp add: delta_def)
  qed (use assms(3) plus keep in \<open>auto simp: delta_def\<close>)
qed

lemma children_effect: "set (children r) \<union> set (call_children c) \<subseteq> set (children (effect c r)) \<or> (\<exists>chs. c = Cached chs \<and> set chs \<subseteq> set (rc_cached r))"
  using grows_fold_new [of _ UNIV r] by (cases c) (auto simp: new_child_children grows_def)

lemma run_calls_effects:
  assumes "typed r" "labelled A cs" "A \<subseteq> set (children r)" "fst ch \<in> set COUNTERS"
  shows "\<exists>r'. run_calls (\<lambda>c. False) cs r = (True, r') \<and> typed r' \<and> reading_of r' ch = reading_of r ch + sum_list (map (delta ch) cs)"
  using assms
proof (induction cs arbitrary: r A)
  case (Cons c cs)
  have run: "run_call (\<lambda>c. False) c r = (True, effect c r)" by (cases c) (auto simp: list_ex_iff)
  have typed: "typed (effect c r)" by (rule typed_effect) (use Cons.prems in \<open>auto split: client_call.splits\<close>)
  have "reading_of (effect c r) ch = reading_of r ch + delta ch c"
    by (rule reading_of_effect) (use Cons.prems in \<open>auto split: client_call.splits\<close>)
  moreover have "A \<union> set (call_children c) \<subseteq> set (children (effect c r))"
  proof (cases "\<exists>chs. c = Cached chs \<and> set chs \<subseteq> set (rc_cached r)")
    case True
    then obtain chs where "c = Cached chs" "set chs \<subseteq> set (rc_cached r)" by blast
    moreover have "set (rc_cached r) \<subseteq> set (children r)" using Cons.prems(1) by (simp add: typed_def)
    ultimately show ?thesis using Cons.prems(3) by auto
  next
    case False
    then show ?thesis using children_effect [of r c] Cons.prems(3) by blast
  qed
  ultimately show ?case
    using Cons.IH [OF typed _ _ Cons.prems(4), of "A \<union> set (call_children c)"] Cons.prems(2) run by auto
qed auto

lemma safe_counts:
  assumes "typed r" "labelled {} callback" "fst ch \<in> set COUNTERS"
  shows "typed (safe (\<lambda>c. False) operation callback r) \<and>
    reading_of (safe (\<lambda>c. False) operation callback r) ch = reading_of r ch + sum_list (map (delta ch) callback)"
proof -
  obtain r' where r': "run_calls (\<lambda>c. False) callback r = (True, r')" "typed r'" "reading_of r' ch = reading_of r ch + sum_list (map (delta ch) callback)"
    using run_calls_effects [OF assms(1,2) _ assms(3)] by auto
  then have "safe (\<lambda>c. False) operation callback r = r'" by (simp add: safe_def mark_success_def typed_def)
  then show ?thesis using r' by simp
qed

lemma counter_families [simp]:
  "fst ch \<in> set COUNTERS \<Longrightarrow> fst ch \<noteq> ''oc_job_last_success_timestamp_seconds''" "''oc_job_last_success_timestamp_seconds'' \<notin> set HISTOGRAMS"
  "''oc_job_last_success_timestamp_seconds'' \<notin> set COUNTERS"
  by (auto simp: COUNTERS_def HISTOGRAMS_def)

lemma perform_counts:
  assumes "typed r" "fst ch \<in> set COUNTERS"
  shows "typed (perform (\<lambda>c. False) obs r) \<and> reading_of (perform (\<lambda>c. False) obs r) ch = reading_of r ch + counted ch obs"
proof (cases obs)
  case (ObserveHttp path verb status d)
  then show ?thesis
    using assms by (cases "normalize_http_route path") (auto simp: observe_http_def Let_def safe_counts delta_def)
qed (use assms in \<open>auto simp: observation_defs Let_def safe_counts delta_def split: option.split\<close>)

lemma perform_all_counts:
  "typed r \<Longrightarrow> fst ch \<in> set COUNTERS \<Longrightarrow>
   typed (fold (perform (\<lambda>c. False)) os r) \<and> reading_of (fold (perform (\<lambda>c. False)) os r) ch = reading_of r ch + sum_list (map (counted ch) os)"
proof (induction os arbitrary: r)
  case (Cons obs os)
  then show ?case using perform_counts [OF Cons.prems, of obs] by simp
qed simp

lemma typed_new_recorder: "typed (new_recorder v b)"
  by (auto simp: typed_def new_recorder_def HEALTHY_GAUGE_def HISTOGRAMS_def children_def)

lemma reading_of_new_recorder: "fst ch \<in> set COUNTERS \<Longrightarrow> reading_of (new_recorder v b) ch = 0"
  by (auto simp: reading_of_def new_recorder_def HEALTHY_GAUGE_def COUNTERS_def)

lemma counted_rest:
  "counted (inflight_child ''rest'') x = (if x = InflightInc ''rest'' then 1 else if x = InflightDec ''rest'' then - 1 else 0)"
proof -
  have rest: "inflight_child ''rest'' = inflight_child s \<longleftrightarrow> s = ''rest''" for s
    by (simp add: inflight_child_def bounded_def SURFACES_def UNKNOWN_LABEL_def)
  have "fst (inflight_child ''rest'') = ''oc_requests_inflight''" by (simp add: inflight_child_def)
  then have other: "inflight_child ''rest'' = (f, ls) \<longleftrightarrow> False" if "f \<noteq> ''oc_requests_inflight''" for f ls
    using that by auto
  show ?thesis by (cases x) (simp_all add: rest other split: option.split)
qed

end
