(* ===== verification/OC_Metrics_Theorems.thy ===== *)
theory OC_Metrics_Theorems
  imports OC_Metrics_Counts
begin

text \<open>
  What the metrics guarantee: the number of time series is bounded whatever requests ask for, counts are
  exact while the client does not fail, and a scrape returns the text that is formatted without a cache.
\<close>


section \<open>Scrapes\<close>

definition scrape_text :: "(string \<Rightarrow> 'v metric list \<Rightarrow> exc + string) \<Rightarrow> ('v \<Rightarrow> exc + string) \<Rightarrow> 'v metric list \<Rightarrow> exc + string" where
  "scrape_text generate_latest go_text ms =
     (case plain_families (\<lambda>m. generate_latest ''underscores'' [m]) go_text ms of
        Inl _ \<Rightarrow> Inl (OtherError ''MetricsScrapeError'')
      | Inr t \<Rightarrow> Inr (encode_utf8 t))"

lemma render_owned_exact:
  assumes "cache_ok n b ex" "render_owned generate_latest go_text ms ex = (result, ex')"
  shows "result = scrape_text generate_latest go_text ms \<and> cache_ok n b ex'"
proof -
  obtain q ex'' where e: "export_families (\<lambda>m. generate_latest ''underscores'' [m]) go_text ms ex = (q, ex'')"
    by (cases "export_families (\<lambda>m. generate_latest ''underscores'' [m]) go_text ms ex")
  then have "plain_families (\<lambda>m. generate_latest ''underscores'' [m]) go_text ms = q" "cache_ok n b ex''"
    using export_families_exact [OF assms(1), of "\<lambda>m. generate_latest ''underscores'' [m]" go_text ms] by auto
  then show ?thesis
    using assms(2) e by (cases q) (auto simp: render_owned_def exposition_def scrape_text_def)
qed

lemma scrape_run_exact:
  assumes "scrape_run generate_latest go_text first_scrape_state es s"
  shows "sc_workers s = (if sc_slot s then 1 else 0) \<and> cache_ok 4096 1048576 (sc_exporter s) \<and>
    (\<forall>ms result. ScrapeFinished ms result \<in> set es \<longrightarrow> result = scrape_text generate_latest go_text ms)"
  using assms
proof (induction "first_scrape_state" es s rule: scrape_run.induct)
  case none
  show ?case by (simp add: first_scrape_state_def first_exporter_def cache_ok_def)
next
  case (more es t e u)
  from more.hyps(3) show ?case
  proof cases
    case (finish ms result ex)
    then show ?thesis using more.hyps(2) render_owned_exact [of 4096 1048576 "sc_exporter t" generate_latest go_text ms result ex] by auto
  qed (use more.hyps(2) in auto)
qed

text \<open>
  C40. Scrapes are exact and exclusive. In every interleaving of requests, refusals, cancellations and
  workers, at most one worker formats at a time and the slot is held exactly while it does; whatever the
  cache holds from earlier scrapes, a scrape returns the text that is formatted from the collected families
  without a cache, or the scrape error where that fails; the cache stays within its limits. The prefix of a
  line has no line break and determines the name and the labels of its sample.
\<close>

theorem scrapes_exact:
  assumes "scrape_run generate_latest go_text first_scrape_state es s"
  shows "sc_workers s = (if sc_slot s then 1 else 0) \<and>
    (\<forall>ms result. ScrapeFinished ms result \<in> set es \<longrightarrow> result = scrape_text generate_latest go_text ms) \<and>
    length (ex_prefixes (sc_exporter s)) \<le> 4096 \<and>
    sum_list (map (\<lambda>(k, p). entry_size k p) (ex_prefixes (sc_exporter s))) \<le> 1048576 \<and>
    (\<forall>(k, p) \<in> set (ex_prefixes (sc_exporter s)). make_prefix k = Some p \<and> NEWLINE \<notin> set p \<and>
       (\<forall>k' p' r r'. make_prefix k' = Some p' \<and> p @ r = p' @ r' \<longrightarrow> k = k' \<and> r = r'))"
proof -
  note run = scrape_run_exact [OF assms]
  then have ok: "cache_ok 4096 1048576 (sc_exporter s)" by blast
  have "make_prefix k = Some p \<and> NEWLINE \<notin> set p \<and> (\<forall>k' p' r r'. make_prefix k' = Some p' \<and> p @ r = p' @ r' \<longrightarrow> k = k' \<and> r = r')"
    if "(k, p) \<in> set (ex_prefixes (sc_exporter s))" for k p
    using that ok make_prefix_one_line [of k p] make_prefix_inj [of k p] by (fastforce simp: cache_ok_def)
  then show ?thesis using run ok by (auto simp: cache_ok_def)
qed

definition sample_gauge :: "unit metric" where
  "sample_gauge = \<lparr>mt_name = ''up'', mt_plain = True, mt_type = ''gauge'', mt_documentation = ''Up'',
     mt_samples = [\<lparr>sm_name = ''up'', sm_labels = [(''l'', ''v'')], sm_plain = True, sm_value = (), sm_timestamp = None\<rparr>]\<rparr>"

text \<open>Two scrapes, of which the second finds the prefix in the cache.\<close>

theorem scrapes_exact_witness:
  "\<exists>s r. scrape_run (\<lambda>e ms. Inr []) (\<lambda>v. Inr ''1'') first_scrape_state
       [Admitted, ScrapeFinished [sample_gauge] r, Admitted, Busy, ScrapeFinished [sample_gauge] r] s \<and>
     sc_workers s = 0 \<and> r = scrape_text (\<lambda>e ms. Inr []) (\<lambda>v. Inr ''1'') [sample_gauge]"
proof -
  let ?gl = "\<lambda>e ms. Inr [] :: exc + string" and ?go = "\<lambda>v. Inr ''1'' :: exc + string"
  define s1 where "s1 = first_scrape_state\<lparr>sc_slot := True, sc_workers := 1\<rparr>"
  obtain r ex where f: "render_owned ?gl ?go [sample_gauge] (sc_exporter s1) = (r, ex)" by (cases "render_owned ?gl ?go [sample_gauge] (sc_exporter s1)")
  define s2 where "s2 = s1\<lparr>sc_slot := False, sc_workers := 0, sc_exporter := ex\<rparr>"
  define s3 where "s3 = s2\<lparr>sc_slot := True, sc_workers := 1\<rparr>"
  obtain r' ex' where f': "render_owned ?gl ?go [sample_gauge] (sc_exporter s3) = (r', ex')" by (cases "render_owned ?gl ?go [sample_gauge] (sc_exporter s3)")
  define s4 where "s4 = s3\<lparr>sc_slot := False, sc_workers := 0, sc_exporter := ex'\<rparr>"
  have s1: "scrape_step ?gl ?go first_scrape_state Admitted s1"
    using scrape_step.admit [of first_scrape_state ?gl ?go] by (simp add: s1_def first_scrape_state_def)
  have s2: "scrape_step ?gl ?go s1 (ScrapeFinished [sample_gauge] r) s2"
    using scrape_step.finish [OF _ f] by (simp add: s1_def s2_def)
  have s3: "scrape_step ?gl ?go s2 Admitted s3" using scrape_step.admit [of s2 ?gl ?go] by (simp add: s2_def s3_def)
  have busy: "scrape_step ?gl ?go s3 Busy s3" by (rule scrape_step.busy) (simp add: s3_def)
  have s4: "scrape_step ?gl ?go s3 (ScrapeFinished [sample_gauge] r') s4"
    using scrape_step.finish [OF _ f'] by (simp add: s3_def s4_def)
  note run = scrape_run.more [OF scrape_run.more [OF scrape_run.more [OF scrape_run.more [OF scrape_run.more
      [OF scrape_run.none s1] s2] s3] busy] s4]
  note exact = scrapes_exact [OF run]
  have "r = scrape_text ?gl ?go [sample_gauge]" "r' = scrape_text ?gl ?go [sample_gauge]" using exact by auto
  moreover have "sc_workers s4 = 0" by (simp add: s4_def)
  ultimately show ?thesis using run by auto
qed

section \<open>Counts\<close>

text \<open>
  While no call into the client fails, every counter is exact: it holds the number of observations
  that map to its labels, and the gauge of running requests the number of those that began less those
  that ended; the recorder stays healthy. In particular, after any interleaving of measured HTTP exchanges
  with other observations, the gauge is the number of exchanges that are open.
\<close>

lemma metrics_counts_exact:
  fixes version revision os
  defines "r \<equiv> fold (perform (\<lambda>c. False)) os (new_recorder version revision)"
  shows "(\<forall>ch. fst ch \<in> set COUNTERS \<longrightarrow> reading_of r ch = sum_list (map (counted ch) os)) \<and>
    reading_of r (inflight_child ''rest'') = of_nat (length (filter (\<lambda>x. x = InflightInc ''rest'') os)) - of_nat (length (filter (\<lambda>x. x = InflightDec ''rest'') os)) \<and>
    rc_healthy r \<and> \<not> rc_warning_emitted r"
proof -
  have typed: "typed r" using perform_all_counts [OF typed_new_recorder, of "inflight_child ''rest''" os version revision]
    by (simp add: r_def inflight_child_def COUNTERS_def)
  have counts: "reading_of r ch = sum_list (map (counted ch) os)" if "fst ch \<in> set COUNTERS" for ch
    using perform_all_counts [OF typed_new_recorder that, of os version revision] reading_of_new_recorder [OF that] by (simp add: r_def)
  have "sum_list (map (counted (inflight_child ''rest'')) os) =
      of_nat (length (filter (\<lambda>x. x = InflightInc ''rest'') os)) - of_nat (length (filter (\<lambda>x. x = InflightDec ''rest'') os))"
    by (induction os) (auto simp: counted_rest)
  then show ?thesis using typed counts by (auto simp: typed_def inflight_child_def COUNTERS_def)
qed

text \<open>Two exchanges, of which one has ended, with a job that ran meanwhile.\<close>

lemma metrics_counts_exact_witness:
  "reading_of (fold (perform (\<lambda>c. False))
     (exchange_begins ''http'' @ exchange_begins ''http'' @ [ObserveJob ''db_backup'' ''success'' None] @ exchange_ends ''http'' ''/x'' ''GET'' [Some 200] 1)
     (new_recorder ''1'' ''a'')) (inflight_child ''rest'') = 1"
  using metrics_counts_exact [of "exchange_begins ''http'' @ exchange_begins ''http'' @ [ObserveJob ''db_backup'' ''success'' None] @
      exchange_ends ''http'' ''/x'' ''GET'' [Some 200] 1" "''1''" "''a''", THEN conjunct2, THEN conjunct1]
  by (simp add: exchange_begins_def exchange_ends_def)

end
