(* ===== verification/OC_Operator.thy ===== *)
theory OC_Operator
  imports OC_Onboard_Theorems OC_Maintenance_Theorems OC_Backup OC_Backup_Jobs
begin

text \<open>
  The tools for operators: onboarding of a repository (\<open>interfaces/mcp/tools/onboard.py\<close>), the backup tools
  (\<open>interfaces/mcp/tools/backup.py\<close>), and what health reads from the file that the maintenance loop persists
  (\<open>application/use_cases/diagnose_runtime.py\<close>).
\<close>

section \<open>Onboarding\<close>

record onboard_args =
  og_project_id :: string
  og_repo_url :: string
  og_max_commits :: int
  og_max_clusters :: int
  og_force :: bool
  og_max_commits_per_cluster :: int
  og_include_commit_detail :: bool
  og_branch :: "string option"

text \<open>The answers, without the fixed instructions.\<close>

datatype onboard_reply =
    AlreadyOnboarded nat
  | UpToDate "string option" string string
  | NoCommits string string string
  | Onboarded string nat nat "cluster_summary list" bool string string bool

fun summaries :: "(datetime \<Rightarrow> string) \<Rightarrow> int \<Rightarrow> bool \<Rightarrow> commit_cluster list \<Rightarrow> exc + cluster_summary list" where
  "summaries day n detail [] = Inr []"
| "summaries day n detail (c # cs) =
     (case cluster_to_summary day c n detail of
        Inl e \<Rightarrow> Inl e
      | Inr x \<Rightarrow> map_sum id (\<lambda>xs. x # xs) (summaries day n detail cs))"

definition onboard_git_sync ::
  "(string \<Rightarrow> string) \<Rightarrow> git_program \<Rightarrow> env \<Rightarrow> iso8601 \<Rightarrow> string \<Rightarrow> (datetime \<Rightarrow> string) \<Rightarrow> char \<Rightarrow> string \<Rightarrow> datetime \<Rightarrow>
   onboard_args \<Rightarrow> store \<Rightarrow> onboard_reply store_result" where
  "onboard_git_sync redact_url git environ dt tmpdir day dash new_id now a s =
     (case get_project (og_project_id a) s of
        None \<Rightarrow> (Inl (NotFoundError PROJECT_NOT_FOUND (og_project_id a)), s)
      | Some _ \<Rightarrow>
          (case onboard_git_prepare dash new_id now
                  (\<lambda>since_commit. extract_commits_from_url redact_url git environ dt now tmpdir (og_repo_url a) (og_max_commits a) since_commit (og_branch a))
                  (og_project_id a) (og_max_clusters a) (og_force a) s of
             (Inl e, s) \<Rightarrow> (Inl e, s)
           | (Inr p, s) \<Rightarrow>
               (let history = op_history p
                in if op_status p = ''exists'' then (Inr (AlreadyOnboarded (op_existing_count p)), s)
                   else if op_status p = ''up_to_date'' then (Inr (UpToDate (op_watermark_before p) (eh_branch history) (eh_head history)), s)
                   else if op_status p = ''empty'' then (Inr (NoCommits (og_project_id a) (eh_branch history) (eh_head history)), s)
                   else (case summaries day (og_max_commits_per_cluster a) (og_include_commit_detail a) (op_clusters p) of
                           Inl e \<Rightarrow> (Inl e, s)
                         | Inr cs \<Rightarrow>
                             (Inr (Onboarded (og_project_id a) (length (eh_commits history)) (length (op_filtered p)) cs (incremental p)
                                (eh_branch history) (eh_head history) (eh_watermark_unreachable history)), s)))))"

definition onboard_git ::
  "(string \<Rightarrow> string) \<Rightarrow> git_program \<Rightarrow> env \<Rightarrow> iso8601 \<Rightarrow> string \<Rightarrow> (datetime \<Rightarrow> string) \<Rightarrow> char \<Rightarrow> string \<Rightarrow> datetime \<Rightarrow>
   onboard_args \<Rightarrow> store \<Rightarrow> onboard_reply store_result" where
  "onboard_git redact_url git environ dt tmpdir day dash new_id now a s =
     (let a = a\<lparr>og_max_commits_per_cluster := min (max (og_max_commits_per_cluster a) 1) 100, og_max_clusters := max 1 (og_max_clusters a)\<rparr>
      in case validate_server_repo_url (og_repo_url a) of
           Inl e \<Rightarrow> (Inl e, s)
         | Inr _ \<Rightarrow> onboard_git_sync redact_url git environ dt tmpdir day dash new_id now a s)"

section \<open>Backups\<close>

definition db_backup_create :: "backup_env \<Rightarrow> (string \<times> json) list steps" where
  "db_backup_create e = create_backup e ManualKind"

definition db_backup_list :: "(json \<Rightarrow> string) \<Rightarrow> int \<Rightarrow> backup_root \<Rightarrow> string + (string \<times> json) list list" where
  "db_backup_list repr limit = list_backups repr limit"

definition db_backup_verify :: "backup_env \<Rightarrow> string \<Rightarrow> backup_root \<Rightarrow> string + (string \<times> json) list" where
  "db_backup_verify e aid = verify_backup e aid"

definition db_restore_plan :: "backup_env \<Rightarrow> string \<Rightarrow> identity \<Rightarrow> backup_root \<Rightarrow> string + (string \<times> json) list \<times> comparison" where
  "db_restore_plan e aid current = restore_plan e aid current"

text \<open>\<open>temp\<close>: the random name of the staged file.\<close>

definition db_restore_stage :: "backup_env \<Rightarrow> string \<Rightarrow> string \<Rightarrow> identity \<Rightarrow> (string \<times> string) steps" where
  "db_restore_stage e temp aid current = restore_stage e temp aid current"

section \<open>Health\<close>

definition read_state :: "state_file \<Rightarrow> (string \<times> json) list option" where
  "read_state f = (case f of Holds (JObj raw) \<Rightarrow> Some raw | _ \<Rightarrow> None)"

text \<open>\<open>raw.get(key, {}).get(job)\<close>: \<^const>\<open>None\<close> where the member is no object and \<open>get\<close> raises.\<close>

definition state_member :: "(string \<times> json) list \<Rightarrow> string \<Rightarrow> string \<Rightarrow> json option" where
  "state_member raw key job =
     (case map_of raw key of None \<Rightarrow> Some JNull | Some (JObj entries) \<Rightarrow> Some (json_get entries job) | Some _ \<Rightarrow> None)"

definition last_run_failed :: "iso8601 \<Rightarrow> state_file \<Rightarrow> string \<Rightarrow> bool" where
  "last_run_failed dt f job =
     (let raw = (case read_state f of None \<Rightarrow> [] | Some raw \<Rightarrow> raw)
      in case (state_member raw ''last_run_at'' job, state_member raw ''last_success_at'' job) of
           (Some r, Some s) \<Rightarrow>
             (case parse_state_timestamp dt r of
                None \<Rightarrow> False
              | Some run \<Rightarrow>
                  (case parse_state_timestamp dt s of None \<Rightarrow> True | Some success \<Rightarrow> instant success < instant run))
         | _ \<Rightarrow> False)"

definition integrity_failure_persisted :: "iso8601 \<Rightarrow> state_file \<Rightarrow> bool" where
  "integrity_failure_persisted dt f = last_run_failed dt f ''db_integrity_check''"

definition backup_failure_persisted :: "iso8601 \<Rightarrow> state_file \<Rightarrow> bool" where
  "backup_failure_persisted dt f = last_run_failed dt f ''db_backup''"

definition CLOUD_STALE_AFTER :: int where
  "CLOUD_STALE_AFTER = 48 * 3600 * 1000000"

record cloud_status =
  cl_status :: string
  cl_last_success_at :: "datetime option"
  cl_age :: "int option"

text \<open>\<open>x or {}\<close> of the member, then \<open>get\<close>, which raises on what is neither falsy nor an object. The age is not rounded to hours.\<close>

definition cloud_backup_status :: "iso8601 \<Rightarrow> cloud_config \<Rightarrow> datetime \<Rightarrow> state_file \<Rightarrow> cloud_status" where
  "cloud_backup_status dt cfg now f =
     (if \<not> cc_enabled cfg then \<lparr>cl_status = ''disabled'', cl_last_success_at = None, cl_age = None\<rparr>
      else (let raw = (case read_state f of None \<Rightarrow> [] | Some raw \<Rightarrow> raw);
                last = (case json_get raw ''last_success_at'' of JObj entries \<Rightarrow> parse_state_timestamp dt (json_get entries ''cloud_backup'') | _ \<Rightarrow> None);
                age = map_option (\<lambda>t. instant now - instant t) last
            in \<lparr>cl_status =
                  (if cc_problem cfg \<noteq> None then ''misconfigured''
                   else case age of None \<Rightarrow> ''stale'' | Some d \<Rightarrow> if CLOUD_STALE_AFTER < d then ''stale'' else ''ok''),
                cl_last_success_at = last, cl_age = age\<rparr>))"

definition maintenance_degraded :: "bool \<Rightarrow> iso8601 \<Rightarrow> state_file \<Rightarrow> bool" where
  "maintenance_degraded flag dt f = (flag \<or> integrity_failure_persisted dt f)"

section \<open>Properties\<close>

text \<open>A URL that the policy refuses costs no git command, and the store is left alone.\<close>

lemma onboard_git_refused:
  assumes "validate_server_repo_url (og_repo_url a) = Inl e"
  shows "onboard_git redact_url git environ dt tmpdir day dash new_id now a s = (Inl e, s)"
  using assms by (simp add: onboard_git_def Let_def)

lemma onboard_git_wf:
  assumes "wf_store s" "onboard_git redact_url git environ dt tmpdir day dash new_id now a s = (r, s')"
  shows "wf_store s'"
  using assms onboard_keeps [OF assms(1)]
  by (auto simp: onboard_git_def onboard_git_sync_def Let_def split: sum.splits option.splits prod.splits if_splits)

text \<open>What health reads is what the jobs that were persisted say.\<close>

lemma state_member_payload:
  assumes "distinct (map js_name jobs)" "j \<in> set jobs" "state_payload dt jobs = JObj raw"
  shows "state_member raw ''last_run_at'' (js_name j) = Some (case js_last_run_at j of None \<Rightarrow> JNull | Some t \<Rightarrow> JStr (iso_format dt t))"
    "state_member raw ''last_success_at'' (js_name j) = Some (case js_last_success_at j of None \<Rightarrow> JNull | Some t \<Rightarrow> JStr (iso_format dt t))"
  using assms(3) by (auto simp: state_payload_def state_member_def json_get_def map_of_stamps [OF assms(1,2)] split: option.split)

lemma last_run_failed_exact:
  assumes "iso_ok dt" "distinct (map js_name jobs)" "j \<in> set jobs"
    "\<forall>t. js_last_run_at j = Some t \<or> js_last_success_at j = Some t \<longrightarrow> is_utc t"
  shows "last_run_failed dt (Holds (state_payload dt jobs)) (js_name j) \<longleftrightarrow>
    (\<exists>t. js_last_run_at j = Some t \<and> (\<forall>t'. js_last_success_at j = Some t' \<longrightarrow> instant t' < instant t))"
proof -
  obtain raw where raw: "state_payload dt jobs = JObj raw" by (simp add: state_payload_def)
  note members = state_member_payload [OF assms(2,3) raw]
  have "parse_state_timestamp dt JNull = None" by (simp add: parse_state_timestamp_def)
  then show ?thesis
    using members assms(4) parse_state_timestamp_format [OF assms(1)]
    by (cases "js_last_run_at j"; cases "js_last_success_at j") (auto simp: last_run_failed_def read_state_def raw)
qed

text \<open>
  Health after a restart: once the end of a run is persisted, the run reads as failed exactly when
  its handler did not succeed, provided that an earlier success is older.
\<close>

lemma health_after_run:
  assumes "iso_ok dt" "distinct (map js_name jobs)" "j \<in> set jobs" "is_utc now"
    "\<forall>t. js_last_success_at j = Some t \<longrightarrow> is_utc t \<and> instant t < instant now"
  shows "last_run_failed dt (Holds (state_payload dt (map (\<lambda>k. if k = j then record_end now r k else k) jobs))) (js_name j) \<longleftrightarrow> \<not> succeeded r"
proof -
  let ?jobs = "map (\<lambda>k. if k = j then record_end now r k else k) jobs"
  have name: "js_name (record_end now r j) = js_name j" by (simp add: record_end_def Let_def split: handler_end.split)
  have "map js_name ?jobs = map js_name jobs" using name by (auto simp: comp_def)
  then have d: "distinct (map js_name ?jobs)" using assms(2) by (simp only:)
  have mem: "record_end now r j \<in> set ?jobs" using assms(3) by auto
  have "js_last_run_at (record_end now r j) = Some now"
    "js_last_success_at (record_end now r j) = (if succeeded r then Some now else js_last_success_at j)"
    by (simp_all add: record_end_def Let_def split: handler_end.split)
  then show ?thesis using last_run_failed_exact [OF assms(1) d mem] assms(4,5) name by auto
qed

end
