(* ===== verification/OC_Runtime.thy ===== *)
theory OC_Runtime
  imports OC_Settings
begin

text \<open>
  The start of the process: the configuration file (\<open>infrastructure/config/config_loader.py\<close>), the
  construction of the container (\<open>CoreContainer.__init__\<close> of \<open>infrastructure/wiring/container.py\<close>), and the
  lines that the log formatters write (\<open>interfaces/logging_setup.py\<close>).
\<close>

section \<open>The configuration file\<close>

text \<open>A file that is missing, that cannot be read as UTF-8, or its text; \<open>loads\<close>: \<open>json.loads\<close>, \<^const>\<open>None\<close> where it raises.\<close>

datatype config_file = NoConfig | UnreadableConfig | ConfigText string

definition load_json_config :: "(string \<Rightarrow> json option) \<Rightarrow> config_file \<Rightarrow> exc + (string \<times> json) list" where
  "load_json_config loads f =
     (case f of
        NoConfig \<Rightarrow> Inr []
      | UnreadableConfig \<Rightarrow> Inl (OtherError ''ConfigLoadError'')
      | ConfigText t \<Rightarrow>
          if py_strip t = [] then Inr []
          else (case loads t of Some (JObj data) \<Rightarrow> Inr data | _ \<Rightarrow> Inl (OtherError ''ConfigLoadError'')))"

text \<open>
  \<open>(file_config or {}).get(...)\<close>: a member that is neither falsy nor an object has no \<open>get\<close>.
\<close>

definition config_section :: "json \<Rightarrow> exc + (string \<times> json) list" where
  "config_section j =
     (case j of JObj fc \<Rightarrow> Inr fc | _ \<Rightarrow> if json_truthy j then Inl (OtherError ''AttributeError'') else Inr [])"

section \<open>The backup directory\<close>

text \<open>What \<open>lstat\<close> says of the path, and for a directory whether a file can be made in it.\<close>

datatype lstat_result = StatNotFound | StatDenied | StatError | StatSymlink | StatDirectory bool | StatOther

definition backup_dir_problem :: "bool \<Rightarrow> lstat_result \<Rightarrow> string option" where
  "backup_dir_problem is_absolute st =
     (if \<not> is_absolute then Some ''must be an absolute path''
      else case st of
        StatNotFound \<Rightarrow> Some ''must be an existing directory; it does not exist''
      | StatDenied \<Rightarrow> Some ''cannot be checked; check the permissions on its parent directories''
      | StatError \<Rightarrow> Some ''cannot be checked''
      | StatSymlink \<Rightarrow> Some ''must be an existing directory, not a symlink''
      | StatOther \<Rightarrow> Some ''must be an existing directory; it is not a directory''
      | StatDirectory writable \<Rightarrow> if writable then None else Some ''is not writable'')"

section \<open>The container\<close>

datatype storage_handle = NotOpened | Opened | Closed

record core_container =
  co_paths :: runtime_paths
  co_backup_dir :: "string option"
  co_backup_dir_problem :: "string option"
  co_settings :: embedding_settings
  co_port :: "adapter option"

text \<open>
  \<open>env\<close>: the environment; \<open>absolute\<close> and \<open>lstat\<close>: what the file system says of the backup directory;
  \<open>mkdir_db\<close>, \<open>mkdir_output\<close>: exceptions of creating the directories; \<open>config_exists\<close>, \<open>core_json\<close>: the
  configuration directory and its file; \<open>opens\<close>: an exception of opening the store, of its migrations or of
  the backup catalog, with whether the store was open by then.
\<close>

record start_env =
  st_env :: "string \<Rightarrow> string option"
  st_absolute :: "string \<Rightarrow> bool"
  st_lstat :: "string \<Rightarrow> lstat_result"
  st_mkdir_db :: "exc option"
  st_config_exists :: bool
  st_mkdir_output :: "exc option"
  st_core_json :: config_file
  st_loads :: "string \<Rightarrow> json option"
  st_repr :: "json \<Rightarrow> string"
  st_opens :: "(exc \<times> storage_handle) option"
  st_sdk :: "(string option \<Rightarrow> string \<Rightarrow> exc option) option"
  st_hostname :: "string \<Rightarrow> exc + string option"
  st_ip_address :: "string \<Rightarrow> bool option"

definition start_embedding :: "start_env \<Rightarrow> (string \<times> json) list \<Rightarrow> exc + embedding_settings \<times> adapter option" where
  "start_embedding e file_configs =
     (case config_section (json_get file_configs ''embedding'') of
        Inl err \<Rightarrow> Inl err
      | Inr fc \<Rightarrow>
          map_sum id (\<lambda>s. (s, fst (build_embedding_port (st_sdk e) (st_hostname e) (st_ip_address e) (st_env e) s)))
            (load_embedding_settings (st_repr e) (st_env e) fc))"

definition start_container :: "start_env \<Rightarrow> string option \<Rightarrow> string option \<Rightarrow> string option \<Rightarrow> (exc + core_container) \<times> storage_handle" where
  "start_container e db_path config_dir output_dir =
     (let paths = resolve_paths (st_env e) db_path config_dir output_dir;
          backup_dir_env = env_text (st_env e) ''OC_BACKUP_DIR'';
          explicit = (backup_dir_env \<noteq> []);
          problem = (if explicit then backup_dir_problem (st_absolute e backup_dir_env) (st_lstat e backup_dir_env) else None)
      in case st_mkdir_db e of
           Some err \<Rightarrow> (Inl err, NotOpened)
         | None \<Rightarrow>
             if \<not> st_config_exists e then (Inl (ConfigError ''Config directory not found''), NotOpened)
             else case st_mkdir_output e of
               Some err \<Rightarrow> (Inl err, NotOpened)
             | None \<Rightarrow>
                 (case load_json_config (st_loads e) (st_core_json e) of
                    Inl err \<Rightarrow> (Inl err, NotOpened)
                  | Inr file_configs \<Rightarrow>
                      (case st_opens e of
                         Some (err, h) \<Rightarrow> (Inl err, h)
                       | None \<Rightarrow>
                           (case start_embedding e file_configs of
                              Inl err \<Rightarrow> (Inl err, Closed)
                            | Inr (s, port) \<Rightarrow>
                                (Inr \<lparr>co_paths = paths, co_backup_dir = (if explicit then Some backup_dir_env else None),
                                      co_backup_dir_problem = problem, co_settings = s, co_port = port\<rparr>, Opened)))))"

section \<open>Log lines\<close>

text \<open>A log record: its rendered human line, and the parts that the JSON formatter takes.\<close>

record log_record =
  lr_line :: string
  lr_time :: string
  lr_level :: string
  lr_logger :: string
  lr_message :: string
  lr_exception :: "string option"
  lr_attributes :: "(string \<times> json) list"

definition human_line :: "log_record \<Rightarrow> string" where
  "human_line rec = redact_userinfo_in_text (lr_line rec)"

definition STANDARD_KEYS :: "string list" where
  "STANDARD_KEYS =
     [''args'', ''asctime'', ''created'', ''exc_info'', ''exc_text'', ''filename'', ''funcName'', ''levelname'', ''levelno'', ''lineno'', ''message'',
      ''module'', ''msecs'', ''msg'', ''name'', ''pathname'', ''process'', ''processName'', ''relativeCreated'', ''stack_info'', ''taskName'',
      ''thread'', ''threadName'']"

definition redact_member :: "json \<Rightarrow> json" where
  "redact_member v = (case v of JStr s \<Rightarrow> JStr (redact_userinfo_in_text s) | _ \<Rightarrow> v)"

text \<open>
  The members before they are encoded and sorted; a later member of the same name replaces an earlier
  one. An attribute that JSON cannot encode is already its \<open>repr\<close> here.
\<close>

definition json_payload :: "log_record \<Rightarrow> (string \<times> json) list" where
  "json_payload rec =
     fold (\<lambda>(k, v) d. dict_set k (redact_member v) d)
       (filter (\<lambda>(k, v). k \<notin> set STANDARD_KEYS \<and> take 1 k \<noteq> ''_'') (lr_attributes rec))
       ([(''ts'', JStr (lr_time rec)), (''level'', JStr (lr_level rec)), (''logger'', JStr (lr_logger rec)),
         (''message'', JStr (redact_userinfo_in_text (lr_message rec)))] @
        (case lr_exception rec of None \<Rightarrow> [] | Some t \<Rightarrow> [(''exc'', JStr (redact_userinfo_in_text t))]))"

section \<open>Properties\<close>

text \<open>
  A start fails for directories that cannot be made, a missing configuration directory, a file that is
  not a JSON object, a store that does not open, and an embedding section that cannot be read; an unusable
  backup directory never stops it. When it fails after the store is ready, the store is closed again.
\<close>

lemma start_container_early:
  assumes "st_mkdir_db e \<noteq> None \<or> \<not> st_config_exists e \<or> st_mkdir_output e \<noteq> None \<or> (\<exists>err. load_json_config (st_loads e) (st_core_json e) = Inl err)"
  shows "\<exists>err. start_container e db cfg out = (Inl err, NotOpened)"
  using assms by (auto simp: start_container_def Let_def split: option.split)

lemma start_container_late:
  assumes "st_mkdir_db e = None" "st_config_exists e" "st_mkdir_output e = None" "load_json_config (st_loads e) (st_core_json e) = Inr fc" "st_opens e = None"
  shows "(\<forall>err. start_embedding e fc = Inl err \<longrightarrow> start_container e db cfg out = (Inl err, Closed)) \<and>
    (\<forall>s port. start_embedding e fc = Inr (s, port) \<longrightarrow>
       (\<exists>c. start_container e db cfg out = (Inr c, Opened) \<and> co_settings c = s \<and> co_port c = port \<and> co_paths c = resolve_paths (st_env e) db cfg out))"
  using assms by (simp add: start_container_def Let_def)

lemma start_container_never_leaks:
  assumes "st_opens e = None" "start_container e db cfg out = (Inl err, h)"
  shows "h \<noteq> Opened"
proof (cases "st_mkdir_db e \<noteq> None \<or> \<not> st_config_exists e \<or> st_mkdir_output e \<noteq> None \<or> (\<exists>err. load_json_config (st_loads e) (st_core_json e) = Inl err)")
  case True
  then show ?thesis using start_container_early [of e db cfg out] assms(2) by auto
next
  case False
  then obtain fc where "load_json_config (st_loads e) (st_core_json e) = Inr fc" by (cases "load_json_config (st_loads e) (st_core_json e)") auto
  then show ?thesis
    using start_container_late [of e fc db cfg out] False assms by (cases "start_embedding e fc") auto
qed

lemma start_embedding_soft:
  assumes "json_get fc ''embedding'' \<in> {JNull, JObj kvs}"
  shows "(\<exists>x. start_embedding e fc = Inl x) \<longleftrightarrow> (\<exists>x d. config_section (json_get fc ''embedding'') = Inr d \<and> load_embedding_settings (st_repr e) (st_env e) d = Inl x)"
  using assms by (auto simp: start_embedding_def config_section_def map_sum_def split: sum.splits)

text \<open>No credentials reach a log: neither in a human line nor in a text member that a caller fills.\<close>

lemma human_line_redacted: "\<not> has_userinfo (human_line rec)"
  by (simp add: human_line_def has_userinfo_iff no_match_left)

lemma json_payload_redacted:
  assumes "(k, JStr t) \<in> set (json_payload rec)" "k \<notin> {''ts'', ''level'', ''logger''}"
  shows "\<not> has_userinfo t"
proof -
  define fine where "fine = (\<lambda>x :: string \<times> json. fst x \<in> {''ts'', ''level'', ''logger''} \<or> (\<forall>t. snd x = JStr t \<longrightarrow> \<not> has_userinfo t))"
  define ok where "ok = list_all fine"
  have red: "\<not> has_userinfo (redact_userinfo_in_text s)" for s by (simp add: has_userinfo_iff no_match_left)
  have member: "fine (k, redact_member v)" for k v using red by (auto simp: fine_def redact_member_def split: json.splits)
  have step: "ok (dict_set k (redact_member v) d)" if "ok d" for k v d
    using that member unfolding ok_def dict_set_def list_all_iff by (cases "k \<in> fst ` set d") (simp_all, blast?)
  have "ok (fold (\<lambda>(k, v) d. dict_set k (redact_member v) d) as d)" if "ok d" for as d
    using that by (induction as arbitrary: d) (auto simp: step)
  moreover have "ok ([(''ts'', JStr (lr_time rec)), (''level'', JStr (lr_level rec)), (''logger'', JStr (lr_logger rec)),
         (''message'', JStr (redact_userinfo_in_text (lr_message rec)))] @
        (case lr_exception rec of None \<Rightarrow> [] | Some t \<Rightarrow> [(''exc'', JStr (redact_userinfo_in_text t))]))"
    by (cases "lr_exception rec") (simp_all add: ok_def fine_def red)
  ultimately have "ok (json_payload rec)" unfolding json_payload_def by blast
  then show ?thesis using assms by (auto simp: ok_def list_all_iff fine_def)
qed

end
