(* ===== verification/Spec2Isabelle.thy ===== *)
theory Spec2Isabelle
  imports OC_Store_Theorems OC_Search_Theorems OC_Embedding_Theorems OC_Hybrid_Theorems OC_Use_Case_Theorems OC_Portability_Theorems OC_Maintenance_Theorems OC_Onboard_Theorems
    OC_Restore_Main OC_Backup_Theorems OC_Http_Theorems OC_Adapter_Theorems OC_Migrator_Theorems
    OC_Interface_Theorems OC_Settings_Theorems OC_Metrics_Theorems OC_Operator OC_Runtime
begin

text \<open>
  \<^bold>\<open>OpenChronicle\<close>: a verification development of the memory server under \<open>src/\<close>.

  \<^bold>\<open>The program.\<close> OpenChronicle keeps memories (texts with tags, a project, a pin) in one SQLite
  file and serves them to assistants over MCP, HTTP and a command line. Its core, in
  \<open>src/src/openchronicle/core\<close>, has a domain layer (\<open>domain/\<close>), a store
  (\<open>infrastructure/persistence/sqlite_store.py\<close>), an embedding service
  (\<open>application/services/embedding_service.py\<close>), use cases (\<open>application/use_cases/\<close>) that
  compose the two, a reader of git histories (\<open>application/services/git_onboard.py\<close>), and a
  maintenance loop (\<open>application/services/maintenance_loop.py\<close>) that runs jobs over the store.
  \<open>src/scripts/offline_restore.py\<close> replaces the database of a stopped service by a snapshot.

  The interfaces call a use case; the use case validates, calls methods of the store, and asks
  the embedding service for a vector; the service calls the provider outside any transaction and
  publishes the vector in the store by compare-and-swap. Searches combine the store's ranked
  text search with the vectors of one embedding space. The loop runs its jobs one at a time.

  \<^bold>\<open>The theories, by part.\<close>
    \<^item> \<open>OC_Prelude\<close>, \<open>OC_Contracts\<close>, \<open>Py_Text\<close>: outcomes of fallible stateful code, slices and
      SQL windows, the locales for the contracts between layers (refinement of a state machine,
      pages of a stream, methods that are refused or succeed), and Python's string operations.
    \<^item> \<open>OC_Domain\<close>: error codes, exceptions, JSON, timestamps, the models of \<open>domain/models\<close>.
    \<^item> \<open>OC_Store\<close>, \<open>OC_Embedding_Store\<close>, \<open>OC_Search\<close>: \<open>SqliteStore\<close>, method by method, on a
      record of tables; transactions with their depth and the retries of \<open>BEGIN IMMEDIATE\<close>; the
      full-text triggers; listing and ranked search. \<open>OC_Store_Inv\<close>, \<open>OC_Store_Steps\<close>: the invariant
      and every method on every branch. \<open>OC_Catalog\<close>: the abstract catalog of projects and
      memories, and the proof that the store refines it. \<open>OC_Fts_Index\<close>: completeness of the index.
    \<^item> \<open>OC_Embedding_Service\<close>, \<open>OC_Backfill\<close>, \<open>OC_Embedding_Props\<close>: generation, tombstones, backfill,
      health. \<open>OC_Hybrid_Search\<close>, \<open>OC_Hybrid_Props\<close>: semantic and hybrid search.
    \<^item> \<open>OC_Keyword_Search\<close>, \<open>OC_Use_Cases\<close>: the use cases. \<open>OC_Portability\<close>: export and import.
    \<^item> \<open>OC_Git_Clusters\<close>, \<open>OC_Git_Policy\<close>, \<open>OC_Git_Onboard\<close>: clustering of commits, what reaches the
      \<open>git\<close> program, and the onboarding run over the store.
    \<^item> \<open>OC_Maintenance\<close>, \<open>OC_Maintenance_Steps\<close>, \<open>OC_Config\<close>: the scheduler as a step relation of
      ticks and tasks, and how its jobs are configured.
    \<^item> \<open>OC_Restore\<close>, \<open>OC_Restore_Main\<close>: the offline restore over a volume of files, with a death of the
      process possible at every change. \<open>OC_Restore_Logic\<close>, \<open>OC_Restore_Props\<close>,
      \<open>OC_Restore_Activation\<close>, \<open>OC_Restore_Rollback\<close>: a small program logic and the invariants of
      activation and rollback.
    \<^item> \<open>OC_Backup\<close>, \<open>OC_Backup_Jobs\<close>: online copies with their manifests, the catalog of backups
      (\<open>backup.py\<close>, \<open>backup_catalog.py\<close>), the handlers of the maintenance jobs with retention and the
      offsite copy (\<open>jobs.py\<close>, \<open>offsite.py\<close>), as programs over a directory whose intermediate states are
      recorded. \<open>OC_Backup_Props\<close>, \<open>OC_Backup_Window\<close>, \<open>OC_Backup_Verify\<close>: what these programs
      keep, the retention window, and verification of what is offered.
    \<^item> \<open>OC_Http\<close>: the middlewares of the HTTP server in their order and the configuration of both servers.
    \<^item> \<open>OC_Adapters\<close>, \<open>OC_Adapter_Props\<close>: the Ollama, OpenAI and stub adapters with the validation of
      responses, the revision probe and the settings fingerprint.
    \<^item> \<open>OC_Migrator\<close>: discovery and application of schema migrations.
    \<^item> \<open>OC_Interfaces\<close>: every MCP tool and HTTP route over memories and projects, composed with the use
      cases, and the serializers. \<open>OC_Interface_Props\<close>: the locales for what a call may do to the store
      and to the embedding service, interpreted on the readers and on the embedding calls.
    \<^item> \<open>OC_Redaction\<close>, \<open>OC_Settings\<close>: redaction of credentials in log texts, the settings of the embedding
      provider, the adapter that the container builds, the egress notice, and the paths of the data.
      \<open>OC_Runtime\<close>: the configuration file, the construction of the container, and the log formatters.
    \<^item> \<open>OC_Exposition\<close>, \<open>OC_Metrics\<close>: the metrics recorder with its bounded labels, the HTTP middleware that
      feeds it, and the text of a scrape with its cache of prefixes; \<open>OC_Exposition_Props\<close>,
      \<open>OC_Metrics_Props\<close>, \<open>OC_Metrics_Counts\<close>: the text without a cache, the number of series, exact counts.
    \<^item> \<open>OC_Operator\<close>: the MCP tools for onboarding and backups, and what health reads from the state file.
    \<^item> The theories named \<open>..._Theorems\<close> (with \<open>OC_Restore_Main\<close> and \<open>OC_Redaction\<close>) hold the properties,
      each with a witness on concrete data where it has hypotheses.

  \<^bold>\<open>What is shown.\<close> The store refines the catalog, keeps keys, foreign keys, times and vectors
  consistent in every reachable state, and its transactions are all or nothing at every depth.
  Listings, keyword, ranked and hybrid searches return exact windows of well-defined streams,
  without gaps or repetition, and only visible rows. Vectors are never published for content
  that a memory no longer has, whatever other threads do meanwhile; a backfill settles every
  candidate; searches score one embedding space only and degrade to keyword search. An export
  restores into an empty store, and a rejected import changes nothing. Clustering loses no
  commit; a token never reaches an error message; the server clones from GitHub only. No two
  maintenance handlers run at once, and every run ends. An interrupted restore can always be
  rolled back. Every backup that is offered verifies, whenever the process was killed; retention keeps
  its window of days; an offsite run that reports success has copied what it should. A request reaches a
  handler exactly when the Host, the rate limit and the key allow it, and the rate limit is an exact
  sliding window. Adapters return unit vectors of one length or a classified error, and a model revision
  is always one that a probe has seen. Migrations are applied in order, each whole or not at all. MCP and
  HTTP agree, reads never write, and no sequence of calls makes the store inconsistent. Settings fail soft,
  empty variables are unset, and no credentials survive redaction. The number of time series is bounded
  whatever requests report, and a scrape returns the text that is formatted without a cache.

  \<^bold>\<open>Parameters.\<close> Code that is not in the repository is an argument: FTS5 (matching and rank), SHA-256,
  the embedding provider, the replies of \<open>httpx\<close> and of the OpenAI SDK, the clock and random
  identifiers, \<open>git\<close>, \<open>age\<close> and \<open>rclone\<close>, SQLite's checks, its backup of a file family and the effect of the
  statements of a migration; of the standard library, \<open>isoformat\<close>, \<open>urlsplit\<close>, \<open>ipaddress\<close> and \<open>str\<close> of
  nested JSON values. Other threads are a list of steps taken while the provider computes.

  \<^bold>\<open>Bounds and representation.\<close> Texts are lists of characters with code points below 256; scores and
  vectors are exact rationals or reals instead of IEEE doubles, so rounding is not modelled, except that
  numbers beyond the doubles overflow. The retries of \<open>BEGIN IMMEDIATE\<close> and the two attempts of a bracketed
  query embedding are recursions on their own counters, as in the code; the loops of the source are
  total functions, so no fuel is needed. The loop of the stub adapter alone is a
  \<open>partial_function\<close>, since it ends only when SHA-256 gives enough bytes: it is proved to return for
  digests of 32 bytes and up to \<open>2 ^ 35\<close> dimensions, where its 32-bit counter is exhausted. In the
  maintenance loop every \<open>await\<close> is a step boundary, which allows more interleavings than the event loop
  has. In the restore helper and the backups a change that took place is durable, because the code flushes
  every file and directory.

  \<^bold>\<open>Not modelled.\<close> Request parsing and transport of MCP and HTTP belong to FastMCP and FastAPI. The
  command line, the assembly of the health report and the registration and start of the servers pass a call
  on to an operation that is modelled, or collect what other parts hold, and print it. Logging has no
  influence on results; of it, the redaction of what is written is modelled. Of the Prometheus client only the values
  of its children are modelled, and its own text format is a parameter. Packaging and the measurement
  scripts under \<open>scripts/\<close> and \<open>tools/\<close> are not part of the server.
\<close>

end
